(* ===== verification/Prelude.thy ===== *)
theory Prelude
  imports Main "HOL-Library.Char_ord" "HOL-Library.List_Lexorder"
    "HOL-Library.Product_Lexorder" "HOL-Library.Multiset"
begin

section \<open>Prelude: errors, Python lists and strings, canonical orderings\<close>

text \<open>
  What every component of the model shares: the exceptions the program raises as values of one
  datatype, the result type and its sequencing operators, the fragments of Python's list, string
  and integer vocabulary the program uses, and the interface of a ``canonical ordering'' (sort,
  then scan), which the program implements three times for candles, factor observations and
  closed bars. The locale \<open>canonical_order\<close> is that interface; its lemmas (permutation
  invariance, idempotence) are proved once here and interpreted in the providing theories.
\<close>

subsection \<open>Exceptions and results\<close>

text \<open>
  One constructor per exception class the source raises or catches. \<open>ExternalError\<close> carries
  the class name of an exception raised by code outside the repository (the bus, the contract
  classes of the core package).
\<close>

datatype py_error =
    ValueError string
  | ClosedBarSequenceError string
  | UnsupportedExitPlanError string
  | CausalStrategyEvaluationError string
  | CausalStrategyUnsupportedError string
  | RuntimeError string
  | PaperStrategyDisabledError string
  | TypeError string
  | KeyError string
  | IndexError string
  | ZeroDivisionError string
  | OverflowError string
  | ExternalError string

type_synonym 'a result = "py_error + 'a"

text \<open>The class hierarchy the handlers of the source rely on.\<close>

fun is_value_error :: "py_error \<Rightarrow> bool" where
  "is_value_error (ValueError _) = True"
| "is_value_error (ClosedBarSequenceError _) = True"
| "is_value_error (UnsupportedExitPlanError _) = True"
| "is_value_error (CausalStrategyEvaluationError _) = True"
| "is_value_error (CausalStrategyUnsupportedError _) = True"
| "is_value_error _ = False"

fun is_arithmetic_error :: "py_error \<Rightarrow> bool" where
  "is_arithmetic_error (ZeroDivisionError _) = True"
| "is_arithmetic_error (OverflowError _) = True"
| "is_arithmetic_error _ = False"

text \<open>The name \<open>type(exc).__name__\<close>.\<close>

fun error_type_name :: "py_error \<Rightarrow> string" where
  "error_type_name (ValueError _) = ''ValueError''"
| "error_type_name (ClosedBarSequenceError _) = ''ClosedBarSequenceError''"
| "error_type_name (UnsupportedExitPlanError _) = ''UnsupportedExitPlanError''"
| "error_type_name (CausalStrategyEvaluationError _) = ''CausalStrategyEvaluationError''"
| "error_type_name (CausalStrategyUnsupportedError _) = ''CausalStrategyUnsupportedError''"
| "error_type_name (RuntimeError _) = ''RuntimeError''"
| "error_type_name (PaperStrategyDisabledError _) = ''PaperStrategyDisabledError''"
| "error_type_name (TypeError _) = ''TypeError''"
| "error_type_name (KeyError _) = ''KeyError''"
| "error_type_name (IndexError _) = ''IndexError''"
| "error_type_name (ZeroDivisionError _) = ''ZeroDivisionError''"
| "error_type_name (OverflowError _) = ''OverflowError''"
| "error_type_name (ExternalError n) = n"

named_theorems result_simps \<open>unfolding rules for computations that may raise\<close>

definition rbind :: "'a result \<Rightarrow> ('a \<Rightarrow> 'b result) \<Rightarrow> 'b result" where
  "rbind m f = (case m of Inl e \<Rightarrow> Inl e | Inr x \<Rightarrow> f x)"

definition rmap :: "('a \<Rightarrow> 'b) \<Rightarrow> 'a result \<Rightarrow> 'b result" where
  "rmap f m = rbind m (\<lambda>x. Inr (f x))"

lemma rbind_simps [simp]:
  "rbind (Inl e) f = Inl e"
  "rbind (Inr x) f = f x"
  by (simp_all add: rbind_def)

lemma rbind_Inr_right [simp]: "rbind m Inr = m"
  by (cases m) simp_all

lemma rbind_Inr_iff [result_simps]:
  "rbind m f = Inr y \<longleftrightarrow> (\<exists>x. m = Inr x \<and> f x = Inr y)"
  by (cases m) simp_all

lemma rbind_Inl_iff:
  "rbind m f = Inl e \<longleftrightarrow> m = Inl e \<or> (\<exists>x. m = Inr x \<and> f x = Inl e)"
  by (cases m) auto

lemma rmap_simps [simp]:
  "rmap f (Inl e) = Inl e"
  "rmap f (Inr x) = Inr (f x)"
  by (simp_all add: rmap_def)

lemma rmap_Inr_iff [result_simps]:
  "rmap f m = Inr y \<longleftrightarrow> (\<exists>x. m = Inr x \<and> y = f x)"
  by (cases m) auto

lemma rbind_assoc: "rbind (rbind m f) g = rbind m (\<lambda>x. rbind (f x) g)"
  by (cases m) simp_all

lemma rbind_cong [fundef_cong]:
  "m = m' \<Longrightarrow> (\<And>x. m' = Inr x \<Longrightarrow> f x = f' x) \<Longrightarrow> rbind m f = rbind m' f'"
  by (cases m') auto

text \<open>
  A constructor's \<open>__post_init__\<close> is a sequence of guarded raises; \<open>validate\<close> runs them in
  order and returns the object when none fires.
\<close>

fun validate :: "(bool \<times> py_error) list \<Rightarrow> 'a \<Rightarrow> 'a result" where
  "validate [] x = Inr x"
| "validate ((violated, e) # checks) x = (if violated then Inl e else validate checks x)"

lemma validate_Inr_iff [result_simps]:
  "validate checks x = Inr y \<longleftrightarrow> y = x \<and> list_all (\<lambda>c. \<not> fst c) checks"
  by (induction checks x rule: validate.induct) auto

lemma validate_Inl_iff:
  "validate checks x = Inl e \<longleftrightarrow> find fst checks = Some (True, e)"
  by (induction checks x rule: validate.induct) auto

lemma validate_append [simp]:
  "validate (cs @ ds) x = rbind (validate cs x) (validate ds)"
  by (induction cs x rule: validate.induct) auto

declare validate.simps [simp del]

text \<open>\<open>traverse f xs\<close> is \<open>[f(x) for x in xs]\<close>: it stops at the first exception.\<close>

fun traverse :: "('a \<Rightarrow> 'b result) \<Rightarrow> 'a list \<Rightarrow> 'b list result" where
  "traverse f [] = Inr []"
| "traverse f (x # xs) = rbind (f x) (\<lambda>y. rbind (traverse f xs) (\<lambda>ys. Inr (y # ys)))"

lemma traverse_Inr_iff [result_simps]:
  "traverse f xs = Inr ys \<longleftrightarrow> list_all2 (\<lambda>x y. f x = Inr y) xs ys"
  by (induction xs arbitrary: ys) (auto simp: rbind_Inr_iff list_all2_Cons1)

lemma traverse_total: "(\<And>x. x \<in> set xs \<Longrightarrow> f x = Inr (g x)) \<Longrightarrow> traverse f xs = Inr (map g xs)"
  by (induction xs) auto

lemma traverse_cong [fundef_cong]:
  "xs = ys \<Longrightarrow> (\<And>x. x \<in> set ys \<Longrightarrow> f x = g x) \<Longrightarrow> traverse f xs = traverse g ys"
  by (induction xs arbitrary: ys) auto

lemma traverse_mem:
  "traverse f xs = Inr ys \<Longrightarrow> y \<in> set ys \<Longrightarrow> \<exists>x \<in> set xs. f x = Inr y"
  by (fastforce simp: traverse_Inr_iff list_all2_conv_all_nth in_set_conv_nth)

lemma traverse_dom: "traverse f xs = Inr ys \<Longrightarrow> x \<in> set xs \<Longrightarrow> \<exists>y \<in> set ys. f x = Inr y"
  by (fastforce simp: traverse_Inr_iff list_all2_conv_all_nth in_set_conv_nth)

lemma traverse_length: "traverse f xs = Inr ys \<Longrightarrow> length ys = length xs"
  by (auto simp: traverse_Inr_iff dest: list_all2_lengthD)

text \<open>
  \<open>extend_all f xs\<close> is the loop \<open>for x in xs: out.extend(f(x))\<close>.
\<close>

definition extend_all :: "('a \<Rightarrow> 'b list result) \<Rightarrow> 'a list \<Rightarrow> 'b list result" where
  "extend_all f xs = rmap concat (traverse f xs)"

lemma extend_all_mem:
  assumes "extend_all f xs = Inr ys" and "y \<in> set ys"
  shows "\<exists>x zs. x \<in> set xs \<and> f x = Inr zs \<and> y \<in> set zs"
  using assms by (fastforce simp: extend_all_def rmap_Inr_iff dest: traverse_mem)

lemma traverse_append:
  "traverse f (xs @ ys) = rbind (traverse f xs) (\<lambda>as. rmap (\<lambda>bs. as @ bs) (traverse f ys))"
  by (induction xs) (auto simp: rmap_def rbind_assoc)

lemma extend_all_Nil [simp]: "extend_all f [] = Inr []"
  by (simp add: extend_all_def)

lemma extend_all_append:
  "extend_all f (xs @ ys) = rbind (extend_all f xs) (\<lambda>as. rmap (\<lambda>bs. as @ bs) (extend_all f ys))"
  by (simp add: extend_all_def traverse_append rmap_def rbind_assoc)

lemma extend_all_Cons:
  "extend_all f (x # xs) = rbind (f x) (\<lambda>as. rmap (\<lambda>bs. as @ bs) (extend_all f xs))"
  by (simp add: extend_all_def rmap_def rbind_assoc)

lemma extend_all_cong:
  "(\<And>x. x \<in> set xs \<Longrightarrow> f x = g x) \<Longrightarrow> extend_all f xs = extend_all g xs"
  by (simp add: extend_all_def cong: traverse_cong)

lemma extend_all_error: "extend_all f xs = Inl e \<Longrightarrow> \<exists>x \<in> set xs. f x = Inl e"
  by (induction xs) (auto simp: extend_all_Cons rmap_def rbind_Inl_iff)

lemma extend_all_part: "extend_all f xs = Inr ys \<Longrightarrow> x \<in> set xs \<Longrightarrow> \<exists>zs. f x = Inr zs \<and> set zs \<subseteq> set ys"
  by (induction xs arbitrary: ys) (fastforce simp: extend_all_Cons rbind_Inr_iff rmap_Inr_iff)+

lemma extend_all_keyed:
  assumes "extend_all f ks = Inr ys" and "sorted_wrt (\<lambda>a b. a < (b :: 'k::linorder)) ks"
    and "\<And>k zs. k \<in> set ks \<Longrightarrow> f k = Inr zs \<Longrightarrow> zs = [] \<or> (\<exists>z. zs = [z] \<and> key z = k)"
  shows "sorted_wrt (\<lambda>a b. key a < key b) ys \<and> (\<forall>y \<in> set ys. key y \<in> set ks)"
  using assms
proof (induction ks arbitrary: ys)
  case (Cons k ks)
  from Cons.prems(1) obtain zs ys' where f: "f k = Inr zs" and r: "extend_all f ks = Inr ys'"
    and ys: "ys = zs @ ys'"
    by (auto simp: extend_all_Cons rbind_Inr_iff rmap_Inr_iff)
  have IH: "sorted_wrt (\<lambda>a b. key a < key b) ys' \<and> (\<forall>y \<in> set ys'. key y \<in> set ks)"
    using Cons.prems by (intro Cons.IH [OF r]) auto
  from Cons.prems(3) [OF _ f] have "zs = [] \<or> (\<exists>z. zs = [z] \<and> key z = k)" by simp
  with IH Cons.prems(2) show ?case by (auto simp: ys)
qed simp

subsection \<open>Lists\<close>

text \<open>\<open>zip(xs, xs[1:])\<close>.\<close>

abbreviation adjacent :: "'a list \<Rightarrow> ('a \<times> 'a) list" where
  "adjacent xs \<equiv> zip xs (tl xs)"

lemma list_all_adjacent: "list_all (\<lambda>(a, b). P a b) (adjacent xs) \<longleftrightarrow> successively P xs"
proof (induction xs)
  case (Cons x xs)
  then show ?case by (cases xs) auto
qed simp

lemma list_ex_adjacent: "list_ex (\<lambda>(a, b). \<not> P a b) (adjacent xs) \<longleftrightarrow> \<not> successively P xs"
  by (simp add: list_all_adjacent [symmetric] list_ex_iff list_all_iff split_def)

text \<open>\<open>xs[-n:]\<close> for a positive \<open>n\<close>.\<close>

definition last_n :: "nat \<Rightarrow> 'a list \<Rightarrow> 'a list" where
  "last_n n xs = drop (length xs - n) xs"

lemma length_last_n [simp]: "length (last_n n xs) = min n (length xs)"
  by (simp add: last_n_def)

lemma last_n_all: "length xs \<le> n \<Longrightarrow> last_n n xs = xs"
  by (simp add: last_n_def)

lemma set_last_n_subset: "set (last_n n xs) \<subseteq> set xs"
  by (simp add: last_n_def set_drop_subset)

lemma last_last_n: "n > 0 \<Longrightarrow> xs \<noteq> [] \<Longrightarrow> last (last_n n xs) = last xs"
  by (simp add: last_n_def)

text \<open>\<open>xs[:-n]\<close> for a positive \<open>n\<close>.\<close>

definition but_last_n :: "nat \<Rightarrow> 'a list \<Rightarrow> 'a list" where
  "but_last_n n xs = take (length xs - n) xs"

text \<open>\<open>xs[i:j]\<close> for \<open>0 <= i\<close> and \<open>0 <= j\<close>.\<close>

definition slice :: "nat \<Rightarrow> nat \<Rightarrow> 'a list \<Rightarrow> 'a list" where
  "slice i j xs = take (j - i) (drop i xs)"

lemma length_slice: "length (slice i j xs) = min (j - i) (length xs - i)"
  by (simp add: slice_def)

lemma set_slice_subset: "set (slice i j xs) \<subseteq> set xs"
  by (auto simp: slice_def dest: in_set_takeD in_set_dropD)

text \<open>Times on a grid that differ at all differ by a step of the grid.\<close>

lemma grid_step: "0 < d \<Longrightarrow> a mod d = 0 \<Longrightarrow> b mod d = 0 \<Longrightarrow> a < b \<Longrightarrow> a + d \<le> (b :: int)"
  by (metis add_diff_cancel_left' diff_add_cancel zdvd_imp_le dvd_diff mod_0_imp_dvd add.commute add_le_cancel_left less_add_same_cancel1 diff_gt_0_iff_gt)

text \<open>
  \<open>bisect_right(keys, x)\<close>: the binary search of the standard library. On an ascending list it is the
  number of keys up to \<open>x\<close>.
\<close>

function bisect_right_loop :: "'a::linorder list \<Rightarrow> 'a \<Rightarrow> nat \<Rightarrow> nat \<Rightarrow> nat" where
  "bisect_right_loop keys x lo hi =
     (if lo < hi then
        (if x < keys ! ((lo + hi) div 2) then bisect_right_loop keys x lo ((lo + hi) div 2)
         else bisect_right_loop keys x ((lo + hi) div 2 + 1) hi)
      else lo)"
  by pat_completeness auto
termination
  by (relation "measure (\<lambda>(_, _, lo, hi). hi - lo)") auto

declare bisect_right_loop.simps [simp del]

definition bisect_right :: "'a::linorder list \<Rightarrow> 'a \<Rightarrow> nat" where
  "bisect_right keys x = bisect_right_loop keys x 0 (length keys)"

lemma bisect_right_loop_bounds: "lo \<le> hi \<Longrightarrow> lo \<le> bisect_right_loop keys x lo hi \<and> bisect_right_loop keys x lo hi \<le> hi"
proof (induction keys x lo hi rule: bisect_right_loop.induct)
  case (1 keys x lo hi)
  let ?m = "(lo + hi) div 2"
  show ?case
  proof (cases "lo < hi")
    case True
    then have m: "lo \<le> ?m" "?m < hi" by auto
    then show ?thesis
      using 1 True by (subst (1 2) bisect_right_loop.simps) (cases "x < keys ! ?m", auto)
  next
    case False
    then show ?thesis using 1 by (subst (1 2) bisect_right_loop.simps) simp
  qed
qed

lemma bisect_right_le_length: "bisect_right keys x \<le> length keys"
  by (simp add: bisect_right_def bisect_right_loop_bounds)

lemma bisect_right_loop_sorted:
  assumes "sorted keys" and "lo \<le> hi" and "hi \<le> length keys"
    and "\<forall>i < lo. keys ! i \<le> x" and "\<forall>i < length keys. hi \<le> i \<longrightarrow> x < keys ! i"
  shows "(\<forall>i < bisect_right_loop keys x lo hi. keys ! i \<le> x) \<and>
    (\<forall>i < length keys. bisect_right_loop keys x lo hi \<le> i \<longrightarrow> x < keys ! i)"
  using assms
proof (induction keys x lo hi rule: bisect_right_loop.induct)
  case (1 keys x lo hi)
  let ?m = "(lo + hi) div 2"
  show ?case
  proof (cases "lo < hi")
    case True
    then have m: "lo \<le> ?m" "?m < hi" "?m < length keys" using "1.prems" by auto
    show ?thesis
    proof (cases "x < keys ! ?m")
      case less: True
      have "\<forall>i < length keys. ?m \<le> i \<longrightarrow> x < keys ! i"
        using less "1.prems"(1) m by (meson less_le_trans sorted_nth_mono)
      with "1.IH"(1) [OF True less] "1.prems" m
      show ?thesis by (subst (1 2) bisect_right_loop.simps) (simp add: True less)
    next
      case ge: False
      have "\<forall>i < ?m + 1. keys ! i \<le> x"
        using ge "1.prems"(1) m by (metis Suc_eq_plus1 less_Suc_eq_le not_less order_trans sorted_nth_mono)
      with "1.IH"(2) [OF True ge] "1.prems" m
      show ?thesis by (subst (1 2) bisect_right_loop.simps) (simp add: True ge)
    qed
  next
    case False
    then show ?thesis using "1.prems" by (subst (1 2) bisect_right_loop.simps) auto
  qed
qed

lemma bisect_right_below: "sorted keys \<Longrightarrow> i < bisect_right keys x \<Longrightarrow> keys ! i \<le> x"
  unfolding bisect_right_def using bisect_right_loop_sorted [of keys 0 "length keys" x] by auto

lemma bisect_right_above:
  "sorted keys \<Longrightarrow> bisect_right keys x \<le> i \<Longrightarrow> i < length keys \<Longrightarrow> x < keys ! i"
  unfolding bisect_right_def using bisect_right_loop_sorted [of keys 0 "length keys" x] by auto

lemma take_bisect_right:
  assumes "sorted (map f xs)"
  shows "take (bisect_right (map f xs) x) xs = filter (\<lambda>y. f y \<le> x) xs"
proof -
  let ?n = "bisect_right (map f xs) x"
  have below: "f (xs ! i) \<le> x" if "i < length xs" "i < ?n" for i
    using bisect_right_below [OF assms, of i x] that by simp
  have above: "x < f (xs ! i)" if "i < length xs" "?n \<le> i" for i
    using bisect_right_above [OF assms, of x i] that by simp
  have "filter (\<lambda>y. f y \<le> x) (take ?n xs) = take ?n xs"
    using below by (intro filter_True) (auto simp: in_set_conv_nth)
  moreover have "filter (\<lambda>y. f y \<le> x) (drop ?n xs) = []"
    using above by (auto simp: filter_empty_conv in_set_conv_nth not_le)
  ultimately show ?thesis by (metis append_Nil2 append_take_drop_id filter_append)
qed

lemma successively_sorted_less:
  "successively (\<lambda>a b. f a < f b) xs \<longleftrightarrow> sorted_wrt (\<lambda>a b. (f a :: 'k::linorder) < f b) xs"
  by (rule successively_conv_sorted_wrt) (auto simp: transp_def)

lemma sorted_key_unique:
  assumes "mset xs = mset ys"
    and "sorted_wrt (\<lambda>a b. f a < (f b :: 'k::linorder)) ys" and "sorted (map f xs)"
  shows "xs = ys"
  using assms
proof (induction ys arbitrary: xs)
  case Nil
  then show ?case by simp
next
  case (Cons y ys)
  then obtain x xs' where xs: "xs = x # xs'" by (cases xs) auto
  have "x = y"
  proof (rule ccontr)
    assume "x \<noteq> y"
    with Cons.prems(1) xs have "x \<in> set ys" and "y \<in> set xs'"
      by (metis list.set_intros(1) set_ConsD set_mset_mset)+
    with Cons.prems(2,3) xs have "f y < f x" and "f x \<le> f y" by auto
    then show False by simp
  qed
  moreover have "xs' = ys"
    using Cons.prems xs \<open>x = y\<close> by (intro Cons.IH) auto
  ultimately show ?case using xs by simp
qed

lemma sort_key_eqI:
  assumes "mset xs = mset ys" and "sorted_wrt (\<lambda>a b. f a < (f b :: 'k::linorder)) ys"
  shows "sort_key f xs = ys"
  by (rule sorted_key_unique [OF _ assms(2)]) (simp_all add: assms(1))

lemma sorted_list_of_set_append:
  assumes "finite A" and "finite B" and "\<And>a b. a \<in> A \<Longrightarrow> b \<in> B \<Longrightarrow> a < (b :: 'k::linorder)"
  shows "sorted_list_of_set (A \<union> B) = sorted_list_of_set A @ sorted_list_of_set B"
proof (rule sorted_distinct_set_unique)
  show "sorted (sorted_list_of_set A @ sorted_list_of_set B)"
    using assms by (auto simp: sorted_append less_imp_le)
  show "distinct (sorted_list_of_set A @ sorted_list_of_set B)"
    using assms by fastforce
qed (use assms in auto)

subsection \<open>Strings and decimal integers\<close>

text \<open>
  Strings are lists of characters restricted to the ASCII code points the identifiers, symbols
  and metadata of the program use. \<open>str.strip\<close> removes the ASCII white space of Python
  (tabulators, line ends, the separators 28 to 31 and the blank).
\<close>

definition is_space :: "char \<Rightarrow> bool" where
  "is_space c = (let n = of_char c :: nat in (9 \<le> n \<and> n \<le> 13) \<or> (28 \<le> n \<and> n \<le> 32))"

definition strip :: "string \<Rightarrow> string" where
  "strip s = rev (dropWhile is_space (rev (dropWhile is_space s)))"

definition upper_char :: "char \<Rightarrow> char" where
  "upper_char c = (let n = of_char c :: nat in if 97 \<le> n \<and> n \<le> 122 then char_of (n - 32) else c)"

definition upper :: "string \<Rightarrow> string" where
  "upper s = map upper_char s"

function digits_of_int :: "int \<Rightarrow> string" where
  "digits_of_int n =
     (if n < 10 then [char_of (48 + n)] else digits_of_int (n div 10) @ [char_of (48 + n mod 10)])"
  by pat_completeness auto
termination
  by (relation "measure nat") auto

declare digits_of_int.simps [simp del]

text \<open>\<open>str(n)\<close>.\<close>

definition str_int :: "int \<Rightarrow> string" where
  "str_int n = (if n < 0 then ''-'' @ digits_of_int (- n) else digits_of_int n)"

text \<open>\<open>repr(s)\<close> for ASCII strings: the quote is double only where the text holds a single quote and no
  double one; backslash, the quote, the common controls and the other unprintable characters are
  escaped.\<close>

definition hex_char :: "nat \<Rightarrow> char" where
  "hex_char n = ''0123456789abcdef'' ! n"

definition repr_char :: "char \<Rightarrow> char \<Rightarrow> string" where
  "repr_char q c =
     (let n = of_char c :: nat in
      if c = q \<or> n = 92 then [CHR 0x5C, c]
      else if n = 9 then [CHR 0x5C, CHR ''t'']
      else if n = 10 then [CHR 0x5C, CHR ''n'']
      else if n = 13 then [CHR 0x5C, CHR ''r'']
      else if n < 32 \<or> n = 127 then [CHR 0x5C, CHR ''x'', hex_char (n div 16), hex_char (n mod 16)]
      else [c])"

definition repr_str :: "string \<Rightarrow> string" where
  "repr_str s =
     (let q = (if CHR 0x27 \<in> set s \<and> CHR 0x22 \<notin> set s then CHR 0x22 else CHR 0x27)
      in [q] @ concat (map (repr_char q) s) @ [q])"

subsection \<open>Canonical orderings\<close>

text \<open>
  The contract of a routine that sorts its input by a key, scans the sorted rows and either
  raises or returns them: the result is the sorted input, it depends on the input only through
  its sorted form, and an accepted sequence has strictly increasing keys. What a client may
  conclude (the input order is irrelevant, canonicalising twice changes nothing, nothing is
  dropped or invented) is proved here once.
\<close>

locale canonical_order =
  fixes key :: "'a \<Rightarrow> 'k::linorder"
    and canon :: "'a list \<Rightarrow> 'a list result"
  assumes canon_is_sort: "canon xs = Inr ys \<Longrightarrow> ys = sort_key key xs"
    and canon_via_sort: "canon xs = canon (sort_key key xs)"
    and canon_strict: "canon xs = Inr ys \<Longrightarrow> sorted_wrt (\<lambda>a b. key a < key b) ys"
begin

lemma canon_mset: "canon xs = Inr ys \<Longrightarrow> mset ys = mset xs"
  by (drule canon_is_sort) simp

lemma canon_set: "canon xs = Inr ys \<Longrightarrow> set ys = set xs"
  by (metis canon_mset set_mset_mset)

lemma canon_permute:
  assumes "canon xs = Inr zs" and "mset ys = mset xs"
  shows "canon ys = Inr zs"
proof -
  from assms(1) have zs: "zs = sort_key key xs" and strict: "sorted_wrt (\<lambda>a b. key a < key b) zs"
    by (simp_all add: canon_is_sort canon_strict)
  have "mset ys = mset zs" using assms(2) zs by simp
  then have "sort_key key ys = zs"
    using strict by (rule sort_key_eqI)
  then show ?thesis
    using assms(1) zs by (simp add: canon_via_sort [of ys] canon_via_sort [of xs])
qed

lemma canon_idempotent: "canon xs = Inr ys \<Longrightarrow> canon ys = Inr ys"
  by (auto intro: canon_permute simp: canon_mset)

lemma canon_fixed_iff:
  "canon xs = Inr xs \<longleftrightarrow> (\<exists>ys. canon xs = Inr ys) \<and> sorted_wrt (\<lambda>a b. key a < key b) xs"
proof
  assume "canon xs = Inr xs"
  then show "(\<exists>ys. canon xs = Inr ys) \<and> sorted_wrt (\<lambda>a b. key a < key b) xs"
    using canon_strict by blast
next
  assume "(\<exists>ys. canon xs = Inr ys) \<and> sorted_wrt (\<lambda>a b. key a < key b) xs"
  then obtain ys where "canon xs = Inr ys" and s: "sorted_wrt (\<lambda>a b. key a < key b) xs" by blast
  moreover have "sort_key key xs = xs" using s by (rule sort_key_eqI [OF refl])
  ultimately show "canon xs = Inr xs" using canon_is_sort by metis
qed

end

end
