(* ===== verification/PyFloat.thy ===== *)
theory PyFloat
  imports Complex_Main Prelude
begin

section \<open>Python floats: IEEE 754 binary64 with rounding to nearest, ties to even\<close>

text \<open>
  A Python \<open>float\<close> is a binary64 number. \<open>Num q\<close> is a finite double of value \<open>q\<close> (its zero is
  the positive zero), \<open>NegZero\<close> the negative zero, and the infinities and the not-a-number are
  constructors of their own. Every arithmetic operation computes the exact rational result and
  rounds it once with \<open>rnd\<close>, which is what IEEE 754 prescribes; all of it is executable. What
  Python adds is an exception: \<open>py_div\<close> raises on a zero divisor where IEEE returns an infinity.
  The laws the components use (rounding is monotone, keeps signs, fixes the doubles and the
  integers up to \<open>2 ^ 53\<close>) are proved at the end.
\<close>

datatype pyfloat = Num rat | NegZero | PosInf | NegInf | NaN

subsection \<open>Rounding\<close>

function bit_size :: "int \<Rightarrow> int" where
  "bit_size n = (if n \<le> 0 then 0 else 1 + bit_size (n div 2))"
  by pat_completeness auto
termination
  by (relation "measure nat") auto

declare bit_size.simps [simp del]

text \<open>The exponent of the leading binary digit of a positive rational.\<close>

definition ilog2 :: "rat \<Rightarrow> int" where
  "ilog2 q =
     (let (n, d) = quotient_of q;
          e = bit_size n - bit_size d
      in if q < 2 powi e then e - 1 else e)"

definition round_half_even :: "rat \<Rightarrow> int" where
  "round_half_even x =
     (let f = \<lfloor>x\<rfloor>; r = x - of_int f
      in if r < 1 / 2 then f
         else if 1 / 2 < r then f + 1
         else if even f then f else f + 1)"

text \<open>The spacing of the doubles around \<open>q\<close>; \<open>-1022\<close> is the least normal exponent.\<close>

definition grid_exp :: "rat \<Rightarrow> int" where
  "grid_exp q = max (ilog2 q) (- 1022) - 52"

definition round_pos :: "rat \<Rightarrow> rat" where
  "round_pos q = of_int (round_half_even (q / 2 powi grid_exp q)) * 2 powi grid_exp q"

definition overflow_bound :: rat where
  "overflow_bound = 2 ^ 1024"

fun fneg :: "pyfloat \<Rightarrow> pyfloat" where
  "fneg (Num q) = (if q = 0 then NegZero else Num (- q))"
| "fneg NegZero = Num 0"
| "fneg PosInf = NegInf"
| "fneg NegInf = PosInf"
| "fneg NaN = NaN"

definition rnd_pos :: "rat \<Rightarrow> pyfloat" where
  "rnd_pos q = (let r = round_pos q in if r < overflow_bound then Num r else PosInf)"

definition rnd :: "rat \<Rightarrow> pyfloat" where
  "rnd q = (if q = 0 then Num 0 else if q < 0 then fneg (rnd_pos (- q)) else rnd_pos q)"

text \<open>\<open>Num q\<close> denotes a double when rounding leaves it alone.\<close>

fun is_double :: "pyfloat \<Rightarrow> bool" where
  "is_double (Num q) = (rnd q = Num q)"
| "is_double _ = True"

subsection \<open>Values and comparisons\<close>

fun to_rat :: "pyfloat \<Rightarrow> rat" where
  "to_rat (Num q) = q"
| "to_rat _ = 0"

text \<open>\<open>math.isfinite\<close>.\<close>

fun is_finite :: "pyfloat \<Rightarrow> bool" where
  "is_finite (Num _) = True"
| "is_finite NegZero = True"
| "is_finite _ = False"

fun is_neg :: "pyfloat \<Rightarrow> bool" where
  "is_neg (Num q) = (q < 0)"
| "is_neg NegZero = True"
| "is_neg NegInf = True"
| "is_neg _ = False"

text \<open>\<open>x <= y\<close>, \<open>x < y\<close> and \<open>x == y\<close>: false as soon as one side is not a number.\<close>

definition fle :: "pyfloat \<Rightarrow> pyfloat \<Rightarrow> bool" where
  "fle x y \<longleftrightarrow> x \<noteq> NaN \<and> y \<noteq> NaN \<and>
     (x = NegInf \<or> y = PosInf \<or> (is_finite x \<and> is_finite y \<and> to_rat x \<le> to_rat y))"

definition fless :: "pyfloat \<Rightarrow> pyfloat \<Rightarrow> bool" where
  "fless x y \<longleftrightarrow> x \<noteq> NaN \<and> y \<noteq> NaN \<and> \<not> fle y x"

definition feq :: "pyfloat \<Rightarrow> pyfloat \<Rightarrow> bool" where
  "feq x y \<longleftrightarrow> fle x y \<and> fle y x"

abbreviation fzero :: pyfloat where "fzero \<equiv> Num 0"
abbreviation fone :: pyfloat where "fone \<equiv> Num 1"

text \<open>A decimal literal of the source, and \<open>float(n)\<close> of an integer.\<close>

definition lit :: "rat \<Rightarrow> pyfloat" where
  "lit q = rnd q"

definition float_of_int :: "int \<Rightarrow> pyfloat" where
  "float_of_int n = rnd (of_int n)"

subsection \<open>Arithmetic\<close>

definition fadd :: "pyfloat \<Rightarrow> pyfloat \<Rightarrow> pyfloat" where
  "fadd x y =
     (if x = NaN \<or> y = NaN then NaN
      else if x = PosInf then (if y = NegInf then NaN else PosInf)
      else if x = NegInf then (if y = PosInf then NaN else NegInf)
      else if y = PosInf \<or> y = NegInf then y
      else if x = NegZero \<and> y = NegZero then NegZero
      else rnd (to_rat x + to_rat y))"

definition fsub :: "pyfloat \<Rightarrow> pyfloat \<Rightarrow> pyfloat" where
  "fsub x y = fadd x (fneg y)"

text \<open>A result of sign \<open>s\<close>: exact zeros and infinities take it, other values have it already.\<close>

definition signed_zero :: "bool \<Rightarrow> pyfloat" where
  "signed_zero s = (if s then NegZero else Num 0)"

definition signed_inf :: "bool \<Rightarrow> pyfloat" where
  "signed_inf s = (if s then NegInf else PosInf)"

definition is_zero :: "pyfloat \<Rightarrow> bool" where
  "is_zero x \<longleftrightarrow> x = Num 0 \<or> x = NegZero"

definition is_inf :: "pyfloat \<Rightarrow> bool" where
  "is_inf x \<longleftrightarrow> x = PosInf \<or> x = NegInf"

definition fmul :: "pyfloat \<Rightarrow> pyfloat \<Rightarrow> pyfloat" where
  "fmul x y =
     (let s = (is_neg x \<noteq> is_neg y) in
      if x = NaN \<or> y = NaN then NaN
      else if is_inf x \<or> is_inf y then (if is_zero x \<or> is_zero y then NaN else signed_inf s)
      else if is_zero x \<or> is_zero y then signed_zero s
      else rnd (to_rat x * to_rat y))"

text \<open>Division as numpy and the processor do it.\<close>

definition fdiv :: "pyfloat \<Rightarrow> pyfloat \<Rightarrow> pyfloat" where
  "fdiv x y =
     (let s = (is_neg x \<noteq> is_neg y) in
      if x = NaN \<or> y = NaN then NaN
      else if is_inf x then (if is_inf y then NaN else signed_inf s)
      else if is_inf y then signed_zero s
      else if is_zero y then (if is_zero x then NaN else signed_inf s)
      else if is_zero x then signed_zero s
      else rnd (to_rat x / to_rat y))"

text \<open>The operator \<open>/\<close> of Python.\<close>

definition py_div :: "pyfloat \<Rightarrow> pyfloat \<Rightarrow> pyfloat result" where
  "py_div x y = (if is_zero y then Inl (ZeroDivisionError ''float division by zero'') else Inr (fdiv x y))"

fun fabs :: "pyfloat \<Rightarrow> pyfloat" where
  "fabs (Num q) = Num \<bar>q\<bar>"
| "fabs NegZero = Num 0"
| "fabs NegInf = PosInf"
| "fabs x = x"

text \<open>\<open>max(x, *xs)\<close> and \<open>min(x, *xs)\<close>: a later value replaces the current one only when it compares
  strictly larger (smaller).\<close>

definition fmax :: "pyfloat \<Rightarrow> pyfloat list \<Rightarrow> pyfloat" where
  "fmax x xs = foldl (\<lambda>m v. if fless m v then v else m) x xs"

definition fmin :: "pyfloat \<Rightarrow> pyfloat list \<Rightarrow> pyfloat" where
  "fmin x xs = foldl (\<lambda>m v. if fless v m then v else m) x xs"

text \<open>\<open>max(xs)\<close> and \<open>min(xs)\<close> over an iterable.\<close>

fun fmax_list :: "pyfloat list \<Rightarrow> pyfloat result" where
  "fmax_list [] = Inl (ValueError ''max() arg is an empty sequence'')"
| "fmax_list (x # xs) = Inr (fmax x xs)"

fun fmin_list :: "pyfloat list \<Rightarrow> pyfloat result" where
  "fmin_list [] = Inl (ValueError ''min() arg is an empty sequence'')"
| "fmin_list (x # xs) = Inr (fmin x xs)"

text \<open>
  \<open>sum(xs)\<close> as the pinned interpreter (Python 3.11) computes it: one rounded addition per element,
  from the left, starting at zero.
\<close>

definition fsum_builtin :: "pyfloat list \<Rightarrow> pyfloat" where
  "fsum_builtin xs = foldl fadd (Num 0) xs"

text \<open>
  \<open>math.fsum(xs)\<close>: the exact sum, rounded once. It raises when a running sum overflows, and when
  infinities of both signs occur.
\<close>

definition fsum :: "pyfloat list \<Rightarrow> pyfloat result" where
  "fsum xs =
     (if NaN \<in> set xs then Inr NaN
      else if PosInf \<in> set xs \<and> NegInf \<in> set xs then Inl (ValueError ''-inf + inf in fsum'')
      else if PosInf \<in> set xs then Inr PosInf
      else if NegInf \<in> set xs then Inr NegInf
      else if list_ex (\<lambda>k. is_inf (rnd (sum_list (map to_rat (take k xs))))) [0..<Suc (length xs)]
      then Inl (OverflowError ''intermediate overflow in fsum'')
      else Inr (rnd (sum_list (map to_rat xs))))"

text \<open>\<open>math.isclose\<close>.\<close>

definition is_close :: "pyfloat \<Rightarrow> pyfloat \<Rightarrow> pyfloat \<Rightarrow> pyfloat \<Rightarrow> bool" where
  "is_close a b rel_tol abs_tol \<longleftrightarrow>
     feq a b \<or>
     (\<not> is_inf a \<and> \<not> is_inf b \<and>
      (let diff = fabs (fsub b a) in
        fle diff (fabs (fmul rel_tol b)) \<or> fle diff (fabs (fmul rel_tol a)) \<or> fle diff abs_tol))"

text \<open>\<open>0.0 if value == 0 else value\<close>.\<close>

definition drop_zero_sign :: "pyfloat \<Rightarrow> pyfloat" where
  "drop_zero_sign x = (if feq x (Num 0) then Num 0 else x)"

subsection \<open>The order\<close>

named_theorems float_simps \<open>comparisons and classifications of floats\<close>

lemma fle_Num [simp]: "fle (Num a) (Num b) \<longleftrightarrow> a \<le> b"
  by (simp add: fle_def)

lemma fless_Num [simp]: "fless (Num a) (Num b) \<longleftrightarrow> a < b"
  by (auto simp: fless_def)

lemma feq_Num [simp]: "feq (Num a) (Num b) \<longleftrightarrow> a = b"
  by (auto simp: feq_def)

lemma fle_NegZero [simp]:
  "fle NegZero (Num b) \<longleftrightarrow> 0 \<le> b" "fle (Num a) NegZero \<longleftrightarrow> a \<le> 0" "fle NegZero NegZero"
  by (simp_all add: fle_def)

lemma fle_inf [simp]:
  "fle x PosInf \<longleftrightarrow> x \<noteq> NaN" "fle NegInf x \<longleftrightarrow> x \<noteq> NaN"
  "fle PosInf x \<longleftrightarrow> x = PosInf" "fle x NegInf \<longleftrightarrow> x = NegInf"
  by (cases x; auto simp: fle_def)+

lemma fle_NaN [simp]: "\<not> fle NaN x" "\<not> fle x NaN"
  by (auto simp: fle_def)

lemma fle_refl_iff [simp]: "fle x x \<longleftrightarrow> x \<noteq> NaN"
  by (cases x) (auto simp: fle_def)

lemma fle_trans [trans]: "fle x y \<Longrightarrow> fle y z \<Longrightarrow> fle x z"
  by (cases x; cases y; cases z) (auto simp: fle_def)

lemma fless_le_trans [trans]: "fless x y \<Longrightarrow> fle y z \<Longrightarrow> fless x z"
  by (cases x; cases y; cases z) (auto simp: fle_def fless_def)

lemma fle_less_trans [trans]: "fle x y \<Longrightarrow> fless y z \<Longrightarrow> fless x z"
  by (cases x; cases y; cases z) (auto simp: fle_def fless_def)

lemma fless_imp_fle: "fless x y \<Longrightarrow> fle x y"
  by (cases x; cases y) (auto simp: fle_def fless_def)

lemma fless_trans [trans]: "fless x y \<Longrightarrow> fless y z \<Longrightarrow> fless x z"
  using fless_imp_fle fless_le_trans by blast

lemma fless_irrefl [simp]: "\<not> fless x x"
  by (cases x) (auto simp: fless_def)

lemma not_fless_fle: "x \<noteq> NaN \<Longrightarrow> y \<noteq> NaN \<Longrightarrow> \<not> fless x y \<longleftrightarrow> fle y x"
  by (auto simp: fless_def)

lemma not_fle_fless: "x \<noteq> NaN \<Longrightarrow> y \<noteq> NaN \<Longrightarrow> \<not> fle x y \<longleftrightarrow> fless y x"
  by (auto simp: fless_def)

lemma fle_not_NaN: "fle x y \<Longrightarrow> x \<noteq> NaN \<and> y \<noteq> NaN"
  by (auto simp: fle_def)

lemma fless_not_NaN: "fless x y \<Longrightarrow> x \<noteq> NaN \<and> y \<noteq> NaN"
  by (auto simp: fless_def)

lemma is_finite_not_NaN: "is_finite x \<Longrightarrow> x \<noteq> NaN"
  by auto

lemma finite_fle_iff: "is_finite x \<Longrightarrow> is_finite y \<Longrightarrow> fle x y \<longleftrightarrow> to_rat x \<le> to_rat y"
  by (cases x; cases y) auto

lemma finite_fless_iff: "is_finite x \<Longrightarrow> is_finite y \<Longrightarrow> fless x y \<longleftrightarrow> to_rat x < to_rat y"
  by (cases x; cases y) (auto simp: fless_def)

lemma drop_zero_sign_simps [simp]:
  "drop_zero_sign (Num q) = Num q" "drop_zero_sign NegZero = Num 0"
  "drop_zero_sign PosInf = PosInf" "drop_zero_sign NegInf = NegInf" "drop_zero_sign NaN = NaN"
  by (auto simp: drop_zero_sign_def feq_def)

lemma drop_zero_sign_idem [simp]: "drop_zero_sign (drop_zero_sign x) = drop_zero_sign x"
  by (cases x) auto

lemma to_rat_drop_zero_sign [simp]: "to_rat (drop_zero_sign x) = to_rat x"
  by (cases x) auto

lemma is_finite_drop_zero_sign [simp]: "is_finite (drop_zero_sign x) \<longleftrightarrow> is_finite x"
  by (cases x) auto

lemma fle_drop_zero_sign [simp]:
  "fle (drop_zero_sign x) y \<longleftrightarrow> fle x y" "fle x (drop_zero_sign y) \<longleftrightarrow> fle x y"
  by (cases x; cases y; auto simp: fle_def)+

lemma fless_drop_zero_sign [simp]:
  "fless (drop_zero_sign x) y \<longleftrightarrow> fless x y" "fless x (drop_zero_sign y) \<longleftrightarrow> fless x y"
  by (cases x; cases y; auto simp: fless_def fle_def)+

subsection \<open>Maxima and minima\<close>

lemma fmax_Nil [simp]: "fmax x [] = x" and fmin_Nil [simp]: "fmin x [] = x"
  by (simp_all add: fmax_def fmin_def)

lemma fmax_Cons: "fmax x (y # ys) = fmax (if fless x y then y else x) ys"
  by (simp add: fmax_def)

lemma fmin_Cons: "fmin x (y # ys) = fmin (if fless y x then y else x) ys"
  by (simp add: fmin_def)

lemma fmax_mem: "fmax x xs \<in> set (x # xs)"
proof (induction xs arbitrary: x)
  case (Cons y ys)
  show ?case using Cons.IH [of "if fless x y then y else x"] by (auto simp: fmax_Cons split: if_splits)
qed simp

lemma fmin_mem: "fmin x xs \<in> set (x # xs)"
proof (induction xs arbitrary: x)
  case (Cons y ys)
  show ?case using Cons.IH [of "if fless y x then y else x"] by (auto simp: fmin_Cons split: if_splits)
qed simp

lemma fmax_ge:
  assumes "NaN \<notin> set (x # xs)" and "y \<in> set (x # xs)"
  shows "fle y (fmax x xs)"
  using assms
proof (induction xs arbitrary: x y)
  case Nil
  then show ?case by simp
next
  case (Cons z zs)
  let ?m = "if fless x z then z else x"
  have m: "NaN \<notin> set (?m # zs)" and up: "fle x ?m" "fle z ?m"
    using Cons.prems(1) by (auto simp: fless_imp_fle not_fless_fle)
  show ?case
  proof (cases "y \<in> set zs")
    case True
    then show ?thesis using Cons.IH [OF m, of y] by (simp add: fmax_Cons)
  next
    case False
    then have "fle y ?m" using Cons.prems(2) up by auto
    also have "fle ?m (fmax ?m zs)" using Cons.IH [OF m, of ?m] by simp
    finally show ?thesis by (simp add: fmax_Cons)
  qed
qed

lemma fmin_le:
  assumes "NaN \<notin> set (x # xs)" and "y \<in> set (x # xs)"
  shows "fle (fmin x xs) y"
  using assms
proof (induction xs arbitrary: x y)
  case Nil
  then show ?case by simp
next
  case (Cons z zs)
  let ?m = "if fless z x then z else x"
  have m: "NaN \<notin> set (?m # zs)" and up: "fle ?m x" "fle ?m z"
    using Cons.prems(1) by (auto simp: fless_imp_fle not_fless_fle)
  show ?case
  proof (cases "y \<in> set zs")
    case True
    then show ?thesis using Cons.IH [OF m, of y] by (simp add: fmin_Cons)
  next
    case False
    have "fle (fmin ?m zs) ?m" using Cons.IH [OF m, of ?m] by simp
    also have "fle ?m y" using False Cons.prems(2) up by auto
    finally show ?thesis by (simp add: fmin_Cons)
  qed
qed

subsection \<open>Laws of rounding\<close>

lemma bit_size_bounds:
  "0 < n \<Longrightarrow> 2 powi (bit_size n - 1) \<le> (of_int n :: rat) \<and> (of_int n :: rat) < 2 powi bit_size n
    \<and> 0 < bit_size n"
proof (induction n rule: bit_size.induct)
  case (1 n)
  show ?case
  proof (cases "n = 1")
    case True
    then show ?thesis by (simp add: bit_size.simps [of 1] bit_size.simps [of 0])
  next
    case False
    define b where "b = bit_size (n div 2)"
    have half: "0 < n div 2" using False 1(2) by auto
    have IH: "2 powi (b - 1) \<le> (of_int (n div 2) :: rat)" "(of_int (n div 2) :: rat) < 2 powi b" "0 < b"
      unfolding b_def using 1 half by auto
    have pow: "(2::rat) powi k = of_int (2 ^ nat k)" if "0 \<le> k" for k using that by (simp add: power_int_def)
    from IH have "2 ^ nat (b - 1) \<le> n div 2" "n div 2 < 2 ^ nat b"
      by (simp_all only: pow of_int_le_iff of_int_less_iff)
    moreover have "(2::int) ^ nat b = 2 * 2 ^ nat (b - 1)" "(2::int) ^ nat (1 + b) = 2 * 2 ^ nat b"
      using IH(3) by (simp_all flip: power_Suc add: Suc_nat_eq_nat_zadd1 algebra_simps)
    ultimately have "2 ^ nat b \<le> n" "n < 2 ^ nat (1 + b)" by linarith+
    then have "2 powi b \<le> (of_int n :: rat)" "(of_int n :: rat) < 2 powi (1 + b)"
      using IH(3) by (simp_all only: pow of_int_le_iff of_int_less_iff)
    then show ?thesis
      using 1(2) IH(3) by (simp add: bit_size.simps [of n] b_def [symmetric])
  qed
qed

lemma powi2_pos [simp]: "0 < (2 :: rat) powi e"
  by simp

lemma ilog2_bounds:
  assumes "0 < q"
  shows "2 powi ilog2 q \<le> q \<and> q < 2 powi (ilog2 q + 1)"
proof -
  obtain n d where nd: "quotient_of q = (n, d)" by (cases "quotient_of q") auto
  have q: "q = of_int n / of_int d" using nd by (rule quotient_of_div)
  have d: "0 < d" using nd by (rule quotient_of_denom_pos)
  have n: "0 < n" using assms d unfolding q by (simp add: zero_less_divide_iff)
  define a where "a = bit_size n"
  define b where "b = bit_size d"
  have N: "(2::rat) powi (a - 1) \<le> of_int n" "of_int n < (2::rat) powi a"
    using bit_size_bounds [OF n] by (simp_all add: a_def)
  have D: "(2::rat) powi (b - 1) \<le> of_int d" "of_int d < (2::rat) powi b"
    using bit_size_bounds [OF d] by (simp_all add: b_def)
  have lower: "2 powi (a - b - 1) \<le> q"
  proof -
    have "(2::rat) powi (a - b - 1) * of_int d \<le> 2 powi (a - b - 1) * 2 powi b"
      using D(2) by (intro mult_left_mono) auto
    also have "\<dots> = 2 powi (a - 1)" by (simp flip: power_int_add)
    also have "\<dots> \<le> of_int n" by (rule N(1))
    finally show ?thesis unfolding q using d by (simp add: pos_le_divide_eq)
  qed
  have upper: "q < 2 powi (a - b + 1)"
  proof -
    have "of_int n < (2::rat) powi a" by (rule N(2))
    also have "\<dots> = 2 powi (a - b + 1) * 2 powi (b - 1)" by (simp flip: power_int_add)
    also have "\<dots> \<le> 2 powi (a - b + 1) * of_int d"
      using D(1) by (intro mult_left_mono) auto
    finally show ?thesis unfolding q using d by (simp add: pos_divide_less_eq)
  qed
  have "ilog2 q = (if q < 2 powi (a - b) then a - b - 1 else a - b)"
    by (simp add: ilog2_def nd a_def b_def Let_def)
  then show ?thesis using lower upper by (auto simp: not_less)
qed

lemma powi2_le_iff [simp]: "(2::rat) powi a \<le> 2 powi b \<longleftrightarrow> a \<le> b"
proof
  show "a \<le> b \<Longrightarrow> (2::rat) powi a \<le> 2 powi b" by (rule power_int_increasing) auto
  show "a \<le> b" if "(2::rat) powi a \<le> 2 powi b"
  proof (rule ccontr)
    assume "\<not> a \<le> b"
    then have "(2::rat) powi b < 2 powi a" by (intro power_int_strict_increasing) auto
    with that show False by simp
  qed
qed

lemma powi2_less_iff [simp]: "(2::rat) powi a < 2 powi b \<longleftrightarrow> a < b"
  by (simp flip: not_le)

lemma ilog2_less: "0 < q \<Longrightarrow> q < 2 powi e \<Longrightarrow> ilog2 q < e"
  using ilog2_bounds [of q] by (metis le_less_trans powi2_less_iff)

lemma ilog2_ge: "0 < q \<Longrightarrow> 2 powi e \<le> q \<Longrightarrow> e \<le> ilog2 q"
  using ilog2_bounds [of q] by (metis le_less_trans powi2_less_iff zless_add1_eq order_le_less)

lemma ilog2_mono: "0 < q \<Longrightarrow> q \<le> r \<Longrightarrow> ilog2 q \<le> ilog2 r"
  by (rule ilog2_ge) (use ilog2_bounds [of q] in auto)

lemma round_half_even_bounds: "\<lfloor>x\<rfloor> \<le> round_half_even x \<and> round_half_even x \<le> \<lfloor>x\<rfloor> + 1"
  by (simp add: round_half_even_def Let_def)

lemma round_half_even_of_int [simp]: "round_half_even (of_int n) = n"
  by (simp add: round_half_even_def)

lemma round_half_even_mono: "x \<le> y \<Longrightarrow> round_half_even x \<le> round_half_even y"
proof (cases "\<lfloor>x\<rfloor> = \<lfloor>y\<rfloor>")
  case True
  then show "x \<le> y \<Longrightarrow> round_half_even x \<le> round_half_even y"
    by (auto simp: round_half_even_def Let_def)
next
  case False
  assume "x \<le> y"
  then have "\<lfloor>x\<rfloor> + 1 \<le> \<lfloor>y\<rfloor>" using False floor_mono by fastforce
  then show "round_half_even x \<le> round_half_even y"
    using round_half_even_bounds [of x] round_half_even_bounds [of y] by linarith
qed

lemma round_pos_le_grid:
  assumes "v = of_int m * 2 powi grid_exp q" and "q \<le> v"
  shows "round_pos q \<le> v"
proof -
  have "q / 2 powi grid_exp q \<le> of_int m" using assms by (simp add: pos_divide_le_eq)
  from round_half_even_mono [OF this] show ?thesis
    using assms(1) by (simp add: round_pos_def)
qed

lemma round_pos_ge_grid:
  assumes "v = of_int m * 2 powi grid_exp q" and "v \<le> q"
  shows "v \<le> round_pos q"
proof -
  have "of_int m \<le> q / 2 powi grid_exp q" using assms by (simp add: pos_le_divide_eq)
  from round_half_even_mono [OF this] show ?thesis
    using assms(1) by (simp add: round_pos_def)
qed

lemma powi2_on_grid: "g \<le> e \<Longrightarrow> \<exists>m. (2::rat) powi e = of_int m * 2 powi g"
proof -
  assume "g \<le> e"
  then have "(2::rat) powi e = 2 powi (e - g) * 2 powi g" by (simp flip: power_int_add)
  also have "(2::rat) powi (e - g) = of_int (2 ^ nat (e - g))" using \<open>g \<le> e\<close> by (simp add: power_int_def)
  finally show ?thesis by blast
qed

lemma round_pos_mono:
  assumes "0 < q" and "q \<le> r"
  shows "round_pos q \<le> round_pos r"
proof (cases "grid_exp q = grid_exp r")
  case True
  have "q / 2 powi grid_exp q \<le> r / 2 powi grid_exp q" using assms(2) by (simp add: divide_right_mono)
  from round_half_even_mono [OF this] show ?thesis
    by (simp add: round_pos_def True)
next
  case False
  have "ilog2 q \<le> ilog2 r" using assms by (rule ilog2_mono)
  with False have less: "ilog2 q < ilog2 r" and normal: "- 1022 < ilog2 r"
    by (auto simp: grid_exp_def)
  let ?b = "2 powi ilog2 r :: rat"
  have "q < 2 powi (ilog2 q + 1)" using ilog2_bounds [OF assms(1)] by simp
  also have "\<dots> \<le> ?b" using less by (simp only: powi2_le_iff)
  finally have q: "q \<le> ?b" by simp
  have r: "?b \<le> r" using ilog2_bounds [of r] assms by simp
  have "grid_exp q \<le> ilog2 r" and "grid_exp r \<le> ilog2 r"
    using less normal by (auto simp: grid_exp_def)
  then obtain m n where "?b = of_int m * 2 powi grid_exp q" "?b = of_int n * 2 powi grid_exp r"
    using powi2_on_grid by metis
  then show ?thesis
    using round_pos_le_grid q round_pos_ge_grid r by (metis order_trans)
qed

lemma round_pos_nonneg: "0 < q \<Longrightarrow> 0 \<le> round_pos q"
  using round_pos_ge_grid [of 0 0 q] by simp

text \<open>Multiples of a grid step with at most 53 significant bits are left alone.\<close>

lemma round_pos_fixed:
  assumes "0 < v" and "v = of_int m * 2 powi g" and "v \<le> 2 powi (g + 53)" and "- 1074 \<le> g"
  shows "round_pos v = v"
proof -
  have "\<exists>k. v = of_int k * 2 powi grid_exp v"
  proof (cases "v = 2 powi (g + 53)")
    case True
    have "ilog2 v < g + 54" by (rule ilog2_less [OF assms(1)]) (simp add: True)
    then have "grid_exp v \<le> g + 53" using assms(4) by (auto simp: grid_exp_def)
    then show ?thesis using powi2_on_grid unfolding True by blast
  next
    case False
    then have "ilog2 v < g + 53" using assms(1,3) by (intro ilog2_less) auto
    then have "grid_exp v \<le> g" using assms(4) by (auto simp: grid_exp_def)
    then obtain k where "(2::rat) powi g = of_int k * 2 powi grid_exp v" using powi2_on_grid by blast
    then have "v = of_int (m * k) * 2 powi grid_exp v" using assms(2) by simp
    then show ?thesis by blast
  qed
  then obtain k where k: "v = of_int k * 2 powi grid_exp v" by blast
  show ?thesis
    by (rule antisym) (use round_pos_le_grid [OF k] round_pos_ge_grid [OF k] in auto)
qed

lemma round_pos_idem:
  assumes "0 < q"
  shows "round_pos q = 0 \<or> round_pos (round_pos q) = round_pos q"
proof (cases "round_pos q = 0")
  case False
  let ?g = "grid_exp q"
  have pos: "0 < round_pos q" using False round_pos_nonneg [OF assms] by simp
  have lim: "ilog2 q + 1 \<le> ?g + 53" by (simp add: grid_exp_def)
  have "q \<le> 2 powi (?g + 53)"
    using ilog2_bounds [OF assms] lim by (metis less_imp_le order_trans powi2_le_iff)
  moreover obtain k where "(2::rat) powi (?g + 53) = of_int k * 2 powi ?g"
    using powi2_on_grid [of ?g "?g + 53"] by auto
  ultimately have "round_pos q \<le> 2 powi (?g + 53)" by (rule round_pos_le_grid [rotated])
  then have "round_pos (round_pos q) = round_pos q"
    using pos by (intro round_pos_fixed [where g = ?g]) (auto simp: round_pos_def grid_exp_def)
  then show ?thesis ..
qed simp

lemma rnd_pos_mono: "0 < q \<Longrightarrow> q \<le> r \<Longrightarrow> fle (rnd_pos q) (rnd_pos r)"
  using round_pos_mono [of q r] by (auto simp: rnd_pos_def Let_def)

lemma rnd_pos_nonneg: "0 < q \<Longrightarrow> fle (Num 0) (rnd_pos q)"
  using round_pos_nonneg [of q] by (auto simp: rnd_pos_def Let_def)

lemma fle_fneg [simp]: "fle (fneg x) (fneg y) \<longleftrightarrow> fle y x"
  by (cases x; cases y) (auto simp: fle_def)

lemma fneg_eq_NaN [simp]: "fneg x = NaN \<longleftrightarrow> x = NaN"
  by (cases x) auto

lemma is_finite_fneg [simp]: "is_finite (fneg x) \<longleftrightarrow> is_finite x"
  by (cases x) auto

lemma to_rat_fneg [simp]: "to_rat (fneg x) = - to_rat x"
  by (cases x) auto

lemma rnd_0 [simp]: "rnd 0 = Num 0"
  by (simp add: rnd_def)

lemma rnd_not_NaN [simp]: "rnd q \<noteq> NaN"
  by (auto simp: rnd_def rnd_pos_def Let_def)

lemma rnd_nonneg: "0 \<le> q \<Longrightarrow> fle (Num 0) (rnd q)"
  using rnd_pos_nonneg [of q] by (auto simp: rnd_def)

lemma rnd_nonpos: "q \<le> 0 \<Longrightarrow> fle (rnd q) (Num 0)"
proof -
  assume "q \<le> 0"
  have "fle (fneg (rnd_pos (- q))) (fneg NegZero)" if "q < 0"
    using rnd_pos_nonneg [of "- q"] that by (simp only: fle_fneg) (cases "rnd_pos (- q)"; auto)
  then show ?thesis using \<open>q \<le> 0\<close> by (auto simp: rnd_def)
qed

theorem rnd_mono: "q \<le> r \<Longrightarrow> fle (rnd q) (rnd r)"
proof -
  assume le: "q \<le> r"
  consider "r < 0" | "q \<le> 0" "0 \<le> r" | "0 < q" by linarith
  then show ?thesis
  proof cases
    case 1
    then have "fle (rnd_pos (- r)) (rnd_pos (- q))" using le by (intro rnd_pos_mono) auto
    then show ?thesis using 1 le by (simp add: rnd_def)
  next
    case 2
    then show ?thesis using rnd_nonpos rnd_nonneg fle_trans by blast
  next
    case 3
    then show ?thesis using le rnd_pos_mono by (simp add: rnd_def)
  qed
qed

lemma rnd_fixed:
  assumes "v = of_int m * 2 powi g" and "\<bar>v\<bar> \<le> 2 powi (g + 53)" and "- 1074 \<le> g" and "g \<le> 970"
  shows "rnd v = Num v"
proof -
  have lim: "w < overflow_bound" if "w \<le> 2 powi (g + 53)" for w :: rat
  proof -
    note that
    also have "(2::rat) powi (g + 53) \<le> 2 powi 1023" using assms(4) by (subst powi2_le_iff) simp
    also have "\<dots> < overflow_bound" by (simp add: overflow_bound_def)
    finally show ?thesis .
  qed
  consider "v = 0" | "0 < v" | "v < 0" by linarith
  then show ?thesis
  proof cases
    case 2
    then have "round_pos v = v" using assms by (intro round_pos_fixed) auto
    then show ?thesis using 2 assms(2) lim by (simp add: rnd_def rnd_pos_def)
  next
    case 3
    have neg: "- v = of_int (- m) * 2 powi g" using assms(1) by simp
    have "round_pos (- v) = - v" using 3 assms by (intro round_pos_fixed [OF _ neg]) auto
    then show ?thesis using 3 assms(2) lim [of "- v"] by (simp add: rnd_def rnd_pos_def)
  qed simp
qed

lemma rnd_of_int: "\<bar>n\<bar> \<le> 2 ^ 53 \<Longrightarrow> rnd (of_int n) = Num (of_int n)"
proof -
  assume "\<bar>n\<bar> \<le> 2 ^ 53"
  then have "(of_int \<bar>n\<bar> :: rat) \<le> of_int (2 ^ 53)" by (simp only: of_int_le_iff)
  then show ?thesis by (intro rnd_fixed [where g = 0 and m = n]) auto
qed

theorem is_double_rnd [simp]: "is_double (rnd q)"
proof -
  have pos: "is_double (rnd_pos q) \<and> is_double (fneg (rnd_pos q))" if "0 < q" for q
  proof (cases "round_pos q < overflow_bound")
    case True
    have "round_pos q = 0 \<or> 0 < round_pos q \<and> round_pos (round_pos q) = round_pos q"
      using round_pos_idem [OF that] round_pos_nonneg [OF that] by auto
    then show ?thesis
      using True by (auto simp: rnd_pos_def rnd_def)
  qed (simp add: rnd_pos_def)
  show ?thesis using pos [of q] pos [of "- q"] by (auto simp: rnd_def)
qed

subsection \<open>Evaluation\<close>

text \<open>
  Code equations that keep the evaluation of \<open>rnd\<close> on integers: the quotient of numerator and
  denominator is rounded by comparing twice the remainder with the divisor.
\<close>

definition int_round_half_even :: "int \<Rightarrow> int \<Rightarrow> int" where
  "int_round_half_even n d =
     (let f = n div d; r = 2 * (n mod d)
      in if r < d then f else if d < r then f + 1 else if even f then f else f + 1)"

lemma round_half_even_quotient:
  assumes "0 < d"
  shows "round_half_even (of_int n / of_int d) = int_round_half_even n d"
proof -
  let ?x = "of_int n / of_int d :: rat"
  have f: "\<lfloor>?x\<rfloor> = n div d" by (rule floor_divide_of_int_eq)
  have n: "(of_int n :: rat) = of_int (n div d) * of_int d + of_int (n mod d)"
    by (metis div_mult_mod_eq of_int_add of_int_mult)
  have "?x - of_int (n div d) = of_int (n mod d) / of_int d"
    using assms by (subst n) (simp add: field_simps)
  then have "?x - of_int (n div d) < 1 / 2 \<longleftrightarrow> 2 * (n mod d) < d"
    and "1 / 2 < ?x - of_int (n div d) \<longleftrightarrow> d < 2 * (n mod d)"
    using assms by (simp_all add: field_simps flip: of_int_mult of_int_less_iff)
      (metis of_int_less_iff of_int_mult of_int_numeral)+
  then show ?thesis by (simp add: round_half_even_def int_round_half_even_def f Let_def)
qed

definition scale_round :: "rat \<Rightarrow> int \<Rightarrow> rat" where
  "scale_round q g = of_int (round_half_even (q / 2 powi g)) * 2 powi g"

lemma scale_round_code [code]:
  "scale_round q g =
     (let (n, d) = quotient_of q in
      if 0 \<le> g then of_int (int_round_half_even n (d * 2 ^ nat g) * 2 ^ nat g)
      else Fract (int_round_half_even (n * 2 ^ nat (- g)) d) (2 ^ nat (- g)))"
proof -
  obtain n d where nd: "quotient_of q = (n, d)" by (cases "quotient_of q") auto
  have q: "q = of_int n / of_int d" using nd by (rule quotient_of_div)
  have d: "0 < d" using nd by (rule quotient_of_denom_pos)
  show ?thesis
  proof (cases "0 \<le> g")
    case True
    then have p: "(2::rat) powi g = of_int (2 ^ nat g)" by (simp add: power_int_def)
    have "q / 2 powi g = of_int n / of_int (d * 2 ^ nat g)" unfolding q p by simp
    then show ?thesis
      using True d round_half_even_quotient [of "d * 2 ^ nat g" n] by (simp add: scale_round_def nd p)
  next
    case False
    then have p: "(2::rat) powi g = 1 / of_int (2 ^ nat (- g))"
      by (simp add: power_int_def power_one_over)
    have "q / 2 powi g = of_int (n * 2 ^ nat (- g)) / of_int d" unfolding q p by simp
    then show ?thesis
      using False d round_half_even_quotient [of d "n * 2 ^ nat (- g)"]
      by (simp add: scale_round_def nd p Fract_of_int_quotient)
  qed
qed

lemma round_pos_code [code]: "round_pos q = scale_round q (grid_exp q)"
  by (simp add: round_pos_def scale_round_def)

lemma ilog2_code [code]:
  "ilog2 q =
     (let (n, d) = quotient_of q; e = bit_size n - bit_size d
      in if (if 0 \<le> e then n < d * 2 ^ nat e else n * 2 ^ nat (- e) < d) then e - 1 else e)"
proof -
  obtain n d where nd: "quotient_of q = (n, d)" by (cases "quotient_of q") auto
  have q: "q = of_int n / of_int d" using nd by (rule quotient_of_div)
  have d: "0 < d" using nd by (rule quotient_of_denom_pos)
  have "q < 2 powi e \<longleftrightarrow> (if 0 \<le> e then n < d * 2 ^ nat e else n * 2 ^ nat (- e) < d)" for e
  proof (cases "0 \<le> e")
    case True
    then have "(2::rat) powi e = of_int (2 ^ nat e)" by (simp add: power_int_def)
    then have "q < 2 powi e \<longleftrightarrow> (of_int n :: rat) < of_int (d * 2 ^ nat e)"
      unfolding q using d by (simp add: pos_divide_less_eq mult.commute)
    then show ?thesis using True by (simp only: of_int_less_iff if_True)
  next
    case False
    define p where "p = (2::int) ^ nat (- e)"
    have p: "0 < p" and e: "(2::rat) powi e = 1 / of_int p"
      using False by (simp_all add: p_def power_int_def power_one_over)
    have "q < 2 powi e \<longleftrightarrow> (of_int (n * p) :: rat) < of_int d"
      unfolding q e using d p by (simp add: field_simps)
    then have "q < 2 powi e \<longleftrightarrow> (of_int (n * 2 ^ nat (- e)) :: rat) < of_int d"
      by (simp only: p_def)
    then show ?thesis using False by (simp only: of_int_less_iff if_False)
  qed
  then show ?thesis by (simp add: ilog2_def nd Let_def)
qed

lemma overflow_bound_code [code]:
  "overflow_bound = 179769313486231590772930519078902473361797697894230657273430081157732675805500963132708477322407536021120113879871393357658789768814416622492847430639474124377767893424865485276302219601246094119453082952085005768838150682342462881473913110540827237163350510684586298239947245938479716304835356329624224137216"
  by (simp add: overflow_bound_def)

text \<open>Integers and short binary fractions are doubles, so the simplifier evaluates on them directly.\<close>

lemma rnd_numeral: "numeral k \<le> (2 ^ 53 :: int) \<Longrightarrow> rnd (numeral k) = Num (numeral k)"
  using rnd_of_int [of "numeral k"] by simp

lemma rnd_neg_numeral: "numeral k \<le> (2 ^ 53 :: int) \<Longrightarrow> rnd (- numeral k) = Num (- numeral k)"
  using rnd_of_int [of "- numeral k"] by simp

lemma rnd_one [simp]: "rnd 1 = Num 1" and rnd_neg_one [simp]: "rnd (- 1) = Num (- 1)"
  using rnd_of_int [of 1] rnd_of_int [of "- 1"] by simp_all

subsection \<open>Laws of the operations\<close>

text \<open>A float that is a number and not below zero; infinite sums of volumes stay in this class.\<close>

abbreviation nonneg :: "pyfloat \<Rightarrow> bool" where
  "nonneg x \<equiv> fle (Num 0) x"

lemma nonneg_cases:
  assumes "nonneg x"
  obtains q where "x = Num q" "0 \<le> q" | "x = NegZero" | "x = PosInf"
  using assms by (cases x) auto

lemma fadd_nonneg: "nonneg x \<Longrightarrow> nonneg y \<Longrightarrow> nonneg (fadd x y)"
  by (elim nonneg_cases) (auto simp: fadd_def intro: rnd_nonneg)

lemma fadd_finite_fle:
  assumes "is_finite x" "is_finite y"
  shows "fle (fadd x y) z \<longleftrightarrow> fle (rnd (to_rat x + to_rat y)) z"
    and "fle z (fadd x y) \<longleftrightarrow> fle z (rnd (to_rat x + to_rat y))"
  using assms by (cases x; cases y; cases z; auto simp: fadd_def)+

lemma fadd_mono:
  assumes "nonneg x" "nonneg y" "fle x x'" "fle y y'"
  shows "fle (fadd x y) (fadd x' y')"
proof (cases "x' = PosInf \<or> y' = PosInf")
  case True
  have "nonneg x'" "nonneg y'" using assms fle_trans by blast+
  then have "fadd x' y' = PosInf" using True by (elim nonneg_cases) (auto simp: fadd_def)
  moreover have "fadd x y \<noteq> NaN" using fadd_nonneg [OF assms(1,2)] fle_not_NaN by blast
  ultimately show ?thesis by simp
next
  case False
  have n': "nonneg x'" "nonneg y'" using assms fle_trans by blast+
  then have fin: "is_finite x'" "is_finite y'" using False by (elim nonneg_cases; auto)+
  moreover have "is_finite x" "is_finite y" using assms fin by (cases x; cases y; auto)+
  ultimately show ?thesis
    using assms by (simp add: fadd_finite_fle finite_fle_iff rnd_mono add_mono)
qed

lemma fadd_ge_left: "is_double x \<Longrightarrow> nonneg x \<Longrightarrow> nonneg y \<Longrightarrow> fle x (fadd x y)"
proof -
  assume d: "is_double x" and x: "nonneg x" and y: "nonneg y"
  have "fle (fadd x (Num 0)) (fadd x y)" using x y by (intro fadd_mono) (auto simp: fle_not_NaN)
  moreover have "fle x (fadd x (Num 0))" using x d by (elim nonneg_cases) (auto simp: fadd_def)
  ultimately show ?thesis using fle_trans by blast
qed

lemma is_double_fadd: "is_double (fadd x y)"
  by (simp add: fadd_def)

lemma fmul_not_NaN: "is_finite x \<Longrightarrow> is_finite y \<Longrightarrow> fmul x y \<noteq> NaN"
  by (cases x; cases y) (auto simp: fmul_def signed_zero_def is_inf_def Let_def)

lemma fmul_nonneg: "nonneg x \<Longrightarrow> nonneg y \<Longrightarrow> is_finite x \<Longrightarrow> is_finite y \<Longrightarrow> nonneg (fmul x y)"
  by (elim nonneg_cases)
    (auto simp: fmul_def signed_zero_def is_inf_def is_zero_def Let_def intro!: rnd_nonneg)

lemma fdiv_nonneg: "nonneg x \<Longrightarrow> nonneg y \<Longrightarrow> is_finite x \<Longrightarrow> fless (Num 0) y \<Longrightarrow> nonneg (fdiv x y)"
  by (elim nonneg_cases)
    (auto simp: fdiv_def signed_zero_def is_inf_def is_zero_def Let_def fless_def intro!: rnd_nonneg)

lemma fabs_nonneg: "x \<noteq> NaN \<Longrightarrow> nonneg (fabs x)"
  by (cases x) auto

lemma is_finite_fabs [simp]: "is_finite (fabs x) \<longleftrightarrow> is_finite x"
  by (cases x) auto

lemma fsum_builtin_Nil [simp]: "fsum_builtin [] = Num 0"
  by (simp add: fsum_builtin_def)

lemma fsum_builtin_nonneg:
  assumes "list_all nonneg xs"
  shows "nonneg (fsum_builtin xs)"
proof -
  have "nonneg a \<Longrightarrow> list_all nonneg xs \<Longrightarrow> nonneg (foldl fadd a xs)" for a
    by (induction xs arbitrary: a) (auto intro: fadd_nonneg)
  then show ?thesis using assms by (simp add: fsum_builtin_def)
qed

theorem fsum_builtin_mono:
  assumes "list_all2 (\<lambda>x y. nonneg x \<and> fle x y) xs ys"
  shows "fle (fsum_builtin xs) (fsum_builtin ys)"
proof -
  have "nonneg a \<Longrightarrow> fle a b \<Longrightarrow> list_all2 (\<lambda>x y. nonneg x \<and> fle x y) xs ys
    \<Longrightarrow> fle (foldl fadd a xs) (foldl fadd b ys)" for a b
  proof (induction xs arbitrary: a b ys)
    case (Cons x xs)
    then obtain y ys' where ys: "ys = y # ys'" by (cases ys) auto
    with Cons.prems have "nonneg (fadd a x)" "fle (fadd a x) (fadd b y)"
      by (auto intro: fadd_nonneg fadd_mono)
    with Cons.IH Cons.prems(3) ys show ?case by auto
  qed simp
  with assms show ?thesis by (simp add: fsum_builtin_def)
qed

end
