(* ===== verification/Sha256.thy ===== *)
theory Sha256
  imports Prelude "HOL-Library.Word"
begin

section \<open>hashlib.sha256\<close>

text \<open>
  The SHA-256 digest of the standard library, as FIPS 180-4 defines it: the program uses it for
  every identity and fingerprint. A byte is an 8-bit word, the digest is returned as the 64
  lower-case hexadecimal digits of \<open>hexdigest()\<close>. Beyond its shape nothing is proved about the
  hash; theorems about fingerprints speak of the bytes that are hashed.
\<close>

unbundle bit_operations_syntax

type_synonym byte = "8 word"

type_synonym u32 = "32 word"

definition bytes_of_string :: "string \<Rightarrow> byte list" where
  "bytes_of_string s = map (\<lambda>c. of_nat (of_char c)) s"

text \<open>\<open>n.to_bytes(k, "big")\<close>.\<close>

fun big_endian :: "nat \<Rightarrow> nat \<Rightarrow> byte list" where
  "big_endian 0 n = []"
| "big_endian (Suc k) n = big_endian k (n div 256) @ [of_nat (n mod 256)]"

lemma length_big_endian [simp]: "length (big_endian k n) = k"
  by (induction k arbitrary: n) auto

text \<open>
  The constants are the first 32 bits of the fractional parts of the cube roots (the round constants) and the
  square roots (the initial state) of the first primes; a word keeps exactly these bits of a root scaled by
  \<open>2 ^ 32\<close>. The root is found bit by bit.
\<close>

fun root_bits :: "nat \<Rightarrow> int \<Rightarrow> nat \<Rightarrow> int \<Rightarrow> int" where
  "root_bits r n 0 x = x"
| "root_bits r n (Suc b) x = root_bits r n b (if (x + 2 ^ b) ^ r \<le> n then x + 2 ^ b else x)"

definition root_fraction :: "nat \<Rightarrow> int \<Rightarrow> u32" where
  "root_fraction r p = of_int (root_bits r (p * 2 ^ (32 * r)) 36 0)"

definition sha_primes :: "int list" where
  "sha_primes =
  [2, 3, 5, 7, 11, 13, 17, 19, 23, 29, 31, 37, 41, 43, 47, 53,
   59, 61, 67, 71, 73, 79, 83, 89, 97, 101, 103, 107, 109, 113, 127, 131,
   137, 139, 149, 151, 157, 163, 167, 173, 179, 181, 191, 193, 197, 199, 211, 223,
   227, 229, 233, 239, 241, 251, 257, 263, 269, 271, 277, 281, 283, 293, 307, 311]"

definition sha_k :: "u32 list" where
  "sha_k = map (root_fraction 3) sha_primes"

definition sha_h0 :: "u32 list" where
  "sha_h0 = map (root_fraction 2) (take 8 sha_primes)"

text \<open>The padded message is a sequence of 64-byte blocks.\<close>

definition sha_pad :: "byte list \<Rightarrow> byte list" where
  "sha_pad m =
     (let n = length m
      in m @ [0x80] @ replicate ((119 - n mod 64) mod 64) 0 @ big_endian 8 (8 * n))"

fun word_of_bytes :: "byte list \<Rightarrow> u32" where
  "word_of_bytes bs = foldl (\<lambda>w b. (push_bit 8 w) OR (ucast b)) 0 bs"

fun chunks_fuel :: "nat \<Rightarrow> nat \<Rightarrow> 'a list \<Rightarrow> 'a list list" where
  "chunks_fuel 0 k xs = []"
| "chunks_fuel (Suc n) k xs = take k xs # chunks_fuel n k (drop k xs)"

definition chunks :: "nat \<Rightarrow> 'a list \<Rightarrow> 'a list list" where
  "chunks k xs = chunks_fuel (length xs div k) k xs"

definition sigma :: "nat \<Rightarrow> nat \<Rightarrow> nat \<Rightarrow> u32 \<Rightarrow> u32" where
  "sigma a b c w = word_rotr a w XOR word_rotr b w XOR drop_bit c w"

definition big_sigma :: "nat \<Rightarrow> nat \<Rightarrow> nat \<Rightarrow> u32 \<Rightarrow> u32" where
  "big_sigma a b c w = word_rotr a w XOR word_rotr b w XOR word_rotr c w"

text \<open>The message schedule, newest word first.\<close>

fun sha_schedule :: "nat \<Rightarrow> u32 list \<Rightarrow> u32 list" where
  "sha_schedule 0 ws = ws"
| "sha_schedule (Suc n) ws =
     sha_schedule n
       ((sigma 17 19 10 (ws ! 1) + ws ! 6 + sigma 7 18 3 (ws ! 14) + ws ! 15) # ws)"

type_synonym sha_state = "u32 \<times> u32 \<times> u32 \<times> u32 \<times> u32 \<times> u32 \<times> u32 \<times> u32"

fun sha_round :: "sha_state \<Rightarrow> u32 \<times> u32 \<Rightarrow> sha_state" where
  "sha_round (a, b, c, d, e, f, g, h) (k, w) =
     (let t1 = h + big_sigma 6 11 25 e + ((e AND f) XOR (NOT e AND g)) + k + w;
          t2 = big_sigma 2 13 22 a + ((a AND b) XOR (a AND c) XOR (b AND c))
      in (t1 + t2, a, b, c, d + t1, e, f, g))"

definition sha_block :: "u32 list \<Rightarrow> byte list \<Rightarrow> u32 list" where
  "sha_block hs block =
     (let ws = rev (sha_schedule 48 (rev (map word_of_bytes (chunks 4 block))));
          (a, b, c, d, e, f, g, h) =
            foldl sha_round (hs ! 0, hs ! 1, hs ! 2, hs ! 3, hs ! 4, hs ! 5, hs ! 6, hs ! 7) (zip sha_k ws)
      in map2 (+) hs [a, b, c, d, e, f, g, h])"

definition hex_digit :: "nat \<Rightarrow> char" where
  "hex_digit n = (if n < 10 then char_of (48 + n) else char_of (87 + n))"

definition hex_of_word :: "u32 \<Rightarrow> string" where
  "hex_of_word w = map (\<lambda>i. hex_digit (unat (drop_bit (4 * (7 - i)) w AND 15))) [0..<8]"

definition sha256_words :: "byte list \<Rightarrow> u32 list" where
  "sha256_words m = foldl sha_block sha_h0 (chunks 64 (sha_pad m))"

text \<open>\<open>hashlib.sha256(m).hexdigest()\<close>.\<close>

definition sha256_hex :: "byte list \<Rightarrow> string" where
  "sha256_hex m = concat (map hex_of_word (sha256_words m))"

lemma length_sha_block: "length hs = 8 \<Longrightarrow> length (sha_block hs b) = 8"
  by (simp add: sha_block_def Let_def split: prod.split)

lemma length_sha256_hex: "length (sha256_hex m) = 64"
proof -
  have "length hs = 8 \<Longrightarrow> length (foldl sha_block hs bs) = 8" for hs bs
    by (induction bs arbitrary: hs) (auto simp: length_sha_block)
  then have "length (sha256_words m) = 8" by (simp add: sha256_words_def sha_h0_def sha_primes_def)
  then have "length (concat (map hex_of_word ws)) = 8 * length ws" for ws
    by (induction ws) (auto simp: hex_of_word_def)
  with \<open>length (sha256_words m) = 8\<close> show ?thesis by (simp add: sha256_hex_def)
qed

end
