(* ===== verification/PyText.thy ===== *)
theory PyText
  imports PyFloat Sha256
begin

section \<open>Decimal text of floats and JSON\<close>

text \<open>
  The texts the program builds before it hashes them: \<open>format(x, ".17g")\<close>, \<open>repr(x)\<close> (the shortest
  decimal that reads back as the same double) and \<open>json.dumps\<close> with sorted keys and compact
  separators. Values of a JSON document are the datatype \<open>json\<close>; a tuple is a list, as for the
  encoder of the standard library.
\<close>

subsection \<open>Decimal digits\<close>

function dec_size :: "int \<Rightarrow> int" where
  "dec_size n = (if n \<le> 0 then 0 else 1 + dec_size (n div 10))"
  by pat_completeness auto
termination
  by (relation "measure nat") auto

declare dec_size.simps [simp del]

text \<open>The exponent of the leading decimal digit of a positive rational.\<close>

definition ilog10 :: "rat \<Rightarrow> int" where
  "ilog10 q =
     (let (n, d) = quotient_of q;
          e = dec_size n - dec_size d;
          below = (if 0 \<le> e then n < d * 10 ^ nat e else n * 10 ^ nat (- e) < d)
      in if below then e - 1 else e)"

definition pow10 :: "int \<Rightarrow> rat" where
  "pow10 e = (if 0 \<le> e then of_int (10 ^ nat e) else Fract 1 (10 ^ nat (- e)))"

definition strip_zeros :: "string \<Rightarrow> string" where
  "strip_zeros s = rev (dropWhile (\<lambda>c. c = CHR ''0'') (rev s))"

definition zeros :: "int \<Rightarrow> string" where
  "zeros n = replicate (nat n) (CHR ''0'')"

definition exponent_text :: "int \<Rightarrow> string" where
  "exponent_text e =
     (let ds = str_int \<bar>e\<bar>
      in (if e < 0 then ''-'' else ''+'') @ (if length ds < 2 then ''0'' @ ds else ds))"

text \<open>
  Significant digits \<open>ds\<close> with the point after the first digit times \<open>10 ^ e\<close>, as fixed-point text
  when \<open>-4 <= e < limit\<close> and in scientific notation otherwise.
\<close>

definition layout :: "string \<Rightarrow> int \<Rightarrow> int \<Rightarrow> string \<Rightarrow> string" where
  "layout ds e limit point_zero =
     (if e < - 4 \<or> limit \<le> e
      then take 1 ds @ (if 1 < length ds then ''.'' @ drop 1 ds else []) @ ''e'' @ exponent_text e
      else if e < 0 then ''0.'' @ zeros (- e - 1) @ ds
      else if int (length ds) \<le> e + 1 then ds @ zeros (e + 1 - int (length ds)) @ point_zero
      else take (nat (e + 1)) ds @ ''.'' @ drop (nat (e + 1)) ds)"

text \<open>\<open>format(q, ".17g")\<close> for a positive value.\<close>

definition g17_pos :: "rat \<Rightarrow> string" where
  "g17_pos q =
     (let e = ilog10 q;
          m = round_half_even (q / pow10 (e - 16));
          (m, e) = (if m = 10 ^ 17 then (10 ^ 16, e + 1) else (m, e))
      in layout (strip_zeros (str_int m)) e 17 [])"

fun format_17g :: "pyfloat \<Rightarrow> string" where
  "format_17g (Num q) =
     (if q = 0 then ''0'' else if q < 0 then ''-'' @ g17_pos (- q) else g17_pos q)"
| "format_17g NegZero = ''-0''"
| "format_17g PosInf = ''inf''"
| "format_17g NegInf = ''-inf''"
| "format_17g NaN = ''nan''"

text \<open>
  The shortest decimal that rounds to \<open>q\<close>: for the least number \<open>k\<close> of digits for which one of the
  two neighbouring \<open>k\<close>-digit decimals rounds to \<open>q\<close>, the one closer to \<open>q\<close>.
\<close>

definition repr_candidates :: "rat \<Rightarrow> int \<Rightarrow> int \<Rightarrow> (int \<times> rat) list" where
  "repr_candidates q e k =
     (let u = pow10 (e - k + 1); lo = \<lfloor>q / u\<rfloor>
      in filter (\<lambda>(m, v). rnd v = Num q) (map (\<lambda>m. (m, of_int m * u)) [lo, lo + 1]))"

fun repr_search :: "nat \<Rightarrow> rat \<Rightarrow> int \<Rightarrow> int \<Rightarrow> int \<times> int" where
  "repr_search 0 q e k = (round_half_even (q / pow10 (e - 16)), 17)"
| "repr_search (Suc n) q e k =
     (case repr_candidates q e k of
        [] \<Rightarrow> repr_search n q e (k + 1)
      | [(m, _)] \<Rightarrow> (m, k)
      | (m, v) # (m', v') # _ \<Rightarrow>
          (if \<bar>q - v\<bar> < \<bar>q - v'\<bar> \<or> (\<bar>q - v\<bar> = \<bar>q - v'\<bar> \<and> even m) then (m, k) else (m', k)))"

definition repr_pos :: "rat \<Rightarrow> string" where
  "repr_pos q =
     (let e = ilog10 q;
          (m, k) = repr_search 17 q e 1;
          e = (if m = 10 ^ nat k then e + 1 else e)
      in layout (strip_zeros (str_int m)) e 16 ''.0'')"

fun py_repr :: "pyfloat \<Rightarrow> string" where
  "py_repr (Num q) =
     (if q = 0 then ''0.0'' else if q < 0 then ''-'' @ repr_pos (- q) else repr_pos q)"
| "py_repr NegZero = ''-0.0''"
| "py_repr PosInf = ''inf''"
| "py_repr NegInf = ''-inf''"
| "py_repr NaN = ''nan''"

subsection \<open>JSON\<close>

datatype json =
    JNull
  | JBool bool
  | JInt int
  | JFloat pyfloat
  | JStr string
  | JList "json list"
  | JObj "(string \<times> json) list"

definition intersperse_comma :: "string list \<Rightarrow> string" where
  "intersperse_comma ss = concat (map (\<lambda>(i, s). if i = 0 then s else '','' @ s) (enumerate 0 ss))"

definition hex4 :: "nat \<Rightarrow> string" where
  "hex4 n = ''00'' @ [hex_digit (n div 16), hex_digit (n mod 16)]"

text \<open>
  String literals of the encoder: quotation mark and backslash are escaped, the control characters
  have short escapes or a four-digit code, and with \<open>ensure_ascii\<close> so has every character outside
  blank to tilde.
\<close>

definition json_char :: "bool \<Rightarrow> char \<Rightarrow> string" where
  "json_char ensure_ascii c =
     (let n = of_char c :: nat; bs = char_of (92 :: nat) in
      if n = 34 then [bs, c]
      else if n = 92 then [bs, c]
      else if n = 10 then [bs, CHR ''n'']
      else if n = 13 then [bs, CHR ''r'']
      else if n = 9 then [bs, CHR ''t'']
      else if n = 12 then [bs, CHR ''f'']
      else if n = 8 then [bs, CHR ''b'']
      else if n < 32 \<or> (ensure_ascii \<and> 126 < n) then [bs, CHR ''u''] @ hex4 n
      else [c])"

definition json_string :: "bool \<Rightarrow> string \<Rightarrow> string" where
  "json_string ensure_ascii s =
     [char_of (34 :: nat)] @ concat (map (json_char ensure_ascii) s) @ [char_of (34 :: nat)]"

fun json_float :: "pyfloat \<Rightarrow> string" where
  "json_float NaN = ''NaN''"
| "json_float PosInf = ''Infinity''"
| "json_float NegInf = ''-Infinity''"
| "json_float x = py_repr x"

text \<open>\<open>json.dumps(value, sort_keys=True, separators=(",", ":"))\<close>.\<close>

fun json_text :: "bool \<Rightarrow> json \<Rightarrow> string" where
  "json_text a JNull = ''null''"
| "json_text a (JBool b) = (if b then ''true'' else ''false'')"
| "json_text a (JInt n) = str_int n"
| "json_text a (JFloat x) = json_float x"
| "json_text a (JStr s) = json_string a s"
| "json_text a (JList xs) = ''['' @ intersperse_comma (map (json_text a) xs) @ '']''"
| "json_text a (JObj kvs) =
     ''{'' @ intersperse_comma (map snd (sort_key fst
        (map (\<lambda>(k, v). (k, json_string a k @ '':'' @ json_text a v)) kvs))) @ ''}''"

definition dumps :: "json \<Rightarrow> byte list" where
  "dumps v = bytes_of_string (json_text True v)"

text \<open>\<open>hashlib.sha256(json.dumps(payload, ...).encode()).hexdigest()\<close>.\<close>

definition json_sha256 :: "json \<Rightarrow> string" where
  "json_sha256 v = sha256_hex (dumps v)"

definition pairs_json :: "(string \<times> string) list \<Rightarrow> json" where
  "pairs_json kvs = JList (map (\<lambda>(k, v). JList [JStr k, JStr v]) kvs)"

fun opt_json :: "('a \<Rightarrow> json) \<Rightarrow> 'a option \<Rightarrow> json" where
  "opt_json f None = JNull"
| "opt_json f (Some x) = f x"

subsection \<open>Facts\<close>

text \<open>The order in which an object's members are supplied does not reach the text.\<close>

lemma json_text_obj_permute:
  assumes "mset kvs = mset kvs'" and "distinct (map fst kvs)"
  shows "json_text a (JObj kvs) = json_text a (JObj kvs')"
proof -
  define f where "f = (\<lambda>(k, v). (k, json_string a k @ '':'' @ json_text a v))"
  let ?s = "sort_key fst (map f kvs)"
  have "map fst (map f kvs) = map fst kvs" by (auto simp: f_def)
  then have "distinct (map fst (map f kvs))" by (simp only: assms(2))
  then have "distinct (map fst ?s)" by (metis mset_eq_imp_distinct_iff mset_map mset_sort)
  then have strict: "sorted_wrt (\<lambda>x y. fst x < fst y) ?s"
    by (metis sorted_sort_key strict_sorted_iff sorted_wrt_map)
  have "mset (map f kvs') = mset (map f kvs)" using assms(1) by (metis mset_map)
  then have "mset (map f kvs') = mset ?s" by (simp only: mset_sort)
  then have "sort_key fst (map f kvs') = ?s" using strict by (rule sort_key_eqI)
  then show ?thesis by (simp add: f_def)
qed

lemma length_json_sha256 [simp]: "length (json_sha256 v) = 64"
  by (simp add: json_sha256_def length_sha256_hex)

end
