(* ===== verification/Candles.thy ===== *)
theory Candles
  imports PyFloat
begin

section \<open>Closed bars and their canonical order (candles.py, validation.py)\<close>

text \<open>
  The immutable bar value \<open>Candle\<close> with the checks of its \<open>__post_init__\<close>, and
  \<open>canonical_candles\<close>, which every generator calls first: sort, then reject duplicates, mixed
  symbols or timeframes, non-finite values and overlapping intervals. Price and volume fields are
  doubles, as in every bar the runtime converts; timestamps are integers.
\<close>

subsection \<open>The value\<close>

record candle =
  c_symbol :: string
  c_timeframe :: string
  c_open_time_ms :: int
  c_close_time_ms :: int
  c_open :: pyfloat
  c_high :: pyfloat
  c_low :: pyfloat
  c_close :: pyfloat
  c_volume :: pyfloat
  c_quote_volume :: pyfloat
  c_taker_buy_volume :: pyfloat
  c_taker_buy_quote_volume :: pyfloat

definition candle_prices :: "candle \<Rightarrow> pyfloat list" where
  "candle_prices c = [c_open c, c_high c, c_low c, c_close c]"

definition candle_volumes :: "candle \<Rightarrow> pyfloat list" where
  "candle_volumes c =
     [c_volume c, c_quote_volume c, c_taker_buy_volume c, c_taker_buy_quote_volume c]"

text \<open>Building a \<open>Candle\<close>: the checks of \<open>__post_init__\<close>, in order.\<close>

definition make_candle :: "candle \<Rightarrow> candle result" where
  "make_candle c = validate
    [(strip (c_symbol c) = [] \<or> strip (c_timeframe c) = [],
        ValueError ''candle symbol and timeframe are required''),
     (c_open_time_ms c < 0 \<or> c_close_time_ms c \<le> c_open_time_ms c,
        ValueError ''candle timestamps must be non-negative ordered integers''),
     (\<not> list_all is_finite (candle_prices c @ candle_volumes c),
        ValueError ''candle values must be finite''),
     (fle (fmin (c_open c) [c_high c, c_low c, c_close c]) fzero,
        ValueError ''OHLC prices must be positive''),
     (fless (c_high c) (fmax (c_open c) [c_close c]) \<or> fless (fmin (c_open c) [c_close c]) (c_low c),
        ValueError ''invalid OHLC bounds''),
     (fless (fmin (c_volume c) [c_quote_volume c, c_taker_buy_volume c, c_taker_buy_quote_volume c]) fzero,
        ValueError ''volumes cannot be negative''),
     (fless (c_volume c) (c_taker_buy_volume c),
        ValueError ''taker-buy volume cannot exceed total volume''),
     (fless (c_quote_volume c) (c_taker_buy_quote_volume c),
        ValueError ''taker-buy quote volume cannot exceed total quote volume'')] c"

text \<open>The candles that can exist at run time: the constructor accepted them.\<close>

definition valid_candle :: "candle \<Rightarrow> bool" where
  "valid_candle c \<longleftrightarrow> make_candle c = Inr c"

text \<open>What the constructor guarantees, in terms of comparisons between the fields.\<close>

definition candle_wf :: "candle \<Rightarrow> bool" where
  "candle_wf c \<longleftrightarrow>
     strip (c_symbol c) \<noteq> [] \<and> strip (c_timeframe c) \<noteq> [] \<and>
     0 \<le> c_open_time_ms c \<and> c_open_time_ms c < c_close_time_ms c \<and>
     list_all is_finite (candle_prices c @ candle_volumes c) \<and>
     list_all (fless fzero) (candle_prices c) \<and>
     fle (c_open c) (c_high c) \<and> fle (c_close c) (c_high c) \<and>
     fle (c_low c) (c_open c) \<and> fle (c_low c) (c_close c) \<and>
     list_all nonneg (candle_volumes c) \<and>
     fle (c_taker_buy_volume c) (c_volume c) \<and>
     fle (c_taker_buy_quote_volume c) (c_quote_volume c)"

lemma not_NaN_finite: "list_all is_finite xs \<Longrightarrow> NaN \<notin> set xs"
  by (auto simp: list_all_iff)

lemma fmin_le_bound_iff:
  assumes "NaN \<notin> set (x # xs)"
  shows "fle (fmin x xs) b \<longleftrightarrow> (\<exists>y \<in> set (x # xs). fle y b)"
  using fmin_mem [of x xs] fmin_le [OF assms] fle_trans by blast

lemma fmin_less_bound_iff:
  assumes "NaN \<notin> set (x # xs)"
  shows "fless (fmin x xs) b \<longleftrightarrow> (\<exists>y \<in> set (x # xs). fless y b)"
  using fmin_mem [of x xs] fmin_le [OF assms] fle_less_trans by blast

lemma fmin_gt_bound_iff:
  assumes "NaN \<notin> set (x # xs)"
  shows "fless b (fmin x xs) \<longleftrightarrow> (\<forall>y \<in> set (x # xs). fless b y)"
  using fmin_mem [of x xs] fmin_le [OF assms] fless_le_trans by blast

lemma fmax_less_bound_iff:
  assumes "NaN \<notin> set (x # xs)"
  shows "fless b (fmax x xs) \<longleftrightarrow> (\<exists>y \<in> set (x # xs). fless b y)"
  using fmax_mem [of x xs] fmax_ge [OF assms] fless_le_trans by blast

lemma valid_candle_iff: "valid_candle c \<longleftrightarrow> candle_wf c"
proof (cases "list_all is_finite (candle_prices c @ candle_volumes c)")
  case False
  then show ?thesis
    by (auto simp: valid_candle_def candle_wf_def make_candle_def validate_Inr_iff)
next
  case True
  then have fin: "is_finite (c_open c)" "is_finite (c_high c)" "is_finite (c_low c)" "is_finite (c_close c)"
    "is_finite (c_volume c)" "is_finite (c_quote_volume c)" "is_finite (c_taker_buy_volume c)"
    "is_finite (c_taker_buy_quote_volume c)"
    by (auto simp: candle_prices_def candle_volumes_def)
  note nn = fin [THEN is_finite_not_NaN]
  have prices: "\<not> fle (fmin (c_open c) [c_high c, c_low c, c_close c]) fzero
      \<longleftrightarrow> list_all (fless fzero) (candle_prices c)"
    using nn by (subst fmin_le_bound_iff) (auto simp: candle_prices_def not_fle_fless)
  have vols: "\<not> fless (fmin (c_volume c) [c_quote_volume c, c_taker_buy_volume c, c_taker_buy_quote_volume c]) fzero
      \<longleftrightarrow> list_all nonneg (candle_volumes c)"
    using nn by (subst fmin_less_bound_iff) (auto simp: candle_volumes_def not_fless_fle)
  have high: "\<not> fless (c_high c) (fmax (c_open c) [c_close c])
      \<longleftrightarrow> fle (c_open c) (c_high c) \<and> fle (c_close c) (c_high c)"
    using nn by (subst fmax_less_bound_iff) (auto simp: not_fless_fle)
  have low: "\<not> fless (fmin (c_open c) [c_close c]) (c_low c)
      \<longleftrightarrow> fle (c_low c) (c_open c) \<and> fle (c_low c) (c_close c)"
    using nn by (subst fmin_less_bound_iff) (auto simp: not_fless_fle)
  have takers: "\<not> fless (c_volume c) (c_taker_buy_volume c) \<longleftrightarrow> fle (c_taker_buy_volume c) (c_volume c)"
    "\<not> fless (c_quote_volume c) (c_taker_buy_quote_volume c)
      \<longleftrightarrow> fle (c_taker_buy_quote_volume c) (c_quote_volume c)"
    using nn by (simp_all add: not_fless_fle)
  show ?thesis
    using True
    by (simp add: valid_candle_def candle_wf_def make_candle_def validate_Inr_iff prices vols high low takers
        not_less not_le)
qed

lemma make_candle_Inr: "make_candle c = Inr c' \<Longrightarrow> c' = c \<and> valid_candle c"
  by (simp add: valid_candle_def make_candle_def validate_Inr_iff)

subsection \<open>canonical_candles\<close>

type_synonym candle_key = "int \<times> int \<times> string \<times> string"

definition candle_key :: "candle \<Rightarrow> candle_key" where
  "candle_key c = (c_open_time_ms c, c_close_time_ms c, c_symbol c, c_timeframe c)"

text \<open>The loop over the sorted rows, with the previous row as its state.\<close>

fun scan_candles :: "string \<Rightarrow> string \<Rightarrow> candle option \<Rightarrow> candle list \<Rightarrow> py_error option" where
  "scan_candles symb tf previous [] = None"
| "scan_candles symb tf previous (c # cs) =
     (if \<not> list_all is_finite
            [c_open c, c_high c, c_low c, c_close c, c_volume c, c_quote_volume c, c_taker_buy_volume c]
      then Some (ValueError ''candle values must be finite'')
      else if c_symbol c \<noteq> symb
      then Some (ValueError ''one evaluation cannot mix candle symbols'')
      else if c_timeframe c \<noteq> tf
      then Some (ValueError (''expected '' @ tf @ '' candles, received '' @ c_timeframe c))
      else case previous of
        None \<Rightarrow> scan_candles symb tf (Some c) cs
      | Some p \<Rightarrow>
          (if c_open_time_ms c = c_open_time_ms p
           then Some (ValueError (''duplicate candle open timestamp '' @ str_int (c_open_time_ms c)))
           else if c_open_time_ms c \<le> c_close_time_ms p
           then Some (ValueError ''candle intervals cannot overlap'')
           else scan_candles symb tf (Some c) cs))"

text \<open>\<open>expected_timeframe or ordered[0].timeframe\<close>: an empty string counts as absent.\<close>

definition resolve_timeframe :: "string option \<Rightarrow> candle \<Rightarrow> string" where
  "resolve_timeframe expected first =
     (case expected of Some tf \<Rightarrow> (if tf = [] then c_timeframe first else tf)
                     | None \<Rightarrow> c_timeframe first)"

text \<open>\<open>canonical_candles(candles, expected_timeframe=...)\<close>.\<close>

definition canonical_candles :: "candle list \<Rightarrow> string option \<Rightarrow> candle list result" where
  "canonical_candles candles expected_timeframe =
     (case sort_key candle_key candles of
        [] \<Rightarrow> Inr []
      | first # rest \<Rightarrow>
          (case scan_candles (c_symbol first) (resolve_timeframe expected_timeframe first) None
                  (first # rest) of
             Some e \<Rightarrow> Inl e
           | None \<Rightarrow> Inr (first # rest)))"

text \<open>What the scan accepts, given the row before.\<close>

definition row_ok :: "string \<Rightarrow> string \<Rightarrow> candle \<Rightarrow> bool" where
  "row_ok symb tf c \<longleftrightarrow>
     list_all is_finite
       [c_open c, c_high c, c_low c, c_close c, c_volume c, c_quote_volume c, c_taker_buy_volume c] \<and>
     c_symbol c = symb \<and> c_timeframe c = tf"

definition candle_before :: "candle \<Rightarrow> candle \<Rightarrow> bool" where
  "candle_before p c \<longleftrightarrow> c_open_time_ms c \<noteq> c_open_time_ms p \<and> c_close_time_ms p < c_open_time_ms c"

lemma scan_candles_None_iff:
  "scan_candles symb tf prev cs = None \<longleftrightarrow>
     list_all (row_ok symb tf) cs \<and>
     successively candle_before (case prev of None \<Rightarrow> cs | Some p \<Rightarrow> p # cs)"
proof (induction cs arbitrary: prev)
  case Nil
  then show ?case by (cases prev) auto
next
  case (Cons c cs)
  show ?case
    by (cases prev) (auto simp: Cons.IH row_ok_def candle_before_def)
qed

lemma canonical_candles_Inr_iff:
  "canonical_candles xs tf = Inr ys \<longleftrightarrow>
     ys = sort_key candle_key xs \<and> successively candle_before ys \<and>
     (ys \<noteq> [] \<longrightarrow> list_all (row_ok (c_symbol (hd ys)) (resolve_timeframe tf (hd ys))) ys)"
proof (cases "sort_key candle_key xs")
  case (Cons a as)
  have "scan_candles (c_symbol a) (resolve_timeframe tf a) None (a # as) = None \<longleftrightarrow>
      list_all (row_ok (c_symbol a) (resolve_timeframe tf a)) (a # as) \<and> successively candle_before (a # as)"
    by (simp only: scan_candles_None_iff option.case)
  then show ?thesis
    by (cases "scan_candles (c_symbol a) (resolve_timeframe tf a) None (a # as)")
      (auto simp: canonical_candles_def Cons simp del: scan_candles.simps)
qed (auto simp: canonical_candles_def)

lemma candle_before_trans:
  assumes "list_all (\<lambda>c. c_open_time_ms c < c_close_time_ms c) xs" and "successively candle_before xs"
  shows "sorted_wrt candle_before xs"
  using assms
proof (induction xs)
  case (Cons x xs)
  then have IH: "sorted_wrt candle_before xs" by (cases xs) auto
  show ?case
  proof (cases xs)
    case (Cons y ys)
    with Cons.prems have xy: "candle_before x y" and y: "c_open_time_ms y < c_close_time_ms y"
      and x: "c_open_time_ms x < c_close_time_ms x" by auto
    have "candle_before x z" if "z \<in> set ys" for z
      using that IH Cons xy x y by (force simp: candle_before_def)
    with xy IH Cons show ?thesis by auto
  qed simp
qed simp

text \<open>Successive rows of any input have increasing opens once the scan has accepted them.\<close>

lemma scan_open_increasing:
  assumes "sorted (map candle_key ys)" and "successively candle_before ys"
  shows "sorted_wrt (\<lambda>a b. c_open_time_ms a < c_open_time_ms b) ys"
proof -
  have "successively (\<lambda>a b. c_open_time_ms a < c_open_time_ms b) ys"
    using assms
  proof (induction ys)
    case (Cons x xs)
    then show ?case
    proof (cases xs)
      case (Cons y ys)
      with Cons.prems have "candle_key x \<le> candle_key y" "candle_before x y" by auto
      then have "c_open_time_ms x < c_open_time_ms y"
        by (auto simp: candle_key_def candle_before_def less_eq_prod_def less_prod_def)
      with Cons.IH Cons.prems Cons show ?thesis by auto
    qed simp
  qed simp
  then show ?thesis by (simp add: successively_sorted_less)
qed

lemma canonical_candles_strict:
  assumes "canonical_candles xs tf = Inr ys"
  shows "sorted_wrt (\<lambda>a b. c_open_time_ms a < c_open_time_ms b) ys"
  using assms unfolding canonical_candles_Inr_iff by (metis scan_open_increasing sorted_sort_key)

interpretation candles: canonical_order candle_key "\<lambda>xs. canonical_candles xs tf" for tf
proof
  fix xs ys
  assume ok: "canonical_candles xs tf = Inr ys"
  then show "ys = sort_key candle_key xs" by (simp add: canonical_candles_Inr_iff)
  show "sorted_wrt (\<lambda>a b. candle_key a < candle_key b) ys"
    by (rule sorted_wrt_mono_rel [OF _ canonical_candles_strict [OF ok]])
      (auto simp: candle_key_def less_prod_def)
next
  fix xs show "canonical_candles xs tf = canonical_candles (sort_key candle_key xs) tf"
    by (simp add: canonical_candles_def sort_key_id_if_sorted)
qed

lemma canonical_candles_rows:
  assumes "canonical_candles xs tf = Inr ys" and "c \<in> set ys"
  shows "row_ok (c_symbol (hd ys)) (resolve_timeframe tf (hd ys)) c"
proof -
  have "ys \<noteq> []" using assms(2) by auto
  then show ?thesis using assms unfolding canonical_candles_Inr_iff list_all_iff by blast
qed

lemma canonical_candles_timeframe:
  "canonical_candles xs (Some t) = Inr ys \<Longrightarrow> t \<noteq> [] \<Longrightarrow> c \<in> set ys \<Longrightarrow> c_timeframe c = t"
  by (drule (1) canonical_candles_rows) (simp add: row_ok_def resolve_timeframe_def)

lemma canonical_candles_symbol:
  "canonical_candles xs tf = Inr ys \<Longrightarrow> c \<in> set ys \<Longrightarrow> c_symbol c = c_symbol (hd ys)"
  by (drule (1) canonical_candles_rows) (simp add: row_ok_def)

lemma canonical_candles_Nil [simp]: "canonical_candles [] tf = Inr []"
  by (simp add: canonical_candles_def)

subsection \<open>Properties\<close>

text \<open>A window of minute bars, for the witnesses.\<close>

definition sample_minute :: "int \<Rightarrow> candle" where
  "sample_minute i =
    \<lparr>c_symbol = ''BTCUSDT'', c_timeframe = ''1m'', c_open_time_ms = 60000 * i,
     c_close_time_ms = 60000 * i + 59999, c_open = Num 100, c_high = Num (101 + of_int i), c_low = Num 99,
     c_close = Num 100, c_volume = Num 2, c_quote_volume = Num 200, c_taker_buy_volume = Num 1,
     c_taker_buy_quote_volume = Num 100\<rparr>"

definition sample_minutes :: "int \<Rightarrow> int \<Rightarrow> candle list" where
  "sample_minutes i j = map sample_minute [i..j]"

lemma sample_canonical:
  "canonical_candles (sample_minutes 0 2) (Some ''1m'') = Inr (sample_minutes 0 2)"
  "canonical_candles (sample_minutes 0 3) (Some ''1m'') = Inr (sample_minutes 0 3)"
  by code_simp+

text \<open>
  The order in which bars arrive is irrelevant and canonicalising is idempotent; the
  result has strictly increasing opens and is a rearrangement of the input.
\<close>

theorem canonical_candles_canonical:
  assumes "canonical_candles xs tf = Inr zs"
  shows "mset zs = mset xs \<and> sorted_wrt (\<lambda>a b. c_open_time_ms a < c_open_time_ms b) zs \<and>
    canonical_candles zs tf = Inr zs \<and>
    (mset ys = mset xs \<longrightarrow> canonical_candles ys tf = Inr zs)"
  using assms candles.canon_mset candles.canon_permute candles.canon_idempotent canonical_candles_strict
  by blast

theorem canonical_candles_canonical_witness:
  "canonical_candles (rev (sample_minutes 0 3)) (Some ''1m'') = Inr (sample_minutes 0 3)"
  using canonical_candles_canonical [OF sample_canonical(2), of "rev (sample_minutes 0 3)"] by simp

end
