(* ===== verification/Timeframes.thy ===== *)
theory Timeframes
  imports Candles
begin

section \<open>Aggregation of minute bars into complete frames (timeframes.py)\<close>

text \<open>
  \<open>aggregate\<close> groups canonical one-minute candles by UTC-aligned bucket and emits one candle per
  complete bucket; incomplete and gapped buckets are dropped. The dictionary of buckets is an
  association list in insertion order, sorted by its key afterwards as in the source. The lemmas
  characterise the buckets, show that a frame never depends on later minutes, and that on valid
  input the only exception left is the overflow of a volume sum.
\<close>

definition timeframe_table :: "(string \<times> int) list" where
  "timeframe_table =
    [(''1m'', 60000), (''3m'', 180000), (''5m'', 300000), (''15m'', 900000), (''30m'', 1800000),
     (''1h'', 3600000), (''2h'', 7200000), (''4h'', 14400000), (''1d'', 86400000)]"

definition timeframe_ms :: "string \<Rightarrow> int option" where
  "timeframe_ms tf = map_of timeframe_table tf"

definition is_minute_bar :: "candle \<Rightarrow> bool" where
  "is_minute_bar c \<longleftrightarrow>
     c_open_time_ms c mod 60000 = 0 \<and> c_close_time_ms c = c_open_time_ms c + 59999"

text \<open>\<open>buckets[key].append(row)\<close> on the default dictionary.\<close>

fun bucket_add :: "int \<Rightarrow> 'a \<Rightarrow> (int \<times> 'a list) list \<Rightarrow> (int \<times> 'a list) list" where
  "bucket_add k r [] = [(k, [r])]"
| "bucket_add k r ((k', rs) # bs) =
     (if k = k' then (k', rs @ [r]) # bs else (k', rs) # bucket_add k r bs)"

definition bucket_key :: "int \<Rightarrow> candle \<Rightarrow> int" where
  "bucket_key sz c = c_open_time_ms c div sz * sz"

definition buckets :: "int \<Rightarrow> candle list \<Rightarrow> (int \<times> candle list) list" where
  "buckets sz rows = foldl (\<lambda>bs c. bucket_add (bucket_key sz c) c bs) [] rows"

definition bucket_skipped :: "int \<Rightarrow> candle list \<Rightarrow> bool" where
  "bucket_skipped expected rows \<longleftrightarrow>
     int (length rows) \<noteq> expected \<or>
     list_ex (\<lambda>(a, b). c_open_time_ms b - c_open_time_ms a \<noteq> 60000) (adjacent rows)"

text \<open>The candle built from the rows of one bucket.\<close>

definition merged_candle :: "string \<Rightarrow> int \<Rightarrow> int \<Rightarrow> candle \<Rightarrow> candle list \<Rightarrow> candle" where
  "merged_candle tf sz opened first rest =
    \<lparr>c_symbol = c_symbol first,
     c_timeframe = tf,
     c_open_time_ms = opened,
     c_close_time_ms = opened + sz - 1,
     c_open = c_open first,
     c_high = fmax (c_high first) (map c_high rest),
     c_low = fmin (c_low first) (map c_low rest),
     c_close = c_close (last (first # rest)),
     c_volume = fsum_builtin (map c_volume (first # rest)),
     c_quote_volume = fsum_builtin (map c_quote_volume (first # rest)),
     c_taker_buy_volume = fsum_builtin (map c_taker_buy_volume (first # rest)),
     c_taker_buy_quote_volume = fsum_builtin (map c_taker_buy_quote_volume (first # rest))\<rparr>"

fun merge_rows :: "string \<Rightarrow> int \<Rightarrow> int \<Rightarrow> candle list \<Rightarrow> candle result" where
  "merge_rows tf sz opened [] = Inl (IndexError ''list index out of range'')"
| "merge_rows tf sz opened (first # rest) = make_candle (merged_candle tf sz opened first rest)"

definition emit_bucket :: "string \<Rightarrow> int \<Rightarrow> int \<times> candle list \<Rightarrow> candle list result" where
  "emit_bucket tf sz kr =
     (if bucket_skipped (sz div 60000) (snd kr) then Inr []
      else rmap (\<lambda>c. [c]) (merge_rows tf sz (fst kr) (snd kr)))"

definition aggregate :: "candle list \<Rightarrow> string \<Rightarrow> candle list result" where
  "aggregate candles tf =
     (case timeframe_ms tf of
        None \<Rightarrow> Inl (ValueError (''unsupported aggregate timeframe '' @ repr_str tf))
      | Some sz \<Rightarrow>
          if tf = ''1m'' then Inl (ValueError (''unsupported aggregate timeframe '' @ repr_str tf))
          else rbind (canonical_candles candles (Some ''1m'')) (\<lambda>ordered.
            if list_ex (\<lambda>c. \<not> is_minute_bar c) ordered
            then Inl (ValueError ''source candles must be aligned, closed one-minute intervals'')
            else extend_all (emit_bucket tf sz) (sort_key fst (buckets sz ordered))))"

text \<open>\<open>build_timeframes\<close>: every frame of the table, in its order.\<close>

definition build_timeframes :: "candle list \<Rightarrow> (string \<times> candle list) list result" where
  "build_timeframes candles =
     rbind (canonical_candles candles (Some ''1m'')) (\<lambda>ordered.
       traverse (\<lambda>tf. rmap (\<lambda>rows. (tf, rows)) (if tf = ''1m'' then Inr ordered else aggregate ordered tf))
         (map fst timeframe_table))"

subsection \<open>The buckets\<close>

lemma bucket_add_keys: "fst ` set (bucket_add k r bs) = insert k (fst ` set bs)"
  by (induction k r bs rule: bucket_add.induct) auto

lemma bucket_add_distinct: "distinct (map fst bs) \<Longrightarrow> distinct (map fst (bucket_add k r bs))"
proof (induction k r bs rule: bucket_add.induct)
  case (2 k r k' rs bs)
  have "k' \<notin> fst ` set bs" using "2.prems" by auto
  then show ?case using 2 bucket_add_keys [of k r bs] by auto
qed simp

lemma bucket_add_lookup:
  "map_of (bucket_add k r bs) j =
     (if j = k then Some ((case map_of bs k of None \<Rightarrow> [] | Some rs \<Rightarrow> rs) @ [r]) else map_of bs j)"
  by (induction k r bs rule: bucket_add.induct) auto

lemma buckets_spec:
  "distinct (map fst (buckets sz rows)) \<and>
   fst ` set (buckets sz rows) = bucket_key sz ` set rows \<and>
   (\<forall>k. map_of (buckets sz rows) k =
     (if k \<in> bucket_key sz ` set rows then Some (filter (\<lambda>c. bucket_key sz c = k) rows) else None))"
proof (induction rows rule: rev_induct)
  case (snoc c rows)
  have snoc_eq: "buckets sz (rows @ [c]) = bucket_add (bucket_key sz c) c (buckets sz rows)"
    by (simp add: buckets_def)
  have "map_of (buckets sz (rows @ [c])) k =
      (if k \<in> bucket_key sz ` set (rows @ [c])
       then Some (filter (\<lambda>x. bucket_key sz x = k) (rows @ [c])) else None)" for k
  proof (cases "bucket_key sz c \<in> bucket_key sz ` set rows")
    case True
    then show ?thesis using snoc.IH by (auto simp: snoc_eq bucket_add_lookup)
  next
    case False
    then have "filter (\<lambda>x. bucket_key sz x = bucket_key sz c) rows = []"
      by (auto simp: filter_empty_conv) (metis image_eqI)
    with False show ?thesis using snoc.IH by (auto simp: snoc_eq bucket_add_lookup)
  qed
  moreover have "fst ` set (buckets sz (rows @ [c])) = bucket_key sz ` set (rows @ [c])"
    using snoc.IH by (simp add: snoc_eq bucket_add_keys)
  moreover have "distinct (map fst (buckets sz (rows @ [c])))"
    using snoc.IH by (simp add: snoc_eq bucket_add_distinct)
  ultimately show ?case by blast
qed (simp add: buckets_def)

definition bucket_keys :: "int \<Rightarrow> candle list \<Rightarrow> int list" where
  "bucket_keys sz rows = sorted_list_of_set (bucket_key sz ` set rows)"

definition bucket_rows :: "int \<Rightarrow> candle list \<Rightarrow> int \<Rightarrow> candle list" where
  "bucket_rows sz rows k = filter (\<lambda>c. bucket_key sz c = k) rows"

lemma sorted_buckets:
  "sort_key fst (buckets sz rows) = map (\<lambda>k. (k, bucket_rows sz rows k)) (bucket_keys sz rows)"
proof (rule sort_key_eqI)
  let ?bs = "map (\<lambda>k. (k, bucket_rows sz rows k)) (bucket_keys sz rows)"
  have dist: "distinct (map fst (buckets sz rows))" using buckets_spec by blast
  have keys: "set (bucket_keys sz rows) = bucket_key sz ` set rows" by (simp add: bucket_keys_def)
  have "set (buckets sz rows) = set ?bs"
  proof -
    have "(k, rs) \<in> set (buckets sz rows) \<longleftrightarrow> map_of (buckets sz rows) k = Some rs" for k rs
      using dist by simp
    then show ?thesis using buckets_spec [of sz rows] keys by (auto simp: bucket_rows_def split: if_splits)
  qed
  moreover have "distinct (buckets sz rows)" using dist by (simp add: distinct_map)
  moreover have "distinct ?bs" by (simp add: bucket_keys_def distinct_map inj_on_def)
  ultimately show "mset (buckets sz rows) = mset ?bs" by (metis set_eq_iff_mset_eq_distinct)
  show "sorted_wrt (\<lambda>a b. fst a < fst b) ?bs" by (simp add: bucket_keys_def sorted_wrt_map)
qed

lemma bucket_skipped_iff:
  "\<not> bucket_skipped e rows \<longleftrightarrow>
     int (length rows) = e \<and> successively (\<lambda>a b. c_open_time_ms b - c_open_time_ms a = 60000) rows"
  by (simp add: bucket_skipped_def list_ex_adjacent)

text \<open>The complete form of a successful aggregation.\<close>

definition emitted :: "string \<Rightarrow> int \<Rightarrow> candle list \<Rightarrow> int \<Rightarrow> candle list result" where
  "emitted tf sz rows k = emit_bucket tf sz (k, bucket_rows sz rows k)"

lemma traverse_map: "traverse f (map g xs) = traverse (\<lambda>x. f (g x)) xs"
  by (induction xs) auto

lemma aggregate_eq:
  assumes "timeframe_ms tf = Some sz" and "tf \<noteq> ''1m''"
    and "canonical_candles xs (Some ''1m'') = Inr ordered" and "list_all is_minute_bar ordered"
  shows "aggregate xs tf = extend_all (emitted tf sz ordered) (bucket_keys sz ordered)"
  using assms
  by (simp add: aggregate_def list_ex_iff list_all_iff sorted_buckets extend_all_def traverse_map
      emitted_def [abs_def])

lemma aggregate_InrE:
  assumes "aggregate xs tf = Inr bs"
  obtains sz ordered where "timeframe_ms tf = Some sz" "tf \<noteq> ''1m''"
    "canonical_candles xs (Some ''1m'') = Inr ordered" "list_all is_minute_bar ordered"
    "extend_all (emitted tf sz ordered) (bucket_keys sz ordered) = Inr bs"
proof -
  from assms obtain sz ordered where s: "timeframe_ms tf = Some sz" "tf \<noteq> ''1m''"
    and o: "canonical_candles xs (Some ''1m'') = Inr ordered"
    and "\<not> list_ex (\<lambda>c. \<not> is_minute_bar c) ordered"
    by (auto simp: aggregate_def rbind_Inr_iff split: option.splits if_splits)
  then have m: "list_all is_minute_bar ordered" by (simp add: list_ex_iff list_all_iff)
  show ?thesis using that [OF s o m] assms aggregate_eq [OF s o m] by simp
qed

text \<open>Frame lengths are whole numbers of minutes.\<close>

lemma timeframe_ms_cases:
  assumes "timeframe_ms tf = Some sz"
  shows "0 < sz \<and> sz mod 60000 = 0 \<and> strip tf \<noteq> []"
proof -
  have "list_all (\<lambda>(t, s). 0 < s \<and> s mod 60000 = 0 \<and> strip t \<noteq> []) timeframe_table"
    by code_simp
  moreover have "(tf, sz) \<in> set timeframe_table"
    using assms by (simp add: timeframe_ms_def map_of_SomeD)
  ultimately show ?thesis by (auto simp: list_all_iff)
qed

subsection \<open>What a complete bucket contains\<close>

lemma consecutive_opens:
  "successively (\<lambda>a b. c_open_time_ms b - c_open_time_ms a = 60000) rows \<Longrightarrow> i < length rows \<Longrightarrow>
     c_open_time_ms (rows ! i) = c_open_time_ms (rows ! 0) + int i * 60000"
proof (induction i)
  case (Suc i)
  then have "c_open_time_ms (rows ! Suc i) - c_open_time_ms (rows ! i) = 60000"
    using Suc.prems unfolding successively_conv_nth by blast
  moreover have "c_open_time_ms (rows ! i) = c_open_time_ms (rows ! 0) + int i * 60000"
    using Suc by simp
  ultimately show ?case by simp
qed simp

lemma complete_bucket:
  assumes sz: "timeframe_ms tf = Some sz" and min: "list_all is_minute_bar rows"
    and full: "\<not> bucket_skipped (sz div 60000) (bucket_rows sz rows k)"
  shows "bucket_rows sz rows k \<noteq> []" and "k mod sz = 0"
    and "c_open_time_ms (bucket_rows sz rows k ! 0) = k"
    and "\<And>i. i < length (bucket_rows sz rows k) \<Longrightarrow>
           c_open_time_ms (bucket_rows sz rows k ! i) = k + int i * 60000"
    and "int (length (bucket_rows sz rows k)) * 60000 = sz"
proof -
  let ?rs = "bucket_rows sz rows k"
  have s: "0 < sz" "sz mod 60000 = 0" using timeframe_ms_cases [OF sz] by auto
  from full have len: "int (length ?rs) = sz div 60000"
    and succ: "successively (\<lambda>a b. c_open_time_ms b - c_open_time_ms a = 60000) ?rs"
    by (simp_all add: bucket_skipped_iff)
  show ms: "int (length ?rs) * 60000 = sz" using len s by (simp add: mult_div_mod_eq mod_0_imp_dvd)
  then show ne: "?rs \<noteq> []" using s by auto
  have in_bucket: "c \<in> set ?rs \<Longrightarrow> bucket_key sz c = k" for c by (simp add: bucket_rows_def)
  have key: "bucket_key sz (?rs ! 0) = k" "bucket_key sz (last ?rs) = k"
    using ne by (simp_all add: in_bucket)
  then show k: "k mod sz = 0" by (metis bucket_key_def mod_mult_self2_is_0)
  let ?o = "c_open_time_ms (?rs ! 0)"
  have last: "c_open_time_ms (last ?rs) = ?o + (sz - 60000)"
    using consecutive_opens [OF succ, of "length ?rs - 1"] ne ms
    by (cases ?rs) (auto simp: last_conv_nth of_nat_diff algebra_simps)
  have floor: "k \<le> c_open_time_ms c \<and> c_open_time_ms c < k + sz" if "bucket_key sz c = k" for c
    using that s(1) pos_mod_bound [OF s(1), of "c_open_time_ms c"] pos_mod_sign [OF s(1), of "c_open_time_ms c"]
      div_mult_mod_eq [of "c_open_time_ms c" sz]
    by (auto simp: bucket_key_def)
  have lo: "k \<le> ?o" and hi: "?o < k + 60000" using floor [OF key(1)] floor [OF key(2)] last by auto
  have "?rs ! 0 \<in> set rows" using ne by (metis bucket_rows_def filter_is_subset length_greater_0_conv nth_mem subsetD)
  then have "?o mod 60000 = 0" using min by (auto simp: list_all_iff is_minute_bar_def)
  moreover have "k mod 60000 = 0" using k s(2) by (metis mod_0_imp_dvd dvd_trans dvd_imp_mod_0)
  ultimately have "(?o - k) mod 60000 = 0" by (simp add: mod_diff_eq [symmetric])
  moreover have "0 \<le> ?o - k" "?o - k < 60000" using lo hi by auto
  ultimately show o: "?o = k" by (simp add: mod_pos_pos_trivial)
  show "c_open_time_ms (?rs ! i) = k + int i * 60000" if "i < length ?rs" for i
    using consecutive_opens [OF succ that] o by simp
qed

lemma emitted_cases:
  assumes "emitted tf sz rows k = Inr zs"
  shows "zs = [] \<or> (\<exists>first rest. \<not> bucket_skipped (sz div 60000) (bucket_rows sz rows k) \<and>
    bucket_rows sz rows k = first # rest \<and> zs = [merged_candle tf sz k first rest])"
  using assms
  by (cases "bucket_rows sz rows k")
    (auto simp: emitted_def emit_bucket_def rmap_Inr_iff dest!: make_candle_Inr split: if_splits)

lemma bucket_keys_strict: "sorted_wrt (<) (bucket_keys sz rows)"
  by (simp add: bucket_keys_def)

subsection \<open>The emitted frames\<close>

theorem aggregate_strict:
  assumes "aggregate xs tf = Inr bs"
  shows "sorted_wrt (\<lambda>a b. c_open_time_ms a < c_open_time_ms b) bs"
proof -
  from assms obtain sz ordered where
    e: "extend_all (emitted tf sz ordered) (bucket_keys sz ordered) = Inr bs"
    by (elim aggregate_InrE)
  show ?thesis
    by (rule extend_all_keyed [OF e bucket_keys_strict, THEN conjunct1])
      (auto simp: merged_candle_def dest!: emitted_cases)
qed

lemma aggregate_member:
  assumes "aggregate xs tf = Inr bs" and "b \<in> set bs"
  obtains sz ordered first rest where "timeframe_ms tf = Some sz"
    "canonical_candles xs (Some ''1m'') = Inr ordered" "list_all is_minute_bar ordered"
    "bucket_rows sz ordered (c_open_time_ms b) = first # rest"
    "\<not> bucket_skipped (sz div 60000) (first # rest)"
    "b = merged_candle tf sz (c_open_time_ms b) first rest" "valid_candle b"
proof -
  from assms(1) obtain sz ordered where s: "timeframe_ms tf = Some sz"
    "canonical_candles xs (Some ''1m'') = Inr ordered" "list_all is_minute_bar ordered"
    and e: "extend_all (emitted tf sz ordered) (bucket_keys sz ordered) = Inr bs"
    by (elim aggregate_InrE)
  from extend_all_mem [OF e assms(2)] obtain k zs where
    k: "emitted tf sz ordered k = Inr zs" "b \<in> set zs" by blast
  from emitted_cases [OF k(1)] k(2) obtain first rest where
    r: "\<not> bucket_skipped (sz div 60000) (bucket_rows sz ordered k)" "bucket_rows sz ordered k = first # rest"
    and b: "zs = [merged_candle tf sz k first rest]" by auto
  have "b = merged_candle tf sz k first rest" using b k(2) by simp
  moreover from this have "c_open_time_ms b = k" by (simp add: merged_candle_def)
  moreover have "valid_candle b"
    using k r b by (auto simp: emitted_def emit_bucket_def rmap_Inr_iff dest!: make_candle_Inr)
  ultimately show ?thesis using that [OF s] r by simp
qed

lemma bucket_rows_range:
  assumes "0 < sz" and "k mod sz = 0"
  shows "bucket_rows sz rows k =
    filter (\<lambda>c. k \<le> c_open_time_ms c \<and> c_open_time_ms c < k + sz) rows"
proof -
  obtain j where k: "k = sz * j" using assms(2) by auto
  have "bucket_key sz c = k \<longleftrightarrow> k \<le> c_open_time_ms c \<and> c_open_time_ms c < k + sz" for c
  proof -
    let ?t = "c_open_time_ms c"
    have "bucket_key sz c = k \<longleftrightarrow> ?t div sz = j" using assms(1) by (simp add: bucket_key_def k mult.commute)
    also have "\<dots> \<longleftrightarrow> sz * j \<le> ?t \<and> ?t < sz * j + sz"
    proof
      assume j: "?t div sz = j"
      have "?t = sz * j + ?t mod sz" unfolding j [symmetric] by simp
      then show "sz * j \<le> ?t \<and> ?t < sz * j + sz"
        using pos_mod_bound [OF assms(1), of ?t] pos_mod_sign [OF assms(1), of ?t] by linarith
    next
      assume "sz * j \<le> ?t \<and> ?t < sz * j + sz"
      then show "?t div sz = j" by (intro int_div_pos_eq [of _ _ _ "?t - sz * j"]) auto
    qed
    finally show ?thesis by (simp add: k)
  qed
  then show ?thesis by (simp add: bucket_rows_def)
qed

lemma aggregate_frame_rows:
  assumes "aggregate xs tf = Inr bs" and "timeframe_ms tf = Some sz"
    and "canonical_candles xs (Some ''1m'') = Inr ordered" and "b \<in> set bs"
  shows "\<exists>first rest.
     filter (\<lambda>c. c_open_time_ms b \<le> c_open_time_ms c \<and> c_open_time_ms c < c_open_time_ms b + sz) ordered
       = first # rest \<and>
     int (length (first # rest)) * 60000 = sz \<and>
     (\<forall>i < length (first # rest). c_open_time_ms ((first # rest) ! i) = c_open_time_ms b + int i * 60000) \<and>
     c_open_time_ms b mod sz = 0 \<and>
     b = merged_candle tf sz (c_open_time_ms b) first rest"
proof -
  from assms(1,4) obtain sz' ordered' first rest where m: "timeframe_ms tf = Some sz'"
    "canonical_candles xs (Some ''1m'') = Inr ordered'" "list_all is_minute_bar ordered'"
    and rows: "bucket_rows sz' ordered' (c_open_time_ms b) = first # rest"
    and full: "\<not> bucket_skipped (sz' div 60000) (first # rest)"
    and b: "b = merged_candle tf sz' (c_open_time_ms b) first rest"
    by (elim aggregate_member)
  have eq: "sz' = sz" "ordered' = ordered" using m assms by auto
  have full': "\<not> bucket_skipped (sz div 60000) (bucket_rows sz ordered (c_open_time_ms b))"
    using full rows eq by simp
  note c = complete_bucket [OF assms(2) _ full', unfolded rows [unfolded eq]]
  have r: "bucket_rows sz ordered (c_open_time_ms b) =
      filter (\<lambda>c. c_open_time_ms b \<le> c_open_time_ms c \<and> c_open_time_ms c < c_open_time_ms b + sz) ordered"
    using c(2) m(3) eq timeframe_ms_cases [OF assms(2)] by (intro bucket_rows_range) auto
  show ?thesis
    using c m(3) eq b rows by (intro exI [of _ first] exI [of _ rest]) (simp add: r [symmetric])
qed

subsection \<open>No look-ahead\<close>

lemma later_rows_keep_complete_bucket:
  assumes sz: "timeframe_ms tf = Some sz" and min: "list_all is_minute_bar (xs @ ys)"
    and order: "sorted_wrt (\<lambda>a b. c_open_time_ms a < c_open_time_ms b) (xs @ ys)"
    and full: "\<not> bucket_skipped (sz div 60000) (bucket_rows sz xs k)"
  shows "bucket_rows sz (xs @ ys) k = bucket_rows sz xs k"
proof -
  let ?rs = "bucket_rows sz xs k"
  have pos: "0 < sz" "sz mod 60000 = 0" using timeframe_ms_cases [OF sz] by auto
  have minx: "list_all is_minute_bar xs" using min by simp
  note c = complete_bucket [OF sz minx full]
  have "bucket_key sz y \<noteq> k" if y: "y \<in> set ys" for y
  proof
    assume "bucket_key sz y = k"
    then have "y \<in> set (bucket_rows sz (xs @ ys) k)" using y by (simp add: bucket_rows_def)
    then have up: "c_open_time_ms y < k + sz" using bucket_rows_range [OF pos(1) c(2)] by auto
    have "last ?rs \<in> set xs" using c(1) by (metis bucket_rows_def filter_is_subset last_in_set subsetD)
    then have "c_open_time_ms (last ?rs) < c_open_time_ms y" using order y by (auto simp: sorted_wrt_append)
    moreover have "c_open_time_ms (last ?rs) = k + (sz - 60000)"
    proof -
      have len: "0 < length ?rs" using c(1) by simp
      then have "int (length ?rs - 1) = int (length ?rs) - 1" by linarith
      with len show ?thesis
        using c(4) [of "length ?rs - 1"] c(5) by (simp add: last_conv_nth del: One_nat_def)
    qed
    moreover have "c_open_time_ms y mod 60000 = 0" "k mod 60000 = 0"
      using min y c(2) pos(2) by (auto simp: list_all_iff is_minute_bar_def)
    ultimately have "60000 dvd c_open_time_ms y" "60000 dvd k" "60000 dvd sz"
      and low: "k + (sz - 60000) < c_open_time_ms y"
      using pos(2) by (simp_all add: mod_eq_0_iff_dvd)
    then obtain a b s where "c_open_time_ms y = 60000 * a" "k = 60000 * b" "sz = 60000 * s"
      by (auto elim!: dvdE)
    with low up have "b + s - 1 < a" "a < b + s" by linarith+
    then show False by linarith
  qed
  then show ?thesis by (auto simp: bucket_rows_def filter_empty_conv)
qed

lemma bucket_key_mono: "0 < sz \<Longrightarrow> c_open_time_ms a \<le> c_open_time_ms b \<Longrightarrow> bucket_key sz a \<le> bucket_key sz b"
  by (simp add: bucket_key_def zdiv_mono1 mult_right_mono)

lemma bucket_keys_append:
  assumes "0 < sz" and "sorted_wrt (\<lambda>a b. c_open_time_ms a < c_open_time_ms b) (xs @ ys)"
  shows "\<exists>new. bucket_keys sz (xs @ ys) = bucket_keys sz xs @ new"
proof -
  let ?X = "bucket_key sz ` set xs" and ?N = "bucket_key sz ` set ys - bucket_key sz ` set xs"
  have "x < n" if "x \<in> ?X" "n \<in> ?N" for x n
  proof -
    from that obtain a b where a: "a \<in> set xs" "x = bucket_key sz a" and b: "b \<in> set ys" "n = bucket_key sz b"
      by auto
    then have "c_open_time_ms a \<le> c_open_time_ms b" using assms(2) by (auto simp: sorted_wrt_append less_imp_le)
    then have "x \<le> n" using a b assms(1) bucket_key_mono by blast
    moreover have "x \<noteq> n" using that by blast
    ultimately show "x < n" by simp
  qed
  then have "sorted_list_of_set (?X \<union> ?N) = sorted_list_of_set ?X @ sorted_list_of_set ?N"
    by (intro sorted_list_of_set_append) auto
  moreover have "bucket_key sz ` set (xs @ ys) = ?X \<union> ?N" by auto
  ultimately show ?thesis by (simp add: bucket_keys_def image_Un)
qed

text \<open>A prefix of ordered minutes is ordered.\<close>

lemma canonical_prefix:
  assumes canon: "canonical_candles (xs @ ys) (Some ''1m'') = Inr (xs @ ys)"
  shows "canonical_candles xs (Some ''1m'') = Inr xs"
proof -
  have "sorted_wrt (\<lambda>a b. candle_key a < candle_key b) xs"
    using candles.canon_strict [OF canon] by (simp add: sorted_wrt_append)
  then have "sort_key candle_key xs = xs" by (rule sort_key_eqI [OF refl])
  moreover have "successively candle_before xs" using canon
    by (simp add: canonical_candles_Inr_iff successively_append_iff)
  moreover have "list_all (row_ok (c_symbol (hd xs)) (resolve_timeframe (Some ''1m'') (hd xs))) xs"
    if "xs \<noteq> []" using canon that by (simp add: canonical_candles_Inr_iff)
  ultimately show ?thesis by (simp add: canonical_candles_Inr_iff)
qed

text \<open>
  The frames of a prefix are a prefix of the frames: the last bucket of the prefix is the only one
  later minutes can still complete, and before that it emits nothing.
\<close>

lemma aggregate_prefix:
  assumes canon: "canonical_candles (xs @ ys) (Some ''1m'') = Inr (xs @ ys)"
    and agg: "aggregate (xs @ ys) tf = Inr bs"
  shows "\<exists>as cs. aggregate xs tf = Inr as \<and> bs = as @ cs"
proof -
  from agg obtain sz where sz: "timeframe_ms tf = Some sz" "tf \<noteq> ''1m''"
    and min: "list_all is_minute_bar (xs @ ys)"
    and e: "extend_all (emitted tf sz (xs @ ys)) (bucket_keys sz (xs @ ys)) = Inr bs"
    using canon by (elim aggregate_InrE) auto
  have pos: "0 < sz" using timeframe_ms_cases [OF sz(1)] by simp
  have order: "sorted_wrt (\<lambda>a b. c_open_time_ms a < c_open_time_ms b) (xs @ ys)"
    using canon by (rule canonical_candles_strict)
  have canon_x: "canonical_candles xs (Some ''1m'') = Inr xs" using canon by (rule canonical_prefix)
  have agg_x: "aggregate xs tf = extend_all (emitted tf sz xs) (bucket_keys sz xs)"
    using min by (intro aggregate_eq [OF sz canon_x]) simp
  obtain new where keys: "bucket_keys sz (xs @ ys) = bucket_keys sz xs @ new"
    using bucket_keys_append [OF pos order] by blast
  have same: "emitted tf sz xs k = emitted tf sz (xs @ ys) k" if "bucket_rows sz (xs @ ys) k = bucket_rows sz xs k" for k
    using that by (simp add: emitted_def)
  from e obtain us vs where us: "extend_all (emitted tf sz (xs @ ys)) (bucket_keys sz xs) = Inr us"
    and bs: "bs = us @ vs"
    by (auto simp: keys extend_all_append rbind_Inr_iff rmap_Inr_iff)
  have "\<exists>as ws. extend_all (emitted tf sz xs) (bucket_keys sz xs) = Inr as \<and> us = as @ ws"
  proof (cases "bucket_keys sz xs" rule: rev_cases)
    case (snoc ks m)
    have init: "emitted tf sz xs k = emitted tf sz (xs @ ys) k" if k: "k \<in> set ks" for k
    proof -
      have "k < m" using bucket_keys_strict [of sz xs] k by (simp add: snoc sorted_wrt_append)
      have "m \<in> bucket_key sz ` set xs" by (metis snoc bucket_keys_def finite_imageI finite_set
            in_set_conv_decomp set_sorted_list_of_set)
      then obtain a where a: "a \<in> set xs" "m = bucket_key sz a" by blast
      have "bucket_key sz y \<noteq> k" if "y \<in> set ys" for y
      proof -
        have "c_open_time_ms a \<le> c_open_time_ms y"
          using order a(1) that by (auto simp: sorted_wrt_append less_imp_le)
        then have "m \<le> bucket_key sz y" using a(2) pos bucket_key_mono by blast
        with \<open>k < m\<close> show ?thesis by simp
      qed
      then show ?thesis by (intro same) (auto simp: bucket_rows_def filter_empty_conv)
    qed
    from us obtain u v where u: "extend_all (emitted tf sz (xs @ ys)) ks = Inr u"
      and v: "emitted tf sz (xs @ ys) m = Inr v" and usv: "us = u @ v"
      by (auto simp: snoc extend_all_append extend_all_Cons rbind_Inr_iff rmap_Inr_iff)
    have u': "extend_all (emitted tf sz xs) ks = Inr u" using u init by (simp cong: extend_all_cong)
    show ?thesis
    proof (cases "bucket_skipped (sz div 60000) (bucket_rows sz xs m)")
      case True
      then have "emitted tf sz xs m = Inr []" by (simp add: emitted_def emit_bucket_def)
      with u' usv show ?thesis by (simp add: snoc extend_all_append extend_all_Cons)
    next
      case False
      then have "emitted tf sz xs m = Inr v"
        using v same later_rows_keep_complete_bucket [OF sz(1) min order] by simp
      with u' usv show ?thesis by (simp add: snoc extend_all_append extend_all_Cons)
    qed
  qed simp
  then show ?thesis using agg_x bs by auto
qed

text \<open>A frame that only later minutes complete closes when every earlier minute has opened.\<close>

lemma aggregate_prefix_later:
  assumes canon: "canonical_candles (xs @ ys) (Some ''1m'') = Inr (xs @ ys)"
    and agg: "aggregate (xs @ ys) tf = Inr (as @ cs)" "aggregate xs tf = Inr as"
    and late: "e \<in> set cs" "k \<in> set xs"
  shows "c_close_time_ms k < c_close_time_ms e"
proof (rule ccontr)
  assume early: "\<not> c_close_time_ms k < c_close_time_ms e"
  have order: "sorted_wrt (\<lambda>a b. c_open_time_ms a < c_open_time_ms b) (xs @ ys)"
    using canon by (rule canonical_candles_strict)
  have "e \<in> set (as @ cs)" using late by simp
  with agg(1) obtain sz first rest where sz: "timeframe_ms tf = Some sz"
    and min: "list_all is_minute_bar (xs @ ys)" and b: "bucket_rows sz (xs @ ys) (c_open_time_ms e) = first # rest"
    "\<not> bucket_skipped (sz div 60000) (first # rest)" and e: "e = merged_candle tf sz (c_open_time_ms e) first rest"
    using canon by (elim aggregate_member) auto
  have pos: "0 < sz" using timeframe_ms_cases [OF sz] by simp
  have keyed: "c_open_time_ms y < c_open_time_ms e + sz" if "bucket_key sz y = c_open_time_ms e" for y
    using that pos_mod_bound [OF pos, of "c_open_time_ms y"] div_mult_mod_eq [of "c_open_time_ms y" sz]
    by (auto simp: bucket_key_def)
  have close: "c_close_time_ms e = c_open_time_ms e + sz - 1" using arg_cong [OF e, of c_close_time_ms] by (simp add: merged_candle_def)
  have "bucket_key sz y \<noteq> c_open_time_ms e" if y: "y \<in> set ys" for y
  proof -
    have bars: "is_minute_bar k" "is_minute_bar y" using min late(2) y by (auto simp: list_all_iff)
    have "c_open_time_ms k < c_open_time_ms y" using order late(2) y by (auto simp: sorted_wrt_append)
    with bars have "c_open_time_ms k + 60000 \<le> c_open_time_ms y"
      by (intro grid_step) (simp_all add: is_minute_bar_def)
    then show ?thesis using keyed [of y] early close bars by (auto simp: is_minute_bar_def)
  qed
  then have same: "bucket_rows sz xs (c_open_time_ms e) = first # rest"
    using b(1) by (auto simp: bucket_rows_def filter_empty_conv)
  then have "first \<in> set (bucket_rows sz xs (c_open_time_ms e))" by simp
  then have "c_open_time_ms e \<in> set (bucket_keys sz xs)" by (auto simp: bucket_rows_def bucket_keys_def image_iff) metis
  moreover have "extend_all (emitted tf sz xs) (bucket_keys sz xs) = Inr as"
    using agg(2) canonical_prefix [OF canon] sz by (elim aggregate_InrE) simp
  ultimately obtain zs where zs: "emitted tf sz xs (c_open_time_ms e) = Inr zs" "set zs \<subseteq> set as"
    using extend_all_part by metis
  then have "e \<in> set as" using emitted_cases [OF zs(1)] same b(2) e
    by (auto simp: emitted_def emit_bucket_def rmap_Inr_iff dest!: make_candle_Inr)
  then show False using aggregate_strict [OF agg(1)] late(1) by (auto simp: sorted_wrt_append)
qed

lemma aggregate_prefix_late:
  assumes canon: "canonical_candles (xs @ ys) (Some ''1m'') = Inr (xs @ ys)"
    and agg: "aggregate (xs @ ys) tf = Inr (as @ cs)" "aggregate xs tf = Inr as"
    and late: "e \<in> set cs" "k \<in> set xs"
  shows "c_open_time_ms k \<le> c_close_time_ms e"
proof -
  have "list_all is_minute_bar xs" using agg(2) canonical_prefix [OF canon] by (elim aggregate_InrE) simp
  then have "c_close_time_ms k = c_open_time_ms k + 59999" using late(2) by (simp add: list_all_iff is_minute_bar_def)
  with aggregate_prefix_later [OF assms] show ?thesis by simp
qed

lemma frame_closes:
  assumes agg: "aggregate xs tf = Inr rows" and sz: "timeframe_ms tf = Some sz" and row: "row \<in> set rows"
  shows "c_close_time_ms row = c_open_time_ms row + sz - 1 \<and> c_open_time_ms row mod sz = 0"
proof -
  from agg obtain ordered where o: "canonical_candles xs (Some ''1m'') = Inr ordered" by (elim aggregate_InrE)
  from aggregate_frame_rows [OF agg sz o row] obtain first rest where e: "row = merged_candle tf sz (c_open_time_ms row) first rest"
    and grid: "c_open_time_ms row mod sz = 0" by (elim exE conjE)
  from arg_cong [OF e, of c_close_time_ms] grid show ?thesis by (simp add: merged_candle_def)
qed

lemma closes_sorted_frames:
  assumes "aggregate xs tf = Inr rows"
  shows "sorted (map c_close_time_ms rows)"
proof -
  from assms obtain sz where sz: "timeframe_ms tf = Some sz" by (elim aggregate_InrE)
  then have "sorted_wrt (\<lambda>a b. c_close_time_ms a \<le> c_close_time_ms b) rows"
    using aggregate_strict [OF assms] frame_closes [OF assms sz] by (elim sorted_wrt_mono_rel [rotated]) simp
  then show ?thesis by (simp add: sorted_map)
qed

lemma frame_clock_step:
  assumes agg: "aggregate xs tf = Inr rows" and sz: "timeframe_ms tf = Some sz" and ij: "i \<le> j" "j < length rows"
  shows "c_close_time_ms (rows ! i) + int (j - i) * sz \<le> c_close_time_ms (rows ! j)"
  using ij
proof (induction "j - i" arbitrary: i)
  case (Suc n)
  have pos: "0 < sz" using timeframe_ms_cases [OF sz] by simp
  from Suc have i: "Suc i \<le> j" "i < length rows" "Suc i < length rows" by simp_all
  have "c_open_time_ms (rows ! i) < c_open_time_ms (rows ! Suc i)"
    using aggregate_strict [OF agg] i(3) by (simp add: sorted_wrt_iff_nth_less)
  moreover have "c_open_time_ms (rows ! i) mod sz = 0" "c_open_time_ms (rows ! Suc i) mod sz = 0"
    using frame_closes [OF agg sz nth_mem] i by simp_all
  ultimately have "c_open_time_ms (rows ! i) + sz \<le> c_open_time_ms (rows ! Suc i)"
    by (intro grid_step [OF pos])
  then have "c_close_time_ms (rows ! i) + sz \<le> c_close_time_ms (rows ! Suc i)"
    using frame_closes [OF agg sz nth_mem] i by simp
  moreover have "c_close_time_ms (rows ! Suc i) + int (j - Suc i) * sz \<le> c_close_time_ms (rows ! j)"
    using Suc.hyps(1) [of "Suc i"] Suc.hyps(2) Suc.prems(2) i(1) by simp
  moreover have "int (j - i) * sz = int (j - Suc i) * sz + sz"
    using i(1) by (simp add: of_nat_diff algebra_simps)
  ultimately show ?case by simp
qed simp

lemma frame_closes_with_a_minute:
  assumes agg: "aggregate xs tf = Inr rows" and order: "canonical_candles xs (Some ''1m'') = Inr xs" and row: "row \<in> set rows"
  shows "\<exists>k \<in> set xs. c_close_time_ms k = c_close_time_ms row"
proof -
  from agg obtain sz where sz: "timeframe_ms tf = Some sz" and min: "list_all is_minute_bar xs"
    using order by (elim aggregate_InrE) auto
  from aggregate_frame_rows [OF agg sz order row] obtain first rest where
    f: "filter (\<lambda>c. c_open_time_ms row \<le> c_open_time_ms c \<and> c_open_time_ms c < c_open_time_ms row + sz) xs = first # rest"
    and n: "int (length (first # rest)) * 60000 = sz"
    and t: "\<forall>i < length (first # rest). c_open_time_ms ((first # rest) ! i) = c_open_time_ms row + int i * 60000"
    by (elim exE conjE)
  let ?k = "(first # rest) ! length rest"
  have "?k \<in> set (first # rest)" by (rule nth_mem) simp
  then have k: "?k \<in> set xs" using f by (metis filter_is_subset subsetD)
  have "c_open_time_ms ?k = c_open_time_ms row + int (length rest) * 60000" using t by simp
  moreover have "c_close_time_ms ?k = c_open_time_ms ?k + 59999" using min k by (simp add: list_all_iff is_minute_bar_def)
  moreover have "c_close_time_ms row = c_open_time_ms row + sz - 1" using frame_closes [OF agg sz row] by simp
  ultimately have "c_close_time_ms ?k = c_close_time_ms row" using n by (simp add: algebra_simps)
  then show ?thesis using k by blast
qed

lemma frame_opens_with_a_minute:
  assumes agg: "aggregate xs tf = Inr rows" and order: "canonical_candles xs (Some ''1m'') = Inr xs" and row: "row \<in> set rows"
  shows "\<exists>k \<in> set xs. c_open_time_ms k = c_open_time_ms row"
proof -
  from agg obtain sz where sz: "timeframe_ms tf = Some sz" by (elim aggregate_InrE)
  from aggregate_frame_rows [OF agg sz order row] obtain first rest where
    f: "filter (\<lambda>c. c_open_time_ms row \<le> c_open_time_ms c \<and> c_open_time_ms c < c_open_time_ms row + sz) xs = first # rest"
    and t: "\<forall>i < length (first # rest). c_open_time_ms ((first # rest) ! i) = c_open_time_ms row + int i * 60000" by blast
  from t have "c_open_time_ms first = c_open_time_ms row" by auto
  moreover have "first \<in> set xs" using f by (metis filter_is_subset list.set_intros(1) subsetD)
  ultimately show ?thesis by blast
qed

text \<open>A history that is shorter than a frame completes none.\<close>

lemma short_aggregate:
  assumes "timeframe_ms tf = Some sz" "tf \<noteq> ''1m''" "canonical_candles xs (Some ''1m'') = Inr xs" "list_all is_minute_bar xs"
    and "int (length xs) < sz div 60000"
  shows "aggregate xs tf = Inr []"
proof -
  have "int (length (bucket_rows sz xs k)) \<noteq> sz div 60000" for k
    using assms(5) length_filter_le [of "\<lambda>c. bucket_key sz c = k" xs] unfolding bucket_rows_def by linarith
  then have skip: "emitted tf sz xs k = Inr []" for k by (simp add: emitted_def emit_bucket_def bucket_skipped_def)
  have "extend_all (emitted tf sz xs) ks = Inr []" for ks by (induction ks) (simp_all add: extend_all_Cons skip)
  then show ?thesis unfolding aggregate_eq [OF assms(1-4)] .
qed

subsection \<open>Valid input can only overflow\<close>

abbreviation not_finite_error :: py_error where
  "not_finite_error \<equiv> ValueError ''candle values must be finite''"

lemma make_candle_wf_except_finite:
  assumes "list_all is_finite (candle_prices c @ candle_volumes c) \<Longrightarrow> candle_wf c"
    and "strip (c_symbol c) \<noteq> []" "strip (c_timeframe c) \<noteq> []" "0 \<le> c_open_time_ms c"
    "c_open_time_ms c < c_close_time_ms c"
  shows "make_candle c = Inr c \<or> make_candle c = Inl not_finite_error"
proof (cases "list_all is_finite (candle_prices c @ candle_volumes c)")
  case True
  then show ?thesis using assms(1) by (simp add: valid_candle_iff [symmetric] valid_candle_def)
next
  case False
  then show ?thesis using assms(2-) by (auto simp: make_candle_def validate.simps)
qed

lemma fsum_builtin_map_nonneg: "(\<And>c. c \<in> set cs \<Longrightarrow> nonneg (f c)) \<Longrightarrow> nonneg (fsum_builtin (map f cs))"
  by (intro fsum_builtin_nonneg) (simp add: list_all_iff)

lemma fsum_builtin_map_mono:
  "(\<And>c. c \<in> set cs \<Longrightarrow> nonneg (f c) \<and> fle (f c) (g c)) \<Longrightarrow>
     fle (fsum_builtin (map f cs)) (fsum_builtin (map g cs))"
  by (intro fsum_builtin_mono) (simp add: list_all2_map1 list_all2_map2 list.rel_refl_strong)

lemma merged_candle_total:
  assumes rows: "list_all valid_candle (first # rest)" and "0 \<le> opened" and "0 < sz" and "1 < sz"
    and "strip tf \<noteq> []"
  shows "make_candle (merged_candle tf sz opened first rest) = Inr (merged_candle tf sz opened first rest) \<or>
    make_candle (merged_candle tf sz opened first rest) = Inl not_finite_error"
proof (rule make_candle_wf_except_finite)
  let ?cs = "first # rest" and ?m = "merged_candle tf sz opened first rest"
  have wf: "candle_wf c" if "c \<in> set ?cs" for c
    using rows that by (auto simp: list_all_iff valid_candle_iff)
  have nn: "NaN \<notin> set (c_high first # map c_high rest)" "NaN \<notin> set (c_low first # map c_low rest)"
    using wf by (fastforce simp: candle_wf_def candle_prices_def)+
  have high: "fle (c_high c) (c_high ?m)" if "c \<in> set ?cs" for c
    using fmax_ge [OF nn(1), of "c_high c"] that by (auto simp: merged_candle_def)
  have low: "fle (c_low ?m) (c_low c)" if "c \<in> set ?cs" for c
    using fmin_le [OF nn(2), of "c_low c"] that by (auto simp: merged_candle_def)
  have lastc: "last ?cs \<in> set ?cs" by simp
  show "strip (c_symbol ?m) \<noteq> []" "strip (c_timeframe ?m) \<noteq> []" "0 \<le> c_open_time_ms ?m"
    "c_open_time_ms ?m < c_close_time_ms ?m"
    using wf [of first] assms by (auto simp: merged_candle_def candle_wf_def)
  assume fin: "list_all is_finite (candle_prices ?m @ candle_volumes ?m)"
  have prices: "fless fzero (c_open ?m)" "fless fzero (c_close ?m)" "fless fzero (c_low ?m)"
    using wf [of first] wf [OF lastc] fmin_mem [of "c_low first" "map c_low rest"] wf
    by (auto simp: merged_candle_def candle_wf_def candle_prices_def)
  have bounds: "fle (c_open ?m) (c_high ?m)" "fle (c_low ?m) (c_open ?m)"
    "fle (c_close ?m) (c_high ?m)" "fle (c_low ?m) (c_close ?m)"
    using wf [of first] high [of first] low [of first] wf [OF lastc] high [OF lastc] low [OF lastc]
      fle_trans by (auto simp: merged_candle_def candle_wf_def simp del: last.simps)
  have "fless fzero (c_high ?m)" using prices(1) bounds(1) by (rule fless_le_trans)
  moreover have "list_all nonneg (candle_volumes ?m)"
    unfolding candle_volumes_def merged_candle_def
    using wf by (auto simp del: list.map intro!: fsum_builtin_map_nonneg) (auto simp: candle_wf_def candle_volumes_def)
  moreover have "fle (c_taker_buy_volume ?m) (c_volume ?m)"
    "fle (c_taker_buy_quote_volume ?m) (c_quote_volume ?m)"
    using wf by (auto simp: merged_candle_def simp del: list.map intro!: fsum_builtin_map_mono)
      (auto simp: candle_wf_def candle_volumes_def)
  ultimately show "candle_wf ?m"
    using fin prices bounds \<open>strip (c_symbol ?m) \<noteq> []\<close> \<open>strip (c_timeframe ?m) \<noteq> []\<close> \<open>0 \<le> c_open_time_ms ?m\<close>
      \<open>c_open_time_ms ?m < c_close_time_ms ?m\<close>
    by (simp add: candle_wf_def candle_prices_def)
qed

lemma aggregate_valid_total:
  assumes "list_all valid_candle xs" and canon: "canonical_candles xs (Some ''1m'') = Inr ordered"
    and min: "list_all is_minute_bar ordered" and sz: "timeframe_ms tf = Some sz" "tf \<noteq> ''1m''"
  shows "aggregate xs tf = Inl not_finite_error \<or>
    (\<exists>bs. aggregate xs tf = Inr bs \<and> list_all valid_candle bs)"
proof (cases "aggregate xs tf")
  case (Inr bs)
  then have "list_all valid_candle bs" by (auto simp: list_all_iff elim: aggregate_member)
  with Inr show ?thesis by simp
next
  case (Inl e)
  then have "extend_all (emitted tf sz ordered) (bucket_keys sz ordered) = Inl e"
    using aggregate_eq [OF sz canon min] by simp
  from extend_all_error [OF this] obtain k where k: "emitted tf sz ordered k = Inl e" by blast
  then have full: "\<not> bucket_skipped (sz div 60000) (bucket_rows sz ordered k)"
    by (auto simp: emitted_def emit_bucket_def split: if_splits)
  note c = complete_bucket [OF sz(1) min full]
  then obtain first rest where r: "bucket_rows sz ordered k = first # rest" by (cases "bucket_rows sz ordered k") auto
  have sub: "set (first # rest) \<subseteq> set xs"
    using candles.canon_set [OF canon] unfolding r [symmetric] bucket_rows_def by auto
  then have valid: "list_all valid_candle (first # rest)" using assms(1) by (auto simp: list_all_iff)
  then have "0 \<le> k" using c(3) by (simp add: r valid_candle_iff candle_wf_def)
  moreover have "60000 \<le> sz" using c(1,5) by (cases "bucket_rows sz ordered k") auto
  ultimately have "e = not_finite_error"
    using merged_candle_total [OF valid, of k sz tf] k full timeframe_ms_cases [OF sz(1)]
    by (auto simp: emitted_def emit_bucket_def r)
  with Inl show ?thesis by simp
qed


subsection \<open>Properties\<close>


definition sample_frame :: candle where
  "sample_frame = merged_candle ''3m'' 180000 0 (sample_minute 0) [sample_minute 1, sample_minute 2]"

lemma sample_buckets:
  "sort_key fst (buckets 180000 (sample_minutes 0 2)) = [(0, sample_minutes 0 2)]"
  "sort_key fst (buckets 180000 (sample_minutes 0 3)) = [(0, sample_minutes 0 2), (180000, [sample_minute 3])]"
  "\<not> list_ex (\<lambda>c. \<not> is_minute_bar c) (sample_minutes 0 2)"
  "\<not> list_ex (\<lambda>c. \<not> is_minute_bar c) (sample_minutes 0 3)"
  "bucket_skipped 3 [sample_minute 3]" "\<not> bucket_skipped 3 (sample_minutes 0 2)"
  "timeframe_ms ''3m'' = Some 180000"
  by code_simp+

lemma sample_merge: "merge_rows ''3m'' 180000 0 (sample_minutes 0 2) = Inr sample_frame"
proof -
  have split: "sample_minutes 0 2 = sample_minute 0 # [sample_minute 1, sample_minute 2]" by code_simp
  have "valid_candle sample_frame" by code_simp
  then show ?thesis unfolding split by (simp add: sample_frame_def valid_candle_def)
qed

lemma sample_aggregate:
  "aggregate (sample_minutes 0 2) ''3m'' = Inr [sample_frame]"
  "aggregate (sample_minutes 0 3) ''3m'' = Inr [sample_frame]"
  by (simp_all add: aggregate_def sample_canonical sample_buckets extend_all_Cons emit_bucket_def sample_merge)


text \<open>
  No look-ahead. The frames of a minute series are a prefix of the frames of every
  continuation of it: a minute that arrives later neither changes nor removes a frame already emitted.
\<close>

theorem aggregate_no_lookahead:
  assumes "canonical_candles (xs @ ys) (Some ''1m'') = Inr (xs @ ys)"
    and "aggregate (xs @ ys) tf = Inr bs"
  shows "\<exists>as cs. aggregate xs tf = Inr as \<and> bs = as @ cs"
  using assms by (rule aggregate_prefix)

theorem aggregate_no_lookahead_witness:
  "\<exists>as cs. aggregate (sample_minutes 0 1) ''3m'' = Inr as \<and> [sample_frame] = as @ cs"
proof -
  have split: "sample_minutes 0 1 @ sample_minutes 2 3 = sample_minutes 0 3" by code_simp
  show ?thesis
    using aggregate_no_lookahead [of "sample_minutes 0 1" "sample_minutes 2 3" "''3m''" "[sample_frame]"]
    unfolding split sample_aggregate sample_canonical by blast
qed

text \<open>
  On valid minute bars \<open>aggregate\<close> never raises for any reason but the overflow of a
  volume sum to infinity, and every frame it returns satisfies the checks of the \<open>Candle\<close> constructor.
\<close>

theorem aggregate_only_overflow:
  assumes "list_all valid_candle xs" and "canonical_candles xs (Some ''1m'') = Inr ordered"
    and "list_all is_minute_bar ordered" and "timeframe_ms tf = Some sz" and "tf \<noteq> ''1m''"
  shows "aggregate xs tf = Inl (ValueError ''candle values must be finite'') \<or>
    (\<exists>bs. aggregate xs tf = Inr bs \<and> list_all valid_candle bs)"
  using assms by (rule aggregate_valid_total)

theorem aggregate_only_overflow_witness:
  "aggregate (sample_minutes 0 2) ''3m'' = Inl (ValueError ''candle values must be finite'') \<or>
    (\<exists>bs. aggregate (sample_minutes 0 2) ''3m'' = Inr bs \<and> list_all valid_candle bs)"
proof (rule aggregate_only_overflow [OF _ sample_canonical(1)])
  show "list_all valid_candle (sample_minutes 0 2)" by code_simp
  show "list_all is_minute_bar (sample_minutes 0 2)" by code_simp
  show "timeframe_ms ''3m'' = Some 180000" by code_simp
qed simp

end
