(* ===== verification/Models.thy ===== *)
theory Models
  imports PyFloat PyText
begin

section \<open>Exit plans, sleeve intents and trade records (models.py)\<close>

text \<open>
  The immutable contracts of the sleeves with the checks of their constructors. A constructor is a
  function from the arguments to \<open>py_error + object\<close>: the guards in the order of the source, the
  normalisation of its floats, the canonical metadata and the content-derived identifier. Fields are
  typed, so the \<open>isinstance\<close> tests of the source hold by construction; every other guard is a
  check of the model.
\<close>

subsection \<open>Sides and shared checks\<close>

text \<open>
  The enumeration \<open>Side\<close> belongs to the core package; the repository reads its three members and
  the string value of the two directions (the tests read them back from JSON as LONG and SHORT).
\<close>

datatype side = LONG | SHORT | FLAT

fun side_value :: "side \<Rightarrow> string" where
  "side_value LONG = ''LONG''"
| "side_value SHORT = ''SHORT''"
| "side_value FLAT = ''FLAT''"

text \<open>\<open>_require_finite\<close>, \<open>_require_timestamp\<close> and \<open>_normalized_float\<close>.\<close>

definition require_finite :: "string \<Rightarrow> pyfloat \<Rightarrow> bool \<Rightarrow> (bool \<times> py_error) list" where
  "require_finite name v positive =
     [(\<not> is_finite v, ValueError (name @ '' must be finite'')),
      (positive \<and> fle v fzero, ValueError (name @ '' must be positive''))]"

definition require_timestamp :: "string \<Rightarrow> int \<Rightarrow> (bool \<times> py_error) list" where
  "require_timestamp name v = [(v < 0, ValueError (name @ '' must be a non-negative integer''))]"

definition normalized_float :: "pyfloat \<Rightarrow> pyfloat" where
  "normalized_float v = drop_zero_sign v"

subsection \<open>ExitPlan\<close>

record exit_plan =
  stop_price :: pyfloat
  target_price :: pyfloat
  max_holding_ms :: int
  trailing_activation_price :: "pyfloat option"
  trailing_distance :: "pyfloat option"

definition trailing_checks :: "pyfloat option \<Rightarrow> pyfloat option \<Rightarrow> (bool \<times> py_error) list" where
  "trailing_checks activation distance =
     (case activation of None \<Rightarrow> []
      | Some a \<Rightarrow>
          require_finite ''trailing_activation_price'' a True @
          (case distance of None \<Rightarrow> [(True, RuntimeError ''validated trailing plan lost its distance'')]
           | Some d \<Rightarrow>
               require_finite ''trailing_distance'' d True @
               [(fle (normalized_float a) (normalized_float d),
                 ValueError ''trailing_distance must be smaller than its activation price'')]))"

definition make_exit_plan :: "exit_plan \<Rightarrow> exit_plan result" where
  "make_exit_plan p = validate
     (require_finite ''stop_price'' (stop_price p) True @
      require_finite ''target_price'' (target_price p) True @
      [(feq (normalized_float (stop_price p)) (normalized_float (target_price p)),
          ValueError ''stop_price and target_price must differ''),
       (max_holding_ms p \<le> 0, ValueError ''max_holding_ms must be a positive integer''),
       ((trailing_activation_price p = None) \<noteq> (trailing_distance p = None),
          ValueError ''trailing activation and distance must be configured together'')] @
      trailing_checks (trailing_activation_price p) (trailing_distance p))
     (p\<lparr>stop_price := normalized_float (stop_price p),
        target_price := normalized_float (target_price p),
        trailing_activation_price := map_option normalized_float (trailing_activation_price p),
        trailing_distance := map_option normalized_float (trailing_distance p)\<rparr>)"

definition exit_plan_wf :: "exit_plan \<Rightarrow> bool" where
  "exit_plan_wf p \<longleftrightarrow>
     is_finite (stop_price p) \<and> fless fzero (stop_price p) \<and>
     is_finite (target_price p) \<and> fless fzero (target_price p) \<and>
     \<not> feq (stop_price p) (target_price p) \<and> 0 < max_holding_ms p \<and>
     (case (trailing_activation_price p, trailing_distance p) of
        (None, None) \<Rightarrow> True
      | (Some a, Some d) \<Rightarrow> is_finite a \<and> is_finite d \<and> fless fzero d \<and> fless d a
      | _ \<Rightarrow> False)"

subsection \<open>SleeveIntent\<close>

record intent_fields =
  i_sleeve_id :: string
  i_symbol :: string
  i_side :: side
  i_decision_ts_ms :: int
  i_entry_eligible_ts_ms :: int
  i_entry_expires_ts_ms :: int
  i_reference_price :: pyfloat
  i_signal_strength :: pyfloat
  i_gross_reward_bps :: pyfloat
  i_exit_plan :: exit_plan
  i_metadata :: "(string \<times> string) list"

record sleeve_intent = intent_fields +
  intent_id :: string

definition directional_checks :: "side \<Rightarrow> pyfloat \<Rightarrow> exit_plan \<Rightarrow> (bool \<times> py_error) list" where
  "directional_checks sd reference plan =
     (if sd = LONG then
        [(\<not> (fless (stop_price plan) reference \<and> fless reference (target_price plan)),
            ValueError ''long exits must satisfy stop < reference < target''),
         (case trailing_activation_price plan of None \<Rightarrow> False
          | Some a \<Rightarrow> \<not> (fless reference a \<and> fless a (target_price plan)),
            ValueError ''long trailing activation must lie between reference and target'')]
      else
        [(\<not> (fless (target_price plan) reference \<and> fless reference (stop_price plan)),
            ValueError ''short exits must satisfy target < reference < stop''),
         (case trailing_activation_price plan of None \<Rightarrow> False
          | Some a \<Rightarrow> \<not> (fless (target_price plan) a \<and> fless a reference),
            ValueError ''short trailing activation must lie between target and reference'')])"

definition expected_reward_bps :: "pyfloat \<Rightarrow> pyfloat \<Rightarrow> pyfloat" where
  "expected_reward_bps target reference =
     fmul (fdiv (fabs (fsub target reference)) reference) (Num 10000)"

definition metadata_checks :: "(string \<times> string) list \<Rightarrow> (bool \<times> py_error) list" where
  "metadata_checks md =
     [(list_ex (\<lambda>(k, v). k = [] \<or> k \<noteq> strip k) md,
         ValueError ''metadata must contain non-empty string keys and string values''),
      (\<not> distinct (map fst md), ValueError ''metadata keys must be unique'')]"

definition canonical_metadata :: "(string \<times> string) list \<Rightarrow> (string \<times> string) list" where
  "canonical_metadata md = sort md"

definition intent_payload :: "intent_fields \<Rightarrow> json" where
  "intent_payload f = JObj
    [(''signal_strength'', JFloat (i_signal_strength f)),
     (''decision_ts_ms'', JInt (i_decision_ts_ms f)),
     (''entry_eligible_ts_ms'', JInt (i_entry_eligible_ts_ms f)),
     (''entry_expires_ts_ms'', JInt (i_entry_expires_ts_ms f)),
     (''exit_plan'', JObj
       [(''max_holding_ms'', JInt (max_holding_ms (i_exit_plan f))),
        (''stop_price'', JFloat (stop_price (i_exit_plan f))),
        (''target_price'', JFloat (target_price (i_exit_plan f))),
        (''trailing_activation_price'', opt_json JFloat (trailing_activation_price (i_exit_plan f))),
        (''trailing_distance'', opt_json JFloat (trailing_distance (i_exit_plan f)))]),
     (''gross_reward_bps'', JFloat (i_gross_reward_bps f)),
     (''metadata'', pairs_json (i_metadata f)),
     (''reference_price'', JFloat (i_reference_price f)),
     (''side'', JStr (side_value (i_side f))),
     (''sleeve_id'', JStr (i_sleeve_id f)),
     (''symbol'', JStr (i_symbol f))]"

definition make_intent_id :: "intent_fields \<Rightarrow> string" where
  "make_intent_id f = json_sha256 (intent_payload f)"

definition intent_checks :: "intent_fields \<Rightarrow> (bool \<times> py_error) list" where
  "intent_checks f =
     [(i_sleeve_id f = [] \<or> i_sleeve_id f \<noteq> strip (i_sleeve_id f),
         ValueError ''sleeve_id must be a non-empty normalized string''),
      (i_symbol f = [] \<or> i_symbol f \<noteq> upper (strip (i_symbol f)),
         ValueError ''symbol must be a non-empty uppercase normalized string''),
      (i_side f = FLAT, ValueError ''side must be Side.LONG or Side.SHORT'')] @
     require_timestamp ''decision_ts_ms'' (i_decision_ts_ms f) @
     require_timestamp ''entry_eligible_ts_ms'' (i_entry_eligible_ts_ms f) @
     require_timestamp ''entry_expires_ts_ms'' (i_entry_expires_ts_ms f) @
     [(i_entry_eligible_ts_ms f < i_decision_ts_ms f,
         ValueError ''entry cannot become eligible before its decision''),
      (i_entry_expires_ts_ms f < i_entry_eligible_ts_ms f,
         ValueError ''entry cannot expire before it becomes eligible'')] @
     require_finite ''reference_price'' (i_reference_price f) True @
     require_finite ''signal_strength'' (i_signal_strength f) False @
     [(\<not> (fle fzero (i_signal_strength f) \<and> fle (i_signal_strength f) fone),
         ValueError ''signal_strength must be within [0, 1]'')] @
     require_finite ''gross_reward_bps'' (i_gross_reward_bps f) True @
     directional_checks (i_side f) (normalized_float (i_reference_price f)) (i_exit_plan f) @
     [(\<not> is_close (normalized_float (i_gross_reward_bps f))
          (expected_reward_bps (target_price (i_exit_plan f)) (normalized_float (i_reference_price f)))
          (lit (1 / 1000000000000)) (lit (1 / 1000000000)),
         ValueError ''gross_reward_bps must equal the reference-to-target distance'')] @
     metadata_checks (i_metadata f)"

text \<open>The constructor's normalisations: floats without a negative zero, metadata sorted.\<close>

definition normalized_intent :: "intent_fields \<Rightarrow> intent_fields" where
  "normalized_intent f =
     f\<lparr>i_reference_price := normalized_float (i_reference_price f),
       i_signal_strength := normalized_float (i_signal_strength f),
       i_gross_reward_bps := normalized_float (i_gross_reward_bps f),
       i_metadata := canonical_metadata (i_metadata f)\<rparr>"

definition with_intent_id :: "intent_fields \<Rightarrow> sleeve_intent" where
  "with_intent_id f = intent_fields.extend f \<lparr>intent_id = make_intent_id f\<rparr>"

definition make_sleeve_intent :: "intent_fields \<Rightarrow> sleeve_intent result" where
  "make_sleeve_intent f = validate (intent_checks f) (with_intent_id (normalized_intent f))"

text \<open>What every intent that exists at run time satisfies.\<close>

definition sleeve_intent_wf :: "sleeve_intent \<Rightarrow> bool" where
  "sleeve_intent_wf s \<longleftrightarrow>
     i_sleeve_id s \<noteq> [] \<and> strip (i_sleeve_id s) = i_sleeve_id s \<and>
     i_symbol s \<noteq> [] \<and> upper (strip (i_symbol s)) = i_symbol s \<and> i_side s \<noteq> FLAT \<and>
     0 \<le> i_decision_ts_ms s \<and> i_decision_ts_ms s \<le> i_entry_eligible_ts_ms s \<and>
     i_entry_eligible_ts_ms s \<le> i_entry_expires_ts_ms s \<and>
     is_finite (i_reference_price s) \<and> fless fzero (i_reference_price s) \<and>
     fle fzero (i_signal_strength s) \<and> fle (i_signal_strength s) fone \<and>
     is_finite (i_gross_reward_bps s) \<and> fless fzero (i_gross_reward_bps s) \<and>
     (if i_side s = LONG
      then fless (stop_price (i_exit_plan s)) (i_reference_price s) \<and>
        fless (i_reference_price s) (target_price (i_exit_plan s))
      else fless (target_price (i_exit_plan s)) (i_reference_price s) \<and>
        fless (i_reference_price s) (stop_price (i_exit_plan s))) \<and>
     sorted_wrt (<) (map fst (i_metadata s)) \<and>
     (\<forall>k \<in> set (map fst (i_metadata s)). k \<noteq> [] \<and> strip k = k) \<and>
     intent_id s = make_intent_id (intent_fields.truncate s) \<and> length (intent_id s) = 64"

subsection \<open>TradeRecord\<close>

datatype exit_reason = STOP_LOSS | TRAILING_STOP | TAKE_PROFIT | TIMEOUT

fun exit_reason_value :: "exit_reason \<Rightarrow> string" where
  "exit_reason_value STOP_LOSS = ''stop_loss''"
| "exit_reason_value TRAILING_STOP = ''trailing_stop''"
| "exit_reason_value TAKE_PROFIT = ''take_profit''"
| "exit_reason_value TIMEOUT = ''timeout''"

record trade_fields =
  t_intent :: sleeve_intent
  t_entry_timestamp_ms :: int
  t_exit_timestamp_ms :: int
  t_entry_price :: pyfloat
  t_exit_price :: pyfloat
  t_quantity :: pyfloat
  t_exit_reason :: exit_reason
  t_entry_fee_usd :: pyfloat
  t_exit_fee_usd :: pyfloat
  t_carry_cost_usd :: pyfloat
  t_implementation_shortfall_usd :: pyfloat
  t_maximum_adverse_excursion_usd :: pyfloat
  t_maximum_favorable_excursion_usd :: pyfloat
  t_ambiguous_intrabar :: bool

record trade_record = trade_fields +
  gross_pnl_usd :: pyfloat
  net_pnl_usd :: pyfloat
  initial_risk_usd :: pyfloat
  r_multiple :: pyfloat

definition require_cost :: "string \<Rightarrow> pyfloat \<Rightarrow> (bool \<times> py_error) list" where
  "require_cost name v =
     require_finite name v False @ [(fless v fzero, ValueError (name @ '' cannot be negative''))]"

definition trade_checks :: "trade_fields \<Rightarrow> (bool \<times> py_error) list" where
  "trade_checks t =
     (let i = t_intent t; plan = i_exit_plan i in
     require_timestamp ''entry_timestamp_ms'' (t_entry_timestamp_ms t) @
     require_timestamp ''exit_timestamp_ms'' (t_exit_timestamp_ms t) @
     [(t_entry_timestamp_ms t < i_entry_eligible_ts_ms i,
         ValueError ''trade entry predates intent eligibility''),
      (i_entry_expires_ts_ms i < t_entry_timestamp_ms t,
         ValueError ''trade entry is later than intent expiry''),
      (t_exit_timestamp_ms t < t_entry_timestamp_ms t, ValueError ''trade exit predates its entry'')] @
     require_finite ''entry_price'' (t_entry_price t) True @
     require_finite ''exit_price'' (t_exit_price t) True @
     require_finite ''quantity'' (t_quantity t) True @
     [(i_side i = LONG \<and>
         \<not> (fless (stop_price plan) (t_entry_price t) \<and> fless (t_entry_price t) (target_price plan)),
         ValueError ''long trade entry price must lie between its stop and target''),
      (i_side i = SHORT \<and>
         \<not> (fless (target_price plan) (t_entry_price t) \<and> fless (t_entry_price t) (stop_price plan)),
         ValueError ''short trade entry price must lie between its target and stop'')] @
     require_cost ''entry_fee_usd'' (t_entry_fee_usd t) @
     require_cost ''exit_fee_usd'' (t_exit_fee_usd t) @
     require_cost ''carry_cost_usd'' (t_carry_cost_usd t) @
     require_cost ''implementation_shortfall_usd'' (t_implementation_shortfall_usd t) @
     require_cost ''maximum_adverse_excursion_usd'' (t_maximum_adverse_excursion_usd t) @
     require_cost ''maximum_favorable_excursion_usd'' (t_maximum_favorable_excursion_usd t))"

definition normalized_trade :: "trade_fields \<Rightarrow> trade_fields" where
  "normalized_trade t =
     t\<lparr>t_entry_price := normalized_float (t_entry_price t),
       t_exit_price := normalized_float (t_exit_price t),
       t_quantity := normalized_float (t_quantity t),
       t_entry_fee_usd := normalized_float (t_entry_fee_usd t),
       t_exit_fee_usd := normalized_float (t_exit_fee_usd t),
       t_carry_cost_usd := normalized_float (t_carry_cost_usd t),
       t_implementation_shortfall_usd := normalized_float (t_implementation_shortfall_usd t),
       t_maximum_adverse_excursion_usd := normalized_float (t_maximum_adverse_excursion_usd t),
       t_maximum_favorable_excursion_usd := normalized_float (t_maximum_favorable_excursion_usd t)\<rparr>"

definition gross_pnl :: "trade_fields \<Rightarrow> pyfloat" where
  "gross_pnl t = fmul (fmul (t_quantity t) (fsub (t_exit_price t) (t_entry_price t)))
     (if i_side (t_intent t) = LONG then fone else Num (- 1))"

text \<open>Also the property \<open>total_cost_usd\<close> of the finished record.\<close>

definition total_cost_usd :: "'a trade_fields_scheme \<Rightarrow> pyfloat" where
  "total_cost_usd t = fadd (fadd (t_entry_fee_usd t) (t_exit_fee_usd t)) (t_carry_cost_usd t)"

definition net_pnl :: "trade_fields \<Rightarrow> pyfloat" where
  "net_pnl t = fsub (gross_pnl t) (total_cost_usd t)"

definition initial_risk :: "trade_fields \<Rightarrow> pyfloat" where
  "initial_risk t =
     fmul (t_quantity t) (fabs (fsub (t_entry_price t) (stop_price (i_exit_plan (t_intent t)))))"

definition trade_economics :: "trade_fields \<Rightarrow> trade_record result" where
  "trade_economics t =
     rbind (py_div (net_pnl t) (initial_risk t)) (\<lambda>r.
       if list_all is_finite [gross_pnl t, net_pnl t, initial_risk t, r]
       then Inr (trade_fields.extend t
         \<lparr>gross_pnl_usd = gross_pnl t, net_pnl_usd = net_pnl t, initial_risk_usd = initial_risk t,
          r_multiple = r\<rparr>)
       else Inl (ValueError ''computed trade economics must be finite''))"

definition make_trade_record :: "trade_fields \<Rightarrow> trade_record result" where
  "make_trade_record t = rbind (validate (trade_checks t) (normalized_trade t)) trade_economics"


subsection \<open>What the constructors guarantee\<close>

lemma normalized_float_simps [simp]:
  "is_finite (normalized_float x) \<longleftrightarrow> is_finite x"
  "fless (normalized_float x) y \<longleftrightarrow> fless x y" "fless y (normalized_float x) \<longleftrightarrow> fless y x"
  "fle (normalized_float x) y \<longleftrightarrow> fle x y" "fle y (normalized_float x) \<longleftrightarrow> fle y x"
  "feq (normalized_float x) y \<longleftrightarrow> feq x y" "feq y (normalized_float x) \<longleftrightarrow> feq y x"
  "normalized_float (normalized_float x) = normalized_float x"
  by (simp_all add: normalized_float_def feq_def)

lemma fle_fzero_iff: "is_finite v \<Longrightarrow> fle v fzero \<longleftrightarrow> \<not> fless fzero v"
  using not_fle_fless [of v fzero] is_finite_not_NaN by auto

lemma make_exit_plan_wf: "make_exit_plan p = Inr q \<Longrightarrow> exit_plan_wf q"
  by (auto simp: make_exit_plan_def validate_Inr_iff require_finite_def trailing_checks_def exit_plan_wf_def
      fle_fzero_iff not_fle_fless is_finite_not_NaN split: option.splits)

lemma distinct_sort_keys:
  assumes "distinct (map fst (xs :: (string \<times> string) list))"
  shows "sorted_wrt (<) (map fst (sort xs))"
proof -
  have "sorted (map fst (sort xs))"
    by (rule sorted_map_mono) (auto simp: less_eq_prod_def mono_on_def sorted_sort)
  moreover have "distinct (map fst (sort xs))" using assms by (metis mset_map mset_sort mset_eq_imp_distinct_iff)
  ultimately show ?thesis by (simp add: strict_sorted_iff)
qed

lemma make_sleeve_intent_Inr:
  assumes "make_sleeve_intent f = Inr s"
  shows "s = with_intent_id (normalized_intent f)" and "list_all (\<lambda>c. \<not> fst c) (intent_checks f)"
  using assms by (auto simp: make_sleeve_intent_def validate_Inr_iff)

lemma with_intent_id_truncate: "intent_fields.truncate (with_intent_id f) = f"
  by (simp add: with_intent_id_def intent_fields.extend_def intent_fields.truncate_def)

lemma with_intent_id_fields [simp]:
  "i_sleeve_id (with_intent_id f) = i_sleeve_id f" "i_symbol (with_intent_id f) = i_symbol f"
  "i_side (with_intent_id f) = i_side f" "i_decision_ts_ms (with_intent_id f) = i_decision_ts_ms f"
  "i_entry_eligible_ts_ms (with_intent_id f) = i_entry_eligible_ts_ms f"
  "i_entry_expires_ts_ms (with_intent_id f) = i_entry_expires_ts_ms f"
  "i_reference_price (with_intent_id f) = i_reference_price f"
  "i_signal_strength (with_intent_id f) = i_signal_strength f"
  "i_gross_reward_bps (with_intent_id f) = i_gross_reward_bps f"
  "i_exit_plan (with_intent_id f) = i_exit_plan f" "i_metadata (with_intent_id f) = i_metadata f"
  "intent_id (with_intent_id f) = make_intent_id f"
  by (simp_all add: with_intent_id_def intent_fields.extend_def)

lemma make_sleeve_intent_wf:
  assumes "make_sleeve_intent f = Inr s"
  shows "sleeve_intent_wf s"
proof -
  note s = make_sleeve_intent_Inr [OF assms]
  have md: "distinct (map fst (i_metadata f))" "list_all (\<lambda>(k, v). k \<noteq> [] \<and> k = strip k) (i_metadata f)"
    using s(2) by (auto simp: intent_checks_def metadata_checks_def list_ex_iff list_all_iff)
  have keys: "set (map fst (canonical_metadata (i_metadata f))) = fst ` set (i_metadata f)"
    by (simp add: canonical_metadata_def)
  have "sorted_wrt (<) (map fst (canonical_metadata (i_metadata f)))"
    unfolding canonical_metadata_def using md(1) by (rule distinct_sort_keys)
  moreover have "\<forall>k \<in> set (map fst (canonical_metadata (i_metadata f))). k \<noteq> [] \<and> strip k = k"
    unfolding keys using md(2) by (auto simp: list_all_iff)
  ultimately show ?thesis
    using s(2)
    by (auto simp: s(1) sleeve_intent_wf_def intent_checks_def normalized_intent_def require_finite_def
        require_timestamp_def directional_checks_def fle_fzero_iff make_intent_id_def
        with_intent_id_truncate)
qed

lemma metadata_order_irrelevant:
  assumes "mset md = mset (i_metadata f)"
  shows "make_sleeve_intent (f\<lparr>i_metadata := md\<rparr>) = Inr s \<longleftrightarrow> make_sleeve_intent f = Inr s"
proof -
  let ?g = "f\<lparr>i_metadata := md\<rparr>"
  have "canonical_metadata md = canonical_metadata (i_metadata f)"
    unfolding canonical_metadata_def using assms by (metis properties_for_sort sorted_sort mset_sort)
  then have n: "normalized_intent ?g = normalized_intent f" by (simp add: normalized_intent_def)
  have "set md = set (i_metadata f)" using assms by (metis set_mset_mset)
  moreover have "distinct (map fst md) = distinct (map fst (i_metadata f))"
    using assms by (metis mset_map mset_eq_imp_distinct_iff)
  ultimately have "list_all (\<lambda>c. \<not> fst c) (intent_checks ?g) = list_all (\<lambda>c. \<not> fst c) (intent_checks f)"
    by (simp add: intent_checks_def metadata_checks_def list_ex_iff)
  with n show ?thesis by (simp add: make_sleeve_intent_def validate_Inr_iff)
qed

lemma fsub_le:
  assumes "is_double x" and "is_finite x" and "nonneg y"
  shows "fle (fsub x y) x"
proof (cases "is_finite y")
  case True
  have "to_rat y \<ge> 0" using assms(3) True by (simp add: finite_fle_iff)
  then have "fle (rnd (to_rat x - to_rat y)) (rnd (to_rat x))" by (intro rnd_mono) simp
  moreover have "rnd (to_rat x) = x \<or> (x = NegZero \<and> rnd (to_rat x) = Num 0)"
    using assms(1,2) by (cases x) auto
  moreover have "fle v NegZero \<longleftrightarrow> fle v fzero" for v by (cases v) auto
  ultimately show ?thesis using assms(2) True
    by (cases x; cases y) (auto simp: fsub_def fadd_def split: if_splits)
next
  case False
  then show ?thesis using assms by (cases x; cases y) (auto simp: fsub_def fadd_def)
qed

lemma make_trade_recordE:
  assumes "make_trade_record t = Inr r"
  obtains n where "n = normalized_trade t" "list_all (\<lambda>c. \<not> fst c) (trade_checks t)"
    "r = trade_fields.extend n
         \<lparr>gross_pnl_usd = gross_pnl n, net_pnl_usd = net_pnl n, initial_risk_usd = initial_risk n,
          r_multiple = fdiv (net_pnl n) (initial_risk n)\<rparr>"
    "\<not> is_zero (initial_risk n)"
    "is_finite (gross_pnl n)" "is_finite (net_pnl n)" "is_finite (initial_risk n)"
    "is_finite (fdiv (net_pnl n) (initial_risk n))"
  using assms
  by (auto simp: make_trade_record_def trade_economics_def rbind_Inr_iff validate_Inr_iff py_div_def
      split: if_splits)


lemma is_double_fmul: "is_double (fmul x y)"
  by (auto simp: fmul_def Let_def signed_inf_def signed_zero_def)

lemma trade_costs_nonneg:
  assumes "list_all (\<lambda>c. \<not> fst c) (trade_checks t)"
  shows "nonneg (t_entry_fee_usd t)" "nonneg (t_exit_fee_usd t)" "nonneg (t_carry_cost_usd t)"
  using assms
  by (auto simp: trade_checks_def Let_def require_cost_def require_finite_def not_fless_fle is_finite_not_NaN)

lemma make_trade_record_economics:
  assumes "make_trade_record t = Inr r"
  shows "fle (net_pnl_usd r) (gross_pnl_usd r) \<and> nonneg (total_cost_usd r) \<and>
    fless fzero (initial_risk_usd r) \<and> is_finite (r_multiple r) \<and>
    net_pnl_usd r = fsub (gross_pnl_usd r) (total_cost_usd r) \<and>
    r_multiple r = fdiv (net_pnl_usd r) (initial_risk_usd r)"
proof -
  from assms obtain n where n: "n = normalized_trade t" "list_all (\<lambda>c. \<not> fst c) (trade_checks t)"
    and r: "r = trade_fields.extend n
         \<lparr>gross_pnl_usd = gross_pnl n, net_pnl_usd = net_pnl n, initial_risk_usd = initial_risk n,
          r_multiple = fdiv (net_pnl n) (initial_risk n)\<rparr>"
    and nz: "\<not> is_zero (initial_risk n)"
    and fin: "is_finite (gross_pnl n)" "is_finite (net_pnl n)" "is_finite (initial_risk n)"
      "is_finite (fdiv (net_pnl n) (initial_risk n))"
    by (elim make_trade_recordE)
  have total: "total_cost_usd r = total_cost_usd n"
    by (simp add: r total_cost_usd_def trade_fields.extend_def)
  have cost: "nonneg (total_cost_usd n)"
    using trade_costs_nonneg [OF n(2)]
    by (auto simp: total_cost_usd_def n(1) normalized_trade_def intro!: fadd_nonneg)
  have "is_double (gross_pnl n)" by (simp add: gross_pnl_def is_double_fmul)
  then have net: "fle (net_pnl n) (gross_pnl n)"
    unfolding net_pnl_def using fin(1) cost by (rule fsub_le)
  have q: "fless fzero (t_quantity n)" "is_finite (t_quantity n)"
    using n by (auto simp: trade_checks_def Let_def require_finite_def normalized_trade_def fle_fzero_iff)
  have "nonneg (initial_risk n)"
  proof (cases "is_finite (fabs (fsub (t_entry_price n) (stop_price (i_exit_plan (t_intent n)))))")
    case True
    then show ?thesis unfolding initial_risk_def using q
      by (intro fmul_nonneg fabs_nonneg) (auto simp: fless_imp_fle is_finite_not_NaN)
  next
    case False
    then show ?thesis using fin(3) q
      by (cases "fsub (t_entry_price n) (stop_price (i_exit_plan (t_intent n)))"; cases "t_quantity n")
        (auto simp: initial_risk_def fmul_def signed_inf_def is_inf_def is_zero_def)
  qed
  then have "fless fzero (initial_risk n)"
    using nz fin(3) by (cases "initial_risk n") (auto simp: is_zero_def)
  then show ?thesis using net cost fin
    by (simp add: total) (simp add: r trade_fields.extend_def net_pnl_def)
qed


lemma validate_error_mem: "validate cs x = Inl e \<Longrightarrow> e \<in> snd ` set cs"
  by (force simp: validate_Inl_iff find_Some_iff set_conv_nth image_iff)

lemma make_trade_record_error:
  assumes "make_trade_record t = Inl e"
  shows "is_value_error e \<or>
    (e = ZeroDivisionError ''float division by zero'' \<and> is_zero (initial_risk (normalized_trade t)))"
proof -
  from assms consider "validate (trade_checks t) (normalized_trade t) = Inl e"
    | "trade_economics (normalized_trade t) = Inl e"
    by (auto simp: make_trade_record_def rbind_Inl_iff validate_Inr_iff)
  then show ?thesis
  proof cases
    case 1
    from validate_error_mem [OF this] show ?thesis
      by (auto simp: trade_checks_def Let_def require_cost_def require_finite_def require_timestamp_def)
  next
    case 2
    then show ?thesis by (auto simp: trade_economics_def py_div_def rbind_Inl_iff split: if_splits)
  qed
qed

subsection \<open>Properties\<close>

definition sample_plan :: exit_plan where
  "sample_plan = \<lparr>stop_price = Num 96, target_price = Num (225 / 2), max_holding_ms = 3600000,
     trailing_activation_price = Some (Num 104), trailing_distance = Some (Num 2)\<rparr>"

definition sample_fields :: intent_fields where
  "sample_fields = \<lparr>i_sleeve_id = ''donchian'', i_symbol = ''BTCUSDT'', i_side = LONG,
     i_decision_ts_ms = 1000, i_entry_eligible_ts_ms = 1001, i_entry_expires_ts_ms = 61000,
     i_reference_price = Num 100, i_signal_strength = Num (1 / 2), i_gross_reward_bps = Num 1250,
     i_exit_plan = sample_plan, i_metadata = [(''z'', ''1''), (''a'', ''2'')]\<rparr>"

definition sample_intent :: sleeve_intent where
  "sample_intent = with_intent_id (normalized_intent sample_fields)"

lemma sample_intent_made: "make_sleeve_intent sample_fields = Inr sample_intent"
proof -
  have "list_all (\<lambda>c. \<not> fst c) (intent_checks sample_fields)" by code_simp
  then show ?thesis by (simp add: make_sleeve_intent_def validate_Inr_iff sample_intent_def)
qed

text \<open>
  An exit plan the constructor accepts has two finite positive barriers that differ, a
  positive holding time, and either no trailing stop or a finite positive trailing distance strictly
  below a finite activation price.
\<close>

theorem exit_plan_contract:
  assumes "make_exit_plan p = Inr q"
  shows "exit_plan_wf q"
  using assms by (rule make_exit_plan_wf)

theorem exit_plan_contract_witness: "exit_plan_wf sample_plan"
proof (rule exit_plan_contract)
  show "make_exit_plan sample_plan = Inr sample_plan" by code_simp
qed



text \<open>
  The order in which a sleeve lists its metadata does not matter: any rearrangement gives
  the same intent, identifier included.
\<close>

theorem intent_metadata_order:
  assumes "mset md = mset (i_metadata f)"
  shows "make_sleeve_intent (f\<lparr>i_metadata := md\<rparr>) = Inr s \<longleftrightarrow> make_sleeve_intent f = Inr s"
  using assms by (rule metadata_order_irrelevant)

theorem intent_metadata_order_witness:
  "make_sleeve_intent (sample_fields\<lparr>i_metadata := [(''a'', ''2''), (''z'', ''1'')]\<rparr>) = Inr sample_intent"
  by (subst intent_metadata_order) (simp_all add: sample_fields_def sample_intent_made [unfolded sample_fields_def])

text \<open>
  The economics of a trade record: costs never improve the result (net profit is at most
  gross profit and is gross minus the summed costs), the initial risk is strictly positive, and the
  R multiple is finite and is net profit over initial risk.
\<close>

theorem trade_record_economics:
  assumes "make_trade_record t = Inr r"
  shows "fle (net_pnl_usd r) (gross_pnl_usd r) \<and> nonneg (total_cost_usd r) \<and>
    fless fzero (initial_risk_usd r) \<and> is_finite (r_multiple r) \<and>
    net_pnl_usd r = fsub (gross_pnl_usd r) (total_cost_usd r) \<and>
    r_multiple r = fdiv (net_pnl_usd r) (initial_risk_usd r)"
  using assms by (rule make_trade_record_economics)

definition sample_trade :: trade_fields where
  "sample_trade = \<lparr>t_intent = sample_intent, t_entry_timestamp_ms = 2000, t_exit_timestamp_ms = 9000,
     t_entry_price = Num 100, t_exit_price = Num 108, t_quantity = Num 2, t_exit_reason = TAKE_PROFIT,
     t_entry_fee_usd = Num 1, t_exit_fee_usd = Num 1, t_carry_cost_usd = Num 0,
     t_implementation_shortfall_usd = Num 0, t_maximum_adverse_excursion_usd = Num 0,
     t_maximum_favorable_excursion_usd = Num 16, t_ambiguous_intrabar = False\<rparr>"

lemmas sample_trade_simps = sample_trade_def sample_intent_def normalized_intent_def sample_fields_def
  sample_plan_def normalized_trade_def normalized_float_def drop_zero_sign_def

lemma sample_trade_checks: "list_all (\<lambda>c. \<not> fst c) (trade_checks sample_trade)"
  by (simp add: trade_checks_def Let_def sample_trade_simps require_cost_def require_finite_def
      require_timestamp_def)

lemma sample_trade_made: "\<exists>r. make_trade_record sample_trade = Inr r"
proof -
  let ?n = "normalized_trade sample_trade"
  have g: "gross_pnl ?n = Num 16"
    by (simp add: gross_pnl_def sample_trade_simps fsub_def fadd_def fmul_def is_inf_def is_zero_def
        rnd_numeral)
  have c: "total_cost_usd ?n = Num 2"
    by (simp add: total_cost_usd_def sample_trade_simps fadd_def rnd_numeral)
  have n: "net_pnl ?n = Num 14"
    by (simp add: net_pnl_def g c fsub_def fadd_def rnd_numeral)
  have i: "initial_risk ?n = Num 8"
    by (simp add: initial_risk_def sample_trade_simps fsub_def fadd_def fmul_def is_inf_def is_zero_def
        rnd_numeral)
  have d: "fdiv (Num 14) (Num 8) = Num (7 / 4)" by code_simp
  show ?thesis
    using sample_trade_checks
    by (simp add: make_trade_record_def validate_Inr_iff rbind_Inr_iff trade_economics_def g n i py_div_def d
        is_zero_def)
qed

theorem trade_record_economics_witness:
  "\<exists>r. make_trade_record sample_trade = Inr r \<and> fle (net_pnl_usd r) (gross_pnl_usd r)"
  using sample_trade_made trade_record_economics [of sample_trade] by blast


definition least_subnormal :: rat where
  "least_subnormal = 2 powi (- 1074)"

definition dust_trade :: trade_fields where
  "dust_trade = sample_trade\<lparr>t_entry_price := Num (193 / 2), t_quantity := Num least_subnormal\<rparr>"

lemma rnd_half_grid:
  assumes g: "g = - 1074"
  shows "rnd (2 powi g / 2) = Num 0"
proof -
  let ?q = "(2 :: rat) powi g / 2"
  have pos: "0 < ?q" by simp
  have "(2 :: rat) powi g \<le> 2 powi (- 1022)" by (subst powi2_le_iff) (simp add: g)
  then have "?q < 2 powi (- 1022)" using pos by linarith
  then have "ilog2 ?q < - 1022" using pos by (intro ilog2_less)
  then have "grid_exp ?q = g" by (simp add: grid_exp_def g)
  then have half: "?q / 2 powi grid_exp ?q = 1 / 2" by simp
  have "\<lfloor>1 / 2 :: rat\<rfloor> = 0" by (simp add: floor_eq_iff)
  then have "round_half_even (1 / 2) = 0" by (simp add: round_half_even_def Let_def)
  then have "round_half_even (?q / 2 powi grid_exp ?q) = 0" by (simp only: half)
  then have "round_pos ?q = 0" by (simp only: round_pos_def)
  moreover have "\<not> ?q < 0" "?q \<noteq> 0" using pos by linarith+
  ultimately have "rnd ?q = rnd_pos ?q" "rnd_pos ?q = Num 0"
    by (simp_all only: rnd_def if_False) (simp add: rnd_pos_def overflow_bound_def)
  then show ?thesis by simp
qed

lemma dust_risk: "initial_risk (normalized_trade dust_trade) = Num 0"
proof -
  have "fmul (Num least_subnormal) (Num (1 / 2)) = Num 0"
    using rnd_half_grid [OF refl]
    by (simp only: fmul_def Let_def) (simp add: is_inf_def is_zero_def least_subnormal_def)
  moreover have "fsub (Num (193 / 2)) (Num 96) = Num (1 / 2)" by code_simp
  moreover have "least_subnormal \<noteq> 0" by (simp add: least_subnormal_def)
  ultimately show ?thesis
    by (simp add: initial_risk_def dust_trade_def sample_trade_simps)
qed

lemma dust_trade_error: "make_trade_record dust_trade = Inl (ZeroDivisionError ''float division by zero'')"
proof -
  have "0 < least_subnormal" by (simp add: least_subnormal_def)
  then have "list_all (\<lambda>c. \<not> fst c) (trade_checks dust_trade)"
    by (simp add: dust_trade_def trade_checks_def Let_def sample_trade_simps require_cost_def
        require_finite_def require_timestamp_def)
  then have "validate (trade_checks dust_trade) (normalized_trade dust_trade) = Inr (normalized_trade dust_trade)"
    by (simp add: validate_Inr_iff)
  then show ?thesis by (simp add: make_trade_record_def trade_economics_def dust_risk py_div_def is_zero_def)
qed


end
