(* ===== verification/Factors.thy ===== *)
theory Factors
  imports PyFloat
begin

section \<open>Derivative-state observations (factors.py)\<close>

text \<open>
  The hourly factor observation with the checks of its constructor, and the canonical order of a
  sequence of observations: the second provider of the interface \<open>canonical_order\<close>.
\<close>

definition hour_ms :: int where
  "hour_ms = 60 * 60 * 1000"

record observation =
  o_symbol :: string
  o_open_time_ms :: int
  o_close_time_ms :: int
  o_premium_close :: pyfloat
  o_funding_rate :: pyfloat
  o_funding_timestamp_ms :: int
  o_open_interest_value :: pyfloat
  o_open_interest_timestamp_ms :: int

definition make_observation :: "observation \<Rightarrow> observation result" where
  "make_observation x = validate
    [(o_symbol x = [] \<or> o_symbol x \<noteq> upper (strip (o_symbol x)),
        ValueError ''factor symbol must be a normalized uppercase string''),
     (list_ex (\<lambda>t. t < 0) [o_open_time_ms x, o_close_time_ms x, o_funding_timestamp_ms x,
          o_open_interest_timestamp_ms x],
        ValueError ''factor timestamps must be non-negative integers''),
     (o_open_time_ms x mod hour_ms \<noteq> 0 \<or> o_close_time_ms x \<noteq> o_open_time_ms x + hour_ms - 1,
        ValueError ''factor observation must cover one complete UTC hour''),
     (\<not> (o_open_time_ms x \<le> o_open_interest_timestamp_ms x \<and>
          o_open_interest_timestamp_ms x \<le> o_close_time_ms x),
        ValueError ''open-interest timestamp must lie inside the observed hour''),
     (\<not> (o_open_time_ms x - 8 * hour_ms \<le> o_funding_timestamp_ms x \<and>
          o_funding_timestamp_ms x \<le> o_close_time_ms x),
        ValueError ''funding observation must be known and no older than eight hours''),
     (\<not> list_all is_finite [o_premium_close x, o_funding_rate x, o_open_interest_value x],
        ValueError ''factor values must be finite''),
     (fle (o_open_interest_value x) fzero, ValueError ''open interest must be positive'')] x"

definition valid_observation :: "observation \<Rightarrow> bool" where
  "valid_observation x \<longleftrightarrow> make_observation x = Inr x"

definition observation_key :: "observation \<Rightarrow> int \<times> string" where
  "observation_key x = (o_open_time_ms x, o_symbol x)"

fun scan_observations :: "string \<Rightarrow> int option \<Rightarrow> observation list \<Rightarrow> py_error option" where
  "scan_observations symb previous_open [] = None"
| "scan_observations symb previous_open (x # xs) =
     (if o_symbol x \<noteq> symb
      then Some (ValueError ''one contextual evaluation cannot mix factor symbols'')
      else if previous_open = Some (o_open_time_ms x)
      then Some (ValueError (''duplicate factor open timestamp '' @ str_int (o_open_time_ms x)))
      else scan_observations symb (Some (o_open_time_ms x)) xs)"

definition canonical_derivative_observations :: "observation list \<Rightarrow> observation list result" where
  "canonical_derivative_observations observations =
     (case sort_key observation_key observations of
        [] \<Rightarrow> Inr []
      | first # rest \<Rightarrow>
          (case scan_observations (o_symbol first) None (first # rest) of
             Some e \<Rightarrow> Inl e
           | None \<Rightarrow> Inr (first # rest)))"

lemma scan_observations_None_iff:
  "scan_observations symb prev xs = None \<longleftrightarrow>
     list_all (\<lambda>x. o_symbol x = symb) xs \<and>
     successively (\<lambda>a b. a \<noteq> b) (map Some (map o_open_time_ms xs)) \<and>
     (xs \<noteq> [] \<longrightarrow> prev \<noteq> Some (o_open_time_ms (hd xs)))"
proof (induction xs arbitrary: prev)
  case (Cons x xs)
  then show ?case by (cases xs) auto
qed simp

lemma canonical_observations_Inr_iff:
  "canonical_derivative_observations xs = Inr ys \<longleftrightarrow>
     ys = sort_key observation_key xs \<and>
     (ys \<noteq> [] \<longrightarrow> scan_observations (o_symbol (hd ys)) None ys = None)"
  by (cases "sort_key observation_key xs")
    (auto simp: canonical_derivative_observations_def simp del: scan_observations.simps split: option.splits)

lemma canonical_observations_rows:
  assumes "canonical_derivative_observations xs = Inr ys"
  shows "list_all (\<lambda>y. o_symbol y = o_symbol (hd ys)) ys"
    and "sorted_wrt (\<lambda>a b. o_open_time_ms a < o_open_time_ms b) ys"
proof -
  have ys: "ys = sort_key observation_key xs"
    and scan: "ys \<noteq> [] \<longrightarrow> scan_observations (o_symbol (hd ys)) None ys = None"
    using assms unfolding canonical_observations_Inr_iff by blast+
  show "list_all (\<lambda>y. o_symbol y = o_symbol (hd ys)) ys"
    using scan by (cases "ys = []") (auto simp: scan_observations_None_iff)
  have "successively (\<lambda>a b. a \<noteq> b) (map o_open_time_ms ys)"
    using scan by (cases "ys = []") (auto simp: scan_observations_None_iff successively_map)
  moreover have "sorted (map o_open_time_ms ys)"
  proof -
    have "sorted (map observation_key ys)" by (simp add: ys)
    then show ?thesis
      by (auto simp: sorted_map observation_key_def less_eq_prod_def elim!: sorted_wrt_mono_rel [rotated])
  qed
  ultimately have "successively (\<lambda>a b. o_open_time_ms a < o_open_time_ms b) ys"
    by (induction ys rule: induct_list012) auto
  then show "sorted_wrt (\<lambda>a b. o_open_time_ms a < o_open_time_ms b) ys"
    by (simp add: successively_sorted_less)
qed

interpretation observations: canonical_order observation_key canonical_derivative_observations
proof
  fix xs ys
  assume ok: "canonical_derivative_observations xs = Inr ys"
  then show "ys = sort_key observation_key xs" by (simp add: canonical_observations_Inr_iff)
  show "sorted_wrt (\<lambda>a b. observation_key a < observation_key b) ys"
    by (rule sorted_wrt_mono_rel [OF _ canonical_observations_rows(2) [OF ok]])
      (auto simp: observation_key_def less_prod_def)
next
  fix xs
  show "canonical_derivative_observations xs =
      canonical_derivative_observations (sort_key observation_key xs)"
    by (simp add: canonical_derivative_observations_def sort_key_id_if_sorted)
qed

text \<open>A prefix of ordered observations is ordered.\<close>

lemma canonical_observations_prefix:
  assumes canon: "canonical_derivative_observations (xs @ ys) = Inr (xs @ ys)"
  shows "canonical_derivative_observations xs = Inr xs"
proof -
  have "sorted_wrt (\<lambda>a b. observation_key a < observation_key b) xs"
    using observations.canon_strict [OF canon] by (simp add: sorted_wrt_append)
  then have "sort_key observation_key xs = xs" by (rule sort_key_eqI [OF refl])
  moreover have "scan_observations (o_symbol (hd xs)) None xs = None" if "xs \<noteq> []"
    using canon that by (simp add: canonical_observations_Inr_iff scan_observations_None_iff successively_append_iff)
  ultimately show ?thesis by (simp add: canonical_observations_Inr_iff)
qed

subsection \<open>Properties\<close>

definition sample_observation :: "int \<Rightarrow> observation" where
  "sample_observation i =
    \<lparr>o_symbol = ''BTCUSDT'', o_open_time_ms = 3600000 * i, o_close_time_ms = 3600000 * i + 3599999,
     o_premium_close = Num 0, o_funding_rate = Num 0, o_funding_timestamp_ms = 3600000 * i,
     o_open_interest_value = Num 5, o_open_interest_timestamp_ms = 3600000 * i + 1\<rparr>"

text \<open>
  Canonicalising factor observations does not depend on their order and is idempotent; the
  result is a rearrangement of the input, of one symbol, with strictly increasing hours.
\<close>

theorem canonical_observations_canonical:
  assumes "canonical_derivative_observations xs = Inr zs"
  shows "mset zs = mset xs \<and> list_all (\<lambda>y. o_symbol y = o_symbol (hd zs)) zs \<and>
    sorted_wrt (\<lambda>a b. o_open_time_ms a < o_open_time_ms b) zs \<and>
    canonical_derivative_observations zs = Inr zs \<and>
    (mset ys = mset xs \<longrightarrow> canonical_derivative_observations ys = Inr zs)"
  using assms observations.canon_mset observations.canon_permute observations.canon_idempotent
    canonical_observations_rows by blast

theorem canonical_observations_canonical_witness:
  "canonical_derivative_observations [sample_observation 9, sample_observation 8] =
     Inr [sample_observation 8, sample_observation 9]"
proof -
  have "canonical_derivative_observations [sample_observation 8, sample_observation 9] =
      Inr [sample_observation 8, sample_observation 9]" by code_simp
  from canonical_observations_canonical [OF this, of "[sample_observation 9, sample_observation 8]"]
  show ?thesis by (simp add: add_mset_commute)
qed

text \<open>
  A factor observation the constructor accepts is causal: it covers one aligned hour, its
  open interest was sampled within that hour and its funding rate was known by the end of the hour and
  is at most eight hours older than its start.
\<close>

theorem observation_causal:
  assumes "make_observation x = Inr y"
  shows "y = x \<and> o_open_time_ms y mod hour_ms = 0 \<and> o_close_time_ms y = o_open_time_ms y + hour_ms - 1 \<and>
    o_open_interest_timestamp_ms y \<in> {o_open_time_ms y .. o_close_time_ms y} \<and>
    o_funding_timestamp_ms y \<in> {o_open_time_ms y - 8 * hour_ms .. o_close_time_ms y} \<and>
    is_finite (o_open_interest_value y) \<and> fless fzero (o_open_interest_value y)"
  using assms not_fle_fless [of "o_open_interest_value x" fzero]
  by (auto simp: make_observation_def validate_Inr_iff is_finite_not_NaN)

theorem observation_causal_witness:
  "o_funding_timestamp_ms (sample_observation 8) \<le> o_close_time_ms (sample_observation 8)"
proof -
  have "make_observation (sample_observation 8) = Inr (sample_observation 8)" by code_simp
  from observation_causal [OF this] show ?thesis by simp
qed

end
