(* ===== verification/Allocation.thy ===== *)
theory Allocation
  imports PyFloat PyText
begin

section \<open>Target allocations (allocation.py)\<close>

text \<open>
  The end-of-day target weight of a slow portfolio strategy: the checks of its constructor in order,
  the canonical metadata and the identifier derived from the content.
\<close>

datatype allocation_reason = SIGNAL | VOLATILITY | DEADBAND_HOLD

fun allocation_reason_value :: "allocation_reason \<Rightarrow> string" where
  "allocation_reason_value SIGNAL = ''signal''"
| "allocation_reason_value VOLATILITY = ''volatility''"
| "allocation_reason_value DEADBAND_HOLD = ''deadband_hold''"

record allocation_fields =
  a_strategy_id :: string
  a_symbol :: string
  a_decision_ts_ms :: int
  a_effective_ts_ms :: int
  a_target_weight :: pyfloat
  a_annualized_volatility :: "pyfloat option"
  a_active_horizons :: "int list"
  a_trailing_stops :: "(int \<times> pyfloat) list"
  a_reason :: allocation_reason
  a_metadata :: "(string \<times> string) list"

record target_allocation = allocation_fields +
  allocation_id :: string

definition allocation_checks :: "allocation_fields \<Rightarrow> (bool \<times> py_error) list" where
  "allocation_checks f =
    [(a_strategy_id f = [] \<or> a_strategy_id f \<noteq> strip (a_strategy_id f),
        ValueError ''strategy_id must be normalized''),
     (a_symbol f = [] \<or> a_symbol f \<noteq> upper (strip (a_symbol f)),
        ValueError ''symbol must be normalized uppercase''),
     (a_decision_ts_ms f < 0 \<or> a_effective_ts_ms f < 0,
        ValueError ''allocation timestamps must be non-negative integers''),
     (a_effective_ts_ms f \<le> a_decision_ts_ms f,
        ValueError ''allocation must become effective after its decision''),
     (\<not> is_finite (a_target_weight f) \<or>
        \<not> (fle fzero (a_target_weight f) \<and> fle (a_target_weight f) (Num 2)),
        ValueError ''target_weight must be finite within [0, 2]''),
     (case a_annualized_volatility f of None \<Rightarrow> False
      | Some v \<Rightarrow> \<not> is_finite v \<or> fle v fzero,
        ValueError ''annualized_volatility must be None or finite and positive''),
     (sort (remdups (a_active_horizons f)) \<noteq> a_active_horizons f,
        ValueError ''active_horizons must be sorted and unique''),
     (map fst (a_trailing_stops f) \<noteq> a_active_horizons f,
        ValueError ''trailing stops must exactly cover active horizons''),
     (list_ex (\<lambda>s. \<not> is_finite s \<or> fle s fzero) (map snd (a_trailing_stops f)),
        ValueError ''trailing stops must be finite and positive''),
     (\<not> distinct (map fst (sort (a_metadata f))) \<or>
        list_ex (\<lambda>(k, _). k = [] \<or> k \<noteq> strip k) (sort (a_metadata f)),
        ValueError ''metadata must contain unique normalized string pairs'')]"

definition allocation_payload :: "allocation_fields \<Rightarrow> json" where
  "allocation_payload f = JObj
    [(''active_horizons'', JList (map JInt (a_active_horizons f))),
     (''annualized_volatility'', opt_json JFloat (a_annualized_volatility f)),
     (''decision_ts_ms'', JInt (a_decision_ts_ms f)),
     (''effective_ts_ms'', JInt (a_effective_ts_ms f)),
     (''metadata'', pairs_json (a_metadata f)),
     (''reason'', JStr (allocation_reason_value (a_reason f))),
     (''strategy_id'', JStr (a_strategy_id f)),
     (''symbol'', JStr (a_symbol f)),
     (''target_weight'', JFloat (a_target_weight f)),
     (''trailing_stops'', JList (map (\<lambda>(h, s). JList [JInt h, JFloat s]) (a_trailing_stops f)))]"

definition with_allocation_id :: "allocation_fields \<Rightarrow> target_allocation" where
  "with_allocation_id f =
     allocation_fields.extend f \<lparr>allocation_id = json_sha256 (allocation_payload f)\<rparr>"

definition make_target_allocation :: "allocation_fields \<Rightarrow> target_allocation result" where
  "make_target_allocation f = validate (allocation_checks f)
     (with_allocation_id (f\<lparr>a_metadata := sort (a_metadata f)\<rparr>))"

definition allocation_wf :: "target_allocation \<Rightarrow> bool" where
  "allocation_wf a \<longleftrightarrow>
     a_strategy_id a \<noteq> [] \<and> a_symbol a \<noteq> [] \<and>
     0 \<le> a_decision_ts_ms a \<and> a_decision_ts_ms a < a_effective_ts_ms a \<and>
     fle fzero (a_target_weight a) \<and> fle (a_target_weight a) (Num 2) \<and>
     (\<forall>v. a_annualized_volatility a = Some v \<longrightarrow> is_finite v \<and> fless fzero v) \<and>
     sorted_wrt (<) (a_active_horizons a) \<and> map fst (a_trailing_stops a) = a_active_horizons a \<and>
     (\<forall>s \<in> set (map snd (a_trailing_stops a)). is_finite s \<and> fless fzero s) \<and>
     distinct (map fst (a_metadata a)) \<and> sorted (a_metadata a) \<and>
     length (allocation_id a) = 64"

lemma sort_remdups_fixed_iff: "sort (remdups xs) = xs \<longleftrightarrow> sorted_wrt (<) (xs :: int list)"
  by (metis distinct_remdups distinct_remdups_id distinct_sort sorted_sort sorted_sort_id strict_sorted_iff)

lemma fle_zero_finite: "is_finite v \<Longrightarrow> \<not> fle v fzero \<Longrightarrow> fless fzero v"
  using not_fle_fless [of v fzero] is_finite_not_NaN by auto

lemma make_target_allocation_wf:
  assumes "make_target_allocation f = Inr a"
  shows "allocation_wf a"
  using assms
  by (auto simp: make_target_allocation_def validate_Inr_iff allocation_checks_def allocation_wf_def
      with_allocation_id_def allocation_fields.extend_def sort_remdups_fixed_iff fle_zero_finite
      list_ex_iff split: option.splits)

subsection \<open>Properties\<close>

text \<open>
  An accepted target allocation takes effect strictly after its decision, keeps its weight
  within [0, 2], has strictly increasing horizons each covered by exactly one finite positive trailing
  stop, and sorted metadata with unique keys.
\<close>

theorem allocation_contract:
  assumes "make_target_allocation f = Inr a"
  shows "allocation_wf a"
  using assms by (rule make_target_allocation_wf)

definition sample_allocation :: allocation_fields where
  "sample_allocation =
    \<lparr>a_strategy_id = ''donchian'', a_symbol = ''BTCUSDT'', a_decision_ts_ms = 5, a_effective_ts_ms = 6,
     a_target_weight = Num (3 / 2), a_annualized_volatility = Some (Num (1 / 4)),
     a_active_horizons = [10, 20], a_trailing_stops = [(10, Num 90), (20, Num 80)],
     a_reason = SIGNAL, a_metadata = [(''b'', ''1''), (''a'', ''2'')]\<rparr>"

theorem allocation_contract_witness: "\<exists>a. make_target_allocation sample_allocation = Inr a \<and> allocation_wf a"
proof -
  have "list_all (\<lambda>c. \<not> fst c) (allocation_checks sample_allocation)" by code_simp
  then have "\<exists>a. make_target_allocation sample_allocation = Inr a"
    by (simp add: make_target_allocation_def validate_Inr_iff)
  then show ?thesis using allocation_contract by blast
qed

end
