(* ===== verification/Provenance.thy ===== *)
theory Provenance
  imports Candles PyText
begin

section \<open>Canonical fingerprints (provenance.py)\<close>

text \<open>
  The canonical JSON of a Python value, the fingerprint of a source tree (logical paths, LF line
  ends, length-prefixed frames) and the fingerprint of a minute window. Python values are a datatype
  with one constructor per case the encoder distinguishes; a mapping is an association list in
  insertion order. The byte stream that is hashed is a definition of its own, so that the lemmas can
  say what it identifies without assuming anything of the hash.
\<close>

subsection \<open>Canonical values\<close>

text \<open>\<open>PData\<close> is a dataclass instance with its fields, \<open>PEnum\<close> a member of an enumeration with its
  value, \<open>POther\<close> an instance of an unsupported class, of which only the class name matters.\<close>

datatype py_value =
    PNone
  | PBool bool
  | PInt int
  | PFloat pyfloat
  | PStr string
  | PList "py_value list"
  | PDict "(py_value \<times> py_value) list"
  | PData "(string \<times> py_value) list"
  | PEnum py_value
  | POther string

fun is_str :: "py_value \<Rightarrow> bool" where
  "is_str (PStr _) = True"
| "is_str _ = False"

fun str_of :: "py_value \<Rightarrow> string" where
  "str_of (PStr s) = s"
| "str_of _ = []"

text \<open>The members of a mapping, visited in the order of their keys.\<close>

definition json_members :: "(string \<times> json result) list \<Rightarrow> json result" where
  "json_members kvs = rmap JObj (traverse (\<lambda>(k, r). rmap (Pair k) r) (sort_key fst kvs))"

fun canonical_value :: "py_value \<Rightarrow> json result" where
  "canonical_value (PData fs) = json_members (map (\<lambda>(k, v). (k, canonical_value v)) fs)"
| "canonical_value (PEnum v) = canonical_value v"
| "canonical_value (PDict kvs) =
     (if list_ex (\<lambda>(k, _). \<not> is_str k) kvs
      then Inl (TypeError ''canonical mappings require string keys'')
      else json_members (map (\<lambda>(k, v). (str_of k, canonical_value v)) kvs))"
| "canonical_value (PList vs) = rmap JList (traverse id (map canonical_value vs))"
| "canonical_value PNone = Inr JNull"
| "canonical_value (PStr s) = Inr (JStr s)"
| "canonical_value (PBool b) = Inr (JBool b)"
| "canonical_value (PInt n) = Inr (JInt n)"
| "canonical_value (PFloat x) =
     (if \<not> is_finite x then Inl (ValueError ''canonical JSON cannot contain non-finite numbers'')
      else Inr (JFloat (if feq x fzero then Num 0 else x)))"
| "canonical_value (POther cls) = Inl (TypeError (''unsupported canonical value type: '' @ cls))"

definition canonical_json_bytes :: "py_value \<Rightarrow> byte list result" where
  "canonical_json_bytes v = rmap (\<lambda>j. bytes_of_string (json_text False j)) (canonical_value v)"

definition canonical_sha256 :: "py_value \<Rightarrow> string result" where
  "canonical_sha256 v = rmap sha256_hex (canonical_json_bytes v)"

subsection \<open>Source trees\<close>

fun split_on :: "char \<Rightarrow> string \<Rightarrow> string list" where
  "split_on sep [] = [[]]"
| "split_on sep (c # cs) =
     (if c = sep then [] # split_on sep cs
      else (case split_on sep cs of [] \<Rightarrow> [[c]] | p # ps \<Rightarrow> (c # p) # ps))"

text \<open>\<open>PurePosixPath(s).parts\<close> of a relative path: empty components and single dots disappear.\<close>

definition posix_parts :: "string \<Rightarrow> string list" where
  "posix_parts s = filter (\<lambda>p. p \<noteq> [] \<and> p \<noteq> ''.'') (split_on (CHR ''/'') s)"

fun join_posix :: "string list \<Rightarrow> string" where
  "join_posix [] = ''.''"
| "join_posix [p] = p"
| "join_posix (p # ps) = p @ ''/'' @ join_posix ps"

definition replace_backslash :: "string \<Rightarrow> string" where
  "replace_backslash s = map (\<lambda>c. if c = CHR 0x5C then CHR ''/'' else c) s"

definition logical_source_path :: "string \<Rightarrow> string result" where
  "logical_source_path value =
     (let normalized = replace_backslash value; parts = posix_parts normalized in
      if normalized = [] \<or> hd normalized = CHR ''/'' \<or> CHR '':'' \<in> set normalized \<or>
         list_ex (\<lambda>p. p \<in> {'''', ''.'', ''..''}) parts
      then Inl (ValueError ''source keys must be normalized package-relative paths'')
      else Inr (join_posix parts))"

fun replace_crlf :: "string \<Rightarrow> string" where
  "replace_crlf (c # d # s) =
     (if c = CHR 0x0D \<and> d = CHR 0x0A then CHR 0x0A # replace_crlf s else c # replace_crlf (d # s))"
| "replace_crlf s = s"

definition normalized_source_text :: "string \<Rightarrow> string" where
  "normalized_source_text s = map (\<lambda>c. if c = CHR 0x0D then CHR 0x0A else c) (replace_crlf s)"

fun collect_sources :: "(string \<times> string) list \<Rightarrow> (string \<times> string) list \<Rightarrow> (string \<times> string) list result" where
  "collect_sources normalized [] = Inr normalized"
| "collect_sources normalized ((name, content) # sources) =
     rbind (logical_source_path name) (\<lambda>logical.
       if logical \<in> fst ` set normalized
       then Inl (ValueError (''duplicate normalized source path: '' @ logical))
       else collect_sources (normalized @ [(logical, normalized_source_text content)]) sources)"

text \<open>One file of the stream: both lengths are fixed-width, and a length that does not fit raises.\<close>

definition source_frame :: "string \<times> string \<Rightarrow> byte list result" where
  "source_frame lc =
     (let name = bytes_of_string (fst lc); content = bytes_of_string (snd lc) in
      if 2 ^ 32 \<le> int (length name) \<or> 2 ^ 64 \<le> int (length content)
      then Inl (OverflowError ''int too big to convert'')
      else Inr (big_endian 4 (length name) @ name @ big_endian 8 (length content) @ content))"

definition source_stream :: "(string \<times> string) list \<Rightarrow> byte list result" where
  "source_stream sources =
     rbind (collect_sources [] sources) (\<lambda>normalized.
       if normalized = [] then Inl (ValueError ''at least one source file is required'')
       else extend_all source_frame (sort_key fst normalized))"

definition source_tree_sha256 :: "(string \<times> string) list \<Rightarrow> string result" where
  "source_tree_sha256 sources = rmap sha256_hex (source_stream sources)"

text \<open>
  The installed package is read through \<open>importlib.resources\<close>; the reader is a parameter that gets the
  components of the path. A later path replaces an earlier one of the same logical name.
\<close>

fun dict_set :: "'k \<Rightarrow> 'v \<Rightarrow> ('k \<times> 'v) list \<Rightarrow> ('k \<times> 'v) list" where
  "dict_set k v [] = [(k, v)]"
| "dict_set k v ((k', w) # kvs) = (if k = k' then (k, v) # kvs else (k', w) # dict_set k v kvs)"

definition installed_source_tree_sha256 :: "(string list \<Rightarrow> string result) \<Rightarrow> string list \<Rightarrow> string result" where
  "installed_source_tree_sha256 read relative_paths =
     rbind (traverse (\<lambda>path. rbind (logical_source_path path) (\<lambda>logical.
              rmap (Pair logical) (read (posix_parts path)))) relative_paths)
       (\<lambda>read_files. source_tree_sha256 (foldl (\<lambda>d (k, v). dict_set k v d) [] read_files))"

subsection \<open>Candles, configurations and features\<close>

definition candle_payload :: "candle \<Rightarrow> py_value" where
  "candle_payload c = PDict (map (\<lambda>(k, v). (PStr k, v))
    [(''close'', PFloat (c_close c)),
     (''close_time_ms'', PInt (c_close_time_ms c)),
     (''high'', PFloat (c_high c)),
     (''low'', PFloat (c_low c)),
     (''open'', PFloat (c_open c)),
     (''open_time_ms'', PInt (c_open_time_ms c)),
     (''quote_volume'', PFloat (c_quote_volume c)),
     (''symbol'', PStr (c_symbol c)),
     (''taker_buy_volume'', PFloat (c_taker_buy_volume c)),
     (''taker_buy_quote_volume'', PFloat (c_taker_buy_quote_volume c)),
     (''timeframe'', PStr (c_timeframe c)),
     (''volume'', PFloat (c_volume c))])"

definition input_window_sha256 :: "candle list \<Rightarrow> string result" where
  "input_window_sha256 candles =
     rbind (canonical_candles candles (Some ''1m''))
       (\<lambda>ordered. canonical_sha256 (PList (map candle_payload ordered)))"

fun is_dataclass :: "py_value \<Rightarrow> bool" where
  "is_dataclass (PData _) = True"
| "is_dataclass _ = False"

definition config_sha256 :: "py_value \<Rightarrow> string result" where
  "config_sha256 config =
     (if is_dataclass config then canonical_sha256 config
      else Inl (TypeError ''strategy config must be a dataclass instance''))"

definition features_sha256 :: "py_value \<Rightarrow> string result" where
  "features_sha256 features = canonical_sha256 features"


subsection \<open>Values that share a fingerprint\<close>

text \<open>
  The differences the canonical encoding ignores: the sign of a zero, tuples against lists (one
  constructor here), a dataclass against the dictionary of its fields, an enumeration member against
  its value, and the insertion order of a mapping, at any depth.
\<close>

inductive py_same :: "py_value \<Rightarrow> py_value \<Rightarrow> bool" where
  same_refl: "py_same v v"
| same_trans: "py_same u v \<Longrightarrow> py_same v w \<Longrightarrow> py_same u w"
| same_zero: "py_same (PFloat NegZero) (PFloat (Num 0))"
| same_enum: "py_same (PEnum v) v"
| same_data: "py_same (PData fs) (PDict (map (\<lambda>(k, v). (PStr k, v)) fs))"
| same_list: "list_all2 py_same vs ws \<Longrightarrow> py_same (PList vs) (PList ws)"
| same_dict: "list_all2 (rel_prod (=) py_same) kvs kvs' \<Longrightarrow> py_same (PDict kvs) (PDict kvs')"
| same_order: "distinct (map fst kvs) \<Longrightarrow> mset kvs = mset kvs' \<Longrightarrow> py_same (PDict kvs) (PDict kvs')"

lemma json_members_permute:
  assumes "distinct (map fst kvs)" and "mset kvs = mset kvs'"
  shows "json_members kvs = json_members kvs'"
proof -
  have "distinct (map fst (sort_key fst kvs))"
    using assms(1) by (metis mset_eq_imp_distinct_iff mset_map mset_sort)
  then have "sorted_wrt (\<lambda>a b. fst a < fst b) (sort_key fst kvs)"
    by (metis sorted_sort_key strict_sorted_iff sorted_wrt_map)
  then have "sort_key fst kvs' = sort_key fst kvs" using assms(2) by (intro sort_key_eqI) simp_all
  then show ?thesis by (simp add: json_members_def)
qed

lemma str_keys: "\<not> list_ex (\<lambda>(k, _). \<not> is_str k) kvs \<Longrightarrow> (k, v) \<in> set kvs \<Longrightarrow> k = PStr (str_of k)"
  by (cases k) (auto simp: list_ex_iff)

lemma canonical_value_same:
  assumes "py_same v w"
  shows "canonical_value v = canonical_value w"
  using assms
proof (induction rule: py_same.induct)
  case (same_data fs)
  have "\<not> list_ex (\<lambda>(k, _). \<not> is_str k) (map (\<lambda>(k, v). (PStr k, v)) fs)"
    by (auto simp: list_ex_iff)
  then show ?case by (simp add: comp_def split_def)
next
  case (same_list vs ws)
  then have "map canonical_value vs = map canonical_value ws"
    by (intro list.rel_eq [THEN fun_cong, THEN fun_cong, THEN iffD1])
      (auto simp: list.rel_map elim: list.rel_mono_strong)
  then show ?case by simp
next
  case (same_dict kvs kvs')
  then have eq: "list_all2 (\<lambda>(k, v) (k', w). k = k' \<and> canonical_value v = canonical_value w) kvs kvs'"
    by (auto elim!: list.rel_mono_strong)
  then have "list_ex (\<lambda>(k, _). \<not> is_str k) kvs = list_ex (\<lambda>(k, _). \<not> is_str k) kvs'"
    by (induction rule: list_all2_induct) auto
  moreover from eq have "map (\<lambda>(k, v). (str_of k, canonical_value v)) kvs =
      map (\<lambda>(k, v). (str_of k, canonical_value v)) kvs'"
    by (induction rule: list_all2_induct) auto
  ultimately show ?case by simp
next
  case (same_order kvs kvs')
  have set_eq: "set kvs = set kvs'" using same_order by (metis set_mset_mset)
  show ?case
  proof (cases "list_ex (\<lambda>(k, _). \<not> is_str k) kvs")
    case True
    then show ?thesis using set_eq by (simp add: list_ex_iff)
  next
    case False
    let ?f = "\<lambda>(k, v). (str_of k, canonical_value v)"
    have "inj_on str_of (set (map fst kvs))"
      using str_keys [OF False] by (intro inj_onI) (metis (no_types, lifting) imageE list.set_map prod.collapse)
    then have "distinct (map str_of (map fst kvs))" using same_order(1) by (simp only: distinct_map simp_thms)
    then have "distinct (map fst (map ?f kvs))" by (simp add: comp_def split_def)
    moreover have "mset (map ?f kvs) = mset (map ?f kvs')" using same_order(2) by simp
    ultimately have "json_members (map ?f kvs) = json_members (map ?f kvs')"
      by (rule json_members_permute)
    moreover have "\<not> list_ex (\<lambda>(k, _). \<not> is_str k) kvs'" using False set_eq by (simp add: list_ex_iff)
    ultimately show ?thesis using False by simp
  qed
qed (auto simp: feq_def)

subsection \<open>Source trees: what the stream identifies\<close>

lemma collect_sources_Inr_iff:
  assumes "distinct (map fst acc)"
  shows "collect_sources acc sources = Inr n \<longleftrightarrow>
    (\<exists>ys. traverse (\<lambda>(name, content). rmap (\<lambda>l. (l, normalized_source_text content)) (logical_source_path name))
        sources = Inr ys \<and> n = acc @ ys \<and> distinct (map fst (acc @ ys)))"
  using assms
proof (induction acc sources rule: collect_sources.induct)
  case (2 acc name content sources)
  show ?case
  proof (cases "logical_source_path name")
    case (Inr l)
    show ?thesis
    proof (cases "l \<in> fst ` set acc")
      case True
      then show ?thesis using Inr by (auto simp: rbind_Inr_iff)
    next
      case False
      then have "distinct (map fst (acc @ [(l, normalized_source_text content)]))" using 2(2) by auto
      from 2(1) [OF Inr False this] show ?thesis using Inr False by (auto simp: rbind_Inr_iff)
    qed
  qed simp
qed auto

definition normal_source :: "string \<times> string \<Rightarrow> (string \<times> string) result" where
  "normal_source nc = rmap (\<lambda>l. (l, normalized_source_text (snd nc))) (logical_source_path (fst nc))"

lemma collect_sources_iff:
  "collect_sources [] sources = Inr n \<longleftrightarrow> traverse normal_source sources = Inr n \<and> distinct (map fst n)"
proof -
  have f: "(\<lambda>(name, content). rmap (\<lambda>l. (l, normalized_source_text content)) (logical_source_path name))
      = normal_source"
    by (auto simp: normal_source_def)
  show ?thesis using collect_sources_Inr_iff [of "[]" sources n] by (auto simp: f)
qed

lemma sort_key_permute:
  assumes "distinct (map fst n)" and "mset n = mset m"
  shows "sort_key fst n = sort_key fst (m :: (string \<times> 'b) list)"
proof -
  have "distinct (map fst (sort_key fst n))"
    using assms(1) by (metis mset_eq_imp_distinct_iff mset_map mset_sort)
  then have "sorted_wrt (\<lambda>a b. fst a < fst b) (sort_key fst n)"
    by (metis sorted_sort_key strict_sorted_iff sorted_wrt_map)
  then show ?thesis using assms(2) by (intro sort_key_eqI [symmetric]) simp_all
qed

lemma traverse_permute:
  assumes "traverse f xs = Inr ys" and "mset zs = mset xs"
  shows "\<exists>ws. traverse f zs = Inr ws \<and> mset ws = mset ys"
proof -
  let ?g = "\<lambda>x. projr (f x)"
  have f: "f x = Inr (?g x)" if "x \<in> set xs" for x
    using assms(1) that by (auto simp: traverse_Inr_iff list_all2_conv_all_nth in_set_conv_nth)
  then have "ys = map ?g xs" using assms(1) by (simp add: traverse_total [where g = ?g])
  moreover have "set zs = set xs" using assms(2) by (metis set_mset_mset)
  then have "traverse f zs = Inr (map ?g zs)" using f by (intro traverse_total) simp
  ultimately show ?thesis using assms(2) by simp
qed

lemma traverse_same: "list_all2 (\<lambda>a b. f a = f b) xs ys \<Longrightarrow> traverse f xs = traverse f ys"
  by (induction rule: list_all2_induct) auto

lemma source_stream_permute:
  assumes "source_stream xs = Inr b" and "mset ys = mset xs"
  shows "source_stream ys = Inr b"
proof -
  from assms(1) obtain n where n: "collect_sources [] xs = Inr n" "n \<noteq> []"
    and b: "extend_all source_frame (sort_key fst n) = Inr b"
    by (auto simp: source_stream_def rbind_Inr_iff split: if_splits)
  then have t: "traverse normal_source xs = Inr n" and d: "distinct (map fst n)"
    by (simp_all add: collect_sources_iff)
  from traverse_permute [OF t assms(2)] obtain m where
    m: "traverse normal_source ys = Inr m" "mset m = mset n" by blast
  have "mset (map fst m) = mset (map fst n)" using m(2) by (simp only: mset_map)
  from mset_eq_imp_distinct_iff [OF this] have "distinct (map fst m)" using d by simp
  then have "collect_sources [] ys = Inr m" using m(1) by (simp add: collect_sources_iff)
  moreover have "sort_key fst m = sort_key fst n" by (rule sort_key_permute [OF d m(2) [symmetric], symmetric])
  moreover have "m \<noteq> []" using n(2) m(2) by auto
  ultimately show ?thesis using b by (simp add: source_stream_def)
qed

lemma collect_sources_same:
  assumes "list_all2 (\<lambda>a b. normal_source a = normal_source b) xs ys"
  shows "collect_sources [] xs = Inr n \<longleftrightarrow> collect_sources [] ys = Inr n"
  using traverse_same [OF assms] by (simp add: collect_sources_iff)

lemma source_stream_same:
  assumes "list_all2 (\<lambda>a b. normal_source a = normal_source b) xs ys" and "source_stream xs = Inr b"
  shows "source_stream ys = Inr b"
  using assms(2) collect_sources_same [OF assms(1)]
  by (auto simp: source_stream_def rbind_Inr_iff)

text \<open>Line ends and separators.\<close>

lemma replace_crlf_no_cr: "CHR 0x0D \<notin> set s \<Longrightarrow> replace_crlf s = s"
  by (induction s rule: replace_crlf.induct) auto

lemma normalized_source_text_no_cr: "CHR 0x0D \<notin> set (normalized_source_text s)"
  by (auto simp: normalized_source_text_def)

lemma normalized_source_text_fixed: "CHR 0x0D \<notin> set s \<Longrightarrow> normalized_source_text s = s"
  by (auto simp: normalized_source_text_def replace_crlf_no_cr intro: map_idI)

definition with_crlf :: "string \<Rightarrow> string" where
  "with_crlf s = concat (map (\<lambda>c. if c = CHR 0x0A then [CHR 0x0D, CHR 0x0A] else [c]) s)"

definition with_cr :: "string \<Rightarrow> string" where
  "with_cr s = map (\<lambda>c. if c = CHR 0x0A then CHR 0x0D else c) s"

lemma replace_crlf_other: "c \<noteq> CHR 0x0D \<Longrightarrow> replace_crlf (c # s) = c # replace_crlf s"
  by (cases s) simp_all

lemma replace_crlf_no_lf: "CHR 0x0A \<notin> set s \<Longrightarrow> replace_crlf s = s"
  by (induction s rule: replace_crlf.induct) auto

lemma replace_crlf_with_crlf: "CHR 0x0D \<notin> set s \<Longrightarrow> replace_crlf (with_crlf s) = s"
proof (induction s)
  case (Cons c s)
  have split: "with_crlf (c # s) = (if c = CHR 0x0A then [CHR 0x0D, CHR 0x0A] else [c]) @ with_crlf s"
    by (simp add: with_crlf_def)
  from Cons.IH Cons.prems show ?case by (auto simp: split replace_crlf_other)
qed (simp add: with_crlf_def)

lemma normalized_with_cr: "CHR 0x0D \<notin> set s \<Longrightarrow> normalized_source_text (with_cr s) = s"
proof -
  assume s: "CHR 0x0D \<notin> set s"
  have "CHR 0x0A \<notin> set (with_cr s)" by (auto simp: with_cr_def)
  then have "normalized_source_text (with_cr s) = map (\<lambda>c. if c = CHR 0x0D then CHR 0x0A else c) (with_cr s)"
    unfolding normalized_source_text_def by (rule arg_cong [OF replace_crlf_no_lf])
  also have "\<dots> = s" unfolding with_cr_def map_map using s by (intro map_idI) auto
  finally show ?thesis .
qed

lemma normalized_with_crlf: "CHR 0x0D \<notin> set s \<Longrightarrow> normalized_source_text (with_crlf s) = s"
  unfolding normalized_source_text_def by (auto simp: replace_crlf_with_crlf intro: map_idI)

lemma normal_source_line_ends:
  assumes "CHR 0x0D \<notin> set c"
  shows "normal_source (n, with_crlf c) = normal_source (n, c)"
    and "normal_source (n, with_cr c) = normal_source (n, c)"
  using assms
  by (simp_all add: normal_source_def normalized_with_crlf normalized_with_cr normalized_source_text_fixed)

lemma replace_backslash_idem [simp]: "replace_backslash (replace_backslash n) = replace_backslash n"
  by (simp add: replace_backslash_def)

lemma normal_source_separator: "normal_source (replace_backslash n, c) = normal_source (n, c)"
  by (simp add: normal_source_def logical_source_path_def)


subsection \<open>The stream determines the sources\<close>

definition big_endian_value :: "byte list \<Rightarrow> nat" where
  "big_endian_value bs = foldl (\<lambda>n b. n * 256 + unat b) 0 bs"

lemma big_endian_roundtrip: "n < 256 ^ k \<Longrightarrow> big_endian_value (big_endian k n) = n"
proof (induction k arbitrary: n)
  case (Suc k)
  then have "n div 256 < 256 ^ k" by (simp add: less_mult_imp_div_less)
  from Suc.IH [OF this] show ?case by (simp add: big_endian_value_def unat_of_nat)
qed (simp add: big_endian_value_def)

lemma bytes_of_string_inj: "bytes_of_string s = bytes_of_string t \<longleftrightarrow> s = t"
proof
  assume "bytes_of_string s = bytes_of_string t"
  moreover have "c = d" if "(of_nat (of_char c) :: byte) = of_nat (of_char d)" for c d
  proof -
    from that have "unat (of_nat (of_char c) :: byte) = unat (of_nat (of_char d) :: byte)" by simp
    then have "(of_char c :: nat) = of_char d" by (simp add: unat_of_nat)
    then show "c = d" by simp
  qed
  then have "inj (\<lambda>c. of_nat (of_char c) :: byte)" by (intro injI)
  ultimately show "s = t" by (simp add: bytes_of_string_def inj_map_eq_map)
qed simp

lemma source_frame_prefix_free:
  assumes "source_frame (n, c) = Inr a" and "source_frame (n', c') = Inr a'" and "a @ r = a' @ r'"
  shows "n = n' \<and> c = c' \<and> r = r'"
proof -
  let ?b = bytes_of_string
  from assms(1,2) have small: "length (?b n) < 256 ^ 4" "length (?b n') < 256 ^ 4"
    "length (?b c) < 256 ^ 8" "length (?b c') < 256 ^ 8"
    and a: "a = big_endian 4 (length (?b n)) @ ?b n @ big_endian 8 (length (?b c)) @ ?b c"
    and a': "a' = big_endian 4 (length (?b n')) @ ?b n' @ big_endian 8 (length (?b c')) @ ?b c'"
    by (auto simp: source_frame_def Let_def split: if_splits)
  from assms(3) have eq: "big_endian 4 (length (?b n)) = big_endian 4 (length (?b n'))"
    and r1: "?b n @ big_endian 8 (length (?b c)) @ ?b c @ r = ?b n' @ big_endian 8 (length (?b c')) @ ?b c' @ r'"
    by (simp_all add: a a')
  have "length (?b n) = length (?b n')" using small eq by (metis big_endian_roundtrip)
  with r1 have n: "?b n = ?b n'" and eq8: "big_endian 8 (length (?b c)) = big_endian 8 (length (?b c'))"
    and r2: "?b c @ r = ?b c' @ r'"
    by simp_all
  have "length (?b c) = length (?b c')" using small eq8 by (metis big_endian_roundtrip)
  with r2 n show ?thesis by (simp add: bytes_of_string_inj)
qed

lemma source_frame_nonempty: "source_frame p = Inr a \<Longrightarrow> a \<noteq> []"
  by (auto simp: source_frame_def Let_def split: if_splits dest!: arg_cong [where f = length])

lemma frames_injective:
  "extend_all source_frame ps = Inr b \<Longrightarrow> extend_all source_frame qs = Inr b \<Longrightarrow> ps = qs"
proof (induction ps arbitrary: qs b)
  case Nil
  then show ?case
    by (cases qs) (auto simp: extend_all_Cons rbind_Inr_iff rmap_Inr_iff dest: source_frame_nonempty)
next
  case (Cons p ps)
  from Cons.prems(1) obtain a r where a: "source_frame p = Inr a" and r: "extend_all source_frame ps = Inr r"
    and b: "b = a @ r" by (auto simp: extend_all_Cons rbind_Inr_iff rmap_Inr_iff)
  show ?case
  proof (cases qs)
    case Nil
    then show ?thesis using Cons.prems(2) b source_frame_nonempty [OF a] by simp
  next
    case (Cons q qs')
    then obtain a' r' where a': "source_frame q = Inr a'" and r': "extend_all source_frame qs' = Inr r'"
      and b': "b = a' @ r'"
      using Cons.prems(2) by (auto simp: extend_all_Cons rbind_Inr_iff rmap_Inr_iff)
    have "p = q \<and> r = r'"
      using source_frame_prefix_free [of "fst p" "snd p" a "fst q" "snd q" a' r r'] a a' b b'
      by (simp add: prod_eq_iff)
    then show ?thesis using Cons.IH [OF r] r' Cons by simp
  qed
qed

lemma source_stream_injective:
  assumes "source_stream xs = Inr b" and "source_stream ys = Inr b"
  shows "\<exists>n m. traverse normal_source xs = Inr n \<and> traverse normal_source ys = Inr m \<and> mset n = mset m"
proof -
  from assms obtain n m where "collect_sources [] xs = Inr n" "collect_sources [] ys = Inr m"
    and "extend_all source_frame (sort_key fst n) = Inr b" "extend_all source_frame (sort_key fst m) = Inr b"
    by (auto simp: source_stream_def rbind_Inr_iff split: if_splits)
  then have "sort_key fst n = sort_key fst m" "traverse normal_source xs = Inr n"
    "traverse normal_source ys = Inr m"
    by (auto simp: collect_sources_iff intro: frames_injective)
  then show ?thesis by (metis mset_sort)
qed


subsection \<open>Properties\<close>

text \<open>
  The canonical fingerprint ignores exactly the representation: values that differ only in
  the sign of zeros, in the insertion order of mappings at any depth, or in being a dataclass or an
  enumeration member have the same digest, or are rejected with the same error.
\<close>

theorem canonical_fingerprint_stable:
  assumes "py_same v w"
  shows "canonical_sha256 v = canonical_sha256 w"
  by (simp add: canonical_sha256_def canonical_json_bytes_def canonical_value_same [OF assms])

theorem canonical_fingerprint_stable_witness:
  "canonical_sha256 (PDict [(PStr ''z'', PFloat NegZero), (PStr ''a'', PInt 1)]) =
   canonical_sha256 (PDict [(PStr ''a'', PInt 1), (PStr ''z'', PFloat (Num 0))])"
proof (rule canonical_fingerprint_stable)
  have "py_same (PDict [(PStr ''z'', PFloat NegZero), (PStr ''a'', PInt 1)])
      (PDict [(PStr ''z'', PFloat (Num 0)), (PStr ''a'', PInt 1)])"
    by (rule same_dict) (simp add: same_zero same_refl)
  moreover have "py_same (PDict [(PStr ''z'', PFloat (Num 0)), (PStr ''a'', PInt 1)])
      (PDict [(PStr ''a'', PInt 1), (PStr ''z'', PFloat (Num 0))])"
    by (rule same_order) simp_all
  ultimately show "py_same (PDict [(PStr ''z'', PFloat NegZero), (PStr ''a'', PInt 1)])
      (PDict [(PStr ''a'', PInt 1), (PStr ''z'', PFloat (Num 0))])"
    by (rule same_trans)
qed

text \<open>
  The fingerprint of a source tree depends on nothing but the logical files: listing them in
  another order, with the other path separator, or with CRLF or CR line ends gives the same digest.
\<close>

theorem source_tree_platform_independent:
  assumes "source_tree_sha256 xs = Inr h"
    and "list_all2 (\<lambda>(n, c) (m, d). m \<in> {n, replace_backslash n} \<and>
           CHR 0x0D \<notin> set c \<and> d \<in> {c, with_crlf c, with_cr c}) xs ys"
    and "mset zs = mset ys"
  shows "source_tree_sha256 zs = Inr h"
proof -
  from assms(1) obtain b where b: "source_stream xs = Inr b" "h = sha256_hex b"
    by (auto simp: source_tree_sha256_def rmap_Inr_iff)
  have "list_all2 (\<lambda>a b. normal_source a = normal_source b) xs ys"
    using assms(2) by (rule list.rel_mono_strong)
      (auto simp: normal_source_line_ends normal_source_separator)
  then have "source_stream ys = Inr b" using b(1) by (rule source_stream_same)
  then have "source_stream zs = Inr b" using assms(3) by (rule source_stream_permute)
  then show ?thesis using b(2) by (simp add: source_tree_sha256_def)
qed

definition sample_tree :: "(string \<times> string) list" where
  "sample_tree = [([CHR ''a'', CHR 0x5C, CHR ''b''], ''x'' @ [CHR 0x0A]), (''c'', ''y'')]"

definition sample_windows_tree :: "(string \<times> string) list" where
  "sample_windows_tree = [(''a/b'', ''x'' @ [CHR 0x0D, CHR 0x0A]), (''c'', ''y'')]"

theorem source_tree_platform_independent_witness:
  "\<exists>h. source_tree_sha256 sample_tree = Inr h \<and> source_tree_sha256 (rev sample_windows_tree) = Inr h"
proof -
  have "(case source_stream sample_tree of Inr _ \<Rightarrow> True | _ \<Rightarrow> False)" by code_simp
  then obtain h where h: "source_tree_sha256 sample_tree = Inr h"
    by (cases "source_stream sample_tree") (auto simp: source_tree_sha256_def)
  have "source_tree_sha256 (rev sample_windows_tree) = Inr h"
    by (rule source_tree_platform_independent [OF h, of sample_windows_tree])
      (auto simp: sample_tree_def sample_windows_tree_def replace_backslash_def with_crlf_def)
  with h show ?thesis by blast
qed

text \<open>
  The bytes that are hashed determine the tree. Two trees with the same stream have the same
  logical paths with the same normalised contents; no choice of names and contents makes one tree look
  like another (the length prefixes make the framing unambiguous), so only a collision of the hash can
  identify different trees.
\<close>

theorem source_stream_determines_tree:
  assumes "source_stream xs = Inr b" and "source_stream ys = Inr b"
  shows "\<exists>n m. traverse normal_source xs = Inr n \<and> traverse normal_source ys = Inr m \<and> mset n = mset m"
  using assms by (rule source_stream_injective)

theorem source_stream_determines_tree_witness:
  "\<exists>n. traverse normal_source sample_tree = Inr n"
proof -
  have "(case source_stream sample_tree of Inr _ \<Rightarrow> True | _ \<Rightarrow> False)" by code_simp
  then obtain b where b: "source_stream sample_tree = Inr b" by (cases "source_stream sample_tree") auto
  from source_stream_determines_tree [OF b b] show ?thesis by blast
qed

text \<open>
  The fingerprint of an input window does not depend on the order of its candles.
\<close>

theorem input_window_order_free:
  assumes "input_window_sha256 xs = Inr h" and "mset ys = mset xs"
  shows "input_window_sha256 ys = Inr h"
proof -
  from assms(1) obtain zs where z: "canonical_candles xs (Some ''1m'') = Inr zs"
    and h: "canonical_sha256 (PList (map candle_payload zs)) = Inr h"
    by (auto simp: input_window_sha256_def rbind_Inr_iff)
  show ?thesis
    using candles.canon_permute [OF z assms(2)] h by (simp add: input_window_sha256_def)
qed

lemma sample_window_hashed: "\<exists>h. input_window_sha256 (sample_minutes 0 2) = Inr h"
proof -
  have "\<exists>j. canonical_value (PList (map candle_payload (sample_minutes 0 2))) = Inr j"
    by (simp add: candle_payload_def sample_minutes_def sample_minute_def json_members_def upto.simps
        is_finite.simps feq_def rmap_def)
  then show ?thesis
    by (auto simp: input_window_sha256_def sample_canonical canonical_sha256_def canonical_json_bytes_def)
qed

theorem input_window_order_free_witness:
  "\<exists>h. input_window_sha256 (rev (sample_minutes 0 2)) = Inr h"
  using sample_window_hashed input_window_order_free [of "sample_minutes 0 2" _ "rev (sample_minutes 0 2)"]
  by auto

text \<open>
  A path with a drive, a root or a parent component is refused and an accepted one is the
  join of components without empty, dot and parent parts; but dot components are dropped rather than
  refused, so a non-normalised key such as \<open>a/./b\<close> is accepted, and the key \<open>.\<close> names a file.
\<close>

theorem logical_source_path_cases:
  "(logical_source_path value = Inr l \<longleftrightarrow>
     value \<noteq> [] \<and> hd (replace_backslash value) \<noteq> CHR ''/'' \<and> CHR '':'' \<notin> set value \<and>
     ''..'' \<notin> set (posix_parts (replace_backslash value)) \<and>
     l = join_posix (posix_parts (replace_backslash value))) \<and>
   logical_source_path ''a/./b'' = Inr ''a/b'' \<and> logical_source_path ''.'' = Inr ''.''"
proof -
  have "CHR '':'' \<in> set (replace_backslash value) \<longleftrightarrow> CHR '':'' \<in> set value"
    by (force simp: replace_backslash_def image_iff)
  then have "logical_source_path value = Inr l \<longleftrightarrow>
     value \<noteq> [] \<and> hd (replace_backslash value) \<noteq> CHR ''/'' \<and> CHR '':'' \<notin> set value \<and>
     ''..'' \<notin> set (posix_parts (replace_backslash value)) \<and>
     l = join_posix (posix_parts (replace_backslash value))"
    by (auto simp: logical_source_path_def Let_def list_ex_iff posix_parts_def) (auto simp: replace_backslash_def)
  moreover have "logical_source_path ''a/./b'' = Inr ''a/b''" "logical_source_path ''.'' = Inr ''.''"
    by code_simp+
  ultimately show ?thesis by blast
qed

end
