(* ===== verification/Configs.thy ===== *)
theory Configs
  imports PyFloat PyText Provenance
begin

section \<open>Configurations of the sleeves (sleeves/*.py)\<close>

text \<open>
  The frozen dataclass of every registered sleeve: its fields with their defaults, the checks of its
  constructor and its fields as the encoder sees them. A configuration is one value of the datatype
  \<open>strategy_config\<close>, whose constructors are the classes of the source. Integer and float fields are
  typed, so the \<open>isinstance\<close> tests hold by construction.
\<close>

subsection \<open>Shared checks\<close>

definition positive_int :: "'c \<Rightarrow> string \<times> ('c \<Rightarrow> int) \<Rightarrow> bool \<times> py_error" where
  "positive_int c f = (snd f c \<le> 0, ValueError (fst f @ '' must be a positive integer''))"

definition positive_float :: "'c \<Rightarrow> string \<times> ('c \<Rightarrow> pyfloat) \<Rightarrow> (bool \<times> py_error) list" where
  "positive_float c f =
     [(\<not> is_finite (snd f c) \<or> fle (snd f c) fzero, ValueError (fst f @ '' must be finite and positive''))]"

definition at_most_one :: "'c \<Rightarrow> string \<times> ('c \<Rightarrow> pyfloat) \<Rightarrow> bool \<times> py_error" where
  "at_most_one c f = (fless fone (snd f c), ValueError (fst f @ '' must not exceed one''))"

definition not_in :: "pyfloat \<Rightarrow> pyfloat \<Rightarrow> pyfloat \<Rightarrow> bool" where
  "not_in lo hi v \<longleftrightarrow> \<not> is_finite v \<or> \<not> (fle lo v \<and> fle v hi)"

definition opt_value :: "pyfloat option \<Rightarrow> py_value" where
  "opt_value v = (case v of None \<Rightarrow> PNone | Some x \<Rightarrow> PFloat x)"

text \<open>\<open>json.dumps(asdict(self), ...)\<close>: the plain encoding, without the canonical zero.\<close>

fun plain_json :: "py_value \<Rightarrow> json" where
  "plain_json PNone = JNull"
| "plain_json (PBool b) = JBool b"
| "plain_json (PInt n) = JInt n"
| "plain_json (PFloat x) = JFloat x"
| "plain_json (PStr s) = JStr s"
| "plain_json (PList vs) = JList (map plain_json vs)"
| "plain_json (PDict kvs) = JObj (map (\<lambda>(k, v). (str_of k, plain_json v)) kvs)"
| "plain_json (PData fs) = JObj (map (\<lambda>(k, v). (k, plain_json v)) fs)"
| "plain_json (PEnum v) = plain_json v"
| "plain_json (POther s) = JStr s"

subsection \<open>RightTailTrendConfig and RegimeAlignedRightTailConfig\<close>

record right_tail_config =
  rt_trend_lookback_hours :: int
  rt_minimum_trend_score :: pyfloat
  rt_atr_period_hours :: int
  rt_stop_atr_multiple :: pyfloat
  rt_target_reward_to_risk :: pyfloat
  rt_max_hold_hours :: int
  rt_decision_interval_hours :: int
  rt_intent_valid_hours :: int

definition right_tail_default :: right_tail_config where
  "right_tail_default =
    \<lparr>rt_trend_lookback_hours = 24, rt_minimum_trend_score = Num 1, rt_atr_period_hours = 24,
     rt_stop_atr_multiple = Num 2, rt_target_reward_to_risk = Num 4, rt_max_hold_hours = 72,
     rt_decision_interval_hours = 24, rt_intent_valid_hours = 1\<rparr>"

definition right_tail_checks :: "right_tail_config \<Rightarrow> (bool \<times> py_error) list" where
  "right_tail_checks c =
     map (positive_int c)
       [(''trend_lookback_hours'', rt_trend_lookback_hours),
        (''atr_period_hours'', rt_atr_period_hours),
        (''max_hold_hours'', rt_max_hold_hours),
        (''decision_interval_hours'', rt_decision_interval_hours),
        (''intent_valid_hours'', rt_intent_valid_hours)] @
     concat (map (positive_float c)
       [(''minimum_trend_score'', rt_minimum_trend_score),
        (''stop_atr_multiple'', rt_stop_atr_multiple),
        (''target_reward_to_risk'', rt_target_reward_to_risk)]) @
     [(rt_decision_interval_hours c < rt_intent_valid_hours c,
         ValueError ''decision interval cannot be shorter than intent validity''),
      (rt_max_hold_hours c \<le> rt_intent_valid_hours c,
         ValueError ''maximum hold must exceed intent validity'')]"

definition make_right_tail :: "right_tail_config \<Rightarrow> right_tail_config result" where
  "make_right_tail c = validate (right_tail_checks c) c"

definition right_tail_fields :: "right_tail_config \<Rightarrow> (string \<times> py_value) list" where
  "right_tail_fields c =
    [(''trend_lookback_hours'', PInt (rt_trend_lookback_hours c)),
     (''minimum_trend_score'', PFloat (rt_minimum_trend_score c)),
     (''atr_period_hours'', PInt (rt_atr_period_hours c)),
     (''stop_atr_multiple'', PFloat (rt_stop_atr_multiple c)),
     (''target_reward_to_risk'', PFloat (rt_target_reward_to_risk c)),
     (''max_hold_hours'', PInt (rt_max_hold_hours c)),
     (''decision_interval_hours'', PInt (rt_decision_interval_hours c)),
     (''intent_valid_hours'', PInt (rt_intent_valid_hours c))]"

record regime_aligned_config =
  ra_trend_lookback_hours :: int
  ra_minimum_trend_score :: pyfloat
  ra_atr_period_hours :: int
  ra_stop_atr_multiple :: pyfloat
  ra_target_reward_to_risk :: pyfloat
  ra_max_hold_hours :: int
  ra_decision_interval_hours :: int
  ra_intent_valid_hours :: int
  ra_regime_sma_bars :: int

definition regime_aligned_default :: regime_aligned_config where
  "regime_aligned_default =
    \<lparr>ra_trend_lookback_hours = 24, ra_minimum_trend_score = Num 1, ra_atr_period_hours = 24,
     ra_stop_atr_multiple = Num 2, ra_target_reward_to_risk = Num 4, ra_max_hold_hours = 72,
     ra_decision_interval_hours = 24, ra_intent_valid_hours = 1, ra_regime_sma_bars = 200\<rparr>"

definition base_config :: "regime_aligned_config \<Rightarrow> right_tail_config" where
  "base_config c =
    \<lparr>rt_trend_lookback_hours = ra_trend_lookback_hours c,
     rt_minimum_trend_score = ra_minimum_trend_score c,
     rt_atr_period_hours = ra_atr_period_hours c,
     rt_stop_atr_multiple = ra_stop_atr_multiple c,
     rt_target_reward_to_risk = ra_target_reward_to_risk c,
     rt_max_hold_hours = ra_max_hold_hours c,
     rt_decision_interval_hours = ra_decision_interval_hours c,
     rt_intent_valid_hours = ra_intent_valid_hours c\<rparr>"

definition regime_aligned_checks :: "regime_aligned_config \<Rightarrow> (bool \<times> py_error) list" where
  "regime_aligned_checks c =
     right_tail_checks (base_config c) @
     [(ra_regime_sma_bars c < 2,
         ValueError ''regime_sma_bars must be an integer of at least two'')]"

definition make_regime_aligned :: "regime_aligned_config \<Rightarrow> regime_aligned_config result" where
  "make_regime_aligned c = validate (regime_aligned_checks c) c"

definition regime_aligned_fields :: "regime_aligned_config \<Rightarrow> (string \<times> py_value) list" where
  "regime_aligned_fields c =
    [(''trend_lookback_hours'', PInt (ra_trend_lookback_hours c)),
     (''minimum_trend_score'', PFloat (ra_minimum_trend_score c)),
     (''atr_period_hours'', PInt (ra_atr_period_hours c)),
     (''stop_atr_multiple'', PFloat (ra_stop_atr_multiple c)),
     (''target_reward_to_risk'', PFloat (ra_target_reward_to_risk c)),
     (''max_hold_hours'', PInt (ra_max_hold_hours c)),
     (''decision_interval_hours'', PInt (ra_decision_interval_hours c)),
     (''intent_valid_hours'', PInt (ra_intent_valid_hours c)),
     (''regime_sma_bars'', PInt (ra_regime_sma_bars c))]"

subsection \<open>QuarterHourFlowConfig\<close>

record quarter_hour_config =
  qh_phase_lags :: int
  qh_minimum_agreeing_lags :: int
  qh_atr_period :: int
  qh_minimum_predictable_imbalance :: pyfloat
  qh_minimum_current_imbalance :: pyfloat
  qh_minimum_boundary_volume_ratio :: pyfloat
  qh_stop_atr_multiple :: pyfloat
  qh_target_reward_to_risk :: pyfloat
  qh_max_hold_quarters :: int
  qh_intent_valid_minutes :: int

definition quarter_hour_default :: quarter_hour_config where
  "quarter_hour_default =
    \<lparr>qh_phase_lags = 12, qh_minimum_agreeing_lags = 8, qh_atr_period = 96,
     qh_minimum_predictable_imbalance = lit (1 / 40), qh_minimum_current_imbalance = lit (2 / 25),
     qh_minimum_boundary_volume_ratio = Num 1, qh_stop_atr_multiple = Num 2,
     qh_target_reward_to_risk = Num (3 / 2), qh_max_hold_quarters = 32, qh_intent_valid_minutes = 1\<rparr>"

definition quarter_hour_checks :: "quarter_hour_config \<Rightarrow> (bool \<times> py_error) list" where
  "quarter_hour_checks c =
     map (positive_int c)
       [(''phase_lags'', qh_phase_lags),
        (''minimum_agreeing_lags'', qh_minimum_agreeing_lags),
        (''atr_period'', qh_atr_period),
        (''max_hold_quarters'', qh_max_hold_quarters),
        (''intent_valid_minutes'', qh_intent_valid_minutes)] @
     [(qh_phase_lags c < qh_minimum_agreeing_lags c,
         ValueError ''minimum_agreeing_lags cannot exceed phase_lags'')] @
     concat (map (positive_float c)
       [(''minimum_predictable_imbalance'', qh_minimum_predictable_imbalance),
        (''minimum_current_imbalance'', qh_minimum_current_imbalance),
        (''minimum_boundary_volume_ratio'', qh_minimum_boundary_volume_ratio),
        (''stop_atr_multiple'', qh_stop_atr_multiple),
        (''target_reward_to_risk'', qh_target_reward_to_risk)]) @
     map (at_most_one c)
       [(''minimum_predictable_imbalance'', qh_minimum_predictable_imbalance),
        (''minimum_current_imbalance'', qh_minimum_current_imbalance)]"

definition make_quarter_hour :: "quarter_hour_config \<Rightarrow> quarter_hour_config result" where
  "make_quarter_hour c = validate (quarter_hour_checks c) c"

definition quarter_hour_fields :: "quarter_hour_config \<Rightarrow> (string \<times> py_value) list" where
  "quarter_hour_fields c =
    [(''phase_lags'', PInt (qh_phase_lags c)),
     (''minimum_agreeing_lags'', PInt (qh_minimum_agreeing_lags c)),
     (''atr_period'', PInt (qh_atr_period c)),
     (''minimum_predictable_imbalance'', PFloat (qh_minimum_predictable_imbalance c)),
     (''minimum_current_imbalance'', PFloat (qh_minimum_current_imbalance c)),
     (''minimum_boundary_volume_ratio'', PFloat (qh_minimum_boundary_volume_ratio c)),
     (''stop_atr_multiple'', PFloat (qh_stop_atr_multiple c)),
     (''target_reward_to_risk'', PFloat (qh_target_reward_to_risk c)),
     (''max_hold_quarters'', PInt (qh_max_hold_quarters c)),
     (''intent_valid_minutes'', PInt (qh_intent_valid_minutes c))]"

subsection \<open>OrderFlowVolatilityExpansionConfig\<close>

datatype expansion_variant = IMPULSE | PERSISTENCE | FLIP_RELEASE

fun expansion_variant_value :: "expansion_variant \<Rightarrow> string" where
  "expansion_variant_value IMPULSE = ''impulse''"
| "expansion_variant_value PERSISTENCE = ''persistence''"
| "expansion_variant_value FLIP_RELEASE = ''flip_release''"

record orderflow_config =
  of_variant :: expansion_variant
  of_baseline_lookback :: int
  of_compression_short_lookback :: int
  of_compression_long_lookback :: int
  of_atr_period :: int
  of_persistence_lookback :: int
  of_persistence_minimum_directional_bars :: int
  of_flip_lookback :: int
  of_maximum_compression_ratio :: pyfloat
  of_minimum_range_expansion :: pyfloat
  of_minimum_volume_surprise :: pyfloat
  of_minimum_close_location :: pyfloat
  of_minimum_body_fraction :: pyfloat
  of_minimum_atr_bps :: pyfloat
  of_maximum_atr_bps :: pyfloat
  of_minimum_impulse_directional_imbalance :: pyfloat
  of_minimum_persistence_directional_imbalance :: pyfloat
  of_minimum_persistence_bar_imbalance :: pyfloat
  of_minimum_persistence_current_imbalance :: pyfloat
  of_maximum_flip_prior_directional_imbalance :: pyfloat
  of_minimum_flip_current_imbalance :: pyfloat
  of_stop_atr_multiple :: pyfloat
  of_target_reward_to_risk :: pyfloat
  of_max_hold_bars :: int
  of_intent_valid_bars :: int

definition orderflow_default :: orderflow_config where
  "orderflow_default =
    \<lparr>of_variant = IMPULSE, of_baseline_lookback = 24, of_compression_short_lookback = 6,
     of_compression_long_lookback = 72, of_atr_period = 24, of_persistence_lookback = 3,
     of_persistence_minimum_directional_bars = 2, of_flip_lookback = 3,
     of_maximum_compression_ratio = Num (3 / 4), of_minimum_range_expansion = Num (3 / 2),
     of_minimum_volume_surprise = Num (3 / 2), of_minimum_close_location = Num (3 / 4),
     of_minimum_body_fraction = lit (7 / 20), of_minimum_atr_bps = Num 25,
     of_maximum_atr_bps = Num 250, of_minimum_impulse_directional_imbalance = lit (1 / 5),
     of_minimum_persistence_directional_imbalance = lit (3 / 25),
     of_minimum_persistence_bar_imbalance = lit (1 / 20),
     of_minimum_persistence_current_imbalance = lit (1 / 20),
     of_maximum_flip_prior_directional_imbalance = lit (- 1 / 10),
     of_minimum_flip_current_imbalance = lit (1 / 5), of_stop_atr_multiple = Num (5 / 4),
     of_target_reward_to_risk = Num 3, of_max_hold_bars = 12, of_intent_valid_bars = 1\<rparr>"

definition orderflow_checks :: "orderflow_config \<Rightarrow> (bool \<times> py_error) list" where
  "orderflow_checks c =
     [(list_ex (\<lambda>v. v \<le> 0)
         [of_baseline_lookback c, of_compression_short_lookback c, of_compression_long_lookback c,
          of_atr_period c, of_persistence_lookback c, of_persistence_minimum_directional_bars c,
          of_flip_lookback c, of_max_hold_bars c, of_intent_valid_bars c],
         ValueError ''order-flow periods and counts must be positive''),
      (of_compression_long_lookback c \<le> of_compression_short_lookback c,
         ValueError ''short compression lookback must be below the long lookback''),
      (of_compression_long_lookback c < of_baseline_lookback c,
         ValueError ''baseline lookback cannot exceed the long compression lookback''),
      (of_persistence_lookback c < of_persistence_minimum_directional_bars c,
         ValueError ''directional bar count cannot exceed the persistence lookback'')] @
     concat (map (positive_float c)
       [(''maximum_compression_ratio'', of_maximum_compression_ratio),
        (''minimum_range_expansion'', of_minimum_range_expansion),
        (''minimum_volume_surprise'', of_minimum_volume_surprise),
        (''minimum_close_location'', of_minimum_close_location),
        (''minimum_body_fraction'', of_minimum_body_fraction),
        (''minimum_atr_bps'', of_minimum_atr_bps),
        (''maximum_atr_bps'', of_maximum_atr_bps),
        (''minimum_impulse_directional_imbalance'', of_minimum_impulse_directional_imbalance),
        (''minimum_persistence_directional_imbalance'', of_minimum_persistence_directional_imbalance),
        (''minimum_persistence_bar_imbalance'', of_minimum_persistence_bar_imbalance),
        (''minimum_persistence_current_imbalance'', of_minimum_persistence_current_imbalance),
        (''minimum_flip_current_imbalance'', of_minimum_flip_current_imbalance),
        (''stop_atr_multiple'', of_stop_atr_multiple),
        (''target_reward_to_risk'', of_target_reward_to_risk)]) @
     [(\<not> is_finite (of_maximum_flip_prior_directional_imbalance c) \<or>
         \<not> (fle (Num (- 1)) (of_maximum_flip_prior_directional_imbalance c) \<and>
            fless (of_maximum_flip_prior_directional_imbalance c) fzero),
         ValueError ''maximum flip prior imbalance must be within [-1, 0)''),
      (fless fone (of_maximum_compression_ratio c),
         ValueError ''maximum compression ratio must not exceed one''),
      (fless (of_minimum_range_expansion c) fone,
         ValueError ''minimum range expansion must be at least one''),
      (fless (of_minimum_volume_surprise c) fone,
         ValueError ''minimum volume surprise must be at least one''),
      (fless (of_maximum_atr_bps c) (of_minimum_atr_bps c),
         ValueError ''maximum ATR bps cannot be below the minimum'')] @
     map (at_most_one c)
       [(''minimum_close_location'', of_minimum_close_location),
        (''minimum_body_fraction'', of_minimum_body_fraction),
        (''minimum_impulse_directional_imbalance'', of_minimum_impulse_directional_imbalance),
        (''minimum_persistence_directional_imbalance'', of_minimum_persistence_directional_imbalance),
        (''minimum_persistence_bar_imbalance'', of_minimum_persistence_bar_imbalance),
        (''minimum_persistence_current_imbalance'', of_minimum_persistence_current_imbalance),
        (''minimum_flip_current_imbalance'', of_minimum_flip_current_imbalance)]"

definition make_orderflow :: "orderflow_config \<Rightarrow> orderflow_config result" where
  "make_orderflow c = validate (orderflow_checks c) c"

definition orderflow_fields :: "orderflow_config \<Rightarrow> (string \<times> py_value) list" where
  "orderflow_fields c =
    [(''variant'', PEnum (PStr (expansion_variant_value (of_variant c)))),
     (''baseline_lookback'', PInt (of_baseline_lookback c)),
     (''compression_short_lookback'', PInt (of_compression_short_lookback c)),
     (''compression_long_lookback'', PInt (of_compression_long_lookback c)),
     (''atr_period'', PInt (of_atr_period c)),
     (''persistence_lookback'', PInt (of_persistence_lookback c)),
     (''persistence_minimum_directional_bars'', PInt (of_persistence_minimum_directional_bars c)),
     (''flip_lookback'', PInt (of_flip_lookback c)),
     (''maximum_compression_ratio'', PFloat (of_maximum_compression_ratio c)),
     (''minimum_range_expansion'', PFloat (of_minimum_range_expansion c)),
     (''minimum_volume_surprise'', PFloat (of_minimum_volume_surprise c)),
     (''minimum_close_location'', PFloat (of_minimum_close_location c)),
     (''minimum_body_fraction'', PFloat (of_minimum_body_fraction c)),
     (''minimum_atr_bps'', PFloat (of_minimum_atr_bps c)),
     (''maximum_atr_bps'', PFloat (of_maximum_atr_bps c)),
     (''minimum_impulse_directional_imbalance'', PFloat (of_minimum_impulse_directional_imbalance c)),
     (''minimum_persistence_directional_imbalance'', PFloat (of_minimum_persistence_directional_imbalance c)),
     (''minimum_persistence_bar_imbalance'', PFloat (of_minimum_persistence_bar_imbalance c)),
     (''minimum_persistence_current_imbalance'', PFloat (of_minimum_persistence_current_imbalance c)),
     (''maximum_flip_prior_directional_imbalance'', PFloat (of_maximum_flip_prior_directional_imbalance c)),
     (''minimum_flip_current_imbalance'', PFloat (of_minimum_flip_current_imbalance c)),
     (''stop_atr_multiple'', PFloat (of_stop_atr_multiple c)),
     (''target_reward_to_risk'', PFloat (of_target_reward_to_risk c)),
     (''max_hold_bars'', PInt (of_max_hold_bars c)),
     (''intent_valid_bars'', PInt (of_intent_valid_bars c))]"

subsection \<open>RangeMeanReversionConfig\<close>

record range_config =
  rg_vwap_lookback_bars :: int
  rg_atr_period :: int
  rg_regime_lookback_hours :: int
  rg_maximum_regime_efficiency :: pyfloat
  rg_maximum_abs_hourly_slope :: pyfloat
  rg_band_atr_multiple :: pyfloat
  rg_stop_atr_multiple :: pyfloat
  rg_target_atr_extension :: pyfloat
  rg_minimum_gross_reward_to_risk :: "pyfloat option"
  rg_max_hold_bars :: int
  rg_intent_valid_bars :: int

definition range_default :: range_config where
  "range_default =
    \<lparr>rg_vwap_lookback_bars = 24, rg_atr_period = 14, rg_regime_lookback_hours = 12,
     rg_maximum_regime_efficiency = lit (3 / 10), rg_maximum_abs_hourly_slope = lit (1 / 4000),
     rg_band_atr_multiple = Num (5 / 4), rg_stop_atr_multiple = Num 1,
     rg_target_atr_extension = Num 0, rg_minimum_gross_reward_to_risk = None, rg_max_hold_bars = 12,
     rg_intent_valid_bars = 1\<rparr>"

definition range_checks :: "range_config \<Rightarrow> (bool \<times> py_error) list" where
  "range_checks c =
     [(list_ex (\<lambda>v. v \<le> 0)
         [rg_vwap_lookback_bars c, rg_atr_period c, rg_regime_lookback_hours c, rg_max_hold_bars c,
          rg_intent_valid_bars c],
         ValueError ''range periods must be positive'')] @
     map (\<lambda>f. (\<not> is_finite (snd f c) \<or> fless (snd f c) fzero,
               ValueError (fst f @ '' must be finite and non-negative'')))
       [(''maximum_regime_efficiency'', rg_maximum_regime_efficiency),
        (''maximum_abs_hourly_slope'', rg_maximum_abs_hourly_slope),
        (''band_atr_multiple'', rg_band_atr_multiple),
        (''stop_atr_multiple'', rg_stop_atr_multiple),
        (''target_atr_extension'', rg_target_atr_extension)] @
     [(\<not> (fle fzero (rg_maximum_regime_efficiency c) \<and> fle (rg_maximum_regime_efficiency c) fone),
         ValueError ''maximum_regime_efficiency must be within [0, 1]''),
      (fle (rg_band_atr_multiple c) fzero \<or> fle (rg_stop_atr_multiple c) fzero,
         ValueError ''ATR multiples must be positive''),
      (fless (Num 2) (rg_target_atr_extension c),
         ValueError ''target ATR extension must not exceed 2''),
      (case rg_minimum_gross_reward_to_risk c of None \<Rightarrow> False | Some v \<Rightarrow> not_in fone (Num 5) v,
         ValueError ''minimum gross reward-to-risk must be within [1, 5]'')]"

definition make_range :: "range_config \<Rightarrow> range_config result" where
  "make_range c = validate (range_checks c) c"

definition range_fields :: "range_config \<Rightarrow> (string \<times> py_value) list" where
  "range_fields c =
    [(''vwap_lookback_bars'', PInt (rg_vwap_lookback_bars c)),
     (''atr_period'', PInt (rg_atr_period c)),
     (''regime_lookback_hours'', PInt (rg_regime_lookback_hours c)),
     (''maximum_regime_efficiency'', PFloat (rg_maximum_regime_efficiency c)),
     (''maximum_abs_hourly_slope'', PFloat (rg_maximum_abs_hourly_slope c)),
     (''band_atr_multiple'', PFloat (rg_band_atr_multiple c)),
     (''stop_atr_multiple'', PFloat (rg_stop_atr_multiple c)),
     (''target_atr_extension'', PFloat (rg_target_atr_extension c)),
     (''minimum_gross_reward_to_risk'', opt_value (rg_minimum_gross_reward_to_risk c)),
     (''max_hold_bars'', PInt (rg_max_hold_bars c)),
     (''intent_valid_bars'', PInt (rg_intent_valid_bars c))]"

subsection \<open>TrendBreakoutConfig\<close>

record trend_breakout_config =
  tb_donchian_lookback :: int
  tb_atr_period :: int
  tb_regime_lookback_hours :: int
  tb_minimum_regime_efficiency :: pyfloat
  tb_minimum_abs_hourly_slope :: pyfloat
  tb_minimum_breakout_atr :: pyfloat
  tb_stop_atr_multiple :: pyfloat
  tb_target_atr_multiple :: pyfloat
  tb_trailing_activation_atr_multiple :: "pyfloat option"
  tb_trailing_distance_atr_multiple :: "pyfloat option"
  tb_max_hold_bars :: int
  tb_intent_valid_bars :: int
  tb_volume_lookback :: int
  tb_minimum_volume_surprise :: "pyfloat option"
  tb_minimum_directional_taker_share :: "pyfloat option"

definition trend_breakout_default :: trend_breakout_config where
  "trend_breakout_default =
    \<lparr>tb_donchian_lookback = 20, tb_atr_period = 14, tb_regime_lookback_hours = 12,
     tb_minimum_regime_efficiency = lit (3 / 10), tb_minimum_abs_hourly_slope = lit (1 / 4000),
     tb_minimum_breakout_atr = Num 0, tb_stop_atr_multiple = Num (5 / 4),
     tb_target_atr_multiple = Num 2, tb_trailing_activation_atr_multiple = Some (Num 1),
     tb_trailing_distance_atr_multiple = Some (Num 1), tb_max_hold_bars = 24,
     tb_intent_valid_bars = 1, tb_volume_lookback = 20, tb_minimum_volume_surprise = None,
     tb_minimum_directional_taker_share = None\<rparr>"

definition trend_breakout_checks :: "trend_breakout_config \<Rightarrow> (bool \<times> py_error) list" where
  "trend_breakout_checks c =
     [(list_ex (\<lambda>v. v \<le> 0)
         [tb_donchian_lookback c, tb_atr_period c, tb_regime_lookback_hours c, tb_max_hold_bars c,
          tb_intent_valid_bars c, tb_volume_lookback c],
         ValueError ''trend breakout periods must be positive''),
      (list_ex (\<lambda>v. \<not> (is_finite v \<and> fless fzero v)) [tb_stop_atr_multiple c, tb_target_atr_multiple c],
         ValueError ''ATR exit multiples must be finite and positive''),
      (not_in fzero fone (tb_minimum_regime_efficiency c),
         ValueError ''minimum regime efficiency must be within [0, 1]''),
      (\<not> is_finite (tb_minimum_abs_hourly_slope c) \<or> fless (tb_minimum_abs_hourly_slope c) fzero,
         ValueError ''minimum hourly slope must be finite and non-negative''),
      (not_in fzero (Num 2) (tb_minimum_breakout_atr c),
         ValueError ''minimum breakout distance must be within [0, 2] ATR''),
      ((tb_trailing_activation_atr_multiple c = None) \<noteq> (tb_trailing_distance_atr_multiple c = None),
         ValueError ''trend trailing activation and distance must be configured together''),
      (list_ex (\<lambda>v. case v of None \<Rightarrow> False | Some x \<Rightarrow> \<not> is_finite x \<or> fle x fzero)
         [tb_trailing_activation_atr_multiple c, tb_trailing_distance_atr_multiple c],
         ValueError ''trend trailing ATR multiples must be finite and positive''),
      (case tb_trailing_activation_atr_multiple c of None \<Rightarrow> False
       | Some a \<Rightarrow> fle (tb_target_atr_multiple c) a,
         ValueError ''trend trailing activation must occur before the target''),
      (case tb_minimum_volume_surprise c of None \<Rightarrow> False | Some v \<Rightarrow> \<not> is_finite v \<or> fle v fzero,
         ValueError ''minimum volume surprise must be finite and positive''),
      (case tb_minimum_directional_taker_share c of None \<Rightarrow> False | Some v \<Rightarrow> not_in (Num (1 / 2)) fone v,
         ValueError ''minimum directional taker share must be within [0.5, 1]'')]"

definition make_trend_breakout :: "trend_breakout_config \<Rightarrow> trend_breakout_config result" where
  "make_trend_breakout c = validate (trend_breakout_checks c) c"

definition trend_breakout_fields :: "trend_breakout_config \<Rightarrow> (string \<times> py_value) list" where
  "trend_breakout_fields c =
    [(''donchian_lookback'', PInt (tb_donchian_lookback c)),
     (''atr_period'', PInt (tb_atr_period c)),
     (''regime_lookback_hours'', PInt (tb_regime_lookback_hours c)),
     (''minimum_regime_efficiency'', PFloat (tb_minimum_regime_efficiency c)),
     (''minimum_abs_hourly_slope'', PFloat (tb_minimum_abs_hourly_slope c)),
     (''minimum_breakout_atr'', PFloat (tb_minimum_breakout_atr c)),
     (''stop_atr_multiple'', PFloat (tb_stop_atr_multiple c)),
     (''target_atr_multiple'', PFloat (tb_target_atr_multiple c)),
     (''trailing_activation_atr_multiple'', opt_value (tb_trailing_activation_atr_multiple c)),
     (''trailing_distance_atr_multiple'', opt_value (tb_trailing_distance_atr_multiple c)),
     (''max_hold_bars'', PInt (tb_max_hold_bars c)),
     (''intent_valid_bars'', PInt (tb_intent_valid_bars c)),
     (''volume_lookback'', PInt (tb_volume_lookback c)),
     (''minimum_volume_surprise'', opt_value (tb_minimum_volume_surprise c)),
     (''minimum_directional_taker_share'', opt_value (tb_minimum_directional_taker_share c))]"

subsection \<open>TrendPullbackReclaimConfig\<close>

datatype depth_variant = SHALLOW | MEDIUM | DEEP

fun depth_variant_value :: "depth_variant \<Rightarrow> string" where
  "depth_variant_value SHALLOW = ''shallow''"
| "depth_variant_value MEDIUM = ''medium''"
| "depth_variant_value DEEP = ''deep''"

fun bounds_atr :: "depth_variant \<Rightarrow> pyfloat \<times> pyfloat" where
  "bounds_atr SHALLOW = (Num 0, Num (1 / 2))"
| "bounds_atr MEDIUM = (Num (1 / 2), Num 1)"
| "bounds_atr DEEP = (Num 1, Num (3 / 2))"

definition depth_contains :: "depth_variant \<Rightarrow> pyfloat \<Rightarrow> bool" where
  "depth_contains v depth \<longleftrightarrow>
     (let (lo, hi) = bounds_atr v in
      is_finite depth \<and> fle lo depth \<and> (if v = DEEP then fle depth hi else fless depth hi))"

record trend_pullback_config =
  tp_depth_variant :: depth_variant
  tp_hourly_fast_ema_period :: int
  tp_hourly_slow_ema_period :: int
  tp_hourly_rising_lookback :: int
  tp_hourly_efficiency_lookback :: int
  tp_minimum_hourly_efficiency :: pyfloat
  tp_reclaim_ema_period :: int
  tp_trend_ema_period :: int
  tp_atr_period :: int
  tp_maximum_reclaim_extension_atr :: pyfloat
  tp_stop_buffer_atr :: pyfloat
  tp_minimum_stop_distance_atr :: pyfloat
  tp_maximum_stop_distance_atr :: pyfloat
  tp_target_reward_to_risk :: pyfloat
  tp_max_hold_bars :: int
  tp_intent_valid_bars :: int

definition trend_pullback_default :: trend_pullback_config where
  "trend_pullback_default =
    \<lparr>tp_depth_variant = MEDIUM, tp_hourly_fast_ema_period = 24, tp_hourly_slow_ema_period = 72,
     tp_hourly_rising_lookback = 6, tp_hourly_efficiency_lookback = 24,
     tp_minimum_hourly_efficiency = Num (1 / 4), tp_reclaim_ema_period = 20,
     tp_trend_ema_period = 50, tp_atr_period = 14, tp_maximum_reclaim_extension_atr = Num (1 / 2),
     tp_stop_buffer_atr = Num (1 / 4), tp_minimum_stop_distance_atr = Num (1 / 2),
     tp_maximum_stop_distance_atr = Num 2, tp_target_reward_to_risk = Num 2, tp_max_hold_bars = 36,
     tp_intent_valid_bars = 1\<rparr>"

definition trend_pullback_checks :: "trend_pullback_config \<Rightarrow> (bool \<times> py_error) list" where
  "trend_pullback_checks c =
     [(list_ex (\<lambda>v. v \<le> 0)
         [tp_hourly_fast_ema_period c, tp_hourly_slow_ema_period c, tp_hourly_rising_lookback c,
          tp_hourly_efficiency_lookback c, tp_reclaim_ema_period c, tp_trend_ema_period c,
          tp_atr_period c, tp_max_hold_bars c, tp_intent_valid_bars c],
         ValueError ''pullback periods must be positive''),
      (tp_hourly_slow_ema_period c \<le> tp_hourly_fast_ema_period c,
         ValueError ''hourly fast EMA period must be below the slow EMA period''),
      (tp_trend_ema_period c \<le> tp_reclaim_ema_period c,
         ValueError ''reclaim EMA period must be below the trend EMA period'')] @
     concat (map (positive_float c)
       [(''minimum_hourly_efficiency'', tp_minimum_hourly_efficiency),
        (''maximum_reclaim_extension_atr'', tp_maximum_reclaim_extension_atr),
        (''stop_buffer_atr'', tp_stop_buffer_atr),
        (''minimum_stop_distance_atr'', tp_minimum_stop_distance_atr),
        (''maximum_stop_distance_atr'', tp_maximum_stop_distance_atr),
        (''target_reward_to_risk'', tp_target_reward_to_risk)]) @
     [(fless fone (tp_minimum_hourly_efficiency c),
         ValueError ''minimum_hourly_efficiency must not exceed one''),
      (fless (tp_maximum_stop_distance_atr c) (tp_minimum_stop_distance_atr c),
         ValueError ''maximum stop distance cannot be below the minimum'')]"

definition make_trend_pullback :: "trend_pullback_config \<Rightarrow> trend_pullback_config result" where
  "make_trend_pullback c = validate (trend_pullback_checks c) c"

definition trend_pullback_fields :: "trend_pullback_config \<Rightarrow> (string \<times> py_value) list" where
  "trend_pullback_fields c =
    [(''depth_variant'', PEnum (PStr (depth_variant_value (tp_depth_variant c)))),
     (''hourly_fast_ema_period'', PInt (tp_hourly_fast_ema_period c)),
     (''hourly_slow_ema_period'', PInt (tp_hourly_slow_ema_period c)),
     (''hourly_rising_lookback'', PInt (tp_hourly_rising_lookback c)),
     (''hourly_efficiency_lookback'', PInt (tp_hourly_efficiency_lookback c)),
     (''minimum_hourly_efficiency'', PFloat (tp_minimum_hourly_efficiency c)),
     (''reclaim_ema_period'', PInt (tp_reclaim_ema_period c)),
     (''trend_ema_period'', PInt (tp_trend_ema_period c)),
     (''atr_period'', PInt (tp_atr_period c)),
     (''maximum_reclaim_extension_atr'', PFloat (tp_maximum_reclaim_extension_atr c)),
     (''stop_buffer_atr'', PFloat (tp_stop_buffer_atr c)),
     (''minimum_stop_distance_atr'', PFloat (tp_minimum_stop_distance_atr c)),
     (''maximum_stop_distance_atr'', PFloat (tp_maximum_stop_distance_atr c)),
     (''target_reward_to_risk'', PFloat (tp_target_reward_to_risk c)),
     (''max_hold_bars'', PInt (tp_max_hold_bars c)),
     (''intent_valid_bars'', PInt (tp_intent_valid_bars c))]"

subsection \<open>CrowdedTrendContinuationConfig\<close>

record crowded_config =
  ct_trend_lookback_hours :: int
  ct_minimum_trend_score :: pyfloat
  ct_minimum_open_interest_change :: pyfloat
  ct_minimum_aligned_premium :: pyfloat
  ct_minimum_aligned_funding :: pyfloat
  ct_atr_period_hours :: int
  ct_stop_atr_multiple :: pyfloat
  ct_target_reward_to_risk :: pyfloat
  ct_max_hold_hours :: int
  ct_intent_valid_hours :: int

definition crowded_default :: crowded_config where
  "crowded_default =
    \<lparr>ct_trend_lookback_hours = 24, ct_minimum_trend_score = Num 1,
     ct_minimum_open_interest_change = lit (1 / 20), ct_minimum_aligned_premium = lit (1 / 2000),
     ct_minimum_aligned_funding = lit (1 / 10000), ct_atr_period_hours = 24,
     ct_stop_atr_multiple = Num 2, ct_target_reward_to_risk = Num 4, ct_max_hold_hours = 24,
     ct_intent_valid_hours = 1\<rparr>"

definition crowded_checks :: "crowded_config \<Rightarrow> (bool \<times> py_error) list" where
  "crowded_checks c =
     map (positive_int c)
       [(''trend_lookback_hours'', ct_trend_lookback_hours),
        (''atr_period_hours'', ct_atr_period_hours),
        (''max_hold_hours'', ct_max_hold_hours),
        (''intent_valid_hours'', ct_intent_valid_hours)] @
     concat (map (positive_float c)
       [(''minimum_trend_score'', ct_minimum_trend_score),
        (''minimum_open_interest_change'', ct_minimum_open_interest_change),
        (''minimum_aligned_premium'', ct_minimum_aligned_premium),
        (''minimum_aligned_funding'', ct_minimum_aligned_funding),
        (''stop_atr_multiple'', ct_stop_atr_multiple),
        (''target_reward_to_risk'', ct_target_reward_to_risk)]) @
     [(ct_max_hold_hours c \<le> ct_intent_valid_hours c,
         ValueError ''maximum hold must exceed intent validity'')]"

definition make_crowded :: "crowded_config \<Rightarrow> crowded_config result" where
  "make_crowded c = validate (crowded_checks c) c"

definition crowded_fields :: "crowded_config \<Rightarrow> (string \<times> py_value) list" where
  "crowded_fields c =
    [(''trend_lookback_hours'', PInt (ct_trend_lookback_hours c)),
     (''minimum_trend_score'', PFloat (ct_minimum_trend_score c)),
     (''minimum_open_interest_change'', PFloat (ct_minimum_open_interest_change c)),
     (''minimum_aligned_premium'', PFloat (ct_minimum_aligned_premium c)),
     (''minimum_aligned_funding'', PFloat (ct_minimum_aligned_funding c)),
     (''atr_period_hours'', PInt (ct_atr_period_hours c)),
     (''stop_atr_multiple'', PFloat (ct_stop_atr_multiple c)),
     (''target_reward_to_risk'', PFloat (ct_target_reward_to_risk c)),
     (''max_hold_hours'', PInt (ct_max_hold_hours c)),
     (''intent_valid_hours'', PInt (ct_intent_valid_hours c))]"

subsection \<open>DonchianEnsembleConfig and FourHourSma200Config\<close>

record donchian_config =
  de_horizons_days :: "int list"
  de_volatility_lookback_days :: int
  de_annualization_days :: int
  de_target_annualized_volatility :: pyfloat
  de_maximum_weight :: pyfloat
  de_volatility_rebalance_threshold :: pyfloat

definition donchian_default :: donchian_config where
  "donchian_default =
    \<lparr>de_horizons_days = [5, 10, 20, 30, 60, 90, 150, 250, 360], de_volatility_lookback_days = 90,
     de_annualization_days = 365, de_target_annualized_volatility = Num (1 / 4),
     de_maximum_weight = Num 2, de_volatility_rebalance_threshold = lit (1 / 5)\<rparr>"

definition donchian_checks :: "donchian_config \<Rightarrow> (bool \<times> py_error) list" where
  "donchian_checks c =
     [(de_horizons_days c = [] \<or> sort (remdups (de_horizons_days c)) \<noteq> de_horizons_days c \<or>
         list_ex (\<lambda>v. v < 2) (de_horizons_days c),
         ValueError ''horizons_days must be sorted unique integers of at least two days''),
      (de_volatility_lookback_days c < 2,
         ValueError ''volatility_lookback_days must be an integer of at least two''),
      (de_annualization_days c < 2,
         ValueError ''annualization_days must be an integer of at least two'')] @
     concat (map (positive_float c)
       [(''target_annualized_volatility'', de_target_annualized_volatility),
        (''maximum_weight'', de_maximum_weight),
        (''volatility_rebalance_threshold'', de_volatility_rebalance_threshold)]) @
     [(fless (Num 2) (de_maximum_weight c),
         ValueError ''maximum_weight cannot exceed the published 2x cap''),
      (fle fone (de_volatility_rebalance_threshold c),
         ValueError ''volatility rebalance threshold must be below one'')]"

definition make_donchian :: "donchian_config \<Rightarrow> donchian_config result" where
  "make_donchian c = validate (donchian_checks c) c"

definition donchian_fields :: "donchian_config \<Rightarrow> (string \<times> py_value) list" where
  "donchian_fields c =
    [(''horizons_days'', PList (map PInt (de_horizons_days c))),
     (''volatility_lookback_days'', PInt (de_volatility_lookback_days c)),
     (''annualization_days'', PInt (de_annualization_days c)),
     (''target_annualized_volatility'', PFloat (de_target_annualized_volatility c)),
     (''maximum_weight'', PFloat (de_maximum_weight c)),
     (''volatility_rebalance_threshold'', PFloat (de_volatility_rebalance_threshold c))]"

record four_hour_config =
  fs_sma_bars :: int
  fs_target_weight :: pyfloat

definition four_hour_default :: four_hour_config where
  "four_hour_default =
    \<lparr>fs_sma_bars = 200, fs_target_weight = Num 1\<rparr>"

definition four_hour_checks :: "four_hour_config \<Rightarrow> (bool \<times> py_error) list" where
  "four_hour_checks c =
     [(fs_sma_bars c < 2, ValueError ''sma_bars must be an integer of at least two''),
      (\<not> is_finite (fs_target_weight c) \<or>
         \<not> (fless fzero (fs_target_weight c) \<and> fle (fs_target_weight c) fone),
         ValueError ''target_weight must be finite within (0, 1]'')]"

definition make_four_hour :: "four_hour_config \<Rightarrow> four_hour_config result" where
  "make_four_hour c = validate (four_hour_checks c) c"

definition four_hour_fields :: "four_hour_config \<Rightarrow> (string \<times> py_value) list" where
  "four_hour_fields c =
    [(''sma_bars'', PInt (fs_sma_bars c)),
     (''target_weight'', PFloat (fs_target_weight c))]"

subsection \<open>RegimeVetoRetestReclaimConfig\<close>

text \<open>
  The thresholds come in pairs, one with the prefix \<open>long_\<close> and one with the prefix \<open>short_\<close>; the model
  keeps each side in a record of its own. The slope threshold is a minimum on the long side and a
  maximum on the short side.
\<close>

datatype retest_variant = STRUCTURAL_RECLAIM | FLOW_REACCELERATION | ABSORPTION_RECLAIM

fun retest_variant_value :: "retest_variant \<Rightarrow> string" where
  "retest_variant_value STRUCTURAL_RECLAIM = ''structural_reclaim''"
| "retest_variant_value FLOW_REACCELERATION = ''flow_reacceleration''"
| "retest_variant_value ABSORPTION_RECLAIM = ''absorption_reclaim''"

record retest_side =
  rs_hourly_slope_atr :: pyfloat
  rs_minimum_hourly_efficiency :: pyfloat
  rs_maximum_hourly_extension_atr :: pyfloat
  rs_minimum_atr_bps :: pyfloat
  rs_maximum_atr_bps :: pyfloat
  rs_minimum_range_expansion :: pyfloat
  rs_minimum_volume_surprise :: pyfloat
  rs_minimum_body_fraction :: pyfloat
  rs_minimum_trigger_close_location :: pyfloat
  rs_minimum_breakout_extension_atr :: pyfloat
  rs_maximum_breakout_extension_atr :: pyfloat
  rs_failure_close_atr :: pyfloat
  rs_maximum_pre_retest_advance_atr :: pyfloat
  rs_retest_below_boundary_atr :: pyfloat
  rs_retest_above_boundary_atr :: pyfloat
  rs_minimum_reclaim_extension_atr :: pyfloat
  rs_maximum_reclaim_extension_atr :: pyfloat
  rs_minimum_reclaim_close_location :: pyfloat
  rs_minimum_reacceleration_imbalance :: pyfloat
  rs_minimum_two_bar_imbalance :: pyfloat
  rs_maximum_absorption_imbalance :: pyfloat
  rs_minimum_absorption_volume_surprise :: pyfloat
  rs_stop_anchor_buffer_atr :: pyfloat
  rs_stop_extreme_buffer_atr :: pyfloat
  rs_minimum_risk_atr :: pyfloat
  rs_maximum_risk_atr :: pyfloat
  rs_target_reward_to_risk :: pyfloat
  rs_max_hold_bars :: int

definition retest_long_default :: retest_side where
  "retest_long_default =
    \<lparr>rs_hourly_slope_atr = lit (1 / 10), rs_minimum_hourly_efficiency = lit (1 / 5),
     rs_maximum_hourly_extension_atr = Num (3 / 2), rs_minimum_atr_bps = Num 25,
     rs_maximum_atr_bps = Num 250, rs_minimum_range_expansion = Num (5 / 4),
     rs_minimum_volume_surprise = Num (5 / 4), rs_minimum_body_fraction = lit (3 / 10),
     rs_minimum_trigger_close_location = lit (7 / 10),
     rs_minimum_breakout_extension_atr = lit (1 / 20), rs_maximum_breakout_extension_atr = Num 1,
     rs_failure_close_atr = Num (1 / 4), rs_maximum_pre_retest_advance_atr = Num (3 / 4),
     rs_retest_below_boundary_atr = lit (7 / 20), rs_retest_above_boundary_atr = Num (1 / 4),
     rs_minimum_reclaim_extension_atr = lit (1 / 20),
     rs_maximum_reclaim_extension_atr = lit (3 / 5),
     rs_minimum_reclaim_close_location = lit (3 / 5),
     rs_minimum_reacceleration_imbalance = lit (1 / 10),
     rs_minimum_two_bar_imbalance = lit (1 / 20), rs_maximum_absorption_imbalance = lit (- 1 / 20),
     rs_minimum_absorption_volume_surprise = Num 1, rs_stop_anchor_buffer_atr = lit (3 / 20),
     rs_stop_extreme_buffer_atr = lit (1 / 10), rs_minimum_risk_atr = lit (7 / 20),
     rs_maximum_risk_atr = Num (5 / 4), rs_target_reward_to_risk = Num (5 / 2),
     rs_max_hold_bars = 18\<rparr>"

definition retest_short_default :: retest_side where
  "retest_short_default =
    \<lparr>rs_hourly_slope_atr = Num (- 1), rs_minimum_hourly_efficiency = lit (3 / 10),
     rs_maximum_hourly_extension_atr = Num 1, rs_minimum_atr_bps = Num 35,
     rs_maximum_atr_bps = Num 200, rs_minimum_range_expansion = Num (3 / 2),
     rs_minimum_volume_surprise = Num (3 / 2), rs_minimum_body_fraction = lit (2 / 5),
     rs_minimum_trigger_close_location = lit (4 / 5),
     rs_minimum_breakout_extension_atr = lit (1 / 10),
     rs_maximum_breakout_extension_atr = Num (3 / 4), rs_failure_close_atr = lit (1 / 5),
     rs_maximum_pre_retest_advance_atr = Num (1 / 2), rs_retest_below_boundary_atr = lit (1 / 5),
     rs_retest_above_boundary_atr = Num (1 / 4), rs_minimum_reclaim_extension_atr = lit (1 / 10),
     rs_maximum_reclaim_extension_atr = Num (1 / 2),
     rs_minimum_reclaim_close_location = lit (7 / 10),
     rs_minimum_reacceleration_imbalance = lit (3 / 20),
     rs_minimum_two_bar_imbalance = lit (2 / 25), rs_maximum_absorption_imbalance = lit (- 1 / 10),
     rs_minimum_absorption_volume_surprise = Num (5 / 4), rs_stop_anchor_buffer_atr = lit (1 / 10),
     rs_stop_extreme_buffer_atr = lit (1 / 10), rs_minimum_risk_atr = lit (7 / 20),
     rs_maximum_risk_atr = lit (11 / 10), rs_target_reward_to_risk = Num (9 / 4),
     rs_max_hold_bars = 12\<rparr>"

record regime_retest_config =
  rr_variant :: retest_variant
  rr_baseline_lookback :: int
  rr_breakout_lookback :: int
  rr_atr_period :: int
  rr_hourly_fast_ema_period :: int
  rr_hourly_slow_ema_period :: int
  rr_hourly_atr_period :: int
  rr_hourly_slope_lookback :: int
  rr_hourly_efficiency_lookback :: int
  rr_setup_window_bars :: int
  rr_intent_valid_bars :: int
  rr_long :: retest_side
  rr_short :: retest_side

definition regime_retest_default :: regime_retest_config where
  "regime_retest_default =
    \<lparr>rr_variant = STRUCTURAL_RECLAIM, rr_baseline_lookback = 24,
     rr_breakout_lookback = 12,
     rr_atr_period = 24,
     rr_hourly_fast_ema_period = 24,
     rr_hourly_slow_ema_period = 72,
     rr_hourly_atr_period = 24,
     rr_hourly_slope_lookback = 6,
     rr_hourly_efficiency_lookback = 24,
     rr_setup_window_bars = 3,
     rr_intent_valid_bars = 1,
     rr_long = retest_long_default, rr_short = retest_short_default\<rparr>"

text \<open>\<open>float_fields\<close>, in the order the constructor visits them.\<close>

definition retest_float_fields :: "(string \<times> (regime_retest_config \<Rightarrow> pyfloat)) list" where
  "retest_float_fields =
    [(''long_minimum_hourly_slope_atr'', rs_hourly_slope_atr \<circ> rr_long),
     (''long_minimum_hourly_efficiency'', rs_minimum_hourly_efficiency \<circ> rr_long),
     (''long_maximum_hourly_extension_atr'', rs_maximum_hourly_extension_atr \<circ> rr_long),
     (''short_maximum_hourly_slope_atr'', rs_hourly_slope_atr \<circ> rr_short),
     (''short_minimum_hourly_efficiency'', rs_minimum_hourly_efficiency \<circ> rr_short),
     (''short_maximum_hourly_extension_atr'', rs_maximum_hourly_extension_atr \<circ> rr_short),
     (''long_minimum_atr_bps'', rs_minimum_atr_bps \<circ> rr_long),
     (''long_maximum_atr_bps'', rs_maximum_atr_bps \<circ> rr_long),
     (''short_minimum_atr_bps'', rs_minimum_atr_bps \<circ> rr_short),
     (''short_maximum_atr_bps'', rs_maximum_atr_bps \<circ> rr_short),
     (''long_minimum_range_expansion'', rs_minimum_range_expansion \<circ> rr_long),
     (''long_minimum_volume_surprise'', rs_minimum_volume_surprise \<circ> rr_long),
     (''long_minimum_body_fraction'', rs_minimum_body_fraction \<circ> rr_long),
     (''long_minimum_trigger_close_location'', rs_minimum_trigger_close_location \<circ> rr_long),
     (''long_minimum_breakout_extension_atr'', rs_minimum_breakout_extension_atr \<circ> rr_long),
     (''long_maximum_breakout_extension_atr'', rs_maximum_breakout_extension_atr \<circ> rr_long),
     (''short_minimum_range_expansion'', rs_minimum_range_expansion \<circ> rr_short),
     (''short_minimum_volume_surprise'', rs_minimum_volume_surprise \<circ> rr_short),
     (''short_minimum_body_fraction'', rs_minimum_body_fraction \<circ> rr_short),
     (''short_minimum_trigger_close_location'', rs_minimum_trigger_close_location \<circ> rr_short),
     (''short_minimum_breakout_extension_atr'', rs_minimum_breakout_extension_atr \<circ> rr_short),
     (''short_maximum_breakout_extension_atr'', rs_maximum_breakout_extension_atr \<circ> rr_short),
     (''long_failure_close_atr'', rs_failure_close_atr \<circ> rr_long),
     (''long_maximum_pre_retest_advance_atr'', rs_maximum_pre_retest_advance_atr \<circ> rr_long),
     (''long_retest_below_boundary_atr'', rs_retest_below_boundary_atr \<circ> rr_long),
     (''long_retest_above_boundary_atr'', rs_retest_above_boundary_atr \<circ> rr_long),
     (''long_minimum_reclaim_extension_atr'', rs_minimum_reclaim_extension_atr \<circ> rr_long),
     (''long_maximum_reclaim_extension_atr'', rs_maximum_reclaim_extension_atr \<circ> rr_long),
     (''long_minimum_reclaim_close_location'', rs_minimum_reclaim_close_location \<circ> rr_long),
     (''short_failure_close_atr'', rs_failure_close_atr \<circ> rr_short),
     (''short_maximum_pre_retest_advance_atr'', rs_maximum_pre_retest_advance_atr \<circ> rr_short),
     (''short_retest_below_boundary_atr'', rs_retest_below_boundary_atr \<circ> rr_short),
     (''short_retest_above_boundary_atr'', rs_retest_above_boundary_atr \<circ> rr_short),
     (''short_minimum_reclaim_extension_atr'', rs_minimum_reclaim_extension_atr \<circ> rr_short),
     (''short_maximum_reclaim_extension_atr'', rs_maximum_reclaim_extension_atr \<circ> rr_short),
     (''short_minimum_reclaim_close_location'', rs_minimum_reclaim_close_location \<circ> rr_short),
     (''long_minimum_reacceleration_imbalance'', rs_minimum_reacceleration_imbalance \<circ> rr_long),
     (''long_minimum_two_bar_imbalance'', rs_minimum_two_bar_imbalance \<circ> rr_long),
     (''short_minimum_reacceleration_imbalance'', rs_minimum_reacceleration_imbalance \<circ> rr_short),
     (''short_minimum_two_bar_imbalance'', rs_minimum_two_bar_imbalance \<circ> rr_short),
     (''long_maximum_absorption_imbalance'', rs_maximum_absorption_imbalance \<circ> rr_long),
     (''long_minimum_absorption_volume_surprise'', rs_minimum_absorption_volume_surprise \<circ> rr_long),
     (''short_maximum_absorption_imbalance'', rs_maximum_absorption_imbalance \<circ> rr_short),
     (''short_minimum_absorption_volume_surprise'', rs_minimum_absorption_volume_surprise \<circ> rr_short),
     (''long_stop_anchor_buffer_atr'', rs_stop_anchor_buffer_atr \<circ> rr_long),
     (''long_stop_extreme_buffer_atr'', rs_stop_extreme_buffer_atr \<circ> rr_long),
     (''long_minimum_risk_atr'', rs_minimum_risk_atr \<circ> rr_long),
     (''long_maximum_risk_atr'', rs_maximum_risk_atr \<circ> rr_long),
     (''long_target_reward_to_risk'', rs_target_reward_to_risk \<circ> rr_long),
     (''short_stop_anchor_buffer_atr'', rs_stop_anchor_buffer_atr \<circ> rr_short),
     (''short_stop_extreme_buffer_atr'', rs_stop_extreme_buffer_atr \<circ> rr_short),
     (''short_minimum_risk_atr'', rs_minimum_risk_atr \<circ> rr_short),
     (''short_maximum_risk_atr'', rs_maximum_risk_atr \<circ> rr_short),
     (''short_target_reward_to_risk'', rs_target_reward_to_risk \<circ> rr_short)]"

definition regime_retest_checks :: "regime_retest_config \<Rightarrow> (bool \<times> py_error) list" where
  "regime_retest_checks c =
     [(list_ex (\<lambda>v. v \<le> 0)
         [rr_baseline_lookback c, rr_breakout_lookback c, rr_atr_period c,
          rr_hourly_fast_ema_period c, rr_hourly_slow_ema_period c, rr_hourly_atr_period c,
          rr_hourly_slope_lookback c, rr_hourly_efficiency_lookback c, rr_setup_window_bars c,
          rs_max_hold_bars (rr_long c), rs_max_hold_bars (rr_short c), rr_intent_valid_bars c],
         ValueError ''retest periods must be positive''),
      (rr_hourly_slow_ema_period c \<le> rr_hourly_fast_ema_period c,
         ValueError ''hourly fast EMA period must be below the slow EMA period'')] @
     map (\<lambda>f. (\<not> is_finite (snd f c), ValueError (fst f @ '' must be finite''))) retest_float_fields @
     [(list_ex (\<lambda>f. fst f \<notin>
            {''short_maximum_hourly_slope_atr'', ''long_maximum_absorption_imbalance'',
             ''short_maximum_absorption_imbalance''} \<and> fle (snd f c) fzero) retest_float_fields,
         ValueError ''positive retest thresholds must be greater than zero''),
      (fle fzero (rs_hourly_slope_atr (rr_short c)),
         ValueError ''short hourly slope threshold must be negative''),
      (fle fzero (rs_maximum_absorption_imbalance (rr_long c)) \<or>
         fle fzero (rs_maximum_absorption_imbalance (rr_short c)),
         ValueError ''absorption imbalance thresholds must be negative'')] @
     map (at_most_one c)
       [(''long_minimum_hourly_efficiency'', rs_minimum_hourly_efficiency \<circ> rr_long),
        (''short_minimum_hourly_efficiency'', rs_minimum_hourly_efficiency \<circ> rr_short),
        (''long_minimum_body_fraction'', rs_minimum_body_fraction \<circ> rr_long),
        (''short_minimum_body_fraction'', rs_minimum_body_fraction \<circ> rr_short),
        (''long_minimum_trigger_close_location'', rs_minimum_trigger_close_location \<circ> rr_long),
        (''short_minimum_trigger_close_location'', rs_minimum_trigger_close_location \<circ> rr_short),
        (''long_minimum_reclaim_close_location'', rs_minimum_reclaim_close_location \<circ> rr_long),
        (''short_minimum_reclaim_close_location'', rs_minimum_reclaim_close_location \<circ> rr_short),
        (''long_minimum_reacceleration_imbalance'', rs_minimum_reacceleration_imbalance \<circ> rr_long),
        (''long_minimum_two_bar_imbalance'', rs_minimum_two_bar_imbalance \<circ> rr_long),
        (''short_minimum_reacceleration_imbalance'', rs_minimum_reacceleration_imbalance \<circ> rr_short),
        (''short_minimum_two_bar_imbalance'', rs_minimum_two_bar_imbalance \<circ> rr_short)] @
     [(list_ex (\<lambda>(lo, hi). fless hi lo)
         [(rs_minimum_atr_bps (rr_long c), rs_maximum_atr_bps (rr_long c)),
          (rs_minimum_atr_bps (rr_short c), rs_maximum_atr_bps (rr_short c)),
          (rs_minimum_breakout_extension_atr (rr_long c), rs_maximum_breakout_extension_atr (rr_long c)),
          (rs_minimum_breakout_extension_atr (rr_short c), rs_maximum_breakout_extension_atr (rr_short c)),
          (rs_minimum_reclaim_extension_atr (rr_long c), rs_maximum_reclaim_extension_atr (rr_long c)),
          (rs_minimum_reclaim_extension_atr (rr_short c), rs_maximum_reclaim_extension_atr (rr_short c)),
          (rs_minimum_risk_atr (rr_long c), rs_maximum_risk_atr (rr_long c)),
          (rs_minimum_risk_atr (rr_short c), rs_maximum_risk_atr (rr_short c))],
         ValueError ''retest lower bounds must not exceed upper bounds'')]"

definition make_regime_retest :: "regime_retest_config \<Rightarrow> regime_retest_config result" where
  "make_regime_retest c = validate (regime_retest_checks c) c"

definition regime_retest_fields :: "regime_retest_config \<Rightarrow> (string \<times> py_value) list" where
  "regime_retest_fields c =
    [(''variant'', PEnum (PStr (retest_variant_value (rr_variant c)))),
     (''baseline_lookback'', PInt (rr_baseline_lookback c)),
     (''breakout_lookback'', PInt (rr_breakout_lookback c)),
     (''atr_period'', PInt (rr_atr_period c)),
     (''hourly_fast_ema_period'', PInt (rr_hourly_fast_ema_period c)),
     (''hourly_slow_ema_period'', PInt (rr_hourly_slow_ema_period c)),
     (''hourly_atr_period'', PInt (rr_hourly_atr_period c)),
     (''hourly_slope_lookback'', PInt (rr_hourly_slope_lookback c)),
     (''hourly_efficiency_lookback'', PInt (rr_hourly_efficiency_lookback c)),
     (''setup_window_bars'', PInt (rr_setup_window_bars c)),
     (''long_minimum_hourly_slope_atr'', PFloat (rs_hourly_slope_atr (rr_long c))),
     (''long_minimum_hourly_efficiency'', PFloat (rs_minimum_hourly_efficiency (rr_long c))),
     (''long_maximum_hourly_extension_atr'', PFloat (rs_maximum_hourly_extension_atr (rr_long c))),
     (''short_maximum_hourly_slope_atr'', PFloat (rs_hourly_slope_atr (rr_short c))),
     (''short_minimum_hourly_efficiency'', PFloat (rs_minimum_hourly_efficiency (rr_short c))),
     (''short_maximum_hourly_extension_atr'', PFloat (rs_maximum_hourly_extension_atr (rr_short c))),
     (''long_minimum_atr_bps'', PFloat (rs_minimum_atr_bps (rr_long c))),
     (''long_maximum_atr_bps'', PFloat (rs_maximum_atr_bps (rr_long c))),
     (''short_minimum_atr_bps'', PFloat (rs_minimum_atr_bps (rr_short c))),
     (''short_maximum_atr_bps'', PFloat (rs_maximum_atr_bps (rr_short c))),
     (''long_minimum_range_expansion'', PFloat (rs_minimum_range_expansion (rr_long c))),
     (''long_minimum_volume_surprise'', PFloat (rs_minimum_volume_surprise (rr_long c))),
     (''long_minimum_body_fraction'', PFloat (rs_minimum_body_fraction (rr_long c))),
     (''long_minimum_trigger_close_location'', PFloat (rs_minimum_trigger_close_location (rr_long c))),
     (''long_minimum_breakout_extension_atr'', PFloat (rs_minimum_breakout_extension_atr (rr_long c))),
     (''long_maximum_breakout_extension_atr'', PFloat (rs_maximum_breakout_extension_atr (rr_long c))),
     (''short_minimum_range_expansion'', PFloat (rs_minimum_range_expansion (rr_short c))),
     (''short_minimum_volume_surprise'', PFloat (rs_minimum_volume_surprise (rr_short c))),
     (''short_minimum_body_fraction'', PFloat (rs_minimum_body_fraction (rr_short c))),
     (''short_minimum_trigger_close_location'', PFloat (rs_minimum_trigger_close_location (rr_short c))),
     (''short_minimum_breakout_extension_atr'', PFloat (rs_minimum_breakout_extension_atr (rr_short c))),
     (''short_maximum_breakout_extension_atr'', PFloat (rs_maximum_breakout_extension_atr (rr_short c))),
     (''long_failure_close_atr'', PFloat (rs_failure_close_atr (rr_long c))),
     (''long_maximum_pre_retest_advance_atr'', PFloat (rs_maximum_pre_retest_advance_atr (rr_long c))),
     (''long_retest_below_boundary_atr'', PFloat (rs_retest_below_boundary_atr (rr_long c))),
     (''long_retest_above_boundary_atr'', PFloat (rs_retest_above_boundary_atr (rr_long c))),
     (''long_minimum_reclaim_extension_atr'', PFloat (rs_minimum_reclaim_extension_atr (rr_long c))),
     (''long_maximum_reclaim_extension_atr'', PFloat (rs_maximum_reclaim_extension_atr (rr_long c))),
     (''long_minimum_reclaim_close_location'', PFloat (rs_minimum_reclaim_close_location (rr_long c))),
     (''short_failure_close_atr'', PFloat (rs_failure_close_atr (rr_short c))),
     (''short_maximum_pre_retest_advance_atr'', PFloat (rs_maximum_pre_retest_advance_atr (rr_short c))),
     (''short_retest_below_boundary_atr'', PFloat (rs_retest_below_boundary_atr (rr_short c))),
     (''short_retest_above_boundary_atr'', PFloat (rs_retest_above_boundary_atr (rr_short c))),
     (''short_minimum_reclaim_extension_atr'', PFloat (rs_minimum_reclaim_extension_atr (rr_short c))),
     (''short_maximum_reclaim_extension_atr'', PFloat (rs_maximum_reclaim_extension_atr (rr_short c))),
     (''short_minimum_reclaim_close_location'', PFloat (rs_minimum_reclaim_close_location (rr_short c))),
     (''long_minimum_reacceleration_imbalance'', PFloat (rs_minimum_reacceleration_imbalance (rr_long c))),
     (''long_minimum_two_bar_imbalance'', PFloat (rs_minimum_two_bar_imbalance (rr_long c))),
     (''short_minimum_reacceleration_imbalance'', PFloat (rs_minimum_reacceleration_imbalance (rr_short c))),
     (''short_minimum_two_bar_imbalance'', PFloat (rs_minimum_two_bar_imbalance (rr_short c))),
     (''long_maximum_absorption_imbalance'', PFloat (rs_maximum_absorption_imbalance (rr_long c))),
     (''long_minimum_absorption_volume_surprise'', PFloat (rs_minimum_absorption_volume_surprise (rr_long c))),
     (''short_maximum_absorption_imbalance'', PFloat (rs_maximum_absorption_imbalance (rr_short c))),
     (''short_minimum_absorption_volume_surprise'', PFloat (rs_minimum_absorption_volume_surprise (rr_short c))),
     (''long_stop_anchor_buffer_atr'', PFloat (rs_stop_anchor_buffer_atr (rr_long c))),
     (''long_stop_extreme_buffer_atr'', PFloat (rs_stop_extreme_buffer_atr (rr_long c))),
     (''long_minimum_risk_atr'', PFloat (rs_minimum_risk_atr (rr_long c))),
     (''long_maximum_risk_atr'', PFloat (rs_maximum_risk_atr (rr_long c))),
     (''long_target_reward_to_risk'', PFloat (rs_target_reward_to_risk (rr_long c))),
     (''long_max_hold_bars'', PInt (rs_max_hold_bars (rr_long c))),
     (''short_stop_anchor_buffer_atr'', PFloat (rs_stop_anchor_buffer_atr (rr_short c))),
     (''short_stop_extreme_buffer_atr'', PFloat (rs_stop_extreme_buffer_atr (rr_short c))),
     (''short_minimum_risk_atr'', PFloat (rs_minimum_risk_atr (rr_short c))),
     (''short_maximum_risk_atr'', PFloat (rs_maximum_risk_atr (rr_short c))),
     (''short_target_reward_to_risk'', PFloat (rs_target_reward_to_risk (rr_short c))),
     (''short_max_hold_bars'', PInt (rs_max_hold_bars (rr_short c))),
     (''intent_valid_bars'', PInt (rr_intent_valid_bars c))]"

definition maximum_holding_ms :: "regime_retest_config \<Rightarrow> int" where
  "maximum_holding_ms c =
     max (rs_max_hold_bars (rr_long c)) (rs_max_hold_bars (rr_short c)) * (5 * 60000)"

subsection \<open>One configuration\<close>

datatype strategy_config =
    RegimeAlignedRightTail regime_aligned_config
  | RightTailTrend right_tail_config
  | QuarterHourFlow quarter_hour_config
  | OrderFlowExpansion orderflow_config
  | RangeMeanReversion range_config
  | RegimeVetoRetest regime_retest_config
  | TrendBreakout trend_breakout_config
  | TrendPullback trend_pullback_config
  | CrowdedTrend crowded_config
  | DonchianEnsemble donchian_config
  | FourHourSma200 four_hour_config

fun config_class :: "strategy_config \<Rightarrow> string" where
  "config_class (RegimeAlignedRightTail c) = ''RegimeAlignedRightTailConfig''"
| "config_class (RightTailTrend c) = ''RightTailTrendConfig''"
| "config_class (QuarterHourFlow c) = ''QuarterHourFlowConfig''"
| "config_class (OrderFlowExpansion c) = ''OrderFlowVolatilityExpansionConfig''"
| "config_class (RangeMeanReversion c) = ''RangeMeanReversionConfig''"
| "config_class (RegimeVetoRetest c) = ''RegimeVetoRetestReclaimConfig''"
| "config_class (TrendBreakout c) = ''TrendBreakoutConfig''"
| "config_class (TrendPullback c) = ''TrendPullbackReclaimConfig''"
| "config_class (CrowdedTrend c) = ''CrowdedTrendContinuationConfig''"
| "config_class (DonchianEnsemble c) = ''DonchianEnsembleConfig''"
| "config_class (FourHourSma200 c) = ''FourHourSma200Config''"

fun config_fields :: "strategy_config \<Rightarrow> (string \<times> py_value) list" where
  "config_fields (RegimeAlignedRightTail c) = regime_aligned_fields c"
| "config_fields (RightTailTrend c) = right_tail_fields c"
| "config_fields (QuarterHourFlow c) = quarter_hour_fields c"
| "config_fields (OrderFlowExpansion c) = orderflow_fields c"
| "config_fields (RangeMeanReversion c) = range_fields c"
| "config_fields (RegimeVetoRetest c) = regime_retest_fields c"
| "config_fields (TrendBreakout c) = trend_breakout_fields c"
| "config_fields (TrendPullback c) = trend_pullback_fields c"
| "config_fields (CrowdedTrend c) = crowded_fields c"
| "config_fields (DonchianEnsemble c) = donchian_fields c"
| "config_fields (FourHourSma200 c) = four_hour_fields c"

fun config_checks :: "strategy_config \<Rightarrow> (bool \<times> py_error) list" where
  "config_checks (RegimeAlignedRightTail c) = regime_aligned_checks c"
| "config_checks (RightTailTrend c) = right_tail_checks c"
| "config_checks (QuarterHourFlow c) = quarter_hour_checks c"
| "config_checks (OrderFlowExpansion c) = orderflow_checks c"
| "config_checks (RangeMeanReversion c) = range_checks c"
| "config_checks (RegimeVetoRetest c) = regime_retest_checks c"
| "config_checks (TrendBreakout c) = trend_breakout_checks c"
| "config_checks (TrendPullback c) = trend_pullback_checks c"
| "config_checks (CrowdedTrend c) = crowded_checks c"
| "config_checks (DonchianEnsemble c) = donchian_checks c"
| "config_checks (FourHourSma200 c) = four_hour_checks c"

text \<open>Constructing a configuration, and the instance as the encoder sees it.\<close>

definition make_config :: "strategy_config \<Rightarrow> strategy_config result" where
  "make_config c = validate (config_checks c) c"

definition config_value :: "strategy_config \<Rightarrow> py_value" where
  "config_value c = PData (config_fields c)"

text \<open>The property \<open>fingerprint\<close> of the configuration classes.\<close>

definition config_fingerprint :: "strategy_config \<Rightarrow> string" where
  "config_fingerprint c = json_sha256 (plain_json (config_value c))"

definition default_configs :: "strategy_config list" where
  "default_configs =
    [RegimeAlignedRightTail regime_aligned_default,
     RightTailTrend right_tail_default,
     QuarterHourFlow quarter_hour_default,
     OrderFlowExpansion orderflow_default,
     RangeMeanReversion range_default,
     RegimeVetoRetest regime_retest_default,
     TrendBreakout trend_breakout_default,
     TrendPullback trend_pullback_default,
     CrowdedTrend crowded_default,
     DonchianEnsemble donchian_default,
     FourHourSma200 four_hour_default]"


subsection \<open>Properties\<close>

lemma default_checks_pass:
  "list_all (\<lambda>k. \<not> fst k) (regime_aligned_checks regime_aligned_default)"
  "list_all (\<lambda>k. \<not> fst k) (right_tail_checks right_tail_default)"
  "list_all (\<lambda>k. \<not> fst k) (quarter_hour_checks quarter_hour_default)"
  "list_all (\<lambda>k. \<not> fst k) (orderflow_checks orderflow_default)"
  "list_all (\<lambda>k. \<not> fst k) (range_checks range_default)"
  "list_all (\<lambda>k. \<not> fst k) (regime_retest_checks regime_retest_default)"
  "list_all (\<lambda>k. \<not> fst k) (trend_breakout_checks trend_breakout_default)"
  "list_all (\<lambda>k. \<not> fst k) (trend_pullback_checks trend_pullback_default)"
  "list_all (\<lambda>k. \<not> fst k) (crowded_checks crowded_default)"
  "list_all (\<lambda>k. \<not> fst k) (donchian_checks donchian_default)"
  "list_all (\<lambda>k. \<not> fst k) (four_hour_checks four_hour_default)"
  by code_simp+

lemma make_config_Inr_iff: "make_config c = Inr d \<longleftrightarrow> d = c \<and> list_all (\<lambda>k. \<not> fst k) (config_checks c)"
  by (simp add: make_config_def validate_Inr_iff)

lemma make_default_configs: "list_all (\<lambda>c. make_config c = Inr c) default_configs"
  by (simp add: default_configs_def make_config_Inr_iff default_checks_pass)

text \<open>
  Every registered default configuration is accepted by its own constructor, so no
  registered strategy fails for want of an explicit configuration.
\<close>

theorem default_configs_accepted: "list_all (\<lambda>c. make_config c = Inr c) default_configs"
  by (rule make_default_configs)

text \<open>
  The pullback depth bands partition the supported range: a depth belongs to a band exactly
  when it is finite and within [0, 1.5] ATR, and never to two of them (shared boundaries belong to the
  deeper band).
\<close>

theorem pullback_bands_partition:
  "card {v. depth_contains v d} = (if is_finite d \<and> fle fzero d \<and> fle d (Num (3 / 2)) then 1 else 0)"
proof -
  have "depth_contains v d \<longleftrightarrow> v \<in> set (filter (\<lambda>v. depth_contains v d) [SHALLOW, MEDIUM, DEEP])" for v
    by (cases v) auto
  then have bands: "{v. depth_contains v d} = set (filter (\<lambda>v. depth_contains v d) [SHALLOW, MEDIUM, DEEP])" by blast
  show ?thesis
    unfolding bands by (cases d) (simp_all add: depth_contains_def fless_def)
qed

end
