(* ===== verification/Registry.thy ===== *)
theory Registry
  imports Configs Models Factors Allocation Timeframes
begin

section \<open>The closed registry, runtime requirements and settings\<close>

text \<open>
  registry.py, runtime_requirements.py and config.py: the three tables of registered strategies with
  their promotion status, the generic entry points that run a registered generator, the operational
  history requirements and the fail-closed settings of the service. A generator is a field of a table
  entry, as in the source; the functions the tables refer to are the argument \<open>G\<close>.
\<close>

subsection \<open>Definitions of strategies\<close>

datatype strategy_status = INCONCLUSIVE | REJECTED | RESEARCH | FORWARD_FROZEN | PAPER_APPROVED

fun status_value :: "strategy_status \<Rightarrow> string" where
  "status_value INCONCLUSIVE = ''inconclusive''"
| "status_value REJECTED = ''rejected''"
| "status_value RESEARCH = ''research''"
| "status_value FORWARD_FROZEN = ''forward_frozen''"
| "status_value PAPER_APPROVED = ''paper_approved''"

type_synonym strategy_generator = "candle list \<Rightarrow> strategy_config \<Rightarrow> sleeve_intent list result"
type_synonym contextual_generator =
  "candle list \<Rightarrow> observation list \<Rightarrow> strategy_config \<Rightarrow> sleeve_intent list result"
type_synonym allocation_generator = "candle list \<Rightarrow> strategy_config \<Rightarrow> target_allocation list result"

text \<open>The class \<open>config_type\<close> is represented by its name and by the instance its call without arguments
  builds.\<close>

record 'g registered =
  d_strategy_id :: string
  d_revision :: string
  d_config_type :: string
  d_config_default :: strategy_config
  d_generator :: 'g
  d_source_files :: "string list"
  d_status :: strategy_status

type_synonym strategy_definition = "strategy_generator registered"
type_synonym contextual_definition = "contextual_generator registered"
type_synonym allocation_definition = "allocation_generator registered"

definition definition_checks :: "'g registered \<Rightarrow> (bool \<times> py_error) list" where
  "definition_checks d =
    [(d_strategy_id d = [] \<or> d_strategy_id d \<noteq> strip (d_strategy_id d),
        ValueError ''strategy_id must be a normalized non-empty string''),
     (d_revision d = [] \<or> d_revision d \<noteq> strip (d_revision d),
        ValueError ''revision must be a normalized non-empty string''),
     (d_source_files d = [] \<or> \<not> distinct (d_source_files d),
        ValueError ''source_files must be non-empty and unique'')]"

definition make_strategy_definition :: "strategy_definition \<Rightarrow> strategy_definition result" where
  "make_strategy_definition d = validate (definition_checks d) d"

definition make_contextual_definition :: "contextual_definition \<Rightarrow> contextual_definition result" where
  "make_contextual_definition d = validate (definition_checks d) d"

definition make_allocation_definition :: "allocation_definition \<Rightarrow> allocation_definition result" where
  "make_allocation_definition d = validate (definition_checks d) d"

definition paper_enabled :: "'g registered \<Rightarrow> bool" where
  "paper_enabled d \<longleftrightarrow> d_status d = PAPER_APPROVED"

subsection \<open>The tables\<close>

record sleeve_generators =
  g_regime_aligned_right_tail :: strategy_generator
  g_right_tail_trend :: strategy_generator
  g_quarter_hour_flow :: strategy_generator
  g_orderflow_volatility_expansion :: strategy_generator
  g_range_mean_reversion :: strategy_generator
  g_regime_veto_retest_reclaim :: strategy_generator
  g_trend_breakout :: strategy_generator
  g_trend_pullback_reclaim :: strategy_generator
  g_crowded_trend_continuation :: contextual_generator
  g_donchian_ensemble :: allocation_generator
  g_four_hour_sma200 :: allocation_generator

definition common_source_files :: "string list" where
  "common_source_files =
    [''candles.py'', ''indicators.py'', ''models.py'', ''provenance.py'', ''registry.py'', ''runtime.py'',
     ''timeframes.py'', ''validation.py'']"

definition strategy_entry :: "string \<Rightarrow> strategy_config \<Rightarrow> 'g \<Rightarrow> string \<Rightarrow> strategy_status \<Rightarrow> 'g registered" where
  "strategy_entry strategy_id conf gen module_name status =
    \<lparr>d_strategy_id = strategy_id, d_revision = ''1'', d_config_type = config_class conf,
     d_config_default = conf, d_generator = gen,
     d_source_files = common_source_files @ [''sleeves/'' @ module_name @ ''.py''], d_status = status\<rparr>"

definition registry_definitions :: "sleeve_generators \<Rightarrow> strategy_definition list" where
  "registry_definitions G =
    [strategy_entry ''regime_aligned_right_tail_v1'' (RegimeAlignedRightTail regime_aligned_default)
       (g_regime_aligned_right_tail G) ''regime_aligned_right_tail'' FORWARD_FROZEN,
     strategy_entry ''right_tail_trend_v1'' (RightTailTrend right_tail_default)
       (g_right_tail_trend G) ''right_tail_trend'' REJECTED,
     strategy_entry ''quarter_hour_flow_v1'' (QuarterHourFlow quarter_hour_default)
       (g_quarter_hour_flow G) ''quarter_hour_flow'' RESEARCH,
     strategy_entry ''orderflow_volatility_expansion_v1'' (OrderFlowExpansion orderflow_default)
       (g_orderflow_volatility_expansion G) ''orderflow_volatility_expansion'' REJECTED,
     strategy_entry ''range_mean_reversion_v1'' (RangeMeanReversion range_default)
       (g_range_mean_reversion G) ''range_mean_reversion'' REJECTED,
     strategy_entry ''regime_veto_retest_reclaim_v1'' (RegimeVetoRetest regime_retest_default)
       (g_regime_veto_retest_reclaim G) ''regime_retest_reclaim'' REJECTED,
     strategy_entry ''trend_breakout_v1'' (TrendBreakout trend_breakout_default)
       (g_trend_breakout G) ''trend_breakout'' REJECTED,
     strategy_entry ''trend_pullback_reclaim_v1'' (TrendPullback trend_pullback_default)
       (g_trend_pullback_reclaim G) ''trend_pullback_reclaim'' REJECTED]"

definition strategies :: "sleeve_generators \<Rightarrow> (string \<times> strategy_definition) list" where
  "strategies G = map (\<lambda>d. (d_strategy_id d, d)) (registry_definitions G)"

definition contextual_strategies :: "sleeve_generators \<Rightarrow> (string \<times> contextual_definition) list" where
  "contextual_strategies G =
    [(''crowded_trend_continuation_v1'',
      \<lparr>d_strategy_id = ''crowded_trend_continuation_v1'', d_revision = ''1'',
       d_config_type = ''CrowdedTrendContinuationConfig'', d_config_default = CrowdedTrend crowded_default,
       d_generator = g_crowded_trend_continuation G,
       d_source_files = common_source_files @ [''factors.py'', ''sleeves/crowded_trend_continuation.py''],
       d_status = REJECTED\<rparr>)]"

definition allocation_strategies :: "sleeve_generators \<Rightarrow> (string \<times> allocation_definition) list" where
  "allocation_strategies G =
    [(''donchian_ensemble_long_v1'',
      \<lparr>d_strategy_id = ''donchian_ensemble_long_v1'', d_revision = ''1'',
       d_config_type = ''DonchianEnsembleConfig'', d_config_default = DonchianEnsemble donchian_default,
       d_generator = g_donchian_ensemble G,
       d_source_files = common_source_files @ [''allocation.py'', ''sleeves/donchian_ensemble.py''],
       d_status = INCONCLUSIVE\<rparr>),
     (''four_hour_sma200_long_v1'',
      \<lparr>d_strategy_id = ''four_hour_sma200_long_v1'', d_revision = ''1'',
       d_config_type = ''FourHourSma200Config'', d_config_default = FourHourSma200 four_hour_default,
       d_generator = g_four_hour_sma200 G,
       d_source_files = common_source_files @ [''allocation.py'', ''sleeves/four_hour_sma200.py''],
       d_status = REJECTED\<rparr>)]"

definition get_strategy :: "sleeve_generators \<Rightarrow> string \<Rightarrow> strategy_definition result" where
  "get_strategy G strategy_id =
     (case map_of (strategies G) strategy_id of
        None \<Rightarrow> Inl (KeyError (''unknown strategy_id: '' @ strategy_id)) | Some d \<Rightarrow> Inr d)"

definition get_contextual_strategy :: "sleeve_generators \<Rightarrow> string \<Rightarrow> contextual_definition result" where
  "get_contextual_strategy G strategy_id =
     (case map_of (contextual_strategies G) strategy_id of
        None \<Rightarrow> Inl (KeyError (''unknown contextual strategy_id: '' @ strategy_id)) | Some d \<Rightarrow> Inr d)"

definition get_allocation_strategy :: "sleeve_generators \<Rightarrow> string \<Rightarrow> allocation_definition result" where
  "get_allocation_strategy G strategy_id =
     (case map_of (allocation_strategies G) strategy_id of
        None \<Rightarrow> Inl (KeyError (''unknown allocation strategy_id: '' @ strategy_id)) | Some d \<Rightarrow> Inr d)"

subsection \<open>Running a registered generator\<close>

text \<open>The steps the three entry points share: paper authority, configuration, generation, sorting.\<close>

definition check_paper :: "'g registered \<Rightarrow> string \<Rightarrow> bool \<Rightarrow> unit result" where
  "check_paper d strategy_id for_paper =
     (if for_paper \<and> \<not> paper_enabled d
      then Inl (PaperStrategyDisabledError (strategy_id @ '' is not PAPER-approved'')) else Inr ())"

definition resolve_settings :: "'g registered \<Rightarrow> string \<Rightarrow> strategy_config option \<Rightarrow> strategy_config result" where
  "resolve_settings d strategy_id config =
     rbind (case config of None \<Rightarrow> make_config (d_config_default d) | Some c \<Rightarrow> Inr c) (\<lambda>settings.
       if config_class settings \<noteq> d_config_type d
       then Inl (TypeError (''config for '' @ strategy_id @ '' must be '' @ d_config_type d))
       else Inr settings)"

type_synonym intent_key = "int \<times> string \<times> string \<times> string"

definition sleeve_intent_key :: "sleeve_intent \<Rightarrow> intent_key" where
  "sleeve_intent_key i = (i_decision_ts_ms i, i_symbol i, side_value (i_side i), intent_id i)"

definition allocation_key :: "target_allocation \<Rightarrow> int \<times> string \<times> string" where
  "allocation_key a = (a_decision_ts_ms a, a_symbol a, allocation_id a)"

definition ordered_batch :: "('a \<Rightarrow> string) \<Rightarrow> ('a \<Rightarrow> 'k::linorder) \<Rightarrow> string \<Rightarrow> string \<Rightarrow> 'a list \<Rightarrow> 'a list result" where
  "ordered_batch ident key strategy_id wrong generated =
     (if list_ex (\<lambda>x. ident x \<noteq> strategy_id) generated then Inl (ValueError wrong)
      else Inr (sort_key key generated))"

definition generate_sleeve_intents ::
  "sleeve_generators \<Rightarrow> string \<Rightarrow> candle list \<Rightarrow> strategy_config option \<Rightarrow> bool \<Rightarrow> sleeve_intent list result" where
  "generate_sleeve_intents G strategy_id candles config for_paper =
     rbind (get_strategy G strategy_id) (\<lambda>d.
     rbind (check_paper d strategy_id for_paper) (\<lambda>_.
     rbind (resolve_settings d strategy_id config) (\<lambda>settings.
     rbind (d_generator d candles settings)
       (ordered_batch i_sleeve_id sleeve_intent_key strategy_id
          ''strategy generator emitted an intent with the wrong strategy id''))))"

definition generate_contextual_sleeve_intents ::
  "sleeve_generators \<Rightarrow> string \<Rightarrow> candle list \<Rightarrow> observation list \<Rightarrow> strategy_config option \<Rightarrow> bool \<Rightarrow>
   sleeve_intent list result" where
  "generate_contextual_sleeve_intents G strategy_id candles factor_observations config for_paper =
     rbind (get_contextual_strategy G strategy_id) (\<lambda>d.
     rbind (check_paper d strategy_id for_paper) (\<lambda>_.
     rbind (resolve_settings d strategy_id config) (\<lambda>settings.
     rbind (d_generator d candles factor_observations settings)
       (ordered_batch i_sleeve_id sleeve_intent_key strategy_id
          ''contextual strategy generator emitted an intent with the wrong strategy id''))))"

definition generate_target_allocations ::
  "sleeve_generators \<Rightarrow> string \<Rightarrow> candle list \<Rightarrow> strategy_config option \<Rightarrow> bool \<Rightarrow> target_allocation list result" where
  "generate_target_allocations G strategy_id candles config for_paper =
     rbind (get_allocation_strategy G strategy_id) (\<lambda>d.
     rbind (check_paper d strategy_id for_paper) (\<lambda>_.
     rbind (resolve_settings d strategy_id config) (\<lambda>settings.
     rbind (d_generator d candles settings)
       (ordered_batch a_strategy_id allocation_key strategy_id
          ''allocation generator emitted a target with the wrong strategy id''))))"

subsection \<open>Runtime requirements\<close>

record runtime_requirements =
  minimum_window_bars :: int
  decision_interval_bars :: int
  decision_phase_bars :: int

definition make_runtime_requirements :: "runtime_requirements \<Rightarrow> runtime_requirements result" where
  "make_runtime_requirements r = validate
    [(minimum_window_bars r \<le> 0, ValueError ''minimum_window_bars must be a positive integer''),
     (decision_interval_bars r \<le> 0, ValueError ''decision_interval_bars must be a positive integer''),
     (\<not> (0 \<le> decision_phase_bars r \<and> decision_phase_bars r < decision_interval_bars r),
        ValueError ''decision_phase_bars must lie within the decision interval'')] r"

definition default_requirements :: runtime_requirements where
  "default_requirements =
     \<lparr>minimum_window_bars = 2, decision_interval_bars = 1, decision_phase_bars = 0\<rparr>"

definition requirements_table :: "(string \<times> runtime_requirements) list" where
  "requirements_table =
    [(''regime_aligned_right_tail_v1'',
      \<lparr>minimum_window_bars = 200 * 4 * 60 + 60, decision_interval_bars = 24 * 60,
       decision_phase_bars = 60\<rparr>)]"

definition get_runtime_requirements :: "string \<Rightarrow> runtime_requirements" where
  "get_runtime_requirements strategy_id =
     (case map_of requirements_table strategy_id of None \<Rightarrow> default_requirements | Some r \<Rightarrow> r)"

subsection \<open>Settings\<close>

text \<open>
  \<open>StrategyEngineSettings\<close>: the fields the program reads. \<open>symbol_allowed\<close> and the remaining fields
  belong to the settings class of the core package; the predicate is a field here. A validation error of
  the settings library is a \<open>ValueError\<close>; of the errors it would collect, the model keeps the first.
\<close>

datatype trading_mode = DRY_RUN | PAPER | LIVE

record settings =
  s_trading_mode :: trading_mode
  s_environment :: string
  s_bus_backend :: string
  s_enabled_strategy_ids :: "string list"
  s_window_bars :: int
  s_trading_symbols :: "string list"
  s_symbol_allowed :: "string \<Rightarrow> bool"

definition lower_char :: "char \<Rightarrow> char" where
  "lower_char c = (let n = of_char c :: nat in if 65 \<le> n \<and> n \<le> 90 then char_of (n + 32) else c)"

definition validate_strategy_ids :: "sleeve_generators \<Rightarrow> string list \<Rightarrow> string list result" where
  "validate_strategy_ids G value =
     (let normalized = sort (remdups value) in
      if length normalized \<noteq> length value then Inl (ValueError ''enabled_strategy_ids must be unique'')
      else rbind (traverse (\<lambda>strategy_id.
          if strategy_id = [] \<or> strategy_id \<noteq> strip strategy_id
          then Inl (ValueError ''strategy IDs must be normalized non-empty strings'')
          else get_strategy G strategy_id) normalized) (\<lambda>_. Inr normalized))"

definition disabled_ids :: "sleeve_generators \<Rightarrow> settings \<Rightarrow> string list result" where
  "disabled_ids G s =
     rmap (\<lambda>ds. map d_strategy_id (filter (\<lambda>d. \<not> paper_enabled d) ds))
       (traverse (get_strategy G) (s_enabled_strategy_ids s))"

fun comma_join :: "string list \<Rightarrow> string" where
  "comma_join [] = []"
| "comma_join [x] = x"
| "comma_join (x # xs) = x @ '', '' @ comma_join xs"

definition undersized_ids :: "settings \<Rightarrow> string list" where
  "undersized_ids s =
     map (\<lambda>i. i @ ''>='' @ str_int (minimum_window_bars (get_runtime_requirements i)))
       (filter (\<lambda>i. s_window_bars s < minimum_window_bars (get_runtime_requirements i))
         (s_enabled_strategy_ids s))"

definition validate_authority :: "sleeve_generators \<Rightarrow> settings \<Rightarrow> settings result" where
  "validate_authority G s =
     (if s_trading_mode s = LIVE
      then Inl (ValueError ''strategy-engine does not authorize LIVE trading'')
      else rbind
        (if s_trading_mode s = PAPER then
           if map lower_char (s_environment s) = ''prod''
           then Inl (ValueError ''PAPER strategy-engine cannot run in a production environment'')
           else if s_bus_backend s = ''memory''
           then Inl (ValueError ''PAPER strategy-engine requires the durable Redis/PostgreSQL bus'')
           else rbind (disabled_ids G s) (\<lambda>disabled.
             if disabled \<noteq> []
             then Inl (ValueError (''PAPER strategy-engine cannot enable non-approved strategies: ''
                        @ comma_join disabled))
             else Inr ())
         else Inr ())
        (\<lambda>_. if undersized_ids s \<noteq> []
             then Inl (ValueError (''window_bars is too small for enabled strategies: ''
                        @ comma_join (undersized_ids s)))
             else Inr s))"

definition make_settings :: "sleeve_generators \<Rightarrow> settings \<Rightarrow> settings result" where
  "make_settings G s =
     rbind (validate_strategy_ids G (s_enabled_strategy_ids s)) (\<lambda>ids.
       if \<not> (2 \<le> s_window_bars s \<and> s_window_bars s \<le> 86400)
       then Inl (ValueError ''window_bars is out of range'')
       else validate_authority G (s\<lparr>s_enabled_strategy_ids := ids\<rparr>))"

subsection \<open>Facts\<close>

lemma strategies_keys: "map fst (strategies G) = map d_strategy_id (registry_definitions G)"
  by (simp add: strategies_def comp_def)

lemma get_strategy_Inr:
  "get_strategy G i = Inr d \<Longrightarrow> d \<in> set (registry_definitions G) \<and> d_strategy_id d = i"
  by (auto simp: get_strategy_def strategies_def dest!: map_of_SomeD split: option.splits)

lemma get_contextual_strategy_Inr:
  "get_contextual_strategy G i = Inr d \<Longrightarrow> d \<in> snd ` set (contextual_strategies G)"
  by (force simp: get_contextual_strategy_def dest!: map_of_SomeD split: option.splits)

lemma get_allocation_strategy_Inr:
  "get_allocation_strategy G i = Inr d \<Longrightarrow> d \<in> snd ` set (allocation_strategies G)"
  by (force simp: get_allocation_strategy_def dest!: map_of_SomeD split: option.splits)

lemma none_paper_enabled:
  "d \<in> set (registry_definitions G) \<Longrightarrow> \<not> paper_enabled d"
  "e \<in> snd ` set (contextual_strategies G) \<Longrightarrow> \<not> paper_enabled e"
  "a \<in> snd ` set (allocation_strategies G) \<Longrightarrow> \<not> paper_enabled a"
  by (auto simp: registry_definitions_def contextual_strategies_def allocation_strategies_def
      strategy_entry_def paper_enabled_def)

lemma get_strategy_not_paper: "get_strategy G i = Inr d \<Longrightarrow> \<not> paper_enabled d"
  using get_strategy_Inr none_paper_enabled(1) by blast

lemma ordered_batch_Inr_iff:
  "ordered_batch ident key i w xs = Inr ys \<longleftrightarrow> ys = sort_key key xs \<and> (\<forall>x \<in> set xs. ident x = i)"
  by (auto simp: ordered_batch_def list_ex_iff)

lemma generate_sleeve_intents_InrE:
  assumes "generate_sleeve_intents G i xs config paper = Inr ys"
  obtains d settings generated where "get_strategy G i = Inr d" "\<not> paper"
    "resolve_settings d i config = Inr settings" "d_generator d xs settings = Inr generated"
    "ys = sort_key sleeve_intent_key generated" "\<forall>y \<in> set ys. i_sleeve_id y = i"
  using assms
  by (auto simp: generate_sleeve_intents_def rbind_Inr_iff ordered_batch_Inr_iff check_paper_def
      split: if_splits dest: get_strategy_not_paper)

lemma make_settings_InrE:
  assumes "make_settings G s = Inr t"
  shows "s_trading_mode t \<noteq> LIVE" "sorted_wrt (<) (s_enabled_strategy_ids t)"
    "list_all (\<lambda>i. (\<exists>d. get_strategy G i = Inr d) \<and>
        minimum_window_bars (get_runtime_requirements i) \<le> s_window_bars t) (s_enabled_strategy_ids t)"
    "2 \<le> s_window_bars t" "s_window_bars t \<le> 86400"
    "s_trading_mode t = PAPER \<Longrightarrow> s_enabled_strategy_ids t = []"
    "s_trading_mode t = PAPER \<Longrightarrow> s_bus_backend t \<noteq> ''memory''"
    "s_trading_mode t = PAPER \<Longrightarrow> map lower_char (s_environment t) \<noteq> ''prod''"
proof -
  from assms obtain ids where ids: "validate_strategy_ids G (s_enabled_strategy_ids s) = Inr ids"
    and w: "2 \<le> s_window_bars s" "s_window_bars s \<le> 86400"
    and a: "validate_authority G (s\<lparr>s_enabled_strategy_ids := ids\<rparr>) = Inr t"
    by (auto simp: make_settings_def rbind_Inr_iff split: if_splits)
  from a have t: "t = s\<lparr>s_enabled_strategy_ids := ids\<rparr>" and live: "s_trading_mode t \<noteq> LIVE"
    and big: "undersized_ids t = []"
    by (auto simp: validate_authority_def rbind_Inr_iff split: if_splits)
  from ids obtain us where sorted: "ids = sort (remdups (s_enabled_strategy_ids s))"
    and us: "traverse (\<lambda>i. if i = [] \<or> i \<noteq> strip i
          then Inl (ValueError ''strategy IDs must be normalized non-empty strings'') else get_strategy G i) ids = Inr us"
    by (auto simp: validate_strategy_ids_def Let_def rbind_Inr_iff split: if_splits)
  have known: "\<exists>d. get_strategy G i = Inr d" if "i \<in> set ids" for i
    using traverse_dom [OF us that] by (auto split: if_splits)
  show "s_trading_mode t \<noteq> LIVE" by fact
  show "sorted_wrt (<) (s_enabled_strategy_ids t)"
    by (simp add: t sorted strict_sorted_iff)
  show "list_all (\<lambda>i. (\<exists>d. get_strategy G i = Inr d) \<and>
      minimum_window_bars (get_runtime_requirements i) \<le> s_window_bars t) (s_enabled_strategy_ids t)"
    using known big by (auto simp: t undersized_ids_def list_all_iff filter_empty_conv not_less)
  show "2 \<le> s_window_bars t" "s_window_bars t \<le> 86400" using w by (simp_all add: t)
  assume paper: "s_trading_mode t = PAPER"
  then obtain disabled where "disabled_ids G t = Inr disabled" "disabled = []"
    and b: "s_bus_backend t \<noteq> ''memory''" "map lower_char (s_environment t) \<noteq> ''prod''"
    using a by (auto simp: validate_authority_def rbind_Inr_iff t split: if_splits)
  then obtain ds where ds: "traverse (get_strategy G) (s_enabled_strategy_ids t) = Inr ds"
    and none: "\<forall>d \<in> set ds. paper_enabled d"
    by (auto simp: disabled_ids_def rmap_Inr_iff filter_empty_conv)
  have "ds = []"
    using traverse_mem [OF ds] none get_strategy_not_paper by (metis list.set_intros(1) neq_Nil_conv)
  then show "s_enabled_strategy_ids t = []" using traverse_length [OF ds] by simp
  show "s_bus_backend t \<noteq> ''memory''" "map lower_char (s_environment t) \<noteq> ''prod''" by fact+
qed


subsection \<open>Properties\<close>

text \<open>
  Research code cannot trade PAPER. Whatever the generators do, no entry point returns a
  batch when it is called for PAPER, because no registered definition is approved for it.
\<close>

theorem paper_never_generates:
  "\<not> (\<exists>ys. generate_sleeve_intents G i xs config True = Inr ys) \<and>
   \<not> (\<exists>ys. generate_contextual_sleeve_intents G i xs fs config True = Inr ys) \<and>
   \<not> (\<exists>ys. generate_target_allocations G i xs config True = Inr ys)"
proof -
  have "\<not> (\<exists>ys. generate_sleeve_intents G i xs config True = Inr ys)"
    by (metis generate_sleeve_intents_InrE)
  moreover have "\<not> (\<exists>ys. generate_contextual_sleeve_intents G i xs fs config True = Inr ys)"
    using none_paper_enabled(2) get_contextual_strategy_Inr
    by (fastforce simp: generate_contextual_sleeve_intents_def rbind_Inr_iff check_paper_def split: if_splits)
  moreover have "\<not> (\<exists>ys. generate_target_allocations G i xs config True = Inr ys)"
    using none_paper_enabled(3) get_allocation_strategy_Inr
    by (fastforce simp: generate_target_allocations_def rbind_Inr_iff check_paper_def split: if_splits)
  ultimately show ?thesis by blast
qed


text \<open>
  A batch of a registered sleeve is the generator's output rearranged: nothing is added or
  lost, the order is ascending by decision time, symbol, side and identifier, every intent carries the
  requested strategy identifier, and the configuration has the registered class.
\<close>

theorem generate_sleeve_intents_batch:
  assumes "generate_sleeve_intents G i xs config paper = Inr ys"
  shows "\<exists>d settings generated. get_strategy G i = Inr d \<and> config_class settings = d_config_type d \<and>
    d_generator d xs settings = Inr generated \<and> mset ys = mset generated \<and>
    sorted (map sleeve_intent_key ys) \<and> (\<forall>y \<in> set ys. i_sleeve_id y = i)"
proof -
  from assms obtain d settings generated where d: "get_strategy G i = Inr d" "d_generator d xs settings = Inr generated"
    and r: "resolve_settings d i config = Inr settings"
    and ys: "ys = sort_key sleeve_intent_key generated" "\<forall>y \<in> set ys. i_sleeve_id y = i"
    by (elim generate_sleeve_intents_InrE)
  have "config_class settings = d_config_type d"
    using r by (auto simp: resolve_settings_def rbind_Inr_iff split: if_splits)
  then show ?thesis using d ys by auto
qed

text \<open>Generators that emit two fixed intents in descending order of decision time, for witnesses.\<close>

definition sample_batch :: "string \<Rightarrow> sleeve_intent list" where
  "sample_batch i = map (\<lambda>ts. sample_intent\<lparr>i_sleeve_id := i, i_decision_ts_ms := ts,
       i_exit_plan := sample_plan\<lparr>trailing_activation_price := None, trailing_distance := None\<rparr>\<rparr>)
     [119999, 59999]"

definition fixed_generator :: "string \<Rightarrow> strategy_generator" where
  "fixed_generator i = (\<lambda>rows c. Inr (sample_batch i))"

definition sample_generators :: sleeve_generators where
  "sample_generators =
    \<lparr>g_regime_aligned_right_tail = fixed_generator ''regime_aligned_right_tail_v1'',
     g_right_tail_trend = fixed_generator ''right_tail_trend_v1'',
     g_quarter_hour_flow = fixed_generator ''quarter_hour_flow_v1'',
     g_orderflow_volatility_expansion = fixed_generator ''orderflow_volatility_expansion_v1'',
     g_range_mean_reversion = fixed_generator ''range_mean_reversion_v1'',
     g_regime_veto_retest_reclaim = fixed_generator ''regime_veto_retest_reclaim_v1'',
     g_trend_breakout = fixed_generator ''trend_breakout_v1'',
     g_trend_pullback_reclaim = fixed_generator ''trend_pullback_reclaim_v1'',
     g_crowded_trend_continuation = (\<lambda>rows fs c. Inr []),
     g_donchian_ensemble = (\<lambda>rows c. Inr []),
     g_four_hour_sma200 = (\<lambda>rows c. Inr [])\<rparr>"

lemma sample_get_strategy:
  "get_strategy sample_generators ''right_tail_trend_v1'' =
     Inr (strategy_entry ''right_tail_trend_v1'' (RightTailTrend right_tail_default)
        (fixed_generator ''right_tail_trend_v1'') ''right_tail_trend'' REJECTED)"
  by (simp add: get_strategy_def strategies_def registry_definitions_def strategy_entry_def sample_generators_def)

lemma sample_generate:
  "generate_sleeve_intents sample_generators ''right_tail_trend_v1'' xs None False =
     Inr (sort_key sleeve_intent_key (sample_batch ''right_tail_trend_v1''))"
proof -
  have "make_config (RightTailTrend right_tail_default) = Inr (RightTailTrend right_tail_default)"
    using make_default_configs by (simp add: default_configs_def)
  then show ?thesis
    by (simp add: generate_sleeve_intents_def sample_get_strategy check_paper_def resolve_settings_def
        strategy_entry_def fixed_generator_def ordered_batch_def sample_batch_def)
qed

theorem generate_sleeve_intents_batch_witness:
  "list_all (\<lambda>y. i_sleeve_id y = ''right_tail_trend_v1'')
     (sort_key sleeve_intent_key (sample_batch ''right_tail_trend_v1''))"
  unfolding list_all_iff using generate_sleeve_intents_batch [OF sample_generate] by blast

text \<open>
  Settings are fail-closed. Settings that validate never authorise LIVE trading, list
  distinct registered strategies in ascending order whose history requirement the window covers, keep
  the window within its bounds, and under PAPER enable no strategy at all, on a durable bus outside a
  production environment.
\<close>

theorem settings_fail_closed:
  assumes "make_settings G s = Inr t"
  shows "s_trading_mode t \<noteq> LIVE \<and> sorted_wrt (<) (s_enabled_strategy_ids t) \<and>
    list_all (\<lambda>i. (\<exists>d. get_strategy G i = Inr d) \<and>
        minimum_window_bars (get_runtime_requirements i) \<le> s_window_bars t) (s_enabled_strategy_ids t) \<and>
    2 \<le> s_window_bars t \<and> s_window_bars t \<le> 86400 \<and>
    (s_trading_mode t = PAPER \<longrightarrow> s_enabled_strategy_ids t = [] \<and> s_bus_backend t \<noteq> ''memory'' \<and>
       map lower_char (s_environment t) \<noteq> ''prod'')"
  by (intro conjI impI make_settings_InrE [OF assms])

definition sample_settings :: settings where
  "sample_settings =
    \<lparr>s_trading_mode = DRY_RUN, s_environment = ''dev'', s_bus_backend = ''memory'',
     s_enabled_strategy_ids = [''right_tail_trend_v1'', ''quarter_hour_flow_v1''], s_window_bars = 1440,
     s_trading_symbols = [''BTCUSDT''], s_symbol_allowed = (\<lambda>x. x = ''BTCUSDT'')\<rparr>"

definition sample_settings_valid :: settings where
  "sample_settings_valid =
     sample_settings\<lparr>s_enabled_strategy_ids := [''quarter_hour_flow_v1'', ''right_tail_trend_v1'']\<rparr>"

lemma sample_get_quarter:
  "get_strategy sample_generators ''quarter_hour_flow_v1'' =
     Inr (strategy_entry ''quarter_hour_flow_v1'' (QuarterHourFlow quarter_hour_default)
        (fixed_generator ''quarter_hour_flow_v1'') ''quarter_hour_flow'' RESEARCH)"
  by (simp add: get_strategy_def strategies_def registry_definitions_def strategy_entry_def sample_generators_def)

lemma sample_make_settings: "make_settings sample_generators sample_settings = Inr sample_settings_valid"
proof -
  let ?ids = "[''quarter_hour_flow_v1'', ''right_tail_trend_v1'']"
  have order: "sort (remdups [''right_tail_trend_v1'', ''quarter_hour_flow_v1'']) = ?ids" by code_simp
  have strips: "strip ''quarter_hour_flow_v1'' = ''quarter_hour_flow_v1''"
    "strip ''right_tail_trend_v1'' = ''right_tail_trend_v1''" by code_simp+
  have "validate_strategy_ids sample_generators [''right_tail_trend_v1'', ''quarter_hour_flow_v1''] = Inr ?ids"
    unfolding validate_strategy_ids_def order Let_def by (simp add: strips sample_get_strategy sample_get_quarter)
  moreover have "undersized_ids sample_settings_valid = []"
    by (simp add: undersized_ids_def sample_settings_valid_def sample_settings_def get_runtime_requirements_def
        requirements_table_def default_requirements_def)
  ultimately show ?thesis
    by (simp add: make_settings_def sample_settings_def validate_authority_def sample_settings_valid_def)
qed

theorem settings_fail_closed_witness: "sorted_wrt (<) (s_enabled_strategy_ids sample_settings_valid)"
  using settings_fail_closed [OF sample_make_settings] by blast

text \<open>
  The requirements of every strategy, registered or not, pass their own constructor, so the
  decision clock never divides by zero and its phase can be met.
\<close>

theorem runtime_requirements_valid:
  "make_runtime_requirements (get_runtime_requirements i) = Inr (get_runtime_requirements i)"
  by (simp add: get_runtime_requirements_def requirements_table_def default_requirements_def
      make_runtime_requirements_def validate_Inr_iff)

end
