(* ===== verification/Contracts.thy ===== *)
theory Contracts
  imports Registry Provenance
begin

section \<open>Contract values of the core package\<close>

text \<open>
  The classes ClosedBarEventV1, ExitPlanV1, StrategyProvenanceV1, StrategyIntentV1 and
  StrategyEvaluationV1 are code of the core package. A contract value is the record of the arguments the
  program calls the constructor with; what the package does with them (the validation of a constructor,
  the JSON dump, the digest of a payload) is the argument \<open>K\<close>, a record of functions. Facts about these
  functions that a result relies on are named hypotheses of that result.
\<close>

record closed_bar =
  b_source :: string
  b_message_id :: string
  b_correlation_id :: string
  b_produced_at_ms :: int
  b_venue :: string
  b_symbol :: string
  b_timeframe :: string
  b_open_time_ms :: int
  b_close_time_ms :: int
  b_open :: pyfloat
  b_high :: pyfloat
  b_low :: pyfloat
  b_close :: pyfloat
  b_base_volume :: pyfloat
  b_quote_volume :: pyfloat
  b_taker_buy_base_volume :: pyfloat
  b_taker_buy_quote_volume :: pyfloat
  b_bar_sha256 :: "string option"

record exit_plan_v1 =
  e_stop_price :: pyfloat
  e_target_price :: pyfloat
  e_max_holding_ms :: int

record provenance_v1 =
  p_strategy_code_sha256 :: string
  p_config_sha256 :: string
  p_input_window_sha256 :: string
  p_features_sha256 :: string
  p_input_bar_sha256s :: "string list"

record strategy_intent =
  v_source :: string
  v_message_id :: string
  v_correlation_id :: string
  v_produced_at_ms :: int
  v_intent_id :: "string option"
  v_strategy_id :: string
  v_strategy_revision :: string
  v_symbol :: string
  v_timeframe :: string
  v_venue :: string
  v_side :: side
  v_decision_ts_ms :: int
  v_entry_eligible_ts_ms :: int
  v_entry_expires_ts_ms :: int
  v_reference_price :: pyfloat
  v_signal_strength :: pyfloat
  v_gross_reward_bps :: pyfloat
  v_exit_plan :: exit_plan_v1
  v_provenance :: provenance_v1
  v_metadata :: "(string \<times> string) list"

datatype evaluation_status = INTENT | NO_INTENT | WARMUP | NOT_SCHEDULED | DISABLED | UNAVAILABLE | ERROR

record evaluation =
  r_causation_id :: string
  r_scope :: string
  r_strategy_id :: "string option"
  r_strategy_revision :: "string option"
  r_registry_status :: "string option"
  r_trading_mode :: trading_mode
  r_enabled_strategy_ids :: "string list"
  r_runtime_policy_sha256 :: string
  r_strategy_code_sha256 :: "string option"
  r_config_sha256 :: "string option"
  r_symbol :: string
  r_bar_open_time_ms :: int
  r_decision_ts_ms :: int
  r_anchor_bar_sha256 :: string
  r_input_first_open_time_ms :: int
  r_input_bar_count :: int
  r_input_window_sha256 :: "string option"
  r_observed_at_ms :: int
  r_status :: evaluation_status
  r_evaluation_complete :: bool
  r_reason_code :: string
  r_error_type :: "string option"
  r_intent_ids :: "string list"
  r_intent_sides :: "side list"

text \<open>What the core package contributes; \<open>k_revalidate_intent\<close> is \<open>model_validate(model_dump())\<close>,
  \<open>k_evaluation_id\<close> the identity it derives for an observation, \<open>k_read_source\<close> reads an installed source file.\<close>

record core_package =
  k_contract_sha256 :: "py_value \<Rightarrow> string result"
  k_contract_json_bytes :: "py_value \<Rightarrow> byte list result"
  k_make_bar :: "closed_bar \<Rightarrow> closed_bar result"
  k_identity_payload :: "closed_bar \<Rightarrow> py_value"
  k_make_exit_plan :: "exit_plan_v1 \<Rightarrow> exit_plan_v1 result"
  k_dump_exit_plan :: "exit_plan_v1 \<Rightarrow> py_value"
  k_make_provenance :: "provenance_v1 \<Rightarrow> provenance_v1 result"
  k_dump_provenance :: "provenance_v1 \<Rightarrow> py_value"
  k_make_intent :: "strategy_intent \<Rightarrow> strategy_intent result"
  k_dump_intent :: "strategy_intent \<Rightarrow> py_value"
  k_revalidate_intent :: "strategy_intent \<Rightarrow> strategy_intent result"
  k_make_evaluation :: "evaluation \<Rightarrow> evaluation result"
  k_evaluation_id :: "evaluation \<Rightarrow> string"
  k_trading_mode_value :: "trading_mode \<Rightarrow> string"
  k_read_source :: "string list \<Rightarrow> string result"

definition str_dict :: "(string \<times> py_value) list \<Rightarrow> py_value" where
  "str_dict kvs = PDict (map (\<lambda>(k, v). (PStr k, v)) kvs)"

text \<open>
  What the results below rely on of the contract classes: a constructor that accepts its arguments
  returns an object with exactly these fields.
\<close>

definition faithful_contracts :: "core_package \<Rightarrow> bool" where
  "faithful_contracts K \<longleftrightarrow>
     (\<forall>x y. k_make_bar K x = Inr y \<longrightarrow> y = x) \<and>
     (\<forall>x y. k_make_exit_plan K x = Inr y \<longrightarrow> y = x) \<and>
     (\<forall>x y. k_make_provenance K x = Inr y \<longrightarrow> y = x) \<and>
     (\<forall>x y. k_make_intent K x = Inr y \<longrightarrow> y = x) \<and>
     (\<forall>x y. k_make_evaluation K x = Inr y \<longrightarrow> y = x) \<and>
     (\<forall>x m. k_revalidate_intent K x \<noteq> Inl (CausalStrategyUnsupportedError m))"

text \<open>A core package that accepts every argument, for witnesses.\<close>

definition sample_core :: core_package where
  "sample_core =
    \<lparr>k_contract_sha256 = (\<lambda>_. Inr ''h''), k_contract_json_bytes = (\<lambda>_. Inr []), k_make_bar = Inr,
     k_identity_payload = (\<lambda>b. PInt (b_open_time_ms b)), k_make_exit_plan = Inr,
     k_dump_exit_plan = (\<lambda>_. PNone), k_make_provenance = Inr, k_dump_provenance = (\<lambda>_. PNone),
     k_make_intent = Inr, k_dump_intent = (\<lambda>_. PNone), k_revalidate_intent = Inr,
     k_make_evaluation = Inr, k_evaluation_id = (\<lambda>e. case r_strategy_id e of None \<Rightarrow> [] | Some i \<Rightarrow> i),
     k_trading_mode_value = (\<lambda>_. ''mode''), k_read_source = (\<lambda>_. Inr ''pass'')\<rparr>"

lemma sample_core_faithful: "faithful_contracts sample_core"
  by (simp add: faithful_contracts_def sample_core_def)


end
