(* ===== verification/Runtime.thy ===== *)
theory Runtime
  imports Contracts
begin

section \<open>Closed bars and strict runtime intents (runtime.py)\<close>

text \<open>
  The pure adapter between the sleeves and the strict contracts of the core package: the conversion of
  closed bars to candles and back, the canonical gap-free bar stream (the third provider of
  \<open>canonical_order\<close>), the conversion of a sleeve intent with its provenance and identifier, and
  \<open>generate_runtime_strategy_intents\<close>.

  The contract classes and what the core package does with them are the argument \<open>K\<close> (theory Contracts).
\<close>

subsection \<open>Bars and candles\<close>

definition bar_identity :: "candle \<Rightarrow> py_value" where
  "bar_identity c = str_dict
    [(''base_volume'', PFloat (c_volume c)),
     (''close'', PFloat (c_close c)),
     (''close_time_ms'', PInt (c_close_time_ms c)),
     (''contract_version'', PStr ''closed-bar.v1''),
     (''high'', PFloat (c_high c)),
     (''is_closed'', PBool True),
     (''low'', PFloat (c_low c)),
     (''open'', PFloat (c_open c)),
     (''open_time_ms'', PInt (c_open_time_ms c)),
     (''quote_volume'', PFloat (c_quote_volume c)),
     (''symbol'', PStr (c_symbol c)),
     (''taker_buy_base_volume'', PFloat (c_taker_buy_volume c)),
     (''taker_buy_quote_volume'', PFloat (c_taker_buy_quote_volume c)),
     (''timeframe'', PStr ''1m''),
     (''venue'', PStr ''BINANCE_UM'')]"

definition bar_of_candle :: "candle \<Rightarrow> string \<Rightarrow> closed_bar" where
  "bar_of_candle c bar_id =
    \<lparr>b_source = ''strategy-engine'', b_message_id = bar_id, b_correlation_id = bar_id,
     b_produced_at_ms = c_close_time_ms c, b_venue = ''BINANCE_UM'', b_symbol = c_symbol c,
     b_timeframe = ''1m'', b_open_time_ms = c_open_time_ms c, b_close_time_ms = c_close_time_ms c,
     b_open = c_open c, b_high = c_high c, b_low = c_low c, b_close = c_close c,
     b_base_volume = c_volume c, b_quote_volume = c_quote_volume c,
     b_taker_buy_base_volume = c_taker_buy_volume c,
     b_taker_buy_quote_volume = c_taker_buy_quote_volume c, b_bar_sha256 = Some bar_id\<rparr>"

definition candle_to_closed_bar :: "core_package \<Rightarrow> candle \<Rightarrow> closed_bar result" where
  "candle_to_closed_bar K c =
     (if c_timeframe c \<noteq> ''1m''
      then Inl (ValueError ''strategy runtime accepts only closed one-minute candles'')
      else rbind (k_contract_sha256 K (bar_identity c)) (\<lambda>bar_id. k_make_bar K (bar_of_candle c bar_id)))"

definition candle_of_bar :: "closed_bar \<Rightarrow> candle" where
  "candle_of_bar b =
    \<lparr>c_symbol = b_symbol b, c_timeframe = b_timeframe b, c_open_time_ms = b_open_time_ms b,
     c_close_time_ms = b_close_time_ms b, c_open = b_open b, c_high = b_high b, c_low = b_low b,
     c_close = b_close b, c_volume = b_base_volume b, c_quote_volume = b_quote_volume b,
     c_taker_buy_volume = b_taker_buy_base_volume b,
     c_taker_buy_quote_volume = b_taker_buy_quote_volume b\<rparr>"

definition closed_bar_to_candle :: "closed_bar \<Rightarrow> candle result" where
  "closed_bar_to_candle b = make_candle (candle_of_bar b)"

fun scan_closed_bars :: "closed_bar \<Rightarrow> closed_bar \<Rightarrow> closed_bar list \<Rightarrow> py_error option" where
  "scan_closed_bars first previous [] = None"
| "scan_closed_bars first previous (current # rest) =
     (if b_symbol current \<noteq> b_symbol first \<or> b_venue current \<noteq> b_venue first
      then Some (ClosedBarSequenceError ''one generation cannot mix symbols or venues'')
      else if b_open_time_ms current = b_open_time_ms previous
      then Some (ClosedBarSequenceError (''duplicate closed bar at '' @ str_int (b_open_time_ms current)))
      else if b_open_time_ms current \<noteq> b_open_time_ms previous + 60000
      then Some (ClosedBarSequenceError (''closed-bar gap or reorder between '' @
             str_int (b_open_time_ms previous) @ '' and '' @ str_int (b_open_time_ms current)))
      else scan_closed_bars first current rest)"

definition canonical_closed_bars :: "closed_bar list \<Rightarrow> closed_bar list result" where
  "canonical_closed_bars bars =
     (case sort_key b_open_time_ms bars of
        [] \<Rightarrow> Inl (ClosedBarSequenceError ''strategy generation requires at least one closed bar'')
      | first # rest \<Rightarrow>
          (case scan_closed_bars first first rest of Some e \<Rightarrow> Inl e | None \<Rightarrow> Inr (first # rest)))"

subsection \<open>Strict intents\<close>

definition window_value :: "core_package \<Rightarrow> closed_bar list \<Rightarrow> py_value" where
  "window_value K bars = str_dict [(''bars'', PList (map (k_identity_payload K) bars))]"

definition window_sha256 :: "core_package \<Rightarrow> closed_bar list \<Rightarrow> string result" where
  "window_sha256 K bars = canonical_sha256 (window_value K bars)"

definition bar_hashes :: "closed_bar list \<Rightarrow> string list result" where
  "bar_hashes bars = traverse (\<lambda>b. case b_bar_sha256 b of
       None \<Rightarrow> Inl (ValueError ''closed bar has no canonical SHA-256'') | Some h \<Rightarrow> Inr h) bars"

definition runtime_exit_plan :: "core_package \<Rightarrow> sleeve_intent \<Rightarrow> exit_plan_v1 result" where
  "runtime_exit_plan K i =
     (let plan = i_exit_plan i in
      if trailing_activation_price plan \<noteq> None \<or> trailing_distance plan \<noteq> None
      then Inl (UnsupportedExitPlanError (i_sleeve_id i @
             '' emitted a trailing plan that is not supported by stop-target-timeout.v1''))
      else k_make_exit_plan K
        \<lparr>e_stop_price = stop_price plan, e_target_price = target_price plan,
         e_max_holding_ms = max_holding_ms plan\<rparr>)"

definition intent_identity ::
  "core_package \<Rightarrow> sleeve_intent \<Rightarrow> string \<Rightarrow> exit_plan_v1 \<Rightarrow> provenance_v1 \<Rightarrow> py_value" where
  "intent_identity K raw revision plan provenance = str_dict
    [(''contract_version'', PStr ''strategy-intent.v1''),
     (''decision_ts_ms'', PInt (i_decision_ts_ms raw)),
     (''entry_eligible_ts_ms'', PInt (i_entry_eligible_ts_ms raw)),
     (''entry_expires_ts_ms'', PInt (i_entry_expires_ts_ms raw)),
     (''evidence'', PList []),
     (''exit_plan'', k_dump_exit_plan K plan),
     (''gross_reward_bps'', PFloat (i_gross_reward_bps raw)),
     (''metadata'', PList (map (\<lambda>(k, v). PList [PStr k, PStr v]) (i_metadata raw))),
     (''provenance'', k_dump_provenance K provenance),
     (''reference_price'', PFloat (i_reference_price raw)),
     (''side'', PStr (side_value (i_side raw))),
     (''signal_strength'', PFloat (i_signal_strength raw)),
     (''strategy_id'', PStr (i_sleeve_id raw)),
     (''strategy_revision'', PStr revision),
     (''symbol'', PStr (i_symbol raw)),
     (''timeframe'', PStr ''1m''),
     (''venue'', PStr ''BINANCE_UM'')]"

definition intent_of_raw ::
  "sleeve_intent \<Rightarrow> string \<Rightarrow> exit_plan_v1 \<Rightarrow> provenance_v1 \<Rightarrow> string \<Rightarrow> strategy_intent" where
  "intent_of_raw raw revision plan provenance ident =
    \<lparr>v_source = ''strategy-engine'', v_message_id = ident, v_correlation_id = ident,
     v_produced_at_ms = i_decision_ts_ms raw, v_intent_id = Some ident, v_strategy_id = i_sleeve_id raw,
     v_strategy_revision = revision, v_symbol = i_symbol raw, v_timeframe = ''1m'',
     v_venue = ''BINANCE_UM'', v_side = i_side raw, v_decision_ts_ms = i_decision_ts_ms raw,
     v_entry_eligible_ts_ms = i_entry_eligible_ts_ms raw,
     v_entry_expires_ts_ms = i_entry_expires_ts_ms raw, v_reference_price = i_reference_price raw,
     v_signal_strength = i_signal_strength raw, v_gross_reward_bps = i_gross_reward_bps raw,
     v_exit_plan = plan, v_provenance = provenance, v_metadata = i_metadata raw\<rparr>"

text \<open>\<open>features_sha256(dict(raw.metadata))\<close>: the metadata of an intent has unique keys.\<close>

definition strict_intent ::
  "core_package \<Rightarrow> sleeve_intent \<Rightarrow> string \<Rightarrow> string \<Rightarrow> string \<Rightarrow> closed_bar list \<Rightarrow> strategy_intent result" where
  "strict_intent K raw revision code conf_sha input_bars =
     rbind (runtime_exit_plan K raw) (\<lambda>plan.
     rbind (window_sha256 K input_bars) (\<lambda>window.
     rbind (features_sha256 (str_dict (map (\<lambda>(k, v). (k, PStr v)) (i_metadata raw)))) (\<lambda>features.
     rbind (bar_hashes input_bars) (\<lambda>hashes.
     rbind (k_make_provenance K
              \<lparr>p_strategy_code_sha256 = code, p_config_sha256 = conf_sha,
               p_input_window_sha256 = window, p_features_sha256 = features,
               p_input_bar_sha256s = hashes\<rparr>) (\<lambda>provenance.
     rbind (k_contract_sha256 K (intent_identity K raw revision plan provenance)) (\<lambda>ident.
       k_make_intent K (intent_of_raw raw revision plan provenance ident)))))))"

definition strategy_intent_key :: "strategy_intent \<Rightarrow> intent_key" where
  "strategy_intent_key v =
     (v_decision_ts_ms v, v_symbol v, side_value (v_side v),
      case v_intent_id v of None \<Rightarrow> [] | Some i \<Rightarrow> i)"

definition runtime_candidate ::
  "core_package \<Rightarrow> closed_bar list \<Rightarrow> string \<Rightarrow> string \<Rightarrow> string \<Rightarrow> sleeve_intent \<Rightarrow> strategy_intent result" where
  "runtime_candidate K ordered revision code conf_sha candidate =
     (let prefix_end = bisect_right (map b_close_time_ms ordered) (i_decision_ts_ms candidate) in
      if prefix_end = 0 then Inl (ValueError ''strategy intent predates its input bar window'')
      else strict_intent K candidate revision code conf_sha (take prefix_end ordered))"

definition generate_runtime_strategy_intents ::
  "core_package \<Rightarrow> sleeve_generators \<Rightarrow> string \<Rightarrow> closed_bar list \<Rightarrow> strategy_config option \<Rightarrow> bool \<Rightarrow>
   strategy_intent list result" where
  "generate_runtime_strategy_intents K G strategy_id bars config for_paper =
     rbind (canonical_closed_bars bars) (\<lambda>ordered.
     rbind (get_strategy G strategy_id) (\<lambda>d.
     rbind (case config of None \<Rightarrow> make_config (d_config_default d) | Some c \<Rightarrow> Inr c) (\<lambda>settings.
     rbind (traverse closed_bar_to_candle ordered) (\<lambda>candles.
     rbind (generate_sleeve_intents G strategy_id candles (Some settings) for_paper) (\<lambda>raw.
     rbind (installed_source_tree_sha256 (k_read_source K) (d_source_files d)) (\<lambda>code.
     rbind (config_sha256 (config_value settings)) (\<lambda>fingerprint.
     rmap (sort_key strategy_intent_key)
       (traverse (runtime_candidate K ordered (d_revision d) code fingerprint) raw))))))))"

definition generate_research_strategy_intents ::
  "core_package \<Rightarrow> sleeve_generators \<Rightarrow> string \<Rightarrow> candle list \<Rightarrow> strategy_config option \<Rightarrow>
   strategy_intent list result" where
  "generate_research_strategy_intents K G strategy_id candles config =
     rbind (traverse (candle_to_closed_bar K) candles) (\<lambda>bars.
       generate_runtime_strategy_intents K G strategy_id bars config False)"

definition canonical_intent_batch_bytes :: "core_package \<Rightarrow> strategy_intent list \<Rightarrow> byte list result" where
  "canonical_intent_batch_bytes K intents =
     k_contract_json_bytes K (str_dict [(''intents'', PList (map (k_dump_intent K) intents))])"


subsection \<open>The canonical bar stream\<close>

definition follows :: "closed_bar \<Rightarrow> closed_bar \<Rightarrow> bool" where
  "follows previous current \<longleftrightarrow> b_open_time_ms current = b_open_time_ms previous + 60000"

lemma scan_closed_bars_None_iff:
  "scan_closed_bars first previous bars = None \<longleftrightarrow>
     list_all (\<lambda>b. b_symbol b = b_symbol first \<and> b_venue b = b_venue first) bars \<and>
     successively follows (previous # bars)"
  by (induction first previous bars rule: scan_closed_bars.induct) (auto simp: follows_def)

lemma canonical_closed_bars_Inr_iff:
  "canonical_closed_bars bars = Inr ys \<longleftrightarrow>
     ys = sort_key b_open_time_ms bars \<and> ys \<noteq> [] \<and> successively follows ys \<and>
     list_all (\<lambda>b. b_symbol b = b_symbol (hd ys) \<and> b_venue b = b_venue (hd ys)) ys"
proof (cases "sort_key b_open_time_ms bars")
  case (Cons a as)
  show ?thesis
    using scan_closed_bars_None_iff [of a a as]
    by (cases "scan_closed_bars a a as") (auto simp: canonical_closed_bars_def Cons)
qed (auto simp: canonical_closed_bars_def)

lemma follows_strict:
  assumes "successively follows ys"
  shows "sorted_wrt (\<lambda>a b. b_open_time_ms a < b_open_time_ms b) ys"
proof -
  have "successively (\<lambda>a b. b_open_time_ms a < b_open_time_ms b) ys"
    by (rule successively_mono [OF assms]) (simp add: follows_def)
  then show ?thesis by (simp add: successively_sorted_less)
qed

interpretation bars: canonical_order b_open_time_ms canonical_closed_bars
proof
  fix xs ys
  assume ok: "canonical_closed_bars xs = Inr ys"
  then show "ys = sort_key b_open_time_ms xs" by (simp add: canonical_closed_bars_Inr_iff)
  show "sorted_wrt (\<lambda>a b. b_open_time_ms a < b_open_time_ms b) ys"
    using ok follows_strict unfolding canonical_closed_bars_Inr_iff by blast
next
  fix xs show "canonical_closed_bars xs = canonical_closed_bars (sort_key b_open_time_ms xs)"
    by (simp add: canonical_closed_bars_def sort_key_id_if_sorted)
qed

lemma follows_opens:
  "successively follows ys \<Longrightarrow> i < length ys \<Longrightarrow>
     b_open_time_ms (ys ! i) = b_open_time_ms (hd ys) + 60000 * int i"
proof (induction ys arbitrary: i)
  case (Cons y ys)
  show ?case
  proof (cases i)
    case (Suc j)
    then have "ys \<noteq> []" using Cons.prems by auto
    then have "successively follows ys" "follows y (hd ys)" using Cons.prems(1) by (cases ys; auto)+
    then show ?thesis using Cons.IH [of j] Cons.prems(2) Suc by (simp add: follows_def)
  qed simp
qed simp

lemma canonical_closed_bars_snoc:
  assumes "canonical_closed_bars xs = Inr xs"
  shows "canonical_closed_bars (xs @ [b]) = Inr (xs @ [b]) \<longleftrightarrow>
    follows (last xs) b \<and> b_symbol b = b_symbol (hd xs) \<and> b_venue b = b_venue (hd xs)"
proof -
  have ne: "xs \<noteq> []" and s: "successively follows xs" and "list_all (\<lambda>b. b_symbol b = b_symbol (hd xs) \<and>
      b_venue b = b_venue (hd xs)) xs"
    using assms by (simp_all add: canonical_closed_bars_Inr_iff)
  moreover have "sort_key b_open_time_ms (xs @ [b]) = xs @ [b]" if "follows (last xs) b"
  proof (rule sort_key_eqI [OF refl])
    have "successively follows (xs @ [b])" using s ne that by (simp add: successively_append_iff)
    then show "sorted_wrt (\<lambda>a b. b_open_time_ms a < b_open_time_ms b) (xs @ [b])" by (rule follows_strict)
  qed
  ultimately show ?thesis
    by (auto simp: canonical_closed_bars_Inr_iff successively_append_iff)
qed


subsection \<open>Causality of strict intents\<close>

definition minute_bar :: "closed_bar \<Rightarrow> bool" where
  "minute_bar b \<longleftrightarrow> b_close_time_ms b = b_open_time_ms b + 59999"

text \<open>The bars that had closed by a decision.\<close>

definition known_bars :: "int \<Rightarrow> closed_bar list \<Rightarrow> closed_bar list" where
  "known_bars ts bars = filter (\<lambda>b. b_close_time_ms b \<le> ts) bars"

lemma closes_sorted:
  assumes "canonical_closed_bars xs = Inr ys" and "list_all minute_bar xs"
  shows "sorted (map b_close_time_ms ys)"
proof -
  have "sorted_wrt (\<lambda>a b. b_open_time_ms a < b_open_time_ms b) ys"
    using assms(1) by (rule bars.canon_strict)
  moreover have "list_all minute_bar ys" using bars.canon_set [OF assms(1)] assms(2) by (simp add: list_all_iff)
  ultimately show ?thesis
    by (auto simp: sorted_map minute_bar_def list_all_iff elim!: sorted_wrt_mono_rel [rotated])
qed

lemma runtime_exit_plan_Inr:
  assumes "faithful_contracts K" and "runtime_exit_plan K raw = Inr plan"
  shows "trailing_activation_price (i_exit_plan raw) = None \<and> trailing_distance (i_exit_plan raw) = None \<and>
    plan = \<lparr>e_stop_price = stop_price (i_exit_plan raw), e_target_price = target_price (i_exit_plan raw),
      e_max_holding_ms = max_holding_ms (i_exit_plan raw)\<rparr>"
  using assms by (auto simp: runtime_exit_plan_def Let_def faithful_contracts_def split: if_splits)

text \<open>What a strict intent keeps of the raw one and what its provenance says.\<close>

definition intent_lineage ::
  "core_package \<Rightarrow> closed_bar list \<Rightarrow> string \<Rightarrow> string \<Rightarrow> string \<Rightarrow> sleeve_intent \<Rightarrow> strategy_intent \<Rightarrow> bool" where
  "intent_lineage K used revision code conf_sha raw v \<longleftrightarrow>
     v_strategy_id v = i_sleeve_id raw \<and> v_strategy_revision v = revision \<and> v_symbol v = i_symbol raw \<and>
     v_side v = i_side raw \<and> v_decision_ts_ms v = i_decision_ts_ms raw \<and>
     v_entry_eligible_ts_ms v = i_entry_eligible_ts_ms raw \<and>
     v_entry_expires_ts_ms v = i_entry_expires_ts_ms raw \<and> v_intent_id v = Some (v_message_id v) \<and>
     trailing_activation_price (i_exit_plan raw) = None \<and>
     e_stop_price (v_exit_plan v) = stop_price (i_exit_plan raw) \<and>
     e_target_price (v_exit_plan v) = target_price (i_exit_plan raw) \<and>
     e_max_holding_ms (v_exit_plan v) = max_holding_ms (i_exit_plan raw) \<and>
     p_strategy_code_sha256 (v_provenance v) = code \<and> p_config_sha256 (v_provenance v) = conf_sha \<and>
     window_sha256 K used = Inr (p_input_window_sha256 (v_provenance v)) \<and>
     bar_hashes used = Inr (p_input_bar_sha256s (v_provenance v))"

lemma strict_intent_lineage:
  assumes K: "faithful_contracts K" and v: "strict_intent K raw revision code conf_sha used = Inr v"
  shows "intent_lineage K used revision code conf_sha raw v"
proof -
  from v obtain plan window features hashes provenance ident where
    plan: "runtime_exit_plan K raw = Inr plan" and w: "window_sha256 K used = Inr window"
    and h: "bar_hashes used = Inr hashes"
    and p: "k_make_provenance K \<lparr>p_strategy_code_sha256 = code, p_config_sha256 = conf_sha,
         p_input_window_sha256 = window, p_features_sha256 = features, p_input_bar_sha256s = hashes\<rparr> = Inr provenance"
    and i: "k_make_intent K (intent_of_raw raw revision plan provenance ident) = Inr v"
    by (auto simp: strict_intent_def rbind_Inr_iff)
  have "v = intent_of_raw raw revision plan provenance ident" using K i by (simp add: faithful_contracts_def)
  moreover have "provenance = \<lparr>p_strategy_code_sha256 = code, p_config_sha256 = conf_sha,
       p_input_window_sha256 = window, p_features_sha256 = features, p_input_bar_sha256s = hashes\<rparr>"
    using K p by (simp add: faithful_contracts_def)
  ultimately show ?thesis
    using runtime_exit_plan_Inr [OF K plan] w h by (simp add: intent_lineage_def intent_of_raw_def)
qed

lemma generate_runtime_InrE:
  assumes "generate_runtime_strategy_intents K G i bars config paper = Inr vs"
  obtains ordered d settings candles raw code conf_sha us where
    "canonical_closed_bars bars = Inr ordered" "get_strategy G i = Inr d"
    "traverse closed_bar_to_candle ordered = Inr candles"
    "generate_sleeve_intents G i candles (Some settings) paper = Inr raw"
    "installed_source_tree_sha256 (k_read_source K) (d_source_files d) = Inr code"
    "config_sha256 (config_value settings) = Inr conf_sha"
    "traverse (runtime_candidate K ordered (d_revision d) code conf_sha) raw = Inr us"
    "vs = sort_key strategy_intent_key us"
  using assms by (auto simp: generate_runtime_strategy_intents_def rbind_Inr_iff rmap_Inr_iff)

lemma generate_runtime_lineage:
  assumes K: "faithful_contracts K" and min: "list_all minute_bar bars"
    and run: "generate_runtime_strategy_intents K G i bars config paper = Inr vs" and v: "v \<in> set vs"
  shows "\<exists>ordered d raw code conf_sha. canonical_closed_bars bars = Inr ordered \<and> get_strategy G i = Inr d \<and>
    known_bars (v_decision_ts_ms v) ordered \<noteq> [] \<and>
    intent_lineage K (known_bars (v_decision_ts_ms v) ordered) (d_revision d) code conf_sha raw v \<and>
    v_strategy_id v = i \<and>
    installed_source_tree_sha256 (k_read_source K) (d_source_files d) = Inr code"
proof -
  from run obtain ordered d settings candles raw code conf_sha us where
    o: "canonical_closed_bars bars = Inr ordered" and d: "get_strategy G i = Inr d"
    and g: "generate_sleeve_intents G i candles (Some settings) paper = Inr raw"
    and code: "installed_source_tree_sha256 (k_read_source K) (d_source_files d) = Inr code"
    and us: "traverse (runtime_candidate K ordered (d_revision d) code conf_sha) raw = Inr us"
    and vs: "vs = sort_key strategy_intent_key us"
    by (elim generate_runtime_InrE)
  from v vs have "v \<in> set us" by simp
  from traverse_mem [OF us this] obtain r where r: "r \<in> set raw"
    and c: "runtime_candidate K ordered (d_revision d) code conf_sha r = Inr v" by blast
  let ?n = "bisect_right (map b_close_time_ms ordered) (i_decision_ts_ms r)"
  have take: "take ?n ordered = known_bars (i_decision_ts_ms r) ordered"
    unfolding known_bars_def using closes_sorted [OF o min] by (rule take_bisect_right)
  from c have n: "?n \<noteq> 0" and s: "strict_intent K r (d_revision d) code conf_sha (take ?n ordered) = Inr v"
    by (auto simp: runtime_candidate_def Let_def split: if_splits)
  note l = strict_intent_lineage [OF K s, unfolded take]
  then have ts: "v_decision_ts_ms v = i_decision_ts_ms r" and id: "v_strategy_id v = i_sleeve_id r"
    by (simp_all add: intent_lineage_def)
  have "take ?n ordered \<noteq> []" using n o by (auto simp: canonical_closed_bars_Inr_iff)
  then have "known_bars (v_decision_ts_ms v) ordered \<noteq> []" by (simp add: take ts)
  moreover have "i_sleeve_id r = i" using g r by (auto elim!: generate_sleeve_intents_InrE)
  ultimately show ?thesis using o d code l ts id by auto
qed


lemma canonical_closed_bars_error:
  "canonical_closed_bars xs = Inl e \<Longrightarrow> \<exists>m. e = ClosedBarSequenceError m"
proof -
  have "scan_closed_bars f p bs = Some e \<Longrightarrow> \<exists>m. e = ClosedBarSequenceError m" for f p bs e
    by (induction f p bs rule: scan_closed_bars.induct) (auto split: if_splits)
  then show "canonical_closed_bars xs = Inl e \<Longrightarrow> \<exists>m. e = ClosedBarSequenceError m"
    by (auto simp: canonical_closed_bars_def split: list.splits option.splits)
qed

subsection \<open>Properties\<close>

definition sample_bar :: "int \<Rightarrow> closed_bar" where
  "sample_bar i = bar_of_candle (sample_minute i) ''h''"

lemma sample_stream: "canonical_closed_bars [sample_bar 1, sample_bar 0] = Inr [sample_bar 0, sample_bar 1]"
  by (simp add: canonical_closed_bars_def sample_bar_def bar_of_candle_def sample_minute_def)

text \<open>
  An accepted runtime stream is gap-free: it is the input rearranged, from one symbol and one
  venue, and its \<open>i\<close>-th bar opens exactly \<open>i\<close> minutes after the first. The order of arrival is irrelevant,
  canonicalising again changes nothing, and every rejection is a \<open>ClosedBarSequenceError\<close>.
\<close>

theorem closed_bar_stream_gap_free:
  assumes "canonical_closed_bars bars = Inr ys"
  shows "mset ys = mset bars \<and> ys \<noteq> [] \<and>
    (\<forall>i < length ys. b_open_time_ms (ys ! i) = b_open_time_ms (hd ys) + 60000 * int i \<and>
       b_symbol (ys ! i) = b_symbol (hd ys) \<and> b_venue (ys ! i) = b_venue (hd ys)) \<and>
    canonical_closed_bars ys = Inr ys \<and> (mset zs = mset bars \<longrightarrow> canonical_closed_bars zs = Inr ys)"
proof -
  have s: "successively follows ys" and ne: "ys \<noteq> []"
    and one: "list_all (\<lambda>b. b_symbol b = b_symbol (hd ys) \<and> b_venue b = b_venue (hd ys)) ys"
    using assms unfolding canonical_closed_bars_Inr_iff by blast+
  have "b_open_time_ms (ys ! i) = b_open_time_ms (hd ys) + 60000 * int i \<and>
      b_symbol (ys ! i) = b_symbol (hd ys) \<and> b_venue (ys ! i) = b_venue (hd ys)" if "i < length ys" for i
    using follows_opens [OF s that] one that by (simp add: list_all_length)
  then show ?thesis
    using ne bars.canon_mset [OF assms] bars.canon_idempotent [OF assms] bars.canon_permute [OF assms] by blast
qed

theorem closed_bar_stream_gap_free_witness:
  "b_open_time_ms ([sample_bar 0, sample_bar 1] ! 1) = b_open_time_ms (sample_bar 0) + 60000 * int 1"
proof -
  have "\<forall>i < length [sample_bar 0, sample_bar 1].
      b_open_time_ms ([sample_bar 0, sample_bar 1] ! i) = b_open_time_ms (hd [sample_bar 0, sample_bar 1]) + 60000 * int i"
    using closed_bar_stream_gap_free [OF sample_stream] by blast
  from this [rule_format, of 1] show ?thesis by simp
qed

text \<open>
  A valid minute candle survives the trip through the strict bar contract unchanged.
\<close>

theorem candle_bar_roundtrip:
  assumes "faithful_contracts K" and "valid_candle c" and "candle_to_closed_bar K c = Inr b"
  shows "closed_bar_to_candle b = Inr c"
proof -
  from assms(3) obtain h where "b = bar_of_candle c h" and "c_timeframe c = ''1m''"
    using assms(1) by (auto simp: candle_to_closed_bar_def rbind_Inr_iff faithful_contracts_def split: if_splits)
  then have "candle_of_bar b = c" by (simp add: candle_of_bar_def bar_of_candle_def)
  then show ?thesis using assms(2) by (simp add: closed_bar_to_candle_def valid_candle_def)
qed

lemma sample_minute_valid: "valid_candle (sample_minute 0)" "valid_candle (sample_minute 1)"
  by code_simp+

theorem candle_bar_roundtrip_witness: "closed_bar_to_candle (sample_bar 0) = Inr (sample_minute 0)"
proof (rule candle_bar_roundtrip [OF sample_core_faithful sample_minute_valid(1)])
  show "candle_to_closed_bar sample_core (sample_minute 0) = Inr (sample_bar 0)"
    by (simp add: candle_to_closed_bar_def sample_core_def sample_bar_def sample_minute_def)
qed

text \<open>
  Property C6: runtime intents are causal and keep their lineage. On minute bars, every intent of a run is
  attributed to the requested strategy, carries the fingerprint of the registered sources, has no
  trailing plan, and its provenance names exactly the bars that had closed by its decision, which are at
  least one: no later bar of the window enters the input fingerprint.
\<close>

theorem runtime_intents_causal:
  assumes "faithful_contracts K" and "list_all minute_bar bars"
    and "generate_runtime_strategy_intents K G i bars config paper = Inr vs" and "v \<in> set vs"
  shows "\<exists>ordered d raw code conf_sha. canonical_closed_bars bars = Inr ordered \<and> get_strategy G i = Inr d \<and>
    known_bars (v_decision_ts_ms v) ordered \<noteq> [] \<and>
    intent_lineage K (known_bars (v_decision_ts_ms v) ordered) (d_revision d) code conf_sha raw v \<and>
    v_strategy_id v = i \<and>
    installed_source_tree_sha256 (k_read_source K) (d_source_files d) = Inr code"
  using assms by (rule generate_runtime_lineage)

lemma canonical_sha256_Inr: "canonical_value v = Inr j \<Longrightarrow> \<exists>h. canonical_sha256 v = Inr h"
  by (simp add: canonical_sha256_def canonical_json_bytes_def)

lemma sample_source_hash:
  "\<exists>h. installed_source_tree_sha256 (\<lambda>_. Inr ''pass'')
     (common_source_files @ [''sleeves/right_tail_trend.py'']) = Inr h"
proof -
  have "traverse (\<lambda>path. rbind (logical_source_path path) (\<lambda>l. rmap (Pair l) (Inr ''pass'')))
      (common_source_files @ [''sleeves/right_tail_trend.py'']) =
    Inr (map (\<lambda>p. (p, ''pass'')) (common_source_files @ [''sleeves/right_tail_trend.py'']))"
    by code_simp
  moreover have "foldl (\<lambda>d (k, v). dict_set k v d) []
      (map (\<lambda>p. (p, ''pass'')) (common_source_files @ [''sleeves/right_tail_trend.py''])) =
    map (\<lambda>p. (p, ''pass'')) (common_source_files @ [''sleeves/right_tail_trend.py''])"
    by code_simp
  moreover have "(case source_stream (map (\<lambda>p. (p, ''pass'')) (common_source_files @ [''sleeves/right_tail_trend.py'']))
      of Inr _ \<Rightarrow> True | _ \<Rightarrow> False)"
    by code_simp
  ultimately show ?thesis
    by (auto simp: installed_source_tree_sha256_def source_tree_sha256_def split: sum.splits)
qed

lemma sample_config_hash: "\<exists>h. config_sha256 (config_value (RightTailTrend right_tail_default)) = Inr h"
proof -
  have "(case canonical_value (config_value (RightTailTrend right_tail_default)) of Inr _ \<Rightarrow> True | _ \<Rightarrow> False)"
    by code_simp
  then obtain j where "canonical_value (config_value (RightTailTrend right_tail_default)) = Inr j"
    by (cases "canonical_value (config_value (RightTailTrend right_tail_default))") auto
  then show ?thesis
    by (simp add: config_sha256_def config_value_def canonical_sha256_def canonical_json_bytes_def)
qed

lemma sample_strict_intent:
  assumes "i_exit_plan raw = sample_plan\<lparr>trailing_activation_price := None, trailing_distance := None\<rparr>"
    and "i_metadata raw = [(''a'', ''2''), (''z'', ''1'')]"
  shows "\<exists>v. strict_intent sample_core raw revn code conf [sample_bar 0] = Inr v \<and>
      v_decision_ts_ms v = i_decision_ts_ms raw"
    and "\<exists>v. strict_intent sample_core raw revn code conf [sample_bar 0, sample_bar 1] = Inr v \<and>
      v_decision_ts_ms v = i_decision_ts_ms raw"
  using assms
  by (simp_all add: strict_intent_def runtime_exit_plan_def sample_core_def window_sha256_def window_value_def
      str_dict_def canonical_sha256_def canonical_json_bytes_def features_sha256_def json_members_def bar_hashes_def
      sample_bar_def bar_of_candle_def intent_of_raw_def)

lemma sample_bisect:
  "bisect_right [b_close_time_ms (sample_bar 0), b_close_time_ms (sample_bar 1)] 59999 = 1"
  "bisect_right [b_close_time_ms (sample_bar 0), b_close_time_ms (sample_bar 1)] 119999 = 2"
  by (simp_all add: sample_bar_def bar_of_candle_def sample_minute_def bisect_right_def bisect_right_loop.simps)

lemma sample_candidate:
  assumes "raw \<in> set (sample_batch i)"
  shows "\<exists>v. runtime_candidate sample_core [sample_bar 0, sample_bar 1] revn code conf raw = Inr v"
proof -
  from assms have plan: "i_exit_plan raw = sample_plan\<lparr>trailing_activation_price := None, trailing_distance := None\<rparr>"
    and md: "i_metadata raw = [(''a'', ''2''), (''z'', ''1'')]"
    and ts: "i_decision_ts_ms raw = 59999 \<or> i_decision_ts_ms raw = 119999"
    by (auto simp: sample_batch_def sample_intent_def normalized_intent_def sample_fields_def
        canonical_metadata_def)
  from ts show ?thesis
    using sample_strict_intent [OF plan md, of revn code conf]
    by (auto simp: runtime_candidate_def sample_bisect)
qed

lemma sample_runtime:
  "\<exists>vs. generate_runtime_strategy_intents sample_core sample_generators ''right_tail_trend_v1''
     [sample_bar 1, sample_bar 0] None False = Inr vs \<and> length vs = 2"
proof -
  let ?c = "RightTailTrend right_tail_default" and ?b = "sample_batch ''right_tail_trend_v1''"
  have conf: "make_config ?c = Inr ?c" using make_default_configs by (simp add: default_configs_def)
  have "closed_bar_to_candle (sample_bar j) = make_candle (sample_minute j)" for j
    by (simp add: closed_bar_to_candle_def candle_of_bar_def sample_bar_def bar_of_candle_def sample_minute_def)
  then have candles: "closed_bar_to_candle (sample_bar 0) = Inr (sample_minute 0)"
    "closed_bar_to_candle (sample_bar 1) = Inr (sample_minute 1)"
    using sample_minute_valid by (simp_all add: valid_candle_def)
  have gen: "generate_sleeve_intents sample_generators ''right_tail_trend_v1'' xs (Some ?c) False =
      Inr (sort_key sleeve_intent_key ?b)" for xs
    by (simp add: generate_sleeve_intents_def sample_get_strategy check_paper_def resolve_settings_def
        strategy_entry_def fixed_generator_def ordered_batch_def sample_batch_def)
  obtain code where code: "installed_source_tree_sha256 (\<lambda>_. Inr ''pass'')
      (common_source_files @ [''sleeves/right_tail_trend.py'']) = Inr code"
    using sample_source_hash by blast
  obtain h where h: "config_sha256 (config_value ?c) = Inr h" using sample_config_hash by blast
  let ?f = "runtime_candidate sample_core [sample_bar 0, sample_bar 1] ''1'' code h"
  have "\<forall>r \<in> set (sort_key sleeve_intent_key ?b). \<exists>v. ?f r = Inr v" using sample_candidate by simp
  then have "\<exists>us. traverse ?f (sort_key sleeve_intent_key ?b) = Inr us"
    using traverse_total [of "sort_key sleeve_intent_key ?b" ?f "\<lambda>r. projr (?f r)"] by force
  then obtain us where us: "traverse ?f (sort_key sleeve_intent_key ?b) = Inr us" by blast
  have "length us = 2" using traverse_length [OF us] by (simp add: sample_batch_def)
  with us show ?thesis
    by (simp add: generate_runtime_strategy_intents_def sample_stream sample_get_strategy strategy_entry_def conf
        candles gen sample_core_def [THEN arg_cong [where f = k_read_source]] code h)
qed

theorem runtime_intents_causal_witness:
  "\<exists>vs v ordered. generate_runtime_strategy_intents sample_core sample_generators ''right_tail_trend_v1''
     [sample_bar 1, sample_bar 0] None False = Inr vs \<and> v \<in> set vs \<and>
     known_bars (v_decision_ts_ms v) ordered \<noteq> []"
proof -
  obtain vs where vs: "generate_runtime_strategy_intents sample_core sample_generators ''right_tail_trend_v1''
     [sample_bar 1, sample_bar 0] None False = Inr vs" "length vs = 2"
    using sample_runtime by blast
  then have v: "hd vs \<in> set vs" by (cases vs) auto
  have min: "list_all minute_bar [sample_bar 1, sample_bar 0]"
    by (simp add: minute_bar_def sample_bar_def bar_of_candle_def sample_minute_def)
  from runtime_intents_causal [OF sample_core_faithful min vs(1) v] vs(1) v show ?thesis by blast
qed

end
