(* ===== verification/Readiness.thy ===== *)
theory Readiness
  imports Runtime
begin

section \<open>Finite history requirements (campaign.py, runtime_evaluation.py)\<close>

text \<open>
  How many complete frames of which timeframe the selected configuration needs
  (\<open>_complete_frame_requirements\<close>), whether a bar window holds them (the count shared by
  \<open>_assert_complete_frame_readiness\<close> and \<open>_history_ready\<close>), whether the volume denominators a generator
  divides by are defined, and when a strategy is scheduled to decide.
\<close>

type_synonym frame_requirements = "(string \<times> int) list"

definition unsupported_readiness :: py_error where
  "unsupported_readiness =
     CausalStrategyUnsupportedError ''selected strategy lacks a reviewed causal readiness policy''"

definition range_frames :: "range_config \<Rightarrow> frame_requirements" where
  "range_frames c =
    [(''5m'', max (max (rg_vwap_lookback_bars c + 2) (rg_atr_period c + 1)) 2),
     (''1h'', rg_regime_lookback_hours c + 1)]"

definition trend_breakout_frames :: "trend_breakout_config \<Rightarrow> frame_requirements" where
  "trend_breakout_frames c =
     (let n = max (tb_donchian_lookback c + 1) (tb_atr_period c);
          n = (if tb_minimum_volume_surprise c \<noteq> None \<or> tb_minimum_directional_taker_share c \<noteq> None
               then max n (tb_volume_lookback c + 1) else n)
      in [(''5m'', n), (''1h'', tb_regime_lookback_hours c + 1)])"

definition trend_pullback_frames :: "trend_pullback_config \<Rightarrow> frame_requirements" where
  "trend_pullback_frames c =
    [(''5m'', max (max (tp_reclaim_ema_period c) (tp_trend_ema_period c)) (tp_atr_period c) + 1),
     (''1h'', max (max (tp_hourly_slow_ema_period c)
                       (tp_hourly_fast_ema_period c + tp_hourly_rising_lookback c))
                  (tp_hourly_efficiency_lookback c + 1))]"

definition orderflow_frames :: "orderflow_config \<Rightarrow> frame_requirements" where
  "orderflow_frames c =
    [(''5m'', 1 + max (max (max (max (of_baseline_lookback c) (of_compression_long_lookback c))
                               (of_persistence_lookback c - 1))
                          (of_flip_lookback c))
                     (of_atr_period c))]"

fun complete_frame_requirements :: "string \<Rightarrow> strategy_config \<Rightarrow> frame_requirements result" where
  "complete_frame_requirements i (RangeMeanReversion c) =
     (if i = ''range_mean_reversion_v1'' then Inr (range_frames c) else Inl unsupported_readiness)"
| "complete_frame_requirements i (TrendBreakout c) =
     (if i = ''trend_breakout_v1'' then Inr (trend_breakout_frames c) else Inl unsupported_readiness)"
| "complete_frame_requirements i (TrendPullback c) =
     (if i = ''trend_pullback_reclaim_v1'' then Inr (trend_pullback_frames c) else Inl unsupported_readiness)"
| "complete_frame_requirements i (OrderFlowExpansion c) =
     (if i = ''orderflow_volatility_expansion_v1'' then Inr (orderflow_frames c)
      else Inl unsupported_readiness)"
| "complete_frame_requirements i (RightTailTrend c) =
     (if i = ''right_tail_trend_v1''
      then Inr [(''1h'', max (rt_trend_lookback_hours c + 1) (rt_atr_period_hours c))]
      else Inl unsupported_readiness)"
| "complete_frame_requirements i (RegimeAlignedRightTail c) =
     (if i = ''regime_aligned_right_tail_v1''
      then Inr [(''1h'', max (ra_trend_lookback_hours c + 1) (ra_atr_period_hours c)),
                (''4h'', ra_regime_sma_bars c)]
      else Inl unsupported_readiness)"
| "complete_frame_requirements i c = Inl unsupported_readiness"

subsection \<open>Available frames\<close>

text \<open>
  The order-flow sleeve resets its features at a bucket without volume: only the trailing run of frames
  with positive volume counts for it.
\<close>

definition available_frames :: "string \<Rightarrow> candle list \<Rightarrow> int" where
  "available_frames strategy_id rows =
     (if strategy_id = ''orderflow_volatility_expansion_v1''
      then int (length (takeWhile (\<lambda>r. \<not> fle (c_volume r) fzero) (rev rows)))
      else int (length rows))"

fun frames_ready :: "string \<Rightarrow> candle list \<Rightarrow> frame_requirements \<Rightarrow> bool result" where
  "frames_ready strategy_id candles [] = Inr True"
| "frames_ready strategy_id candles ((frame, required) # frames) =
     rbind (aggregate candles frame) (\<lambda>rows.
       if available_frames strategy_id rows < required then Inr False
       else frames_ready strategy_id candles frames)"

definition history_ready :: "string \<Rightarrow> closed_bar list \<Rightarrow> frame_requirements \<Rightarrow> bool result" where
  "history_ready strategy_id bars frames =
     rbind (traverse closed_bar_to_candle bars) (\<lambda>candles. frames_ready strategy_id candles frames)"

text \<open>\<open>xs[i:j]\<close> with Python's reading of negative bounds.\<close>

definition clip_index :: "int \<Rightarrow> int \<Rightarrow> nat" where
  "clip_index n i = nat (if i < 0 then max 0 (n + i) else min i n)"

definition py_slice :: "int \<Rightarrow> int \<Rightarrow> 'a list \<Rightarrow> 'a list" where
  "py_slice i j xs = Prelude.slice (clip_index (int (length xs)) i) (clip_index (int (length xs)) j) xs"

definition positive_volume :: "candle list \<Rightarrow> bool" where
  "positive_volume rows \<longleftrightarrow> fless fzero (fsum_builtin (map c_volume rows))"

definition five_minute_rows :: "closed_bar list \<Rightarrow> candle list result" where
  "five_minute_rows bars = rbind (traverse closed_bar_to_candle bars) (\<lambda>candles. aggregate candles ''5m'')"

fun volume_context_ready :: "string \<Rightarrow> strategy_config \<Rightarrow> closed_bar list \<Rightarrow> bool result" where
  "volume_context_ready strategy_id (RangeMeanReversion c) bars =
     (if strategy_id = ''range_mean_reversion_v1'' then
        rmap (\<lambda>rows.
            let n = int (length rows) in
            list_all (\<lambda>index. positive_volume (py_slice (index - rg_vwap_lookback_bars c) index rows))
              [n - 2, n - 1])
          (five_minute_rows bars)
      else Inr True)"
| "volume_context_ready strategy_id (TrendBreakout c) bars =
     (if strategy_id = ''trend_breakout_v1'' \<and>
         (tb_minimum_volume_surprise c \<noteq> None \<or> tb_minimum_directional_taker_share c \<noteq> None) then
        rbind (five_minute_rows bars) (\<lambda>rows.
          if rows = [] then Inl (IndexError ''list index out of range'')
          else Inr (fless fzero (c_volume (last rows)) \<and>
                    positive_volume (py_slice (- tb_volume_lookback c - 1) (- 1) rows)))
      else Inr True)"
| "volume_context_ready strategy_id c bars = Inr True"

subsection \<open>The decision clock\<close>

definition hour_size :: int where "hour_size = 3600000"

definition right_tail_hour :: "right_tail_config \<Rightarrow> closed_bar \<Rightarrow> bool" where
  "right_tail_hour c bar \<longleftrightarrow>
     (let hour_open = b_close_time_ms bar + 1 - hour_size in
      0 \<le> hour_open \<and> hour_open mod (rt_decision_interval_hours c * hour_size) = 0)"

definition frame_clock :: "closed_bar \<Rightarrow> frame_requirements option \<Rightarrow> bool result" where
  "frame_clock bar frames =
     (case frames of
        None \<Rightarrow> Inl (CausalStrategyUnsupportedError ''selected strategy has no reviewed decision clock'')
      | Some [] \<Rightarrow> Inl (IndexError ''tuple index out of range'')
      | Some ((frame, _) # _) \<Rightarrow>
          (case timeframe_ms frame of
             None \<Rightarrow> Inl (KeyError frame)
           | Some sz \<Rightarrow> Inr ((b_close_time_ms bar + 1) mod sz = 0)))"

definition on_decision_minute :: "runtime_requirements \<Rightarrow> closed_bar \<Rightarrow> bool" where
  "on_decision_minute r bar \<longleftrightarrow>
     ((b_close_time_ms bar + 1) div 60000) mod decision_interval_bars r = decision_phase_bars r"

definition scheduled ::
  "string \<Rightarrow> strategy_config \<Rightarrow> closed_bar \<Rightarrow> runtime_requirements \<Rightarrow> frame_requirements option \<Rightarrow> bool result" where
  "scheduled strategy_id config bar requirements frames =
     (if \<not> on_decision_minute requirements bar then Inr False
      else case (strategy_id = ''right_tail_trend_v1'', config) of
        (True, RightTailTrend c) \<Rightarrow> Inr (right_tail_hour c bar)
      | _ \<Rightarrow>
          (if strategy_id = ''quarter_hour_flow_v1'' then Inr (b_open_time_ms bar mod 900000 = 0)
           else if strategy_id = ''regime_veto_retest_reclaim_v1''
           then Inr ((b_close_time_ms bar + 1) mod 300000 = 0)
           else frame_clock bar frames))"

subsection \<open>Facts\<close>

text \<open>The requirements of an accepted configuration are positive and name frames of the table.\<close>

lemma complete_frame_requirements_positive:
  assumes "make_config c = Inr c" and "complete_frame_requirements i c = Inr frames"
  shows "frames \<noteq> [] \<and>
    list_all (\<lambda>(frame, n). 0 < n \<and> frame \<noteq> ''1m'' \<and> timeframe_ms frame \<noteq> None) frames"
  using assms
  by (cases c)
    (auto simp: make_config_Inr_iff range_frames_def trend_breakout_frames_def trend_pullback_frames_def
      orderflow_frames_def Let_def timeframe_ms_def timeframe_table_def range_checks_def
      trend_breakout_checks_def trend_pullback_checks_def orderflow_checks_def right_tail_checks_def
      regime_aligned_checks_def base_config_def positive_int_def less_max_iff_disj split: if_splits)

lemma frames_ready_True:
  "frames_ready i candles frames = Inr True \<Longrightarrow> (frame, n) \<in> set frames \<Longrightarrow>
     \<exists>rows. aggregate candles frame = Inr rows \<and> n \<le> available_frames i rows"
  by (induction i candles frames rule: frames_ready.induct) (auto simp: rbind_Inr_iff split: if_splits)

lemma available_frames_le: "available_frames i rows \<le> int (length rows)"
  by (simp add: available_frames_def) (metis length_rev length_takeWhile_le)

text \<open>On a ready window the two slices of the range check lie inside the rows.\<close>

lemma py_slice_inside:
  "0 \<le> i \<Longrightarrow> i \<le> j \<Longrightarrow> j \<le> int (length xs) \<Longrightarrow> py_slice i j xs = take (nat (j - i)) (drop (nat i) xs)"
  by (simp add: py_slice_def clip_index_def Prelude.slice_def nat_diff_distrib)

subsection \<open>Properties\<close>

text \<open>
  The readiness requirements of an accepted configuration are real requirements: there is at
  least one frame, every frame is a proper aggregate of the table and every count is positive.
\<close>

theorem readiness_requirements_positive:
  assumes "make_config c = Inr c" and "complete_frame_requirements i c = Inr frames"
  shows "frames \<noteq> [] \<and>
    list_all (\<lambda>(frame, n). 0 < n \<and> frame \<noteq> ''1m'' \<and> timeframe_ms frame \<noteq> None) frames"
  using assms by (rule complete_frame_requirements_positive)

theorem readiness_requirements_positive_witness:
  "list_all (\<lambda>(frame, n). 0 < n \<and> frame \<noteq> ''1m'' \<and> timeframe_ms frame \<noteq> None)
     [(''1h'', 25 :: int), (''4h'', 200)]"
proof -
  have "make_config (RegimeAlignedRightTail regime_aligned_default) =
      Inr (RegimeAlignedRightTail regime_aligned_default)"
    using make_default_configs by (simp add: default_configs_def)
  moreover have "complete_frame_requirements ''regime_aligned_right_tail_v1''
      (RegimeAlignedRightTail regime_aligned_default) = Inr [(''1h'', 25), (''4h'', 200)]"
    by (simp add: regime_aligned_default_def)
  ultimately show ?thesis by (rule readiness_requirements_positive [THEN conjunct2])
qed

end
