(* ===== verification/Evaluation.thy ===== *)
theory Evaluation
  imports Readiness
begin

section \<open>Observing the runtime generators (runtime_evaluation.py)\<close>

text \<open>
  \<open>evaluate_runtime_bar\<close> runs every enabled strategy on one accepted bar and records for each of them an
  explicit state: disabled, warming up, not scheduled, an intent, a complete evaluation without intent,
  unavailable, or an error. An exception inside the evaluation of one strategy becomes a receipt; one in
  the construction of a receipt propagates. The generator and the readings of the clock are arguments.
\<close>

record evaluation_batch =
  x_intents :: "strategy_intent list"
  x_evaluations :: "evaluation list"

definition runtime_configuration :: "strategy_definition \<Rightarrow> strategy_config result" where
  "runtime_configuration d = make_config (d_config_default d)"

definition code_fingerprint :: "core_package \<Rightarrow> strategy_definition \<Rightarrow> string result" where
  "code_fingerprint K d = installed_source_tree_sha256 (k_read_source K) (d_source_files d)"

definition configuration_fingerprint :: "strategy_definition \<Rightarrow> string result" where
  "configuration_fingerprint d = rbind (runtime_configuration d) (\<lambda>c. config_sha256 (config_value c))"

subsection \<open>The policy fingerprint\<close>

definition registered_source :: "core_package \<Rightarrow> sleeve_generators \<Rightarrow> string \<Rightarrow> (string \<times> py_value) result" where
  "registered_source K G strategy_id =
     rbind (get_strategy G strategy_id) (\<lambda>d.
     rbind (code_fingerprint K d) (\<lambda>code.
     rbind (configuration_fingerprint d) (\<lambda>conf.
       Inr (strategy_id, str_dict
         [(''revision'', PStr (d_revision d)),
          (''status'', PStr (status_value (d_status d))),
          (''source_sha256'', PStr code),
          (''default_config_sha256'', PStr conf)]))))"

definition runtime_evaluation_policy_sha256 :: "core_package \<Rightarrow> sleeve_generators \<Rightarrow> settings \<Rightarrow> string result" where
  "runtime_evaluation_policy_sha256 K G s =
     rbind (installed_source_tree_sha256 (k_read_source K)
              [''runtime_evaluation.py'', ''service.py'', ''campaign.py'', ''runtime_requirements.py'', ''config.py''])
       (\<lambda>source.
     rbind (traverse (registered_source K G) (s_enabled_strategy_ids s)) (\<lambda>sources.
       canonical_sha256 (str_dict
         [(''contract_version'', PStr ''runtime-strategy-observation-policy.v1''),
          (''source_sha256'', PStr source),
          (''enabled_strategy_ids'', PList (map PStr (s_enabled_strategy_ids s))),
          (''registered_sources'', str_dict sources),
          (''trading_mode'', PStr (k_trading_mode_value K (s_trading_mode s))),
          (''trading_symbols'', PList (map PStr (s_trading_symbols s))),
          (''window_bars'', PInt (s_window_bars s)),
          (''readiness'', PStr ''reviewed-finite-complete-frames-not-indicator-convergence''),
          (''authority'', PStr ''OBSERVATION_ONLY'')])))"

subsection \<open>Receipts\<close>

text \<open>What a receipt says beyond the bar: who was evaluated, with which fingerprints, and the outcome.\<close>

record observation_facts =
  f_definition :: "strategy_definition option"
  f_code_sha256 :: "string option"
  f_config_fingerprint :: "string option"
  f_window_sha256 :: "string option"
  f_status :: evaluation_status
  f_reason :: string
  f_intents :: "strategy_intent list"
  f_error_type :: "string option"

definition intent_id_or_empty :: "strategy_intent \<Rightarrow> string" where
  "intent_id_or_empty v = (case v_intent_id v of None \<Rightarrow> [] | Some i \<Rightarrow> i)"

definition make_receipt ::
  "core_package \<Rightarrow> settings \<Rightarrow> string \<Rightarrow> closed_bar \<Rightarrow> closed_bar list \<Rightarrow> int \<Rightarrow> observation_facts \<Rightarrow> evaluation result" where
  "make_receipt K s policy bar history now f =
     (let references = sort_key intent_id_or_empty (f_intents f) in
      case b_bar_sha256 bar of
        None \<Rightarrow> Inl (ValueError ''an observed closed bar requires its canonical identity'')
      | Some anchor \<Rightarrow>
          rbind (traverse (\<lambda>v. case v_intent_id v of
                   None \<Rightarrow> Inl (ValueError ''an observed directional intent requires its canonical identity'')
                 | Some i \<Rightarrow> Inr i) references) (\<lambda>ids.
          if history = [] then Inl (IndexError ''tuple index out of range'')
          else k_make_evaluation K
            \<lparr>r_causation_id = b_message_id bar,
             r_scope = (if f_definition f = None then ''ENGINE'' else ''STRATEGY''),
             r_strategy_id = map_option d_strategy_id (f_definition f),
             r_strategy_revision = map_option d_revision (f_definition f),
             r_registry_status = map_option (\<lambda>d. status_value (d_status d)) (f_definition f),
             r_trading_mode = s_trading_mode s,
             r_enabled_strategy_ids = s_enabled_strategy_ids s,
             r_runtime_policy_sha256 = policy,
             r_strategy_code_sha256 = f_code_sha256 f,
             r_config_sha256 = f_config_fingerprint f,
             r_symbol = b_symbol bar,
             r_bar_open_time_ms = b_open_time_ms bar,
             r_decision_ts_ms = b_close_time_ms bar,
             r_anchor_bar_sha256 = anchor,
             r_input_first_open_time_ms = b_open_time_ms (hd history),
             r_input_bar_count = int (length history),
             r_input_window_sha256 = f_window_sha256 f,
             r_observed_at_ms = now,
             r_status = f_status f,
             r_evaluation_complete = (f_status f = INTENT \<or> f_status f = NO_INTENT),
             r_reason_code = f_reason f,
             r_error_type = f_error_type f,
             r_intent_ids = ids,
             r_intent_sides = map v_side references\<rparr>))"

definition engine_facts :: "evaluation_status \<Rightarrow> string \<Rightarrow> observation_facts" where
  "engine_facts status reason =
    \<lparr>f_definition = None, f_code_sha256 = None, f_config_fingerprint = None, f_window_sha256 = None,
     f_status = status, f_reason = reason, f_intents = [], f_error_type = None\<rparr>"

text \<open>The \<open>k\<close>-th receipt of a batch reads the clock for the \<open>k\<close>-th time.\<close>

definition unavailable_receipt ::
  "core_package \<Rightarrow> settings \<Rightarrow> string \<Rightarrow> closed_bar \<Rightarrow> string \<Rightarrow> int \<Rightarrow> strategy_definition \<Rightarrow> evaluation result" where
  "unavailable_receipt K s policy bar reason now d =
     rbind (code_fingerprint K d) (\<lambda>code.
     rbind (configuration_fingerprint d) (\<lambda>conf.
       make_receipt K s policy bar [bar] now
         ((engine_facts UNAVAILABLE reason)\<lparr>f_definition := Some d, f_code_sha256 := Some code,
            f_config_fingerprint := Some conf\<rparr>)))"

definition unavailable_runtime_evaluations ::
  "core_package \<Rightarrow> sleeve_generators \<Rightarrow> settings \<Rightarrow> string \<Rightarrow> (nat \<Rightarrow> int) \<Rightarrow> closed_bar \<Rightarrow> string \<Rightarrow> evaluation_batch result" where
  "unavailable_runtime_evaluations K G s policy clock bar reason =
     rbind (traverse (get_strategy G) (s_enabled_strategy_ids s)) (\<lambda>definitions.
     rmap (\<lambda>es. \<lparr>x_intents = [], x_evaluations = es\<rparr>)
       (if definitions = []
        then rmap (\<lambda>e. [e]) (make_receipt K s policy bar [bar] (clock 0) (engine_facts UNAVAILABLE reason))
        else traverse (\<lambda>(k, d). unavailable_receipt K s policy bar reason (clock k) d)
               (enumerate 0 definitions)))"

subsection \<open>One strategy\<close>

text \<open>What has been established when the evaluation of a strategy ends, normally or by an exception.\<close>

record progress =
  g_config_fingerprint :: "string option"
  g_code_sha256 :: "string option"
  g_window_sha256 :: "string option"
  g_candidates :: "strategy_intent list"

type_synonym outcome = "evaluation_status \<times> string"

definition no_progress :: progress where
  "no_progress = \<lparr>g_config_fingerprint = None, g_code_sha256 = None, g_window_sha256 = None, g_candidates = []\<rparr>"

text \<open>A candidate must repeat the identity and the fingerprints of this very evaluation.\<close>

definition candidate_differs ::
  "strategy_definition \<Rightarrow> closed_bar \<Rightarrow> string \<Rightarrow> string \<Rightarrow> string \<Rightarrow> strategy_intent \<Rightarrow> bool" where
  "candidate_differs d bar code conf window v \<longleftrightarrow>
     v_strategy_id v \<noteq> d_strategy_id d \<or> v_strategy_revision v \<noteq> d_revision d \<or> v_symbol v \<noteq> b_symbol bar \<or>
     p_strategy_code_sha256 (v_provenance v) \<noteq> code \<or> p_config_sha256 (v_provenance v) \<noteq> conf \<or>
     p_input_window_sha256 (v_provenance v) \<noteq> window"

definition verify_candidate ::
  "core_package \<Rightarrow> strategy_definition \<Rightarrow> closed_bar \<Rightarrow> string \<Rightarrow> string \<Rightarrow> string \<Rightarrow> strategy_intent \<Rightarrow> unit result" where
  "verify_candidate K d bar code conf window v =
     rbind (k_revalidate_intent K v) (\<lambda>_.
       if candidate_differs d bar code conf window v
       then Inl (ValueError ''current runtime intent differs from the observed frozen input/source'')
       else Inr ())"

text \<open>The state of a strategy that produced no candidate.\<close>

definition quiet_outcome ::
  "string \<Rightarrow> strategy_config \<Rightarrow> closed_bar list \<Rightarrow> frame_requirements option \<Rightarrow> outcome result" where
  "quiet_outcome strategy_id config ordered frames =
     (case frames of
        None \<Rightarrow> Inr (UNAVAILABLE, ''READINESS_POLICY_UNAVAILABLE'')
      | Some fs \<Rightarrow>
          rbind (history_ready strategy_id ordered fs) (\<lambda>ready.
            if \<not> ready then Inr (WARMUP, ''COMPLETE_FRAME_LOOKBACK_NOT_READY'')
            else rbind (volume_context_ready strategy_id config ordered) (\<lambda>volume.
              if \<not> volume then Inr (UNAVAILABLE, ''REQUIRED_VOLUME_CONTEXT_UNAVAILABLE'')
              else Inr (NO_INTENT, ''COMPLETE_EVALUATION_NO_INTENT''))))"

type_synonym runtime_generator = "string \<Rightarrow> closed_bar list \<Rightarrow> bool \<Rightarrow> strategy_intent list result"

text \<open>The evaluation once the decision clock has struck.\<close>

definition evaluate_scheduled ::
  "core_package \<Rightarrow> settings \<Rightarrow> runtime_generator \<Rightarrow> strategy_definition \<Rightarrow> closed_bar \<Rightarrow> closed_bar list \<Rightarrow>
   strategy_config \<Rightarrow> frame_requirements option \<Rightarrow> string \<Rightarrow> string \<Rightarrow> progress \<Rightarrow> progress \<times> outcome result" where
  "evaluate_scheduled K s gen d bar ordered config frames code conf p =
     (case window_sha256 K ordered of
        Inl e \<Rightarrow> (p, Inl e)
      | Inr window \<Rightarrow>
          (let p = p\<lparr>g_window_sha256 := Some window\<rparr> in
           case gen (d_strategy_id d) ordered (s_trading_mode s = PAPER) of
             Inl e \<Rightarrow> (p, Inl e)
           | Inr generated \<Rightarrow>
               (let candidates = filter (\<lambda>v. v_decision_ts_ms v = b_close_time_ms bar) generated;
                    p = p\<lparr>g_candidates := candidates\<rparr> in
                (p, rbind (traverse (verify_candidate K d bar code conf window) candidates) (\<lambda>_.
                      if candidates \<noteq> [] then Inr (INTENT, ''DIRECTIONAL_INTENT_GENERATED'')
                      else quiet_outcome (d_strategy_id d) config ordered frames)))))"

text \<open>The body of the \<open>try\<close> block.\<close>

definition optional_frames :: "string \<Rightarrow> strategy_config \<Rightarrow> frame_requirements option result" where
  "optional_frames strategy_id config =
     (case complete_frame_requirements strategy_id config of
        Inr fs \<Rightarrow> Inr (Some fs)
      | Inl (CausalStrategyUnsupportedError _) \<Rightarrow> Inr None
      | Inl e \<Rightarrow> Inl e)"

definition evaluate_attempt ::
  "core_package \<Rightarrow> settings \<Rightarrow> runtime_generator \<Rightarrow> (string \<Rightarrow> runtime_requirements) \<Rightarrow> strategy_definition \<Rightarrow>
   closed_bar \<Rightarrow> closed_bar list \<Rightarrow> progress \<times> outcome result" where
  "evaluate_attempt K s gen requirements_resolver d bar ordered =
     (case runtime_configuration d of Inl e \<Rightarrow> (no_progress, Inl e) | Inr config \<Rightarrow>
     (case config_sha256 (config_value config) of Inl e \<Rightarrow> (no_progress, Inl e) | Inr conf \<Rightarrow>
     (let p = no_progress\<lparr>g_config_fingerprint := Some conf\<rparr> in
     (case code_fingerprint K d of Inl e \<Rightarrow> (p, Inl e) | Inr code \<Rightarrow>
     (let p = p\<lparr>g_code_sha256 := Some code\<rparr>; r = requirements_resolver (d_strategy_id d) in
      if s_trading_mode s = PAPER \<and> \<not> paper_enabled d
      then (p, Inr (DISABLED, ''STRATEGY_NOT_PAPER_APPROVED''))
      else case optional_frames (d_strategy_id d) config of Inl e \<Rightarrow> (p, Inl e) | Inr frames \<Rightarrow>
        (if int (length ordered) < minimum_window_bars r
         then (p, Inr (WARMUP, ''REGISTERED_MINIMUM_HISTORY_NOT_READY''))
         else case scheduled (d_strategy_id d) config bar r frames of
           Inl e \<Rightarrow> (p, Inl e)
         | Inr False \<Rightarrow> (p, Inr (NOT_SCHEDULED, ''OUTSIDE_REGISTERED_DECISION_CLOCK''))
         | Inr True \<Rightarrow> evaluate_scheduled K s gen d bar ordered config frames code conf p))))))"

text \<open>The handlers: an unsupported policy is \<open>UNAVAILABLE\<close>, every other exception an \<open>ERROR\<close> without
  candidates.\<close>

fun settle_outcome :: "strategy_definition \<Rightarrow> progress \<Rightarrow> outcome result \<Rightarrow> observation_facts" where
  "settle_outcome d p (Inr (status, reason)) =
    \<lparr>f_definition = Some d, f_code_sha256 = g_code_sha256 p, f_config_fingerprint = g_config_fingerprint p,
     f_window_sha256 = g_window_sha256 p, f_status = status, f_reason = reason, f_intents = g_candidates p,
     f_error_type = None\<rparr>"
| "settle_outcome d p (Inl (CausalStrategyUnsupportedError m)) =
    \<lparr>f_definition = Some d, f_code_sha256 = g_code_sha256 p, f_config_fingerprint = g_config_fingerprint p,
     f_window_sha256 = g_window_sha256 p, f_status = UNAVAILABLE, f_reason = ''READINESS_POLICY_UNAVAILABLE'',
     f_intents = g_candidates p, f_error_type = None\<rparr>"
| "settle_outcome d p (Inl e) =
    \<lparr>f_definition = Some d, f_code_sha256 = g_code_sha256 p, f_config_fingerprint = g_config_fingerprint p,
     f_window_sha256 = g_window_sha256 p, f_status = ERROR, f_reason = ''STRATEGY_EVALUATION_FAILED'',
     f_intents = [], f_error_type = Some (error_type_name e)\<rparr>"

definition strategy_facts ::
  "core_package \<Rightarrow> settings \<Rightarrow> runtime_generator \<Rightarrow> (string \<Rightarrow> runtime_requirements) \<Rightarrow> closed_bar \<Rightarrow>
   closed_bar list \<Rightarrow> strategy_definition \<Rightarrow> observation_facts" where
  "strategy_facts K s gen req bar ordered d =
     (let (p, r) = evaluate_attempt K s gen req d bar ordered in settle_outcome d p r)"

subsection \<open>One bar\<close>

definition batch_key :: "strategy_intent \<Rightarrow> int \<times> string \<times> string \<times> string \<times> string" where
  "batch_key v = (v_decision_ts_ms v, v_symbol v, v_strategy_id v, side_value (v_side v), intent_id_or_empty v)"

definition evaluate_strategy ::
  "core_package \<Rightarrow> sleeve_generators \<Rightarrow> settings \<Rightarrow> string \<Rightarrow> runtime_generator \<Rightarrow> (string \<Rightarrow> runtime_requirements) \<Rightarrow>
   closed_bar \<Rightarrow> closed_bar list \<Rightarrow> int \<Rightarrow> string \<Rightarrow> (evaluation \<times> strategy_intent list) result" where
  "evaluate_strategy K G s policy gen req bar ordered now strategy_id =
     rbind (get_strategy G strategy_id) (\<lambda>d.
       let f = strategy_facts K s gen req bar ordered d in
       rmap (\<lambda>e. (e, f_intents f)) (make_receipt K s policy bar ordered now f))"

definition evaluate_runtime_bar ::
  "core_package \<Rightarrow> sleeve_generators \<Rightarrow> settings \<Rightarrow> string \<Rightarrow> (nat \<Rightarrow> int) \<Rightarrow> runtime_generator \<Rightarrow>
   (string \<Rightarrow> runtime_requirements) \<Rightarrow> closed_bar \<Rightarrow> closed_bar list \<Rightarrow> evaluation_batch result" where
  "evaluate_runtime_bar K G s policy clock gen req bar history =
     (if s_enabled_strategy_ids s = [] then
        rmap (\<lambda>e. \<lparr>x_intents = [], x_evaluations = [e]\<rparr>)
          (make_receipt K s policy bar [bar] (clock 0) (engine_facts DISABLED ''EMPTY_STRATEGY_ALLOW_LIST''))
      else
        rbind (canonical_closed_bars history) (\<lambda>ordered.
          if b_bar_sha256 (last ordered) \<noteq> b_bar_sha256 bar
          then Inl (ValueError ''runtime observation anchor differs from its causal history'')
          else rmap (\<lambda>rs. \<lparr>x_intents = sort_key batch_key (concat (map snd rs)), x_evaluations = map fst rs\<rparr>)
            (traverse (\<lambda>(k, i). evaluate_strategy K G s policy gen req bar ordered (clock k) i)
              (enumerate 0 (s_enabled_strategy_ids s)))))"

definition validate_runtime_evaluation_provenance ::
  "core_package \<Rightarrow> sleeve_generators \<Rightarrow> evaluation \<Rightarrow> unit result" where
  "validate_runtime_evaluation_provenance K G e =
     (if r_scope e = ''ENGINE'' then Inr ()
      else case r_strategy_id e of
        None \<Rightarrow> Inl (ValueError ''a restored strategy observation requires its registered identity'')
      | Some i \<Rightarrow>
          rbind (get_strategy G i) (\<lambda>d.
            let differs = Inl (ValueError
                  ''restored strategy observation differs from independently installed registry/source/config'') in
            if r_strategy_revision e \<noteq> Some (d_revision d) \<or>
               r_registry_status e \<noteq> Some (status_value (d_status d)) then differs
            else rbind (code_fingerprint K d) (\<lambda>code.
              if r_strategy_code_sha256 e \<noteq> Some code then differs
              else rbind (configuration_fingerprint d) (\<lambda>conf.
                if r_config_sha256 e \<noteq> Some conf then differs else Inr ()))))"


subsection \<open>What a receipt tells\<close>

definition fingerprints_known :: "core_package \<Rightarrow> strategy_definition \<Rightarrow> progress \<Rightarrow> bool" where
  "fingerprints_known K d p \<longleftrightarrow>
     (\<exists>code conf. g_code_sha256 p = Some code \<and> code_fingerprint K d = Inr code \<and>
        g_config_fingerprint p = Some conf \<and> configuration_fingerprint d = Inr conf)"

definition reached_schedule ::
  "core_package \<Rightarrow> settings \<Rightarrow> (string \<Rightarrow> runtime_requirements) \<Rightarrow> strategy_definition \<Rightarrow> closed_bar \<Rightarrow>
   closed_bar list \<Rightarrow> strategy_config \<Rightarrow> frame_requirements option \<Rightarrow> string \<Rightarrow> string \<Rightarrow> bool" where
  "reached_schedule K s req d bar ordered config frames code conf \<longleftrightarrow>
     runtime_configuration d = Inr config \<and> config_sha256 (config_value config) = Inr conf \<and>
     code_fingerprint K d = Inr code \<and> optional_frames (d_strategy_id d) config = Inr frames \<and>
     minimum_window_bars (req (d_strategy_id d)) \<le> int (length ordered) \<and>
     scheduled (d_strategy_id d) config bar (req (d_strategy_id d)) frames = Inr True \<and>
     \<not> (s_trading_mode s = PAPER \<and> \<not> paper_enabled d)"

text \<open>What each status says about the evaluation that ended with it.\<close>

fun status_explained ::
  "core_package \<Rightarrow> settings \<Rightarrow> runtime_generator \<Rightarrow> (string \<Rightarrow> runtime_requirements) \<Rightarrow> strategy_definition \<Rightarrow>
   closed_bar \<Rightarrow> closed_bar list \<Rightarrow> evaluation_status \<Rightarrow> bool" where
  "status_explained K s gen req d bar ordered DISABLED \<longleftrightarrow> s_trading_mode s = PAPER \<and> \<not> paper_enabled d"
| "status_explained K s gen req d bar ordered WARMUP \<longleftrightarrow>
     int (length ordered) < minimum_window_bars (req (d_strategy_id d)) \<or>
     (\<exists>config fs code conf. reached_schedule K s req d bar ordered config (Some fs) code conf \<and>
        history_ready (d_strategy_id d) ordered fs = Inr False)"
| "status_explained K s gen req d bar ordered NOT_SCHEDULED \<longleftrightarrow>
     (\<exists>config frames. runtime_configuration d = Inr config \<and> optional_frames (d_strategy_id d) config = Inr frames \<and>
        scheduled (d_strategy_id d) config bar (req (d_strategy_id d)) frames = Inr False)"
| "status_explained K s gen req d bar ordered NO_INTENT \<longleftrightarrow>
     (\<exists>config fs code conf generated. reached_schedule K s req d bar ordered config (Some fs) code conf \<and>
        history_ready (d_strategy_id d) ordered fs = Inr True \<and>
        volume_context_ready (d_strategy_id d) config ordered = Inr True \<and>
        gen (d_strategy_id d) ordered (s_trading_mode s = PAPER) = Inr generated \<and>
        filter (\<lambda>v. v_decision_ts_ms v = b_close_time_ms bar) generated = [])"
| "status_explained K s gen req d bar ordered INTENT \<longleftrightarrow>
     (\<exists>config frames code conf generated. reached_schedule K s req d bar ordered config frames code conf \<and>
        gen (d_strategy_id d) ordered (s_trading_mode s = PAPER) = Inr generated \<and>
        filter (\<lambda>v. v_decision_ts_ms v = b_close_time_ms bar) generated \<noteq> [])"
| "status_explained K s gen req d bar ordered st \<longleftrightarrow> st = UNAVAILABLE \<or> st = ERROR"

definition early_result ::
  "core_package \<Rightarrow> settings \<Rightarrow> (string \<Rightarrow> runtime_requirements) \<Rightarrow> strategy_definition \<Rightarrow> closed_bar \<Rightarrow>
   closed_bar list \<Rightarrow> progress \<Rightarrow> outcome result \<Rightarrow> bool" where
  "early_result K s req d bar ordered p r \<longleftrightarrow> g_candidates p = [] \<and>
     (case r of Inl e \<Rightarrow> True
      | Inr (st, _) \<Rightarrow> st \<in> {DISABLED, WARMUP, NOT_SCHEDULED} \<and>
          (\<forall>gen. status_explained K s gen req d bar ordered st) \<and> fingerprints_known K d p)"

definition scheduled_progress :: "string \<Rightarrow> string \<Rightarrow> progress" where
  "scheduled_progress code conf = no_progress\<lparr>g_config_fingerprint := Some conf, g_code_sha256 := Some code\<rparr>"

lemma evaluate_attempt_cases:
  assumes "evaluate_attempt K s gen req d bar ordered = (p, r)"
  shows "early_result K s req d bar ordered p r \<or>
    (\<exists>config frames code conf. reached_schedule K s req d bar ordered config frames code conf \<and>
       evaluate_scheduled K s gen d bar ordered config frames code conf (scheduled_progress code conf) = (p, r))"
  using assms
  by (auto simp: evaluate_attempt_def Let_def early_result_def fingerprints_known_def reached_schedule_def
      scheduled_progress_def no_progress_def configuration_fingerprint_def
      split: sum.splits if_splits bool.splits)

lemma evaluate_scheduled_cases:
  assumes "evaluate_scheduled K s gen d bar ordered config frames code conf p0 = (p, r)" and "g_candidates p0 = []"
  shows "(g_candidates p = [] \<and> (\<exists>e. r = Inl e)) \<or>
    (\<exists>window generated. window_sha256 K ordered = Inr window \<and>
       gen (d_strategy_id d) ordered (s_trading_mode s = PAPER) = Inr generated \<and>
       p = p0\<lparr>g_window_sha256 := Some window,
             g_candidates := filter (\<lambda>v. v_decision_ts_ms v = b_close_time_ms bar) generated\<rparr> \<and>
       r = rbind (traverse (verify_candidate K d bar code conf window) (g_candidates p)) (\<lambda>_.
             if g_candidates p \<noteq> [] then Inr (INTENT, ''DIRECTIONAL_INTENT_GENERATED'')
             else quiet_outcome (d_strategy_id d) config ordered frames))"
  using assms by (auto simp: evaluate_scheduled_def Let_def split: sum.splits)

lemma quiet_outcome_Inr:
  assumes "quiet_outcome i config ordered frames = Inr (st, reason)"
  shows "st = UNAVAILABLE \<or>
    (\<exists>fs. frames = Some fs \<and> (st = WARMUP \<and> history_ready i ordered fs = Inr False \<or>
       st = NO_INTENT \<and> history_ready i ordered fs = Inr True \<and> volume_context_ready i config ordered = Inr True))"
  using assms by (auto simp: quiet_outcome_def rbind_Inr_iff split: option.splits if_splits)

lemma verify_candidate_Inr: "verify_candidate K d bar code conf window v = Inr u \<Longrightarrow> \<not> candidate_differs d bar code conf window v"
  by (auto simp: verify_candidate_def rbind_Inr_iff split: if_splits)

lemma verify_candidates_error:
  assumes "faithful_contracts K"
  shows "traverse (verify_candidate K d bar code conf window) vs \<noteq> Inl (CausalStrategyUnsupportedError m)"
  using assms
  by (induction vs) (auto simp: verify_candidate_def rbind_Inl_iff faithful_contracts_def split: if_splits)

text \<open>What is true of every settled evaluation.\<close>

definition facts_sound ::
  "core_package \<Rightarrow> settings \<Rightarrow> runtime_generator \<Rightarrow> (string \<Rightarrow> runtime_requirements) \<Rightarrow> closed_bar \<Rightarrow>
   closed_bar list \<Rightarrow> strategy_definition \<Rightarrow> observation_facts \<Rightarrow> bool" where
  "facts_sound K s gen req bar ordered d f \<longleftrightarrow>
     f_definition f = Some d \<and>
     (f_status f = INTENT \<longleftrightarrow> f_intents f \<noteq> []) \<and>
     (f_status f = ERROR \<longleftrightarrow> f_error_type f \<noteq> None) \<and>
     (\<forall>v \<in> set (f_intents f). v_decision_ts_ms v = b_close_time_ms bar \<and>
        (\<exists>code conf window. f_code_sha256 f = Some code \<and> f_config_fingerprint f = Some conf \<and>
           f_window_sha256 f = Some window \<and> \<not> candidate_differs d bar code conf window v)) \<and>
     status_explained K s gen req d bar ordered (f_status f) \<and>
     (f_status f \<noteq> ERROR \<and> f_status f \<noteq> UNAVAILABLE \<longrightarrow>
        (\<exists>code conf. f_code_sha256 f = Some code \<and> code_fingerprint K d = Inr code \<and>
           f_config_fingerprint f = Some conf \<and> configuration_fingerprint d = Inr conf))"

lemma settle_error_sound:
  assumes "g_candidates p = []"
  shows "facts_sound K s gen req bar ordered d (settle_outcome d p (Inl e))"
  using assms by (cases e) (simp_all add: facts_sound_def)

lemma settle_early_sound:
  assumes "early_result K s req d bar ordered p r"
  shows "facts_sound K s gen req bar ordered d (settle_outcome d p r)"
proof (cases r)
  case (Inl e)
  then show ?thesis using assms by (simp add: early_result_def settle_error_sound)
next
  case (Inr o1)
  then show ?thesis using assms
    by (cases o1) (auto simp: early_result_def fingerprints_known_def facts_sound_def)
qed

lemma settle_candidates_error:
  assumes "\<forall>m. e \<noteq> CausalStrategyUnsupportedError m"
  shows "facts_sound K s gen req bar ordered d (settle_outcome d p (Inl e))"
  using assms by (cases e) (simp_all add: facts_sound_def)

text \<open>The generator has run: candidates are verified, or the quiet outcome is decided.\<close>

lemma settle_generated_sound:
  assumes K: "faithful_contracts K"
    and reached: "reached_schedule K s req d bar ordered config frames code conf"
    and gen: "gen (d_strategy_id d) ordered (s_trading_mode s = PAPER) = Inr generated"
    and p: "p = scheduled_progress code conf\<lparr>g_window_sha256 := Some window,
             g_candidates := filter (\<lambda>v. v_decision_ts_ms v = b_close_time_ms bar) generated\<rparr>"
    and r: "r = rbind (traverse (verify_candidate K d bar code conf window) (g_candidates p)) (\<lambda>_.
             if g_candidates p \<noteq> [] then Inr (INTENT, ''DIRECTIONAL_INTENT_GENERATED'')
             else quiet_outcome (d_strategy_id d) config ordered frames)"
  shows "facts_sound K s gen req bar ordered d (settle_outcome d p r)"
proof (cases "g_candidates p = []")
  case True
  then have q: "r = quiet_outcome (d_strategy_id d) config ordered frames" using r by simp
  show ?thesis
  proof (cases r)
    case (Inr o1)
    obtain st reason where o1: "o1 = (st, reason)" by fastforce
    have "quiet_outcome (d_strategy_id d) config ordered frames = Inr (st, reason)" using q Inr o1 by simp
    from True quiet_outcome_Inr [OF this] reached gen p show ?thesis
      by (auto simp: Inr o1 facts_sound_def scheduled_progress_def reached_schedule_def configuration_fingerprint_def)
  qed (simp add: True settle_error_sound)
next
  case False
  show ?thesis
  proof (cases "traverse (verify_candidate K d bar code conf window) (g_candidates p)")
    case (Inl e)
    then have "\<forall>m. e \<noteq> CausalStrategyUnsupportedError m" using verify_candidates_error [OF K] by metis
    then show ?thesis using r False Inl by (simp add: settle_candidates_error)
  next
    case (Inr us)
    then have "\<forall>v \<in> set (g_candidates p). \<not> candidate_differs d bar code conf window v"
      using traverse_dom [OF Inr] verify_candidate_Inr by blast
    with r False Inr reached p gen show ?thesis
      by (auto simp: facts_sound_def scheduled_progress_def reached_schedule_def configuration_fingerprint_def)
  qed
qed

lemma strategy_facts_sound:
  assumes K: "faithful_contracts K"
  shows "facts_sound K s gen req bar ordered d (strategy_facts K s gen req bar ordered d)"
proof -
  obtain p r where pr: "evaluate_attempt K s gen req d bar ordered = (p, r)" by fastforce
  then have facts: "strategy_facts K s gen req bar ordered d = settle_outcome d p r"
    by (simp add: strategy_facts_def)
  consider "early_result K s req d bar ordered p r"
    | config frames code conf where "reached_schedule K s req d bar ordered config frames code conf"
      "evaluate_scheduled K s gen d bar ordered config frames code conf (scheduled_progress code conf) = (p, r)"
    using evaluate_attempt_cases [OF pr] by blast
  then show ?thesis
  proof cases
    case 1
    then show ?thesis unfolding facts by (rule settle_early_sound)
  next
    case 2
    have "g_candidates (scheduled_progress code conf) = []" by (simp add: scheduled_progress_def no_progress_def)
    from evaluate_scheduled_cases [OF 2(2) this] 2(1) show ?thesis
      unfolding facts by (elim disjE) (auto intro: settle_error_sound settle_generated_sound [OF K])
  qed
qed


lemma intent_ids_Inr:
  assumes "traverse (\<lambda>v. case v_intent_id v of None \<Rightarrow> Inl e0 | Some i \<Rightarrow> Inr i) vs = Inr ids"
  shows "map Some ids = map v_intent_id vs"
  using assms by (induction vs arbitrary: ids) (auto simp: rbind_Inr_iff rmap_Inr_iff split: option.splits)

lemma make_receipt_InrE:
  assumes "faithful_contracts K" and "make_receipt K s policy bar history now f = Inr e"
  obtains anchor ids where "history \<noteq> []" "b_bar_sha256 bar = Some anchor"
    "map Some ids = map v_intent_id (sort_key intent_id_or_empty (f_intents f))"
    "e = \<lparr>r_causation_id = b_message_id bar,
         r_scope = (if f_definition f = None then ''ENGINE'' else ''STRATEGY''),
         r_strategy_id = map_option d_strategy_id (f_definition f),
         r_strategy_revision = map_option d_revision (f_definition f),
         r_registry_status = map_option (\<lambda>d. status_value (d_status d)) (f_definition f),
         r_trading_mode = s_trading_mode s, r_enabled_strategy_ids = s_enabled_strategy_ids s,
         r_runtime_policy_sha256 = policy, r_strategy_code_sha256 = f_code_sha256 f,
         r_config_sha256 = f_config_fingerprint f, r_symbol = b_symbol bar,
         r_bar_open_time_ms = b_open_time_ms bar, r_decision_ts_ms = b_close_time_ms bar,
         r_anchor_bar_sha256 = anchor, r_input_first_open_time_ms = b_open_time_ms (hd history),
         r_input_bar_count = int (length history), r_input_window_sha256 = f_window_sha256 f,
         r_observed_at_ms = now, r_status = f_status f,
         r_evaluation_complete = (f_status f = INTENT \<or> f_status f = NO_INTENT),
         r_reason_code = f_reason f, r_error_type = f_error_type f, r_intent_ids = ids,
         r_intent_sides = map v_side (sort_key intent_id_or_empty (f_intents f))\<rparr>"
proof -
  have made: "\<And>x y. k_make_evaluation K x = Inr y \<Longrightarrow> y = x" using assms(1) by (simp add: faithful_contracts_def)
  from assms(2) obtain anchor where a: "b_bar_sha256 bar = Some anchor"
    by (auto simp: make_receipt_def Let_def split: option.splits)
  from assms(2) obtain ids where ids: "traverse (\<lambda>v. case v_intent_id v of
        None \<Rightarrow> Inl (ValueError ''an observed directional intent requires its canonical identity'')
      | Some i \<Rightarrow> Inr i) (sort_key intent_id_or_empty (f_intents f)) = Inr ids"
    by (simp only: make_receipt_def Let_def a option.case rbind_Inr_iff) blast
  have "history \<noteq> []" using assms(2) by (simp add: make_receipt_def Let_def a ids split: if_splits)
  with assms(2) have "k_make_evaluation K
        \<lparr>r_causation_id = b_message_id bar,
         r_scope = (if f_definition f = None then ''ENGINE'' else ''STRATEGY''),
         r_strategy_id = map_option d_strategy_id (f_definition f),
         r_strategy_revision = map_option d_revision (f_definition f),
         r_registry_status = map_option (\<lambda>d. status_value (d_status d)) (f_definition f),
         r_trading_mode = s_trading_mode s, r_enabled_strategy_ids = s_enabled_strategy_ids s,
         r_runtime_policy_sha256 = policy, r_strategy_code_sha256 = f_code_sha256 f,
         r_config_sha256 = f_config_fingerprint f, r_symbol = b_symbol bar,
         r_bar_open_time_ms = b_open_time_ms bar, r_decision_ts_ms = b_close_time_ms bar,
         r_anchor_bar_sha256 = anchor, r_input_first_open_time_ms = b_open_time_ms (hd history),
         r_input_bar_count = int (length history), r_input_window_sha256 = f_window_sha256 f,
         r_observed_at_ms = now, r_status = f_status f,
         r_evaluation_complete = (f_status f = INTENT \<or> f_status f = NO_INTENT),
         r_reason_code = f_reason f, r_error_type = f_error_type f, r_intent_ids = ids,
         r_intent_sides = map v_side (sort_key intent_id_or_empty (f_intents f))\<rparr> = Inr e"
    by (simp only: make_receipt_def Let_def a ids option.case rbind_simps if_False)
  from that [OF \<open>history \<noteq> []\<close> a intent_ids_Inr [OF ids] made [OF this]] show ?thesis .
qed

lemma make_receipt_Inr:
  assumes "faithful_contracts K" and "make_receipt K s policy bar history now f = Inr e"
  shows "history \<noteq> []" and "b_bar_sha256 bar = Some (r_anchor_bar_sha256 e)"
    and "map Some (r_intent_ids e) = map v_intent_id (sort_key intent_id_or_empty (f_intents f))"
    and "r_strategy_id e = map_option d_strategy_id (f_definition f)"
      "r_strategy_revision e = map_option d_revision (f_definition f)"
      "r_registry_status e = map_option (\<lambda>d. status_value (d_status d)) (f_definition f)"
      "r_scope e = (if f_definition f = None then ''ENGINE'' else ''STRATEGY'')"
      "r_strategy_code_sha256 e = f_code_sha256 f" "r_config_sha256 e = f_config_fingerprint f"
      "r_input_window_sha256 e = f_window_sha256 f" "r_status e = f_status f" "r_error_type e = f_error_type f"
      "r_runtime_policy_sha256 e = policy" "r_symbol e = b_symbol bar" "r_decision_ts_ms e = b_close_time_ms bar"
      "r_enabled_strategy_ids e = s_enabled_strategy_ids s" "r_trading_mode e = s_trading_mode s"
      "r_evaluation_complete e \<longleftrightarrow> r_status e = INTENT \<or> r_status e = NO_INTENT"
  by (rule make_receipt_InrE [OF assms], simp)+

text \<open>The receipts of a batch, in the order of the enabled strategies.\<close>

definition receipt_of ::
  "core_package \<Rightarrow> sleeve_generators \<Rightarrow> settings \<Rightarrow> string \<Rightarrow> runtime_generator \<Rightarrow> (string \<Rightarrow> runtime_requirements) \<Rightarrow>
   closed_bar \<Rightarrow> closed_bar list \<Rightarrow> int \<Rightarrow> string \<Rightarrow> strategy_definition \<Rightarrow> evaluation \<Rightarrow> bool" where
  "receipt_of K G s policy gen req bar ordered now i d e \<longleftrightarrow>
     get_strategy G i = Inr d \<and>
     make_receipt K s policy bar ordered now (strategy_facts K s gen req bar ordered d) = Inr e"

lemma evaluate_strategy_Inr_iff:
  "evaluate_strategy K G s policy gen req bar ordered now i = Inr (e, vs) \<longleftrightarrow>
     (\<exists>d. receipt_of K G s policy gen req bar ordered now i d e \<and>
        vs = f_intents (strategy_facts K s gen req bar ordered d))"
  by (auto simp: evaluate_strategy_def receipt_of_def rbind_Inr_iff rmap_Inr_iff Let_def)

lemma evaluate_runtime_bar_InrE:
  assumes "evaluate_runtime_bar K G s policy clock gen req bar history = Inr b" and "s_enabled_strategy_ids s \<noteq> []"
  obtains ordered rs where "canonical_closed_bars history = Inr ordered"
    "b_bar_sha256 (last ordered) = b_bar_sha256 bar"
    "length rs = length (s_enabled_strategy_ids s)"
    "\<And>k. k < length rs \<Longrightarrow> evaluate_strategy K G s policy gen req bar ordered (clock k)
        (s_enabled_strategy_ids s ! k) = Inr (rs ! k)"
    "x_evaluations b = map fst rs" "x_intents b = sort_key batch_key (concat (map snd rs))"
proof -
  from assms obtain ordered rs where o: "canonical_closed_bars history = Inr ordered"
      "b_bar_sha256 (last ordered) = b_bar_sha256 bar"
    and rs: "traverse (\<lambda>(k, i). evaluate_strategy K G s policy gen req bar ordered (clock k) i)
        (enumerate 0 (s_enabled_strategy_ids s)) = Inr rs"
    and b: "x_evaluations b = map fst rs" "x_intents b = sort_key batch_key (concat (map snd rs))"
    by (auto simp: evaluate_runtime_bar_def rbind_Inr_iff rmap_Inr_iff split: if_splits)
  have "length rs = length (s_enabled_strategy_ids s)" using traverse_length [OF rs] by simp
  moreover have "evaluate_strategy K G s policy gen req bar ordered (clock k) (s_enabled_strategy_ids s ! k) = Inr (rs ! k)"
    if "k < length rs" for k
    using rs that by (auto simp: traverse_Inr_iff list_all2_conv_all_nth nth_enumerate_eq)
  ultimately show ?thesis using that o b by blast
qed

lemma evaluate_runtime_bar_receipts:
  assumes "evaluate_runtime_bar K G s policy clock gen req bar history = Inr b" and "s_enabled_strategy_ids s \<noteq> []"
  shows "\<exists>ordered. canonical_closed_bars history = Inr ordered \<and> b_bar_sha256 (last ordered) = b_bar_sha256 bar \<and>
    length (x_evaluations b) = length (s_enabled_strategy_ids s) \<and>
    (\<forall>k < length (x_evaluations b). \<exists>d.
       receipt_of K G s policy gen req bar ordered (clock k) (s_enabled_strategy_ids s ! k) d (x_evaluations b ! k))"
proof -
  from assms obtain ordered rs where o: "canonical_closed_bars history = Inr ordered"
    "b_bar_sha256 (last ordered) = b_bar_sha256 bar"
    and len: "length rs = length (s_enabled_strategy_ids s)"
    and rs: "\<And>k. k < length rs \<Longrightarrow> evaluate_strategy K G s policy gen req bar ordered (clock k)
        (s_enabled_strategy_ids s ! k) = Inr (rs ! k)"
    and b: "x_evaluations b = map fst rs"
    by (rule evaluate_runtime_bar_InrE) blast
  have "\<exists>d. receipt_of K G s policy gen req bar ordered (clock k) (s_enabled_strategy_ids s ! k) d (fst (rs ! k))"
    if "k < length rs" for k
    using rs [OF that] by (cases "rs ! k") (auto simp: evaluate_strategy_Inr_iff)
  then show ?thesis using o len b by auto
qed

lemma receipt_of_sound:
  assumes K: "faithful_contracts K" and r: "receipt_of K G s policy gen req bar ordered now i d e"
  shows "d_strategy_id d = i" "r_strategy_id e = Some i"
    "facts_sound K s gen req bar ordered d (strategy_facts K s gen req bar ordered d)"
    "f_definition (strategy_facts K s gen req bar ordered d) = Some d"
proof -
  have d: "get_strategy G i = Inr d" and m: "make_receipt K s policy bar ordered now
      (strategy_facts K s gen req bar ordered d) = Inr e" using r by (auto simp: receipt_of_def)
  show "d_strategy_id d = i" using get_strategy_Inr [OF d] by simp
  show sound: "facts_sound K s gen req bar ordered d (strategy_facts K s gen req bar ordered d)"
    using K by (rule strategy_facts_sound)
  then show def: "f_definition (strategy_facts K s gen req bar ordered d) = Some d" by (simp add: facts_sound_def)
  then show "r_strategy_id e = Some i" using make_receipt_Inr(4) [OF K m] \<open>d_strategy_id d = i\<close> by simp
qed

lemma receipt_validates:
  assumes K: "faithful_contracts K" and r: "receipt_of K G s policy gen req bar ordered now i d e"
    and st: "r_status e \<noteq> ERROR" "r_status e \<noteq> UNAVAILABLE"
  shows "validate_runtime_evaluation_provenance K G e = Inr ()"
proof -
  let ?f = "strategy_facts K s gen req bar ordered d"
  note sound = receipt_of_sound [OF K r]
  have d: "get_strategy G i = Inr d" and m: "make_receipt K s policy bar ordered now ?f = Inr e"
    using r by (auto simp: receipt_of_def)
  note e = make_receipt_Inr [OF K m]
  from sound(3) st obtain code conf where "f_code_sha256 ?f = Some code" "code_fingerprint K d = Inr code"
    "f_config_fingerprint ?f = Some conf" "configuration_fingerprint d = Inr conf"
    unfolding facts_sound_def e(11) by blast
  then show ?thesis
    by (simp add: validate_runtime_evaluation_provenance_def e(4-9) sound(1,4) d Let_def)
qed


text \<open>The candidates of a strategy whose generator raised.\<close>

lemma facts_intents_strategy:
  assumes "facts_sound K s gen req bar ordered d f" and "v \<in> set (f_intents f)"
  shows "v_strategy_id v = d_strategy_id d"
  using assms by (auto simp: facts_sound_def candidate_differs_def)

lemma strategy_facts_gen_cong:
  assumes "gen (d_strategy_id d) = gen' (d_strategy_id d)"
  shows "strategy_facts K s gen req bar ordered d = strategy_facts K s gen' req bar ordered d"
proof -
  have "evaluate_scheduled K s gen d = evaluate_scheduled K s gen' d"
    by (intro ext) (simp add: evaluate_scheduled_def Let_def assms cong: sum.case_cong)
  then show ?thesis unfolding strategy_facts_def evaluate_attempt_def by (rule ssubst) (rule refl)
qed

lemma settle_outcome_quiet:
  assumes "g_candidates p = []"
  shows "f_intents (settle_outcome d p (Inl e)) = []" "f_status (settle_outcome d p (Inl e)) \<in> {ERROR, UNAVAILABLE}"
  using assms by (cases e; simp)+

lemma strategy_facts_generator_raises:
  assumes "\<And>bars paper. \<exists>e. gen (d_strategy_id d) bars paper = Inl e"
  shows "f_intents (strategy_facts K s gen req bar ordered d) = [] \<and>
    f_status (strategy_facts K s gen req bar ordered d) \<notin> {INTENT, NO_INTENT}"
proof -
  obtain p r where pr: "evaluate_attempt K s gen req d bar ordered = (p, r)" by fastforce
  then have facts: "strategy_facts K s gen req bar ordered d = settle_outcome d p r"
    by (simp add: strategy_facts_def)
  consider "early_result K s req d bar ordered p r"
    | config frames code conf where
      "evaluate_scheduled K s gen d bar ordered config frames code conf (scheduled_progress code conf) = (p, r)"
    using evaluate_attempt_cases [OF pr] by blast
  then show ?thesis
  proof cases
    case 1
    show ?thesis
    proof (cases r)
      case (Inl e)
      then show ?thesis using 1 settle_outcome_quiet [of p d e] by (auto simp: facts early_result_def)
    next
      case (Inr o1)
      then show ?thesis using 1 by (cases o1) (auto simp: facts early_result_def)
    qed
  next
    case 2
    have "g_candidates (scheduled_progress code conf) = []" by (simp add: scheduled_progress_def no_progress_def)
    from evaluate_scheduled_cases [OF 2 this] assms obtain e where "g_candidates p = []" "r = Inl e"
      by (metis Inl_Inr_False)
    then show ?thesis using settle_outcome_quiet [of p d e] by (auto simp: facts)
  qed
qed

lemma receipt_of_get: "receipt_of K G s policy gen req bar ordered now i d e \<Longrightarrow> get_strategy G i = Inr d"
  by (simp add: receipt_of_def)

lemma receipt_of_make:
  "receipt_of K G s policy gen req bar ordered now i d e \<Longrightarrow>
   make_receipt K s policy bar ordered now (strategy_facts K s gen req bar ordered d) = Inr e"
  by (simp add: receipt_of_def)

lemma receipt_of_status:
  assumes "faithful_contracts K" and "receipt_of K G s policy gen req bar ordered now i d e"
  shows "r_status e = f_status (strategy_facts K s gen req bar ordered d)"
  by (rule make_receipt_Inr(11) [OF assms(1) receipt_of_make [OF assms(2)]])

subsection \<open>A concrete run\<close>

text \<open>Two bars that close the first hour, one enabled strategy, a generator that proposes one intent at the
  last close.\<close>

definition sample_hour :: "closed_bar list" where
  "sample_hour = [sample_bar 58, sample_bar 59]"

definition sample_right_tail_settings :: settings where
  "sample_right_tail_settings = sample_settings\<lparr>s_enabled_strategy_ids := [''right_tail_trend_v1'']\<rparr>"

definition sample_proposal :: "string \<Rightarrow> string \<Rightarrow> string \<Rightarrow> strategy_intent" where
  "sample_proposal code conf window =
     intent_of_raw (sample_intent\<lparr>i_sleeve_id := ''right_tail_trend_v1'', i_symbol := ''BTCUSDT'',
        i_decision_ts_ms := 3599999\<rparr>) ''1'' \<lparr>e_stop_price = fzero, e_target_price = fzero, e_max_holding_ms = 60000\<rparr>
       \<lparr>p_strategy_code_sha256 = code, p_config_sha256 = conf, p_input_window_sha256 = window,
        p_features_sha256 = ''f'', p_input_bar_sha256s = [''h'', ''h'']\<rparr> ''i''"

abbreviation sample_right_tail :: "strategy_definition" where
  "sample_right_tail \<equiv> strategy_entry ''right_tail_trend_v1'' (RightTailTrend right_tail_default)
     (fixed_generator ''right_tail_trend_v1'') ''right_tail_trend'' REJECTED"

lemma sample_hour_bars:
  "canonical_closed_bars sample_hour = Inr sample_hour" "b_bar_sha256 (last sample_hour) = Some ''h''"
  "b_close_time_ms (last sample_hour) = 3599999" "b_symbol (last sample_hour) = ''BTCUSDT''"
  by (simp_all add: canonical_closed_bars_def sample_hour_def sample_bar_def bar_of_candle_def sample_minute_def)

lemma sample_right_tail_fields:
  "d_strategy_id sample_right_tail = ''right_tail_trend_v1''" "d_revision sample_right_tail = ''1''"
  "d_config_default sample_right_tail = RightTailTrend right_tail_default"
  "d_source_files sample_right_tail = common_source_files @ [''sleeves/right_tail_trend.py'']"
  by (simp_all add: strategy_entry_def)

lemma sample_fingerprints:
  obtains code conf where "code_fingerprint sample_core sample_right_tail = Inr code"
    "config_sha256 (config_value (RightTailTrend right_tail_default)) = Inr conf"
  using sample_source_hash sample_config_hash that
  by (auto simp: code_fingerprint_def sample_right_tail_fields sample_core_def)

lemma sample_window_hash: obtains window where "window_sha256 sample_core sample_hour = Inr window"
  using that by (auto simp: window_sha256_def window_value_def sample_core_def sample_hour_def str_dict_def
      canonical_sha256_def canonical_json_bytes_def json_members_def sample_bar_def bar_of_candle_def sample_minute_def)

lemma sample_right_tail_scheduled:
  assumes "bar = last sample_hour"
  shows "optional_frames ''right_tail_trend_v1'' (RightTailTrend right_tail_default) = Inr (Some [(''1h'', 25)])"
    "scheduled ''right_tail_trend_v1'' (RightTailTrend right_tail_default) bar
       (get_runtime_requirements ''right_tail_trend_v1'') (Some [(''1h'', 25)]) = Inr True"
    "minimum_window_bars (get_runtime_requirements ''right_tail_trend_v1'') = 2"
  by (simp_all add: optional_frames_def right_tail_default_def scheduled_def on_decision_minute_def right_tail_hour_def
      hour_size_def get_runtime_requirements_def requirements_table_def default_requirements_def assms sample_hour_bars)

lemma sample_strategy_facts:
  assumes code: "code_fingerprint sample_core sample_right_tail = Inr code"
    and conf: "config_sha256 (config_value (RightTailTrend right_tail_default)) = Inr conf"
    and window: "window_sha256 sample_core sample_hour = Inr window"
    and gen: "\<And>i bars paper. gen i bars paper = Inr [sample_proposal code conf window]"
  shows "strategy_facts sample_core sample_right_tail_settings gen get_runtime_requirements (last sample_hour)
      sample_hour sample_right_tail =
    \<lparr>f_definition = Some sample_right_tail, f_code_sha256 = Some code, f_config_fingerprint = Some conf,
     f_window_sha256 = Some window, f_status = INTENT, f_reason = ''DIRECTIONAL_INTENT_GENERATED'',
     f_intents = [sample_proposal code conf window], f_error_type = None\<rparr>"
proof -
  let ?v = "sample_proposal code conf window"
  have config: "runtime_configuration sample_right_tail = Inr (RightTailTrend right_tail_default)"
    using make_default_configs by (simp add: runtime_configuration_def sample_right_tail_fields default_configs_def)
  have mode: "s_trading_mode sample_right_tail_settings = DRY_RUN"
    by (simp add: sample_right_tail_settings_def sample_settings_def)
  have v: "v_decision_ts_ms ?v = 3599999" "\<not> candidate_differs sample_right_tail (last sample_hour) code conf window ?v"
    by (simp_all add: sample_proposal_def intent_of_raw_def candidate_differs_def sample_right_tail_fields sample_hour_bars)
  have ok: "k_revalidate_intent sample_core ?v = Inr ?v" by (simp add: sample_core_def)
  show ?thesis
    by (simp add: strategy_facts_def evaluate_attempt_def evaluate_scheduled_def config conf code Let_def mode
        sample_right_tail_fields sample_right_tail_scheduled [OF refl] window gen v sample_hour_bars
        verify_candidate_def ok no_progress_def) (simp add: sample_hour_def)
qed

text \<open>The same run for any generator whose outcome is known.\<close>

abbreviation sample_run :: "runtime_generator \<Rightarrow> evaluation_batch result" where
  "sample_run gen \<equiv> evaluate_runtime_bar sample_core sample_generators sample_right_tail_settings ''p'' (\<lambda>_. 5) gen
     get_runtime_requirements (last sample_hour) sample_hour"

lemma sample_ids: "s_enabled_strategy_ids sample_right_tail_settings = [''right_tail_trend_v1'']"
  by (simp add: sample_right_tail_settings_def)

lemma sample_evaluation:
  assumes "strategy_facts sample_core sample_right_tail_settings gen get_runtime_requirements (last sample_hour)
      sample_hour sample_right_tail = f" and "list_all (\<lambda>v. v_intent_id v \<noteq> None) (f_intents f)"
  shows "\<exists>b. sample_run gen = Inr b"
proof -
  have "traverse (\<lambda>v. case v_intent_id v of
        None \<Rightarrow> Inl (ValueError ''an observed directional intent requires its canonical identity'')
      | Some i \<Rightarrow> Inr i) (sort_key intent_id_or_empty (f_intents f)) =
      Inr (map (\<lambda>v. the (v_intent_id v)) (sort_key intent_id_or_empty (f_intents f)))"
    using assms(2) by (intro traverse_total) (auto simp: list_all_iff)
  moreover have "sample_hour \<noteq> []" by (simp add: sample_hour_def)
  ultimately have "\<exists>e. make_receipt sample_core sample_right_tail_settings ''p'' (last sample_hour) sample_hour 5 f = Inr e"
    by (auto simp: make_receipt_def Let_def sample_hour_bars sample_core_def)
  with assms(1) show ?thesis
    by (auto simp: evaluate_runtime_bar_def sample_hour_bars sample_right_tail_settings_def
        evaluate_strategy_def sample_get_strategy Let_def)
qed

lemma sample_intent_run: obtains gen b where "sample_run gen = Inr b"
proof -
  obtain code conf where c: "code_fingerprint sample_core sample_right_tail = Inr code"
    "config_sha256 (config_value (RightTailTrend right_tail_default)) = Inr conf" by (rule sample_fingerprints)
  obtain window where w: "window_sha256 sample_core sample_hour = Inr window" by (rule sample_window_hash)
  have "v_intent_id (sample_proposal code conf window) \<noteq> None" by (simp add: sample_proposal_def intent_of_raw_def)
  then show ?thesis using sample_evaluation [OF sample_strategy_facts [OF c w refl]] that by auto
qed

subsection \<open>The properties\<close>

text \<open>When strategies are enabled, a successful evaluation of a bar returns exactly one receipt for
  every enabled strategy, in the configured order, and each of them names the bar it observed (symbol, decision time
  and canonical bar hash), the policy and the allow-list; it is marked complete exactly for the two outcomes that ran
  the whole analysis.\<close>

theorem evaluation_one_receipt_each:
  assumes K: "faithful_contracts K" and run: "evaluate_runtime_bar K G s policy clock gen req bar history = Inr b"
    and ids: "s_enabled_strategy_ids s \<noteq> []"
  shows "map r_strategy_id (x_evaluations b) = map Some (s_enabled_strategy_ids s) \<and>
    list_all (\<lambda>e. r_scope e = ''STRATEGY'' \<and> r_symbol e = b_symbol bar \<and> r_decision_ts_ms e = b_close_time_ms bar \<and>
      b_bar_sha256 bar = Some (r_anchor_bar_sha256 e) \<and> r_runtime_policy_sha256 e = policy \<and>
      r_enabled_strategy_ids e = s_enabled_strategy_ids s \<and>
      (r_evaluation_complete e \<longleftrightarrow> r_status e \<in> {INTENT, NO_INTENT})) (x_evaluations b)"
proof -
  from evaluate_runtime_bar_receipts [OF run ids] obtain ordered where
    len: "length (x_evaluations b) = length (s_enabled_strategy_ids s)" and
    each: "\<And>k. k < length (x_evaluations b) \<Longrightarrow> \<exists>d. receipt_of K G s policy gen req bar ordered (clock k)
        (s_enabled_strategy_ids s ! k) d (x_evaluations b ! k)" by blast
  have "r_strategy_id (x_evaluations b ! k) = Some (s_enabled_strategy_ids s ! k)" if "k < length (x_evaluations b)" for k
    using each [OF that] receipt_of_sound(2) [OF K] by blast
  then have "map r_strategy_id (x_evaluations b) = map Some (s_enabled_strategy_ids s)"
    by (simp add: list_eq_iff_nth_eq len)
  moreover have "r_scope e = ''STRATEGY'' \<and> r_symbol e = b_symbol bar \<and> r_decision_ts_ms e = b_close_time_ms bar \<and>
      b_bar_sha256 bar = Some (r_anchor_bar_sha256 e) \<and> r_runtime_policy_sha256 e = policy \<and>
      r_enabled_strategy_ids e = s_enabled_strategy_ids s \<and>
      (r_evaluation_complete e \<longleftrightarrow> r_status e \<in> {INTENT, NO_INTENT})" if "e \<in> set (x_evaluations b)" for e
  proof -
    from that each obtain i now d where r: "receipt_of K G s policy gen req bar ordered now i d e"
      by (metis in_set_conv_nth)
    note m = make_receipt_Inr [OF K receipt_of_make [OF r]]
    show ?thesis using m receipt_of_sound(4) [OF K r] by simp
  qed
  ultimately show ?thesis by (simp add: list_all_iff)
qed

theorem evaluation_one_receipt_each_witness:
  "\<exists>gen b. sample_run gen = Inr b \<and> map r_strategy_id (x_evaluations b) = [Some ''right_tail_trend_v1'']"
proof -
  obtain gen b where b: "sample_run gen = Inr b" by (rule sample_intent_run)
  from evaluation_one_receipt_each [OF sample_core_faithful b] have
    "map r_strategy_id (x_evaluations b) = map Some (s_enabled_strategy_ids sample_right_tail_settings)"
    by (rule conjunct1) (simp add: sample_ids)
  then show ?thesis using b by (intro exI conjI) (assumption, simp only: sample_ids list.map)
qed

text \<open>Property C3: every receipt is earned, whatever the generators do. The \<open>k\<close>-th receipt belongs to the
  \<open>k\<close>-th enabled strategy and its status is explained by that very history: \<open>NO_INTENT\<close> only if the strategy
  was allowed in the trading mode, had its registered minimum history, was on its decision clock, has a reviewed
  readiness policy whose complete-frame lookback and volume context the history satisfies, and the generator really ran
  and proposed nothing for this bar; \<open>INTENT\<close> only if it proposed something on its clock; \<open>WARMUP\<close>,
  \<open>NOT_SCHEDULED\<close> and \<open>DISABLED\<close> only for the corresponding reason.\<close>

theorem receipts_are_earned:
  assumes K: "faithful_contracts K" and run: "evaluate_runtime_bar K G s policy clock gen req bar history = Inr b"
    and ids: "s_enabled_strategy_ids s \<noteq> []"
  shows "\<exists>ordered. canonical_closed_bars history = Inr ordered \<and> b_bar_sha256 (last ordered) = b_bar_sha256 bar \<and>
    list_all2 (\<lambda>i e. \<exists>d. get_strategy G i = Inr d \<and> r_strategy_id e = Some i \<and>
        status_explained K s gen req d bar ordered (r_status e)) (s_enabled_strategy_ids s) (x_evaluations b)"
proof -
  from evaluate_runtime_bar_receipts [OF run ids] obtain ordered where
    o: "canonical_closed_bars history = Inr ordered" "b_bar_sha256 (last ordered) = b_bar_sha256 bar" and
    len: "length (x_evaluations b) = length (s_enabled_strategy_ids s)" and
    each: "\<And>k. k < length (x_evaluations b) \<Longrightarrow> \<exists>d. receipt_of K G s policy gen req bar ordered (clock k)
        (s_enabled_strategy_ids s ! k) d (x_evaluations b ! k)" by blast
  have "list_all2 (\<lambda>i e. \<exists>d. get_strategy G i = Inr d \<and> r_strategy_id e = Some i \<and>
        status_explained K s gen req d bar ordered (r_status e)) (s_enabled_strategy_ids s) (x_evaluations b)"
  proof (rule list_all2_all_nthI)
    fix k assume "k < length (s_enabled_strategy_ids s)"
    then obtain d where r: "receipt_of K G s policy gen req bar ordered (clock k)
        (s_enabled_strategy_ids s ! k) d (x_evaluations b ! k)" using each len by metis
    show "\<exists>d. get_strategy G (s_enabled_strategy_ids s ! k) = Inr d \<and>
        r_strategy_id (x_evaluations b ! k) = Some (s_enabled_strategy_ids s ! k) \<and>
        status_explained K s gen req d bar ordered (r_status (x_evaluations b ! k))"
      using receipt_of_sound [OF K r] receipt_of_get [OF r] receipt_of_status [OF K r]
      by (auto simp: facts_sound_def)
  qed (simp add: len)
  with o show ?thesis by blast
qed

theorem receipts_are_earned_witness:
  "\<exists>gen b e d. sample_run gen = Inr b \<and> x_evaluations b = [e] \<and>
     status_explained sample_core sample_right_tail_settings gen get_runtime_requirements d
      (last sample_hour) sample_hour (r_status e)"
proof -
  obtain gen b where b: "sample_run gen = Inr b" by (rule sample_intent_run)
  have "s_enabled_strategy_ids sample_right_tail_settings \<noteq> []" by (simp add: sample_ids)
  from receipts_are_earned [OF sample_core_faithful b this] obtain e d where "x_evaluations b = [e]"
    "status_explained sample_core sample_right_tail_settings gen get_runtime_requirements d
      (last sample_hour) sample_hour (r_status e)"
    unfolding sample_ids sample_hour_bars(1) list_all2_Cons1 list_all2_Nil by blast
  with b show ?thesis by blast
qed

text \<open>Property C7: the candidates of a batch are exactly those its receipts name: they are sorted by decision time,
  symbol, strategy, side and identity, every candidate was decided at this bar's close for this symbol and carries the
  code, configuration and window fingerprints recorded in an \<open>INTENT\<close> receipt of its own strategy, and the identities
  listed by the receipts are those of the candidates, counted with multiplicity.\<close>

theorem batch_matches_receipts:
  assumes K: "faithful_contracts K" and run: "evaluate_runtime_bar K G s policy clock gen req bar history = Inr b"
    and ids: "s_enabled_strategy_ids s \<noteq> []"
  shows "sorted (map batch_key (x_intents b)) \<and>
    mset (map v_intent_id (x_intents b)) = mset (map Some (concat (map r_intent_ids (x_evaluations b)))) \<and>
    (\<forall>v \<in> set (x_intents b). v_decision_ts_ms v = b_close_time_ms bar \<and> v_symbol v = b_symbol bar \<and>
       (\<exists>e \<in> set (x_evaluations b). r_status e = INTENT \<and> r_strategy_id e = Some (v_strategy_id v) \<and>
          r_strategy_code_sha256 e = Some (p_strategy_code_sha256 (v_provenance v)) \<and>
          r_config_sha256 e = Some (p_config_sha256 (v_provenance v)) \<and>
          r_input_window_sha256 e = Some (p_input_window_sha256 (v_provenance v))))"
proof -
  from evaluate_runtime_bar_InrE [OF run ids] obtain ordered rs where
    len: "length rs = length (s_enabled_strategy_ids s)" and
    rs: "\<And>k. k < length rs \<Longrightarrow> evaluate_strategy K G s policy gen req bar ordered (clock k)
        (s_enabled_strategy_ids s ! k) = Inr (rs ! k)" and
    es: "x_evaluations b = map fst rs" and vs: "x_intents b = sort_key batch_key (concat (map snd rs))" by metis
  have each: "\<exists>i now d. receipt_of K G s policy gen req bar ordered now i d (fst r) \<and>
      snd r = f_intents (strategy_facts K s gen req bar ordered d)" if "r \<in> set rs" for r
    using rs that by (metis evaluate_strategy_Inr_iff in_set_conv_nth prod.collapse)
  have "mset (map v_intent_id (snd r)) = mset (map Some (r_intent_ids (fst r)))" if "r \<in> set rs" for r
    using each [OF that] make_receipt_Inr(3) [OF K receipt_of_make] by (metis mset_map mset_sort)
  then have "mset (map v_intent_id (concat (map snd rs))) = mset (map Some (concat (map r_intent_ids (map fst rs))))"
    by (induction rs) (auto simp: image_mset_union)
  then have ids_eq: "mset (map v_intent_id (x_intents b)) = mset (map Some (concat (map r_intent_ids (x_evaluations b))))"
    by (simp add: vs es)
  have "v_decision_ts_ms v = b_close_time_ms bar \<and> v_symbol v = b_symbol bar \<and>
       (\<exists>e \<in> set (x_evaluations b). r_status e = INTENT \<and> r_strategy_id e = Some (v_strategy_id v) \<and>
          r_strategy_code_sha256 e = Some (p_strategy_code_sha256 (v_provenance v)) \<and>
          r_config_sha256 e = Some (p_config_sha256 (v_provenance v)) \<and>
          r_input_window_sha256 e = Some (p_input_window_sha256 (v_provenance v)))" if v: "v \<in> set (x_intents b)" for v
  proof -
    from v obtain r where r: "r \<in> set rs" "v \<in> set (snd r)" by (auto simp: vs)
    from each [OF r(1)] obtain i now d where i: "receipt_of K G s policy gen req bar ordered now i d (fst r)"
      and in_f: "v \<in> set (f_intents (strategy_facts K s gen req bar ordered d))" using r(2) by auto
    have "fst r \<in> set (x_evaluations b)" using r(1) by (simp add: es)
    with receipt_of_sound [OF K i] in_f make_receipt_Inr [OF K receipt_of_make [OF i]] show ?thesis
      unfolding facts_sound_def candidate_differs_def by (metis empty_iff list.set(1))
  qed
  then show ?thesis using ids_eq by (simp add: vs)
qed

theorem batch_matches_receipts_witness:
  "\<exists>gen b. sample_run gen = Inr b \<and>
     mset (map v_intent_id (x_intents b)) = mset (map Some (concat (map r_intent_ids (x_evaluations b))))"
proof -
  obtain gen b where b: "sample_run gen = Inr b" by (rule sample_intent_run)
  have "s_enabled_strategy_ids sample_right_tail_settings \<noteq> []" by (simp add: sample_ids)
  with batch_matches_receipts [OF sample_core_faithful b] b show ?thesis by blast
qed





end
