(* ===== verification/FlatHistory.thy ===== *)
theory FlatHistory
  imports Evaluation
begin

section \<open>A market that does not move\<close>

text \<open>
  A concrete history of any length, for witnesses: every minute trades the same volume in the same narrow range. Its
  canonical order, its five-minute frames and its bar window are known in closed form.
\<close>

definition flat_candle :: "string \<Rightarrow> int \<Rightarrow> int \<Rightarrow> rat \<Rightarrow> candle" where
  "flat_candle tf sz opened n =
    \<lparr>c_symbol = ''BTCUSDT'', c_timeframe = tf, c_open_time_ms = opened, c_close_time_ms = opened + sz - 1,
     c_open = Num 100, c_high = Num 101, c_low = Num 99, c_close = Num 100, c_volume = Num (2 * n),
     c_quote_volume = Num (200 * n), c_taker_buy_volume = Num n, c_taker_buy_quote_volume = Num (100 * n)\<rparr>"

definition flat_minute :: "nat \<Rightarrow> candle" where
  "flat_minute i = flat_candle ''1m'' 60000 (60000 * int i) 1"

definition flat_frame :: "nat \<Rightarrow> candle" where
  "flat_frame k = flat_candle ''5m'' 300000 (300000 * int k) 5"

definition flat_minutes :: "nat \<Rightarrow> candle list" where
  "flat_minutes n = map flat_minute [0..<n]"

lemma flat_times [simp]:
  "c_open_time_ms (flat_minute i) = 60000 * int i" "c_close_time_ms (flat_minute i) = 60000 * int i + 59999"
  "c_open_time_ms (flat_frame k) = 300000 * int k"
  by (simp_all add: flat_minute_def flat_candle_def flat_frame_def)

lemma flat_candle_valid:
  assumes "0 \<le> opened" "1 < sz" "0 < n" "strip tf \<noteq> []"
  shows "make_candle (flat_candle tf sz opened n) = Inr (flat_candle tf sz opened n)"
  using assms by (simp add: make_candle_def flat_candle_def validate_Inr_iff candle_prices_def candle_volumes_def fmin_Cons fmax_Cons
      strip_def is_space_def Let_def)

lemma flat_minute_valid: "make_candle (flat_minute i) = Inr (flat_minute i)"
  by (simp add: flat_minute_def flat_candle_valid strip_def is_space_def Let_def)

lemma flat_canonical: "canonical_candles (flat_minutes n) (Some ''1m'') = Inr (flat_minutes n)"
proof -
  have "sort_key candle_key (flat_minutes n) = flat_minutes n"
    by (rule sort_key_eqI [OF refl]) (auto simp: flat_minutes_def sorted_wrt_iff_nth_less candle_key_def)
  moreover have "successively candle_before (flat_minutes n)"
    by (auto simp: flat_minutes_def successively_conv_nth candle_before_def)
  moreover have "list_all (row_ok (c_symbol (hd (flat_minutes n))) (resolve_timeframe (Some ''1m'') (hd (flat_minutes n))))
      (flat_minutes n)" if "flat_minutes n \<noteq> []"
    using that by (auto simp: flat_minutes_def list_all_iff row_ok_def resolve_timeframe_def flat_minute_def flat_candle_def
        hd_map)
  ultimately show ?thesis by (simp add: canonical_candles_Inr_iff)
qed

subsection \<open>The five-minute frames\<close>

lemma filter_range_upt: "a \<le> b \<Longrightarrow> b \<le> n \<Longrightarrow> filter (\<lambda>i. a \<le> i \<and> i < b) [0..<n] = [a..<b]"
proof -
  assume "a \<le> b" "b \<le> n"
  then have "[0..<n] = [0..<a] @ [a..<b] @ [b..<n]"
    using upt_add_eq_append [of 0 b "n - b"] upt_add_eq_append [of 0 a "b - a"] by simp
  moreover have "filter (\<lambda>i. a \<le> i \<and> i < b) [0..<a] = []" "filter (\<lambda>i. a \<le> i \<and> i < b) [b..<n] = []"
    "filter (\<lambda>i. a \<le> i \<and> i < b) [a..<b] = [a..<b]"
    by (auto simp: filter_empty_conv filter_id_conv)
  ultimately show ?thesis by simp
qed

lemma flat_bucket_key: "bucket_key 300000 (flat_minute i) = 300000 * int (i div 5)"
proof -
  have "60000 * int i div 300000 = int i div 5" using div_mult_mult1 [of 60000 "int i" 5] by simp
  then show ?thesis by (simp add: bucket_key_def zdiv_int)
qed

lemma flat_bucket_keys: "bucket_keys 300000 (flat_minutes (5 * n)) = map (\<lambda>k. 300000 * int k) [0..<n]"
proof -
  let ?ks = "map (\<lambda>k. 300000 * int k) [0..<n]"
  have "bucket_key 300000 ` set (flat_minutes (5 * n)) = set ?ks"
  proof -
    have "(\<lambda>i. i div 5) ` {0..<5 * n} = {0..<n}"
    proof
      show "{0..<n} \<subseteq> (\<lambda>i. i div 5) ` {0..<5 * n}"
        by (rule subsetI) (rule image_eqI [where x = "5 * _"], auto)
    qed auto
    then have "(\<lambda>k. 300000 * int k) ` (\<lambda>i. i div 5) ` {0..<5 * n} = set ?ks" by simp
    then show ?thesis by (simp add: flat_minutes_def image_image flat_bucket_key)
  qed
  moreover have "sorted ?ks" "distinct ?ks"
    by (auto simp: sorted_iff_nth_mono distinct_map inj_on_def)
  ultimately show ?thesis
    unfolding bucket_keys_def by (simp only: sorted_list_of_set.idem_if_sorted_distinct)
qed

lemma flat_bucket_rows:
  assumes "k < n"
  shows "bucket_rows 300000 (flat_minutes (5 * n)) (300000 * int k) = map flat_minute [5 * k..<5 * k + 5]"
proof -
  have "bucket_rows 300000 (flat_minutes (5 * n)) (300000 * int k) =
      map flat_minute (filter (\<lambda>i. i div 5 = k) [0..<5 * n])"
    by (simp add: bucket_rows_def flat_minutes_def filter_map comp_def flat_bucket_key)
  also have "filter (\<lambda>i. i div 5 = k) [0..<5 * n] = filter (\<lambda>i. 5 * k \<le> i \<and> i < 5 * k + 5) [0..<5 * n]"
    by (rule filter_cong) auto
  also have "\<dots> = [5 * k..<5 * k + 5]" using assms by (intro filter_range_upt) auto
  finally show ?thesis .
qed

lemma flat_merge: "merge_rows ''5m'' 300000 (300000 * int k) (map flat_minute [5 * k..<5 * k + 5]) = Inr (flat_frame k)"
proof -
  have "[5 * k..<5 * k + 5] = [5 * k, 5 * k + 1, 5 * k + 2, 5 * k + 3, 5 * k + 4]" by (simp add: upt_rec)
  then have "merge_rows ''5m'' 300000 (300000 * int k) (map flat_minute [5 * k..<5 * k + 5]) =
      make_candle (merged_candle ''5m'' 300000 (300000 * int k) (flat_minute (5 * k))
        (map flat_minute [5 * k + 1, 5 * k + 2, 5 * k + 3, 5 * k + 4]))" by simp
  also have "merged_candle ''5m'' 300000 (300000 * int k) (flat_minute (5 * k))
        (map flat_minute [5 * k + 1, 5 * k + 2, 5 * k + 3, 5 * k + 4]) = flat_frame k"
    by (simp add: merged_candle_def flat_minute_def flat_candle_def flat_frame_def fmax_Cons fmin_Cons fsum_builtin_def
        fadd_def rnd_numeral)
  also have "make_candle (flat_frame k) = Inr (flat_frame k)"
    by (simp add: flat_frame_def flat_candle_valid strip_def is_space_def Let_def)
  finally show ?thesis .
qed

lemma flat_aggregate: "aggregate (flat_minutes (5 * n)) ''5m'' = Inr (map flat_frame [0..<n])"
proof -
  have emit: "emitted ''5m'' 300000 (flat_minutes (5 * n)) (300000 * int k) = Inr [flat_frame k]" if "k < n" for k
    using flat_merge [of k] flat_bucket_rows [OF that]
    by (simp add: emitted_def emit_bucket_def bucket_skipped_iff successively_conv_nth)
  have "aggregate (flat_minutes (5 * n)) ''5m'' =
      extend_all (emitted ''5m'' 300000 (flat_minutes (5 * n))) (map (\<lambda>k. 300000 * int k) [0..<n])"
    unfolding flat_bucket_keys [symmetric]
    by (rule aggregate_eq [OF _ _ flat_canonical])
      (auto simp: timeframe_ms_def timeframe_table_def flat_minutes_def list_all_iff is_minute_bar_def)
  also have "\<dots> = rmap concat (traverse (\<lambda>k. emitted ''5m'' 300000 (flat_minutes (5 * n)) (300000 * int k)) [0..<n])"
    by (simp add: extend_all_def traverse_map)
  also have "traverse (\<lambda>k. emitted ''5m'' 300000 (flat_minutes (5 * n)) (300000 * int k)) [0..<n] =
      Inr (map (\<lambda>k. [flat_frame k]) [0..<n])"
    by (rule traverse_total) (simp add: emit)
  finally show ?thesis by (simp add: comp_def)
qed

subsection \<open>The bars\<close>

definition flat_bars :: "nat \<Rightarrow> closed_bar list" where
  "flat_bars n = map (\<lambda>c. bar_of_candle c ''h'') (flat_minutes n)"

lemma flat_bars_candles: "traverse closed_bar_to_candle (flat_bars n) = Inr (flat_minutes n)"
proof -
  have "closed_bar_to_candle (bar_of_candle (flat_minute i) ''h'') = Inr (flat_minute i)" for i
    using flat_minute_valid [of i]
    by (simp add: closed_bar_to_candle_def candle_of_bar_def bar_of_candle_def flat_minute_def flat_candle_def)
  then have "traverse (\<lambda>i. closed_bar_to_candle (bar_of_candle (flat_minute i) ''h'')) [0..<n] = Inr (map flat_minute [0..<n])"
    by (intro traverse_total) simp
  then show ?thesis by (simp add: flat_bars_def flat_minutes_def traverse_map)
qed

lemma flat_bars_canonical: "0 < n \<Longrightarrow> canonical_closed_bars (flat_bars n) = Inr (flat_bars n)"
  unfolding canonical_closed_bars_Inr_iff
proof (intro conjI)
  show "flat_bars n = sort_key b_open_time_ms (flat_bars n)"
    by (rule sort_key_eqI [OF refl, symmetric]) (auto simp: flat_bars_def flat_minutes_def sorted_wrt_iff_nth_less bar_of_candle_def)
  show "successively follows (flat_bars n)"
    by (auto simp: flat_bars_def flat_minutes_def successively_conv_nth follows_def bar_of_candle_def)
  show "list_all (\<lambda>b. b_symbol b = b_symbol (hd (flat_bars n)) \<and> b_venue b = b_venue (hd (flat_bars n))) (flat_bars n)"
    if "0 < n"
    using that by (auto simp: flat_bars_def flat_minutes_def list_all_iff hd_map bar_of_candle_def flat_minute_def flat_candle_def)
qed (auto simp: flat_bars_def flat_minutes_def)

end
