(* ===== verification/Campaign.thy ===== *)
theory Campaign
  imports FlatHistory
begin

section \<open>The causal campaign evaluator (campaign.py)\<close>

text \<open>
  \<open>CausalStrategyEvaluator\<close> evaluates one explicitly selected strategy on a preregistered observation window. Its
  state is frozen at construction; every evaluation rechecks it before, between and after the steps that may
  take time. The contracts of the persistence package and the schemas they publish are the argument \<open>H\<close>; the
  installed files may change between two checks, so an evaluation takes the core package as it is found at
  each of the moments 0 (entry), 1 (history loaded), 2 (generation) and 3 (after generation).
\<close>

subsection \<open>Contracts of the persistence package\<close>

record aware_time =
  tm_local_us :: int
  tm_offset_us :: "int option"

record observation_window =
  ow_sample_id :: string
  ow_symbol :: string
  ow_timeframe :: string
  ow_market_as_of_ts_ms :: int
  ow_paired_at_ts_ms :: int
  ow_market_snapshot_sha256 :: "string option"

record source_receipt =
  rc_campaign_id :: string
  rc_sample_id :: string
  rc_schedule_digest :: string
  rc_candidate_protocol_digest :: string
  rc_source_kind :: string
  rc_source_name :: string
  rc_source_as_of_ts_ms :: int
  rc_observed_at_ts_ms :: int
  rc_content :: py_value
  rc_content_sha256 :: string
  rc_receipt_sha256 :: "string option"

record market_context =
  cx_anchor_bar :: closed_bar
  cx_snapshot_symbol :: string
  cx_snapshot_timeframe :: string
  cx_snapshot_produced_at :: aware_time
  cx_bar_window_reference :: string
  cx_bar_window_sha256 :: string
  cx_bar_count :: int
  cx_first_open_time_ms :: int

record baseline_result =
  br_context_source_receipt_sha256 :: string
  br_bar_window_sha256 :: string
  br_bar_count :: int
  br_intent :: "strategy_intent option"

record persistence_package =
  h_revalidate_window :: "observation_window \<Rightarrow> observation_window result"
  h_revalidate_receipt :: "source_receipt \<Rightarrow> source_receipt result"
  h_validate_context :: "py_value \<Rightarrow> market_context result"
  h_revalidate_bar :: "closed_bar \<Rightarrow> closed_bar result"
  h_make_result :: "baseline_result \<Rightarrow> baseline_result result"
  h_context_schema :: py_value
  h_result_schema :: py_value

definition evaluation_error :: "string \<Rightarrow> py_error" where
  "evaluation_error = CausalStrategyEvaluationError"

subsection \<open>The frozen evaluator\<close>

record evaluator =
  q_strategy_id :: string
  q_strategy_revision :: string
  q_campaign_id :: string
  q_schedule_digest :: string
  q_protocol_digest :: string
  q_config :: strategy_config
  q_definition :: strategy_definition
  q_requirements :: runtime_requirements
  q_frame_requirements :: frame_requirements
  q_minimum_window_bars :: int
  q_config_sha256 :: string
  q_strategy_source_sha256 :: string
  q_adapter_source_sha256 :: string
  q_artifact_sha256 :: string

definition max_window_bars :: int where
  "max_window_bars = 50000"

definition adapter_files :: "string list" where
  "adapter_files = [''campaign.py'', ''runtime_requirements.py'']"

definition is_alnum_ascii :: "char \<Rightarrow> bool" where
  "is_alnum_ascii c \<longleftrightarrow>
     (let n = of_char c :: nat in 48 \<le> n \<and> n \<le> 57 \<or> 65 \<le> n \<and> n \<le> 90 \<or> 97 \<le> n \<and> n \<le> 122)"

definition checked_identifier :: "string \<Rightarrow> string \<Rightarrow> string result" where
  "checked_identifier value name =
     (if value = [] \<or> 128 < length value \<or> \<not> is_alnum_ascii (hd value) \<or>
         list_ex (\<lambda>c. \<not> (is_alnum_ascii c \<or> c \<in> set ''._:-'')) value
      then Inl (ValueError (name @ '' must be a normalized explicit identifier''))
      else Inr value)"

definition checked_digest :: "string \<Rightarrow> string \<Rightarrow> string result" where
  "checked_digest value name =
     (if length value \<noteq> 64 \<or> list_ex (\<lambda>c. c \<notin> set ''0123456789abcdef'') value
      then Inl (ValueError (name @ '' must be a lowercase SHA-256''))
      else Inr value)"

text \<open>The digest of the policy of an evaluator.\<close>

definition artifact_value :: "evaluator \<Rightarrow> string \<Rightarrow> string \<Rightarrow> py_value" where
  "artifact_value q context_schema result_schema = str_dict
    [(''policy_version'', PStr ''causal-registered-strategy-evaluator.v2''),
     (''strategy_id'', PStr (q_strategy_id q)),
     (''strategy_revision'', PStr (q_strategy_revision q)),
     (''strategy_source_sha256'', PStr (q_strategy_source_sha256 q)),
     (''config_sha256'', PStr (q_config_sha256 q)),
     (''adapter_source_sha256'', PStr (q_adapter_source_sha256 q)),
     (''minimum_window_bars'', PInt (q_minimum_window_bars q)),
     (''maximum_window_bars'', PInt max_window_bars),
     (''complete_frame_requirements'',
        PList (map (\<lambda>(frame, n). PList [PStr frame, PInt n]) (q_frame_requirements q))),
     (''warmup'', PStr ''actual-complete-frames-finite-seed-only-not-convergence''),
     (''orderflow_warmup'', PStr ''trailing-contiguous-positive-volume-5m-segment-only''),
     (''decision_interval_bars'', PInt (decision_interval_bars (q_requirements q))),
     (''decision_phase_bars'', PInt (decision_phase_bars (q_requirements q))),
     (''history'', PStr ''complete-ordered-canonical-contiguous-window-only''),
     (''selection'', PStr ''exact-anchor-close-only-reject-multiple''),
     (''intent'', PStr ''unchanged-strategy-intent.v1-for-paper-false''),
     (''context_schema_sha256'', PStr context_schema),
     (''result_schema_sha256'', PStr result_schema)]"

definition artifact :: "core_package \<Rightarrow> persistence_package \<Rightarrow> evaluator \<Rightarrow> string result" where
  "artifact K H q =
     rbind (k_contract_sha256 K (h_context_schema H)) (\<lambda>context_schema.
     rbind (k_contract_sha256 K (h_result_schema H)) (\<lambda>result_schema.
       canonical_sha256 (artifact_value q context_schema result_schema)))"

text \<open>\<open>TIMEFRAME_MS[frame] // 60_000 * count\<close> for every required frame.\<close>

definition frame_bars :: "string \<times> int \<Rightarrow> int result" where
  "frame_bars = (\<lambda>(frame, count). case timeframe_ms frame of
     None \<Rightarrow> Inl (KeyError frame) | Some sz \<Rightarrow> Inr (sz div 60000 * count))"

definition minimum_seed_bars :: "runtime_requirements \<Rightarrow> frame_requirements \<Rightarrow> int result" where
  "minimum_seed_bars r frames = rmap (\<lambda>ns. foldl max (minimum_window_bars r) ns) (traverse frame_bars frames)"

definition check_warmup :: "runtime_requirements \<Rightarrow> frame_requirements \<Rightarrow> int \<Rightarrow> unit result" where
  "check_warmup r frames bars =
     rbind (minimum_seed_bars r frames) (\<lambda>seed.
       if seed \<le> bars \<and> bars \<le> max_window_bars then Inr ()
       else Inl (evaluation_error
         ''explicit warmup must cover configured complete-frame and registered bounds up to 50000''))"

text \<open>The parts of the constructor after the five identifiers have been checked.\<close>

definition seal ::
  "core_package \<Rightarrow> persistence_package \<Rightarrow> evaluator \<Rightarrow> evaluator result" where
  "seal K H q =
     rbind (check_warmup (q_requirements q) (q_frame_requirements q) (q_minimum_window_bars q)) (\<lambda>_.
     rbind (config_sha256 (config_value (q_config q))) (\<lambda>conf.
     rbind (installed_source_tree_sha256 (k_read_source K) (d_source_files (q_definition q))) (\<lambda>code.
     rbind (installed_source_tree_sha256 (k_read_source K) adapter_files) (\<lambda>adapter.
       let q = q\<lparr>q_config_sha256 := conf, q_strategy_source_sha256 := code, q_adapter_source_sha256 := adapter\<rparr>
       in rmap (\<lambda>a. q\<lparr>q_artifact_sha256 := a\<rparr>) (artifact K H q)))))"

definition select ::
  "sleeve_generators \<Rightarrow> string \<Rightarrow> string \<Rightarrow> strategy_config \<Rightarrow> int \<Rightarrow> string \<Rightarrow> string \<Rightarrow> string \<Rightarrow> evaluator result" where
  "select G strategy_id revision config bars campaign schedule protocol =
     rbind (get_strategy G strategy_id) (\<lambda>d.
       if d_revision d \<noteq> revision
       then Inl (evaluation_error ''selected registry revision differs from declared revision'')
       else if config_class config \<noteq> d_config_type d
       then Inl (TypeError ''config must be the explicitly selected registered dataclass type'')
       else rbind (make_config config) (\<lambda>config.
            rmap (\<lambda>frames.
                \<lparr>q_strategy_id = strategy_id, q_strategy_revision = revision, q_campaign_id = campaign,
                 q_schedule_digest = schedule, q_protocol_digest = protocol, q_config = config,
                 q_definition = d, q_requirements = get_runtime_requirements strategy_id,
                 q_frame_requirements = frames, q_minimum_window_bars = bars, q_config_sha256 = [],
                 q_strategy_source_sha256 = [], q_adapter_source_sha256 = [], q_artifact_sha256 = []\<rparr>)
              (complete_frame_requirements strategy_id config)))"

definition make_evaluator ::
  "core_package \<Rightarrow> persistence_package \<Rightarrow> sleeve_generators \<Rightarrow> string \<Rightarrow> string \<Rightarrow> strategy_config \<Rightarrow> int \<Rightarrow>
   string \<Rightarrow> string \<Rightarrow> string \<Rightarrow> evaluator result" where
  "make_evaluator K H G strategy_id revision config bars campaign schedule protocol =
     rbind (checked_identifier strategy_id ''strategy_id'') (\<lambda>strategy_id.
     rbind (checked_identifier revision ''strategy_revision'') (\<lambda>revision.
     rbind (checked_identifier campaign ''campaign_id'') (\<lambda>campaign.
     rbind (checked_digest schedule ''schedule_digest'') (\<lambda>schedule.
     rbind (checked_digest protocol ''candidate_protocol_digest'') (\<lambda>protocol.
     rbind (select G strategy_id revision config bars campaign schedule protocol) (seal K H))))))"

subsection \<open>Nothing has changed\<close>

fun in_order :: "unit result list \<Rightarrow> unit result" where
  "in_order [] = Inr ()"
| "in_order (r # rs) = rbind r (\<lambda>_. in_order rs)"

definition unchanged :: "'a result \<Rightarrow> 'a \<Rightarrow> unit result" where
  "unchanged now frozen =
     rbind now (\<lambda>x. if x = frozen then Inr ()
       else Inl (evaluation_error ''selected evaluator source, config or policy changed''))"

definition assert_frozen ::
  "core_package \<Rightarrow> persistence_package \<Rightarrow> sleeve_generators \<Rightarrow> evaluator \<Rightarrow> unit result" where
  "assert_frozen K H G q = in_order
    [unchanged (get_strategy G (q_strategy_id q)) (q_definition q),
     unchanged (Inr (get_runtime_requirements (q_strategy_id q))) (q_requirements q),
     unchanged (Inr (config_class (q_config q))) (d_config_type (q_definition q)),
     unchanged (config_sha256 (config_value (q_config q))) (q_config_sha256 q),
     unchanged (complete_frame_requirements (q_strategy_id q) (q_config q)) (q_frame_requirements q),
     unchanged (installed_source_tree_sha256 (k_read_source K) (d_source_files (q_definition q)))
       (q_strategy_source_sha256 q),
     unchanged (installed_source_tree_sha256 (k_read_source K) adapter_files) (q_adapter_source_sha256 q),
     unchanged (artifact K H q) (q_artifact_sha256 q)]"

subsection \<open>The market source of a window\<close>

definition check_source ::
  "persistence_package \<Rightarrow> evaluator \<Rightarrow> observation_window \<Rightarrow> source_receipt \<Rightarrow> source_receipt result" where
  "check_source H q window source =
     (if rc_receipt_sha256 source = None
      then Inl (TypeError ''source must carry its independently saved typed receipt identity'')
      else rbind (h_revalidate_receipt H source) (\<lambda>receipt.
        if rc_campaign_id receipt \<noteq> q_campaign_id q \<or> rc_sample_id receipt \<noteq> ow_sample_id window \<or>
           rc_schedule_digest receipt \<noteq> q_schedule_digest q \<or>
           rc_candidate_protocol_digest receipt \<noteq> q_protocol_digest q \<or>
           \<not> (rc_source_as_of_ts_ms receipt \<le> rc_observed_at_ts_ms receipt \<and>
              rc_observed_at_ts_ms receipt \<le> ow_market_as_of_ts_ms window)
        then Inl (evaluation_error ''source scope or actual capture clock differs from window'')
        else Inr receipt))"

definition market_source ::
  "persistence_package \<Rightarrow> evaluator \<Rightarrow> observation_window \<Rightarrow> source_receipt list \<Rightarrow> source_receipt result" where
  "market_source H q window sources =
     (if sources = [] then Inl (TypeError ''sources must be the explicit nonempty typed frozen source tuple'')
      else rbind (traverse (check_source H q window) sources) (\<lambda>validated.
        if \<not> distinct (map (\<lambda>s. (rc_source_kind s, rc_source_name s)) validated) \<or>
           \<not> distinct (map rc_receipt_sha256 validated)
        then Inl (evaluation_error ''source bundle repeats a source slot or receipt'')
        else case filter (\<lambda>s. rc_source_kind s = ''MARKET_SNAPSHOT'') validated of
          [market] \<Rightarrow>
            (if ow_market_snapshot_sha256 window \<noteq> None \<and>
                ow_market_snapshot_sha256 window \<noteq> Some (rc_content_sha256 market)
             then Inl (evaluation_error ''market context hash differs from preregistered window'')
             else Inr market)
        | _ \<Rightarrow> Inl (evaluation_error ''source bundle must contain exactly one market context'')))"

subsection \<open>The source clock\<close>

text \<open>
  An aware time is a local clock reading and the offset of its zone, in microseconds since the epoch. The
  difference to the epoch is a duration of days, seconds and microseconds in the normal form of the library.
\<close>

definition instant_ms :: "int \<Rightarrow> int" where
  "instant_ms us =
     (let days = us div 86400000000; seconds = us mod 86400000000 div 1000000; micros = us mod 1000000
      in days * 86400000 + seconds * 1000 + micros div 1000)"

definition snapshot_ts_ms :: "aware_time \<Rightarrow> int result" where
  "snapshot_ts_ms t =
     (case tm_offset_us t of
        None \<Rightarrow> Inl (evaluation_error ''market snapshot requires an explicit aware source clock'')
      | Some offset \<Rightarrow>
          (if tm_local_us t mod 1000000 mod 1000 \<noteq> 0
           then Inl (evaluation_error ''market source clock must be exact milliseconds'')
           else Inr (instant_ms (tm_local_us t - offset))))"

definition check_context :: "observation_window \<Rightarrow> source_receipt \<Rightarrow> market_context \<Rightarrow> unit result" where
  "check_context window market context =
     (let anchor = cx_anchor_bar context in
      if b_symbol anchor \<noteq> ow_symbol window \<or> b_timeframe anchor \<noteq> ow_timeframe window \<or>
         cx_snapshot_symbol context \<noteq> ow_symbol window \<or> cx_snapshot_timeframe context \<noteq> ow_timeframe window \<or>
         ow_market_as_of_ts_ms window \<le> b_close_time_ms anchor
      then Inl (evaluation_error ''market context differs from the causal window or anchor'')
      else rbind (snapshot_ts_ms (cx_snapshot_produced_at context)) (\<lambda>ts.
        if b_close_time_ms anchor \<le> ts \<and> ts \<le> rc_source_as_of_ts_ms market then Inr ()
        else Inl (evaluation_error ''market snapshot predates anchor or exceeds source clock'')))"

subsection \<open>The resolved history\<close>

text \<open>
  Equality of two payloads the same method of the same class produced: same keys in the same order, values of
  the same types; floats compare by value.
\<close>

fun payload_eq :: "py_value \<Rightarrow> py_value \<Rightarrow> bool" where
  "payload_eq (PFloat x) (PFloat y) = feq x y"
| "payload_eq (PDict xs) (PDict ys) = list_all2 (\<lambda>(k, v) (l, w). k = l \<and> payload_eq v w) xs ys"
| "payload_eq (PList xs) (PList ys) = list_all2 payload_eq xs ys"
| "payload_eq x y = (x = y)"

definition verified_window ::
  "core_package \<Rightarrow> persistence_package \<Rightarrow> closed_bar list \<Rightarrow> market_context \<Rightarrow> observation_window \<Rightarrow> closed_bar list result" where
  "verified_window K H loaded context window =
     (if loaded = [] \<or> max_window_bars < int (length loaded)
      then Inl (evaluation_error ''resolver must return one bounded complete typed tuple'')
      else rbind (traverse (h_revalidate_bar H) loaded) (\<lambda>bars.
        rbind (canonical_closed_bars bars) (\<lambda>ordered.
        if ordered \<noteq> bars
        then Inl (evaluation_error ''resolved window is not in its declared canonical order'')
        else rbind (k_contract_sha256 K (window_value K bars)) (\<lambda>dig.
        if int (length bars) \<noteq> cx_bar_count context \<or> dig \<noteq> cx_bar_window_sha256 context \<or>
           b_open_time_ms (hd bars) \<noteq> cx_first_open_time_ms context \<or>
           \<not> payload_eq (k_identity_payload K (last bars)) (k_identity_payload K (cx_anchor_bar context)) \<or>
           list_ex (\<lambda>b. b_symbol b \<noteq> ow_symbol window \<or> b_timeframe b \<noteq> ow_timeframe window \<or>
             b_close_time_ms (cx_anchor_bar context) < b_close_time_ms b \<or>
             ow_market_as_of_ts_ms window \<le> b_close_time_ms b) bars
        then Inl (evaluation_error ''resolved history differs from complete declared causal context'')
        else Inr bars))))"

text \<open>Every required frame is available often enough on the window.\<close>

definition check_frame :: "string \<Rightarrow> candle list \<Rightarrow> string \<times> int \<Rightarrow> unit result" where
  "check_frame strategy_id candles = (\<lambda>(frame, required).
     rbind (aggregate candles frame) (\<lambda>rows.
       if available_frames strategy_id rows < required
       then Inl (evaluation_error (''configured '' @ frame @ '' warmup requires '' @ str_int required @
              '' complete frames; only '' @ str_int (available_frames strategy_id rows) @ '' ready''))
       else Inr ()))"

definition assert_complete_frame_readiness :: "evaluator \<Rightarrow> closed_bar list \<Rightarrow> unit result" where
  "assert_complete_frame_readiness q bars =
     rbind (traverse closed_bar_to_candle bars) (\<lambda>candles.
       in_order (map (check_frame (q_strategy_id q) candles) (q_frame_requirements q)))"

subsection \<open>The outcome\<close>

definition lineage_differs ::
  "evaluator \<Rightarrow> closed_bar list \<Rightarrow> market_context \<Rightarrow> observation_window \<Rightarrow> strategy_intent \<Rightarrow> bool" where
  "lineage_differs q bars context window v \<longleftrightarrow>
     v_strategy_id v \<noteq> q_strategy_id q \<or> v_strategy_revision v \<noteq> q_strategy_revision q \<or>
     v_symbol v \<noteq> ow_symbol window \<or> v_timeframe v \<noteq> ow_timeframe window \<or>
     v_venue v \<noteq> b_venue (cx_anchor_bar context) \<or>
     p_strategy_code_sha256 (v_provenance v) \<noteq> q_strategy_source_sha256 q \<or>
     p_config_sha256 (v_provenance v) \<noteq> q_config_sha256 q \<or>
     p_input_window_sha256 (v_provenance v) \<noteq> cx_bar_window_sha256 context \<or>
     map Some (p_input_bar_sha256s (v_provenance v)) \<noteq> map b_bar_sha256 bars \<or>
     v_entry_expires_ts_ms v \<le> ow_paired_at_ts_ms window"

definition verify_intent ::
  "core_package \<Rightarrow> evaluator \<Rightarrow> closed_bar list \<Rightarrow> market_context \<Rightarrow> observation_window \<Rightarrow> strategy_intent \<Rightarrow> unit result" where
  "verify_intent K q bars context window v =
     rbind (k_revalidate_intent K v) (\<lambda>_.
       if lineage_differs q bars context window v
       then Inl (evaluation_error ''generated intent lineage or expiry differs from causal context'')
       else Inr ())"

definition check_clock :: "evaluator \<Rightarrow> closed_bar \<Rightarrow> closed_bar list \<Rightarrow> unit result" where
  "check_clock q anchor bars =
     (if int (length bars) < q_minimum_window_bars q
      then Inl (evaluation_error ''declared history is below the frozen warmup requirement'')
      else if \<not> on_decision_minute (q_requirements q) anchor
      then Inl (evaluation_error ''anchor is not a registered strategy evaluation clock'')
      else assert_complete_frame_readiness q bars)"

text \<open>At most one intent of the generation belongs to the anchor.\<close>

definition anchor_intent :: "closed_bar \<Rightarrow> strategy_intent list \<Rightarrow> strategy_intent option result" where
  "anchor_intent anchor generated =
     (case filter (\<lambda>v. v_decision_ts_ms v = b_close_time_ms anchor) generated of
        [] \<Rightarrow> Inr None
      | [v] \<Rightarrow> Inr (Some v)
      | _ \<Rightarrow> Inl (evaluation_error ''multiple anchor intents are ambiguous in this baseline''))"

definition conclude ::
  "core_package \<Rightarrow> persistence_package \<Rightarrow> evaluator \<Rightarrow> string \<Rightarrow> market_context \<Rightarrow> observation_window \<Rightarrow>
   closed_bar list \<Rightarrow> strategy_intent option \<Rightarrow> baseline_result result" where
  "conclude K H q receipt_sha256 context window bars intent =
     rbind (case intent of None \<Rightarrow> Inr () | Some v \<Rightarrow> verify_intent K q bars context window v) (\<lambda>_.
       h_make_result H
         \<lparr>br_context_source_receipt_sha256 = receipt_sha256,
          br_bar_window_sha256 = cx_bar_window_sha256 context,
          br_bar_count = int (length bars), br_intent = intent\<rparr>)"

text \<open>The part before the resolver is awaited, and the part after it.\<close>

definition prepare_evaluation ::
  "persistence_package \<Rightarrow> evaluator \<Rightarrow> observation_window \<Rightarrow> source_receipt list \<Rightarrow>
   (observation_window \<times> string \<times> market_context) result" where
  "prepare_evaluation H q window sources =
     rbind (h_revalidate_window H window) (\<lambda>window.
     rbind (market_source H q window sources) (\<lambda>market.
     case rc_receipt_sha256 market of
       None \<Rightarrow> Inl (evaluation_error ''market context lacks its independently saved receipt identity'')
     | Some receipt_sha256 \<Rightarrow>
         rbind (h_validate_context H (rc_content market)) (\<lambda>context.
         rmap (\<lambda>_. (window, receipt_sha256, context)) (check_context window market context))))"

definition evaluate_history ::
  "(nat \<Rightarrow> core_package) \<Rightarrow> persistence_package \<Rightarrow> sleeve_generators \<Rightarrow> evaluator \<Rightarrow> observation_window \<Rightarrow> string \<Rightarrow>
   market_context \<Rightarrow> closed_bar list \<Rightarrow> baseline_result result" where
  "evaluate_history moment H G q window receipt_sha256 context loaded =
     rbind (assert_frozen (moment 1) H G q) (\<lambda>_.
     rbind (verified_window (moment 1) H loaded context window) (\<lambda>bars.
     rbind (check_clock q (cx_anchor_bar context) bars) (\<lambda>_.
     rbind (generate_runtime_strategy_intents (moment 2) G (q_strategy_id q) bars (Some (q_config q)) False) (\<lambda>generated.
     rbind (assert_frozen (moment 3) H G q) (\<lambda>_.
     rbind (anchor_intent (cx_anchor_bar context) generated) (\<lambda>intent.
       conclude (moment 3) H q receipt_sha256 context window bars intent))))))"

definition evaluate_campaign ::
  "(nat \<Rightarrow> core_package) \<Rightarrow> persistence_package \<Rightarrow> sleeve_generators \<Rightarrow> evaluator \<Rightarrow> (string \<Rightarrow> closed_bar list result) \<Rightarrow>
   observation_window \<Rightarrow> source_receipt list \<Rightarrow> baseline_result result" where
  "evaluate_campaign moment H G q load window sources =
     rbind (assert_frozen (moment 0) H G q) (\<lambda>_.
     rbind (prepare_evaluation H q window sources) (\<lambda>(window, receipt_sha256, context).
     rbind (load (cx_bar_window_reference context)) (evaluate_history moment H G q window receipt_sha256 context)))"

subsection \<open>Facts\<close>

lemma in_order_Inr_iff [simp]: "in_order rs = Inr () \<longleftrightarrow> list_all (\<lambda>r. r = Inr ()) rs"
  by (induction rs) (auto simp: rbind_Inr_iff)

lemma unchanged_Inr_iff [simp]: "unchanged now frozen = Inr () \<longleftrightarrow> now = Inr frozen"
  by (auto simp: unchanged_def rbind_Inr_iff)

lemma artifact_ignores_itself [simp]: "artifact K H (q\<lparr>q_artifact_sha256 := a\<rparr>) = artifact K H q"
  by (simp add: artifact_def artifact_value_def)

text \<open>An accepted identifier is an ASCII word of bounded length, an accepted digest has 64 hexadecimal digits.\<close>

lemma checked_identifier_Inr:
  "checked_identifier value name = Inr v \<Longrightarrow> v = value \<and> value \<noteq> [] \<and> length value \<le> 128"
  by (auto simp: checked_identifier_def split: if_splits)

lemma checked_digest_Inr: "checked_digest value name = Inr v \<Longrightarrow> v = value \<and> length value = 64"
  by (auto simp: checked_digest_def split: if_splits)

lemma foldl_max_bounds:
  fixes n :: int
  shows "n \<le> foldl max n ns" and "x \<in> set ns \<Longrightarrow> x \<le> foldl max n ns"
proof (induction ns arbitrary: n)
  case (Cons y ys)
  { case 1 then show ?case using Cons.IH(1) [of "max n y"] by simp }
  { case 2 then show ?case using Cons.IH [of "max n y"] by (auto intro: order_trans) }
qed simp_all

lemma check_warmup_Inr:
  assumes "check_warmup r frames bars = Inr ()"
  shows "minimum_window_bars r \<le> bars \<and> bars \<le> max_window_bars \<and>
    list_all (\<lambda>(frame, n). \<exists>sz. timeframe_ms frame = Some sz \<and> sz div 60000 * n \<le> bars) frames"
proof -
  from assms obtain ns where ns: "traverse frame_bars frames = Inr ns"
    and seed: "foldl max (minimum_window_bars r) ns \<le> bars" and cap: "bars \<le> max_window_bars"
    by (auto simp: check_warmup_def minimum_seed_bars_def rbind_Inr_iff rmap_Inr_iff split: if_splits)
  have "\<exists>sz. timeframe_ms frame = Some sz \<and> sz div 60000 * n \<le> bars" if "(frame, n) \<in> set frames" for frame n
  proof -
    from ns have "list_all2 (\<lambda>f m. frame_bars f = Inr m) frames ns" by (simp add: traverse_Inr_iff)
    moreover from that obtain k where k: "k < length frames" "frames ! k = (frame, n)" by (auto simp: in_set_conv_nth)
    ultimately have m: "frame_bars (frame, n) = Inr (ns ! k)" and "k < length ns"
      by (auto simp: list_all2_conv_all_nth)
    from \<open>k < length ns\<close> have "ns ! k \<le> bars" using foldl_max_bounds(2) seed by (metis nth_mem order_trans)
    with m show ?thesis by (auto simp: frame_bars_def split: option.splits)
  qed
  moreover have "minimum_window_bars r \<le> bars" using foldl_max_bounds(1) seed by (rule order_trans)
  ultimately show ?thesis using cap by (auto simp: list_all_iff)
qed

lemma select_Inr:
  assumes "select G i revision c n campaign schedule protocol = Inr q"
  shows "get_strategy G i = Inr (q_definition q)" "d_revision (q_definition q) = revision"
    "config_class c = d_config_type (q_definition q)" "make_config c = Inr c"
    "complete_frame_requirements i c = Inr (q_frame_requirements q)" "q_requirements q = get_runtime_requirements i"
    "q_strategy_id q = i" "q_strategy_revision q = revision" "q_config q = c" "q_minimum_window_bars q = n"
  using assms by (auto simp: select_def rbind_Inr_iff rmap_Inr_iff make_config_Inr_iff split: if_splits)

lemma seal_Inr:
  assumes "seal K H q = Inr r"
  shows "check_warmup (q_requirements q) (q_frame_requirements q) (q_minimum_window_bars q) = Inr ()"
    "config_sha256 (config_value (q_config q)) = Inr (q_config_sha256 r)"
    "installed_source_tree_sha256 (k_read_source K) (d_source_files (q_definition q)) = Inr (q_strategy_source_sha256 r)"
    "installed_source_tree_sha256 (k_read_source K) adapter_files = Inr (q_adapter_source_sha256 r)"
    "artifact K H r = Inr (q_artifact_sha256 r)"
    "q_strategy_id r = q_strategy_id q" "q_config r = q_config q" "q_definition r = q_definition q"
    "q_requirements r = q_requirements q" "q_frame_requirements r = q_frame_requirements q"
    "q_minimum_window_bars r = q_minimum_window_bars q" "q_strategy_revision r = q_strategy_revision q"
  using assms by (auto simp: seal_def rbind_Inr_iff rmap_Inr_iff Let_def)

text \<open>Everything a construction establishes.\<close>

lemma make_evaluator_Inr:
  assumes "make_evaluator K H G i revision c n campaign schedule protocol = Inr q"
  shows "assert_frozen K H G q = Inr ()" "get_strategy G i = Inr (q_definition q)" "d_revision (q_definition q) = revision"
    "make_config c = Inr c" "complete_frame_requirements i c = Inr (q_frame_requirements q)"
    "q_requirements q = get_runtime_requirements i" "q_strategy_id q = i" "q_strategy_revision q = revision"
    "q_config q = c" "q_minimum_window_bars q = n"
    "check_warmup (q_requirements q) (q_frame_requirements q) (q_minimum_window_bars q) = Inr ()"
    "config_sha256 (config_value c) = Inr (q_config_sha256 q)"
    "code_fingerprint K (q_definition q) = Inr (q_strategy_source_sha256 q)"
proof -
  from assms obtain r where r: "select G i revision c n campaign schedule protocol = Inr r" and q: "seal K H r = Inr q"
    by (auto simp: make_evaluator_def rbind_Inr_iff dest!: checked_identifier_Inr checked_digest_Inr)
  note s = select_Inr [OF r] and t = seal_Inr [OF q]
  show "assert_frozen K H G q = Inr ()" unfolding assert_frozen_def in_order_Inr_iff using s t by simp
  show "get_strategy G i = Inr (q_definition q)" "d_revision (q_definition q) = revision"
    "make_config c = Inr c" "complete_frame_requirements i c = Inr (q_frame_requirements q)"
    "q_requirements q = get_runtime_requirements i" "q_strategy_id q = i" "q_strategy_revision q = revision"
    "q_config q = c" "q_minimum_window_bars q = n"
    "check_warmup (q_requirements q) (q_frame_requirements q) (q_minimum_window_bars q) = Inr ()"
    "config_sha256 (config_value c) = Inr (q_config_sha256 q)"
    "code_fingerprint K (q_definition q) = Inr (q_strategy_source_sha256 q)"
    using s t by (simp_all add: code_fingerprint_def)
qed

text \<open>The two readiness checks of the program are one: the campaign raises where the observation reports warmup.\<close>

lemma check_frames_ready:
  "list_all (\<lambda>r. r = Inr ()) (map (check_frame i candles) frames) \<longleftrightarrow> frames_ready i candles frames = Inr True"
  by (induction frames) (auto simp: check_frame_def rbind_Inr_iff split: if_splits)

lemma readiness_checks_agree:
  "assert_complete_frame_readiness q bars = Inr () \<longleftrightarrow> history_ready (q_strategy_id q) bars (q_frame_requirements q) = Inr True"
  by (simp add: assert_complete_frame_readiness_def history_ready_def rbind_Inr_iff check_frames_ready)

lemma verified_window_Inr:
  assumes "verified_window K H loaded context window = Inr bars"
  shows "traverse (h_revalidate_bar H) loaded = Inr bars" "canonical_closed_bars bars = Inr bars"
    "k_contract_sha256 K (window_value K bars) = Inr (cx_bar_window_sha256 context)"
    "int (length bars) = cx_bar_count context" "b_open_time_ms (hd bars) = cx_first_open_time_ms context"
    "payload_eq (k_identity_payload K (last bars)) (k_identity_payload K (cx_anchor_bar context))"
    "list_all (\<lambda>b. b_symbol b = ow_symbol window \<and> b_timeframe b = ow_timeframe window \<and>
       b_close_time_ms b \<le> b_close_time_ms (cx_anchor_bar context) \<and>
       b_close_time_ms b < ow_market_as_of_ts_ms window) bars"
    "bars \<noteq> []" "int (length bars) \<le> max_window_bars"
proof -
  from assms have "traverse (h_revalidate_bar H) loaded = Inr bars" and canon: "canonical_closed_bars bars = Inr bars" and
    bound: "int (length loaded) \<le> max_window_bars" and
    rest: "k_contract_sha256 K (window_value K bars) = Inr (cx_bar_window_sha256 context)"
    "int (length bars) = cx_bar_count context" "b_open_time_ms (hd bars) = cx_first_open_time_ms context"
    "payload_eq (k_identity_payload K (last bars)) (k_identity_payload K (cx_anchor_bar context))"
    "\<not> list_ex (\<lambda>b. b_symbol b \<noteq> ow_symbol window \<or> b_timeframe b \<noteq> ow_timeframe window \<or>
       b_close_time_ms (cx_anchor_bar context) < b_close_time_ms b \<or> ow_market_as_of_ts_ms window \<le> b_close_time_ms b) bars"
    by (auto simp: verified_window_def rbind_Inr_iff split: if_splits)
  then show "traverse (h_revalidate_bar H) loaded = Inr bars" "canonical_closed_bars bars = Inr bars"
    "k_contract_sha256 K (window_value K bars) = Inr (cx_bar_window_sha256 context)"
    "int (length bars) = cx_bar_count context" "b_open_time_ms (hd bars) = cx_first_open_time_ms context"
    "payload_eq (k_identity_payload K (last bars)) (k_identity_payload K (cx_anchor_bar context))"
    by blast+
  show "list_all (\<lambda>b. b_symbol b = ow_symbol window \<and> b_timeframe b = ow_timeframe window \<and>
       b_close_time_ms b \<le> b_close_time_ms (cx_anchor_bar context) \<and>
       b_close_time_ms b < ow_market_as_of_ts_ms window) bars"
    using rest(5) by (fastforce simp: list_all_iff list_ex_iff)
  show "bars \<noteq> []" using canon by (simp add: canonical_closed_bars_Inr_iff)
  show "int (length bars) \<le> max_window_bars"
    using bound traverse_length [OF \<open>traverse (h_revalidate_bar H) loaded = Inr bars\<close>] by simp
qed

lemma anchor_intent_Inr:
  "anchor_intent anchor generated = Inr intent \<longleftrightarrow>
     filter (\<lambda>v. v_decision_ts_ms v = b_close_time_ms anchor) generated = (case intent of None \<Rightarrow> [] | Some v \<Rightarrow> [v])"
  by (auto simp: anchor_intent_def split: list.splits option.splits)

lemma conclude_Inr:
  assumes "\<And>x y. h_make_result H x = Inr y \<Longrightarrow> y = x"
    and "conclude K H q receipt context window bars intent = Inr res"
  shows "br_context_source_receipt_sha256 res = receipt" "br_bar_window_sha256 res = cx_bar_window_sha256 context"
    "br_bar_count res = int (length bars)" "br_intent res = intent"
    "intent = Some v \<Longrightarrow> \<not> lineage_differs q bars context window v"
proof -
  from assms(2) have made: "h_make_result H \<lparr>br_context_source_receipt_sha256 = receipt,
      br_bar_window_sha256 = cx_bar_window_sha256 context, br_bar_count = int (length bars), br_intent = intent\<rparr> = Inr res"
    and verified: "(case intent of None \<Rightarrow> Inr () | Some v \<Rightarrow> verify_intent K q bars context window v) = Inr ()"
    by (auto simp: conclude_def rbind_Inr_iff)
  note res = assms(1) [OF made]
  show "br_context_source_receipt_sha256 res = receipt" "br_bar_window_sha256 res = cx_bar_window_sha256 context"
    "br_bar_count res = int (length bars)" "br_intent res = intent" by (simp_all add: res)
  show "intent = Some v \<Longrightarrow> \<not> lineage_differs q bars context window v"
    using verified by (auto simp: verify_intent_def rbind_Inr_iff split: if_splits)
qed

lemma evaluate_history_InrE:
  assumes "evaluate_history moment H G q window receipt context loaded = Inr res"
  obtains bars generated intent where "assert_frozen (moment 1) H G q = Inr ()"
    "verified_window (moment 1) H loaded context window = Inr bars"
    "check_clock q (cx_anchor_bar context) bars = Inr ()"
    "generate_runtime_strategy_intents (moment 2) G (q_strategy_id q) bars (Some (q_config q)) False = Inr generated"
    "assert_frozen (moment 3) H G q = Inr ()" "anchor_intent (cx_anchor_bar context) generated = Inr intent"
    "conclude (moment 3) H q receipt context window bars intent = Inr res"
  using assms by (auto simp: evaluate_history_def rbind_Inr_iff)

lemma check_clock_Inr:
  "check_clock q anchor bars = Inr () \<longleftrightarrow>
     q_minimum_window_bars q \<le> int (length bars) \<and> on_decision_minute (q_requirements q) anchor \<and>
     assert_complete_frame_readiness q bars = Inr ()"
  by (auto simp: check_clock_def)

subsection \<open>A concrete campaign\<close>

text \<open>
  The order-flow strategy with its registered configuration on 365 flat minutes, which are the 73 five-minute frames it
  needs; the generator proposes nothing.
\<close>

definition campaign_core :: core_package where
  "campaign_core = sample_core\<lparr>k_contract_sha256 := canonical_sha256\<rparr>"

definition quiet_generators :: sleeve_generators where
  "quiet_generators = sample_generators\<lparr>g_orderflow_volatility_expansion := (\<lambda>rows c. Inr [])\<rparr>"

definition sample_context :: "string \<Rightarrow> market_context" where
  "sample_context dig =
    \<lparr>cx_anchor_bar = last (flat_bars 365), cx_snapshot_symbol = ''BTCUSDT'', cx_snapshot_timeframe = ''1m'',
     cx_snapshot_produced_at = \<lparr>tm_local_us = 21900000000, tm_offset_us = Some 0\<rparr>,
     cx_bar_window_reference = ''w'', cx_bar_window_sha256 = dig, cx_bar_count = 365, cx_first_open_time_ms = 0\<rparr>"

definition sample_persistence :: "string \<Rightarrow> persistence_package" where
  "sample_persistence dig =
    \<lparr>h_revalidate_window = Inr, h_revalidate_receipt = Inr, h_validate_context = (\<lambda>_. Inr (sample_context dig)),
     h_revalidate_bar = Inr, h_make_result = Inr, h_context_schema = PNone, h_result_schema = PNone\<rparr>"

definition sample_observation_window :: observation_window where
  "sample_observation_window =
    \<lparr>ow_sample_id = ''s'', ow_symbol = ''BTCUSDT'', ow_timeframe = ''1m'', ow_market_as_of_ts_ms = 21900001,
     ow_paired_at_ts_ms = 21900001, ow_market_snapshot_sha256 = None\<rparr>"

definition sample_receipt :: source_receipt where
  "sample_receipt =
    \<lparr>rc_campaign_id = ''c'', rc_sample_id = ''s'', rc_schedule_digest = replicate 64 (CHR ''0''),
     rc_candidate_protocol_digest = replicate 64 (CHR ''0''), rc_source_kind = ''MARKET_SNAPSHOT'', rc_source_name = ''m'',
     rc_source_as_of_ts_ms = 21900000, rc_observed_at_ts_ms = 21900000, rc_content = PNone, rc_content_sha256 = ''x'',
     rc_receipt_sha256 = Some ''r''\<rparr>"

abbreviation orderflow_id :: string where
  "orderflow_id \<equiv> ''orderflow_volatility_expansion_v1''"

abbreviation quiet_orderflow :: strategy_definition where
  "quiet_orderflow \<equiv> strategy_entry orderflow_id (OrderFlowExpansion orderflow_default) (\<lambda>rows c. Inr [])
     ''orderflow_volatility_expansion'' REJECTED"

lemma source_hash_exists:
  assumes "traverse (\<lambda>path. rbind (logical_source_path path) (\<lambda>l. rmap (Pair l) (Inr ''pass''))) paths = Inr fs"
    and "(case source_stream (foldl (\<lambda>d (k, v). dict_set k v d) [] fs) of Inr _ \<Rightarrow> True | _ \<Rightarrow> False)"
  shows "\<exists>h. installed_source_tree_sha256 (\<lambda>_. Inr ''pass'') paths = Inr h"
  using assms by (auto simp: installed_source_tree_sha256_def source_tree_sha256_def split: sum.splits)

lemma sample_campaign_hashes:
  "\<exists>h. installed_source_tree_sha256 (\<lambda>_. Inr ''pass'') adapter_files = Inr h"
  "\<exists>h. installed_source_tree_sha256 (\<lambda>_. Inr ''pass'') (d_source_files quiet_orderflow) = Inr h"
proof -
  have a: "traverse (\<lambda>path. rbind (logical_source_path path) (\<lambda>l. rmap (Pair l) (Inr ''pass''))) adapter_files =
      Inr (map (\<lambda>p. (p, ''pass'')) adapter_files)" by code_simp
  have "(case source_stream (foldl (\<lambda>d (k, v). dict_set k v d) [] (map (\<lambda>p. (p, ''pass'')) adapter_files))
      of Inr _ \<Rightarrow> True | _ \<Rightarrow> False)" by code_simp
  with a show "\<exists>h. installed_source_tree_sha256 (\<lambda>_. Inr ''pass'') adapter_files = Inr h" by (rule source_hash_exists)
  let ?fs = "common_source_files @ [''sleeves/orderflow_volatility_expansion.py'']"
  have b: "traverse (\<lambda>path. rbind (logical_source_path path) (\<lambda>l. rmap (Pair l) (Inr ''pass''))) ?fs =
      Inr (map (\<lambda>p. (p, ''pass'')) ?fs)" by code_simp
  have "(case source_stream (foldl (\<lambda>d (k, v). dict_set k v d) [] (map (\<lambda>p. (p, ''pass'')) ?fs))
      of Inr _ \<Rightarrow> True | _ \<Rightarrow> False)" by code_simp
  with b have "\<exists>h. installed_source_tree_sha256 (\<lambda>_. Inr ''pass'') ?fs = Inr h" by (rule source_hash_exists)
  then show "\<exists>h. installed_source_tree_sha256 (\<lambda>_. Inr ''pass'') (d_source_files quiet_orderflow) = Inr h"
    by (simp add: strategy_entry_def)
qed

lemma canonical_sha256_exists:
  "(case canonical_value v of Inr _ \<Rightarrow> True | _ \<Rightarrow> False) \<Longrightarrow> \<exists>h. canonical_sha256 v = Inr h"
  by (auto simp: canonical_sha256_def canonical_json_bytes_def split: sum.splits)

lemma sample_campaign_config: "\<exists>h. config_sha256 (config_value (OrderFlowExpansion orderflow_default)) = Inr h"
proof -
  have "(case canonical_value (config_value (OrderFlowExpansion orderflow_default)) of Inr _ \<Rightarrow> True | _ \<Rightarrow> False)"
    by code_simp
  from canonical_sha256_exists [OF this] show ?thesis by (simp add: config_sha256_def config_value_def)
qed

lemma sample_get_orderflow: "get_strategy quiet_generators orderflow_id = Inr quiet_orderflow"
  by (simp add: get_strategy_def strategies_def registry_definitions_def strategy_entry_def quiet_generators_def
      sample_generators_def)

lemma sample_orderflow_requirements:
  "complete_frame_requirements orderflow_id (OrderFlowExpansion orderflow_default) = Inr [(''5m'', 73)]"
  "get_runtime_requirements orderflow_id = default_requirements"
  by (simp_all add: orderflow_frames_def orderflow_default_def get_runtime_requirements_def requirements_table_def)

lemma sample_orderflow_accepted: "make_config (OrderFlowExpansion orderflow_default) = Inr (OrderFlowExpansion orderflow_default)"
  using make_default_configs by (simp add: default_configs_def)

lemma sample_evaluator:
  obtains q where "make_evaluator campaign_core (sample_persistence dig) quiet_generators orderflow_id ''1''
      (OrderFlowExpansion orderflow_default) 365 ''c'' (replicate 64 (CHR ''0'')) (replicate 64 (CHR ''0'')) = Inr q"
    "q_campaign_id q = ''c''" "q_schedule_digest q = replicate 64 (CHR ''0'')" "q_protocol_digest q = replicate 64 (CHR ''0'')"
proof -
  let ?c = "OrderFlowExpansion orderflow_default" and ?zeros = "replicate 64 (CHR ''0'')"
  have idents: "checked_identifier orderflow_id ''strategy_id'' = Inr orderflow_id"
    "checked_identifier ''1'' ''strategy_revision'' = Inr ''1''" "checked_identifier ''c'' ''campaign_id'' = Inr ''c''"
    by code_simp+
  have digests: "checked_digest ?zeros name = Inr ?zeros" for name
    by (simp add: checked_digest_def list_ex_iff)
  obtain code where code: "installed_source_tree_sha256 (\<lambda>_. Inr ''pass'') (d_source_files quiet_orderflow) = Inr code"
    using sample_campaign_hashes(2) by blast
  obtain adapter where adapter: "installed_source_tree_sha256 (\<lambda>_. Inr ''pass'') adapter_files = Inr adapter"
    using sample_campaign_hashes(1) by blast
  obtain conf where conf: "config_sha256 (config_value ?c) = Inr conf" using sample_campaign_config by blast
  have selected: "\<exists>r. select quiet_generators orderflow_id ''1'' ?c 365 ''c'' ?zeros ?zeros = Inr r \<and>
      q_campaign_id r = ''c'' \<and> q_schedule_digest r = ?zeros \<and> q_protocol_digest r = ?zeros"
    by (simp add: select_def sample_get_orderflow sample_orderflow_accepted sample_orderflow_requirements)
      (simp add: strategy_entry_def)
  then obtain r where r: "select quiet_generators orderflow_id ''1'' ?c 365 ''c'' ?zeros ?zeros = Inr r"
    "q_campaign_id r = ''c''" "q_schedule_digest r = ?zeros" "q_protocol_digest r = ?zeros" by blast
  note f = select_Inr [OF r(1)]
  have definition_r: "q_definition r = quiet_orderflow" using f(1) by (simp add: sample_get_orderflow)
  have frames: "q_frame_requirements r = [(''5m'', 73)]" using f(5) unfolding sample_orderflow_requirements(1) by simp
  have warm: "check_warmup (q_requirements r) (q_frame_requirements r) (q_minimum_window_bars r) = Inr ()"
    using f(6,10) by (simp add: frames sample_orderflow_requirements check_warmup_def minimum_seed_bars_def frame_bars_def
        timeframe_ms_def timeframe_table_def default_requirements_def max_window_bars_def)
  let ?t = "r\<lparr>q_config_sha256 := conf, q_strategy_source_sha256 := code, q_adapter_source_sha256 := adapter\<rparr>"
  have "\<exists>schema. canonical_sha256 PNone = Inr schema" by (rule canonical_sha256_exists) simp
  then obtain schema where schema: "canonical_sha256 PNone = Inr schema" by blast
  have "\<exists>a. canonical_sha256 (artifact_value ?t schema schema) = Inr a"
    by (rule canonical_sha256_exists)
      (simp add: artifact_value_def str_dict_def json_members_def frames)
  then obtain a where "artifact campaign_core (sample_persistence dig) ?t = Inr a"
    by (auto simp: artifact_def campaign_core_def sample_persistence_def schema)
  then have "seal campaign_core (sample_persistence dig) r = Inr (?t\<lparr>q_artifact_sha256 := a\<rparr>)"
    using warm conf code adapter f(9)
    by (simp add: seal_def definition_r Let_def) (simp add: campaign_core_def sample_core_def)
  then have "make_evaluator campaign_core (sample_persistence dig) quiet_generators orderflow_id ''1'' ?c 365 ''c'' ?zeros ?zeros =
      Inr (?t\<lparr>q_artifact_sha256 := a\<rparr>)"
    unfolding make_evaluator_def idents digests rbind_simps using r(1) by simp
  with r show ?thesis by (intro that [of "?t\<lparr>q_artifact_sha256 := a\<rparr>"]) simp_all
qed

lemma sample_history_ready: "history_ready orderflow_id (flat_bars 365) [(''5m'', 73)] = Inr True"
proof -
  have rows: "aggregate (flat_minutes 365) ''5m'' = Inr (map flat_frame [0..<73])" using flat_aggregate [of 73] by simp
  have "takeWhile (\<lambda>r. \<not> fle (c_volume r) fzero) (rev (map flat_frame [0..<73])) = rev (map flat_frame [0..<73])"
    by (auto simp: takeWhile_eq_all_conv flat_frame_def flat_candle_def)
  then have "length (takeWhile (\<lambda>r. \<not> fle (c_volume r) fzero) (rev (map flat_frame [0..<73]))) = 73" by (metis length_map length_rev length_upt diff_zero)
  then have "available_frames orderflow_id (map flat_frame [0..<73]) = 73" unfolding available_frames_def by simp
  then show ?thesis by (simp add: history_ready_def flat_bars_candles rows)
qed

text \<open>The outcome of the campaign on this history.\<close>

lemma sample_quiet_generation:
  "generate_runtime_strategy_intents campaign_core quiet_generators orderflow_id (flat_bars 365)
     (Some (OrderFlowExpansion orderflow_default)) False = Inr []"
proof -
  obtain code where code: "installed_source_tree_sha256 (\<lambda>_. Inr ''pass'') (d_source_files quiet_orderflow) = Inr code"
    using sample_campaign_hashes(2) by blast
  obtain conf where conf: "config_sha256 (config_value (OrderFlowExpansion orderflow_default)) = Inr conf"
    using sample_campaign_config by blast
  have "generate_sleeve_intents quiet_generators orderflow_id rows (Some (OrderFlowExpansion orderflow_default)) False = Inr []" for rows
    by (simp add: generate_sleeve_intents_def sample_get_orderflow check_paper_def resolve_settings_def strategy_entry_def
        ordered_batch_def)
  then show ?thesis
    using code conf
    by (simp add: generate_runtime_strategy_intents_def flat_bars_canonical sample_get_orderflow flat_bars_candles)
      (simp add: campaign_core_def sample_core_def)
qed

lemma flat_anchor:
  "b_symbol (last (flat_bars 365)) = ''BTCUSDT''" "b_timeframe (last (flat_bars 365)) = ''1m''"
  "b_close_time_ms (last (flat_bars 365)) = 21899999" "b_open_time_ms (hd (flat_bars 365)) = 0"
  "length (flat_bars 365) = 365" "flat_bars 365 \<noteq> []" "b_bar_sha256 (last (flat_bars 365)) = Some ''h''"
proof -
  have "flat_bars 365 = map (\<lambda>i. bar_of_candle (flat_minute i) ''h'') [0..<365]"
    by (simp add: flat_bars_def flat_minutes_def)
  moreover have "[0..<365] = 0 # [1..<364] @ [364 :: nat]" by (simp add: upt_rec [of 0 365] upt_Suc_append [of 1 364, simplified])
  ultimately have "flat_bars 365 = bar_of_candle (flat_minute 0) ''h'' # map (\<lambda>i. bar_of_candle (flat_minute i) ''h'') [1..<364] @
      [bar_of_candle (flat_minute 364) ''h'']" by simp
  then show "b_symbol (last (flat_bars 365)) = ''BTCUSDT''" "b_timeframe (last (flat_bars 365)) = ''1m''"
    "b_close_time_ms (last (flat_bars 365)) = 21899999" "b_open_time_ms (hd (flat_bars 365)) = 0"
    "length (flat_bars 365) = 365" "flat_bars 365 \<noteq> []" "b_bar_sha256 (last (flat_bars 365)) = Some ''h''"
    by (simp_all add: bar_of_candle_def flat_minute_def flat_candle_def)
qed

lemma sample_window_digest: "\<exists>dig. canonical_sha256 (window_value campaign_core (flat_bars n)) = Inr dig"
proof (rule canonical_sha256_exists)
  have "traverse id (map (canonical_value \<circ> k_identity_payload campaign_core) (flat_bars n)) =
      Inr (map (\<lambda>b. JInt (b_open_time_ms b)) (flat_bars n))"
    unfolding traverse_map by (rule traverse_total) (simp add: campaign_core_def sample_core_def)
  then show "case canonical_value (window_value campaign_core (flat_bars n)) of Inl _ \<Rightarrow> False | Inr _ \<Rightarrow> True"
    by (simp add: window_value_def str_dict_def json_members_def)
qed

lemma sample_verified_window:
  assumes "canonical_sha256 (window_value campaign_core (flat_bars 365)) = Inr dig"
  shows "verified_window campaign_core (sample_persistence dig) (flat_bars 365) (sample_context dig) sample_observation_window =
    Inr (flat_bars 365)"
proof -
  have all: "b_symbol b = ''BTCUSDT'' \<and> b_timeframe b = ''1m'' \<and> b_close_time_ms b \<le> 21899999" if "b \<in> set (flat_bars 365)" for b
    using that by (auto simp: flat_bars_def flat_minutes_def bar_of_candle_def flat_minute_def flat_candle_def)
  have "traverse Inr (flat_bars 365) = Inr (flat_bars 365)" using traverse_total [of "flat_bars 365" Inr "\<lambda>x. x"] by simp
  moreover have "\<not> list_ex (\<lambda>b. b_symbol b \<noteq> ''BTCUSDT'' \<or> b_timeframe b \<noteq> ''1m'' \<or> 21899999 < b_close_time_ms b \<or>
      21900001 \<le> b_close_time_ms b) (flat_bars 365)"
    using all by (fastforce simp: list_ex_iff)
  moreover have "k_contract_sha256 campaign_core = canonical_sha256" "k_identity_payload campaign_core = (\<lambda>b. PInt (b_open_time_ms b))"
    by (simp_all add: campaign_core_def sample_core_def)
  ultimately show ?thesis
    using assms flat_anchor
    by (simp add: verified_window_def sample_persistence_def flat_bars_canonical sample_context_def
        sample_observation_window_def max_window_bars_def)
qed

lemma sample_history_run:
  assumes dig: "canonical_sha256 (window_value campaign_core (flat_bars 365)) = Inr dig"
    and made: "make_evaluator campaign_core (sample_persistence dig) quiet_generators orderflow_id ''1''
      (OrderFlowExpansion orderflow_default) 365 ''c'' (replicate 64 (CHR ''0'')) (replicate 64 (CHR ''0'')) = Inr q"
    and frozen: "assert_frozen campaign_core (sample_persistence dig) quiet_generators q = Inr ()"
  shows "evaluate_history (\<lambda>_. campaign_core) (sample_persistence dig) quiet_generators q sample_observation_window ''r''
      (sample_context dig) (flat_bars 365) =
    Inr \<lparr>br_context_source_receipt_sha256 = ''r'', br_bar_window_sha256 = dig, br_bar_count = 365, br_intent = None\<rparr>"
proof -
  note f = make_evaluator_Inr [OF made]
  have q: "q_strategy_id q = orderflow_id" "q_config q = OrderFlowExpansion orderflow_default"
    "q_frame_requirements q = [(''5m'', 73)]" "q_requirements q = default_requirements" "q_minimum_window_bars q = 365"
    using f(5) unfolding f(6) sample_orderflow_requirements by (simp_all add: f(7,9,10))
  have "check_clock q (last (flat_bars 365)) (flat_bars 365) = Inr ()"
    using sample_history_ready
    by (simp add: check_clock_Inr readiness_checks_agree q on_decision_minute_def default_requirements_def flat_anchor)
  then have "check_clock q (cx_anchor_bar (sample_context dig)) (flat_bars 365) = Inr ()" by (simp add: sample_context_def)
  then show ?thesis
    using frozen sample_verified_window [OF dig] sample_quiet_generation
    by (simp add: evaluate_history_def q anchor_intent_def conclude_def)
      (simp add: sample_persistence_def sample_context_def flat_anchor)
qed

subsection \<open>Properties\<close>

text \<open>Property C11: an evaluator that was constructed is frozen and covers its warmup. The constructor accepts only the
  registered revision and configuration class; the declared window covers the registered minimum and every required
  frame, up to the bound; and rechecking the evaluator against unchanged files succeeds.\<close>

theorem constructed_evaluator_is_frozen:
  assumes "make_evaluator K H G i revision c n campaign schedule protocol = Inr q"
  shows "assert_frozen K H G q = Inr () \<and> q_config q = c \<and> make_config c = Inr c \<and>
    d_revision (q_definition q) = revision \<and>
    minimum_window_bars (get_runtime_requirements i) \<le> n \<and> n \<le> max_window_bars \<and>
    list_all (\<lambda>(frame, m). \<exists>sz. timeframe_ms frame = Some sz \<and> sz div 60000 * m \<le> n) (q_frame_requirements q)"
  using make_evaluator_Inr [OF assms] check_warmup_Inr by auto

theorem constructed_evaluator_is_frozen_witness:
  "\<exists>q. make_evaluator campaign_core (sample_persistence []) quiet_generators orderflow_id ''1''
      (OrderFlowExpansion orderflow_default) 365 ''c'' (replicate 64 (CHR ''0'')) (replicate 64 (CHR ''0'')) = Inr q \<and>
    assert_frozen campaign_core (sample_persistence []) quiet_generators q = Inr ()"
proof -
  obtain q where q: "make_evaluator campaign_core (sample_persistence []) quiet_generators orderflow_id ''1''
      (OrderFlowExpansion orderflow_default) 365 ''c'' (replicate 64 (CHR ''0'')) (replicate 64 (CHR ''0'')) = Inr q"
    by (rule sample_evaluator)
  from constructed_evaluator_is_frozen [OF q] q show ?thesis by blast
qed



lemma registered_default_accepted:
  assumes "get_strategy G i = Inr d"
  shows "make_config (d_config_default d) = Inr (d_config_default d)"
  using make_default_configs get_strategy_Inr [OF assms]
  by (auto simp: registry_definitions_def strategy_entry_def default_configs_def)



end
