(* ===== verification/Service.thy ===== *)
theory Service
  imports Evaluation
begin

section \<open>The closed-bar consumer (service.py)\<close>

text \<open>
  The state of \<open>StrategyEngineService\<close> is a record; an operation takes the state and returns the new state
  with the value or the exception, because an exception of the source leaves the state as far as it got.
  The bus, the clock and the audit log are code outside the repository: one call of the source finds them
  in an \<open>environment\<close>, which says what the clock reads, which publish fails, whether the acknowledgement
  fails and which rows the audit log returns. What the service handed to the bus is the log \<open>t_bus\<close>.
  The consumer awaits one call before it starts the next, so calls are steps.
\<close>

subsection \<open>State\<close>

datatype bus_event = EvaluationOut evaluation | IntentOut strategy_intent | AckOut string

record service_state =
  t_bars :: "string \<Rightarrow> closed_bar list"
  t_blocked :: "string \<Rightarrow> string option"
  t_restored :: "string \<Rightarrow> int option"
  t_prepared :: "string \<Rightarrow> (string \<times> evaluation_batch) option"
  t_publication_pending :: "string set"
  t_evaluation_pending :: "string \<Rightarrow> string option"
  t_last_evaluations :: "evaluation list"
  t_bus :: "bus_event list"

record service =
  n_core :: core_package
  n_generators :: sleeve_generators
  n_settings :: settings
  n_policy :: string
  n_closed_bar_topic :: string

text \<open>The rows of the audit log, decoded by the contract classes; a fetch or a decoding may raise.\<close>

record audit =
  a_evaluations :: "string \<Rightarrow> string \<Rightarrow> string \<Rightarrow> evaluation result list result"
  a_intents :: "string list \<Rightarrow> strategy_intent result list result"

record environment =
  w_now :: int
  w_clock :: "nat \<Rightarrow> int"
  w_publish :: "nat \<Rightarrow> py_error option"
  w_ack :: "py_error option"
  w_audit :: "audit option"

record envelope =
  y_id :: string
  y_topic :: string
  y_payload :: "closed_bar result"

definition make_service ::
  "core_package \<Rightarrow> sleeve_generators \<Rightarrow> settings \<Rightarrow> string \<Rightarrow> service result" where
  "make_service K G s topic =
     rmap (\<lambda>policy. \<lparr>n_core = K, n_generators = G, n_settings = s, n_policy = policy,
                    n_closed_bar_topic = topic\<rparr>)
       (runtime_evaluation_policy_sha256 K G s)"

definition initial_state :: service_state where
  "initial_state =
    \<lparr>t_bars = (\<lambda>_. []), t_blocked = (\<lambda>_. None), t_restored = (\<lambda>_. None), t_prepared = (\<lambda>_. None),
     t_publication_pending = {}, t_evaluation_pending = (\<lambda>_. None), t_last_evaluations = [], t_bus = []\<rparr>"

subsection \<open>Accepting a bar\<close>

definition block :: "string \<Rightarrow> string \<Rightarrow> service_state \<Rightarrow> service_state" where
  "block symbol reason st = st\<lparr>t_blocked := (t_blocked st)(symbol := Some reason)\<rparr>"

definition block_and_raise :: "string \<Rightarrow> string \<Rightarrow> service_state \<Rightarrow> service_state \<times> bool result" where
  "block_and_raise symbol reason st = (block symbol reason st, Inl (ClosedBarSequenceError reason))"

definition restored_prefix :: "service_state \<Rightarrow> closed_bar \<Rightarrow> bool" where
  "restored_prefix st bar \<longleftrightarrow>
     (case t_restored st (b_symbol bar) of None \<Rightarrow> False | Some through \<Rightarrow> b_open_time_ms bar \<le> through)"

text \<open>A deque of at most \<open>window_bars\<close> bars drops its oldest one.\<close>

definition append_bar :: "service \<Rightarrow> closed_bar \<Rightarrow> service_state \<Rightarrow> service_state" where
  "append_bar w bar st =
     st\<lparr>t_bars := (t_bars st)(b_symbol bar :=
          last_n (nat (s_window_bars (n_settings w))) (t_bars st (b_symbol bar) @ [bar]))\<rparr>"

definition append_or_replay :: "service \<Rightarrow> closed_bar \<Rightarrow> service_state \<Rightarrow> service_state \<times> bool result" where
  "append_or_replay w bar st =
     (let symbol = b_symbol bar; history = t_bars st symbol in
      case t_blocked st symbol of
        Some reason \<Rightarrow>
          (st, Inl (ClosedBarSequenceError (symbol @ '' is blocked after an integrity violation: '' @ reason)))
      | None \<Rightarrow>
        (case find (\<lambda>existing. b_open_time_ms existing = b_open_time_ms bar) history of
           Some existing \<Rightarrow>
             (if b_bar_sha256 existing = b_bar_sha256 bar then (st, Inr False)
              else block_and_raise symbol (''conflicting closed bar at '' @ str_int (b_open_time_ms bar)) st)
         | None \<Rightarrow>
             (if restored_prefix st bar then (st, Inr False)
              else if history \<noteq> [] \<and> b_open_time_ms bar \<noteq> b_open_time_ms (last history) + 60000
              then block_and_raise symbol
                (''closed-bar gap or reorder: expected '' @ str_int (b_open_time_ms (last history) + 60000) @
                 '', received '' @ str_int (b_open_time_ms bar)) st
              else (append_bar w bar st, Inr True))))"

subsection \<open>Publishing\<close>

definition batch_events :: "evaluation_batch \<Rightarrow> bus_event list" where
  "batch_events b = map EvaluationOut (x_evaluations b) @ map IntentOut (x_intents b)"

text \<open>The publishes of one call in order, until one fails.\<close>

fun publish_all ::
  "(nat \<Rightarrow> py_error option) \<Rightarrow> nat \<Rightarrow> bus_event list \<Rightarrow> bus_event list \<Rightarrow> bus_event list \<times> unit result" where
  "publish_all outcomes k [] bus = (bus, Inr ())"
| "publish_all outcomes k (m # ms) bus =
     (case outcomes k of
        Some e \<Rightarrow> (bus, Inl e)
      | None \<Rightarrow> publish_all outcomes (Suc k) ms (bus @ [m]))"

definition prepare_publication ::
  "closed_bar \<Rightarrow> evaluation_batch \<Rightarrow> service_state \<Rightarrow> service_state \<times> unit result" where
  "prepare_publication bar batch st =
     (case b_bar_sha256 bar of
        None \<Rightarrow> (st, Inl (ValueError ''a prepared publication requires its canonical anchor identity''))
      | Some anchor \<Rightarrow>
          (st\<lparr>t_prepared := (t_prepared st)(b_symbol bar := Some (anchor, batch)),
              t_evaluation_pending := (t_evaluation_pending st)(b_symbol bar := None),
              t_publication_pending := insert (b_symbol bar) (t_publication_pending st),
              t_last_evaluations := x_evaluations batch\<rparr>, Inr ()))"

definition publish_prepared ::
  "environment \<Rightarrow> string \<Rightarrow> service_state \<Rightarrow> service_state \<times> strategy_intent list result" where
  "publish_prepared env symbol st =
     (case t_prepared st symbol of
        None \<Rightarrow> (st, Inl (KeyError symbol))
      | Some (_, batch) \<Rightarrow>
          (case publish_all (w_publish env) 0 (batch_events batch) (t_bus st) of
             (bus, Inl e) \<Rightarrow> (st\<lparr>t_bus := bus\<rparr>, Inl e)
           | (bus, Inr _) \<Rightarrow>
               (st\<lparr>t_bus := bus, t_publication_pending := t_publication_pending st - {symbol}\<rparr>,
                Inr (x_intents batch))))"

definition finish_batch ::
  "environment \<Rightarrow> closed_bar \<Rightarrow> evaluation_batch \<Rightarrow> service_state \<Rightarrow> service_state \<times> strategy_intent list result" where
  "finish_batch env bar batch st =
     (case prepare_publication bar batch st of
        (st, Inl e) \<Rightarrow> (st, Inl e)
      | (st, Inr _) \<Rightarrow> publish_prepared env (b_symbol bar) st)"

subsection \<open>Committed outputs of a restored bar\<close>

definition slot_differs :: "service \<Rightarrow> closed_bar \<Rightarrow> evaluation \<Rightarrow> bool" where
  "slot_differs w bar e \<longleftrightarrow>
     Some (r_anchor_bar_sha256 e) \<noteq> b_bar_sha256 bar \<or> r_decision_ts_ms e \<noteq> b_close_time_ms bar \<or>
     r_symbol e \<noteq> b_symbol bar \<or> r_runtime_policy_sha256 e \<noteq> n_policy w \<or>
     r_enabled_strategy_ids e \<noteq> s_enabled_strategy_ids (n_settings w) \<or>
     r_trading_mode e \<noteq> s_trading_mode (n_settings w)"

definition expected_roster :: "service \<Rightarrow> string option set" where
  "expected_roster w =
     (if s_enabled_strategy_ids (n_settings w) = [] then {None}
      else Some ` set (s_enabled_strategy_ids (n_settings w)))"

definition intent_differs :: "evaluation \<Rightarrow> side \<Rightarrow> strategy_intent \<Rightarrow> bool" where
  "intent_differs e sd v \<longleftrightarrow>
     Some (v_strategy_id v) \<noteq> r_strategy_id e \<or> Some (v_strategy_revision v) \<noteq> r_strategy_revision e \<or>
     v_symbol v \<noteq> r_symbol e \<or> v_decision_ts_ms v \<noteq> r_decision_ts_ms e \<or> v_side v \<noteq> sd \<or>
     Some (p_strategy_code_sha256 (v_provenance v)) \<noteq> r_strategy_code_sha256 e \<or>
     Some (p_config_sha256 (v_provenance v)) \<noteq> r_config_sha256 e \<or>
     Some (p_input_window_sha256 (v_provenance v)) \<noteq> r_input_window_sha256 e"

text \<open>\<open>by_id\<close>: a later row with the same identity replaces an earlier one.\<close>

definition intent_by_id :: "strategy_intent list \<Rightarrow> string \<Rightarrow> strategy_intent option" where
  "intent_by_id vs i = find (\<lambda>v. v_intent_id v = Some i) (rev vs)"

definition check_saved_intent :: "strategy_intent list \<Rightarrow> evaluation \<Rightarrow> string \<times> side \<Rightarrow> unit result" where
  "check_saved_intent vs e = (\<lambda>(i, sd).
     case intent_by_id vs i of
       None \<Rightarrow> Inl (KeyError i)
     | Some v \<Rightarrow>
         if intent_differs e sd v
         then Inl (RuntimeError ''restored intent bytes differ from their exact observation provenance'')
         else Inr ())"

definition check_saved_evaluation :: "strategy_intent list \<Rightarrow> evaluation \<Rightarrow> unit result" where
  "check_saved_evaluation vs e =
     rbind (traverse (check_saved_intent vs e) (zip (r_intent_ids e) (r_intent_sides e))) (\<lambda>_.
       if length (r_intent_ids e) \<noteq> length (r_intent_sides e)
       then Inl (ValueError ''zip() arguments have different lengths'') else Inr ())"

definition saved_intents :: "audit \<Rightarrow> evaluation list \<Rightarrow> strategy_intent list result" where
  "saved_intents a es =
     (let intent_ids = concat (map r_intent_ids es) in
      if intent_ids = [] then Inr []
      else rbind (a_intents a intent_ids) (\<lambda>rows.
        rbind (traverse (\<lambda>r. r) rows) (\<lambda>vs.
          if length vs \<noteq> length intent_ids \<or> set (map v_intent_id vs) \<noteq> Some ` set intent_ids
          then Inl (RuntimeError ''restored directional evaluation is missing its committed intent bytes'')
          else rmap (\<lambda>_. vs) (traverse (check_saved_evaluation vs) es))))"

definition strategy_or_empty :: "evaluation \<Rightarrow> string" where
  "strategy_or_empty e = (case r_strategy_id e of None \<Rightarrow> [] | Some i \<Rightarrow> i)"

definition check_saved_batch :: "service \<Rightarrow> closed_bar \<Rightarrow> audit \<Rightarrow> evaluation list \<Rightarrow> evaluation_batch result" where
  "check_saved_batch w bar a es =
     (if length es \<noteq> card (expected_roster w) \<or> set (map r_strategy_id es) \<noteq> expected_roster w
      then Inl (RuntimeError ''restored strategy observations have an incomplete or duplicate roster'')
      else if list_ex (slot_differs w bar) es
      then Inl (RuntimeError ''restored strategy observation differs from its exact causal slot'')
      else if card (set (map (k_evaluation_id (n_core w)) es)) \<noteq> length es
      then Inl (RuntimeError ''restored strategy observations repeat a logical evaluation identity'')
      else rbind (traverse (validate_runtime_evaluation_provenance (n_core w) (n_generators w)) es) (\<lambda>_.
        rmap (\<lambda>vs. \<lparr>x_intents = vs, x_evaluations = sort_key strategy_or_empty es\<rparr>) (saved_intents a es)))"

definition saved_batch :: "service \<Rightarrow> environment \<Rightarrow> closed_bar \<Rightarrow> string \<Rightarrow> evaluation_batch option result" where
  "saved_batch w env bar anchor =
     (case w_audit env of
        None \<Rightarrow> Inr None
      | Some a \<Rightarrow>
          rbind (a_evaluations a (b_symbol bar) anchor (n_policy w)) (\<lambda>rows.
            if rows = [] then Inr None
            else rbind (traverse (\<lambda>r. r) rows) (\<lambda>es. rmap Some (check_saved_batch w bar a es))))"

subsection \<open>One bar\<close>

text \<open>The generator of the service: the registered default configuration, the requested mode.\<close>

definition service_generator :: "service \<Rightarrow> runtime_generator" where
  "service_generator w i bars paper =
     generate_runtime_strategy_intents (n_core w) (n_generators w) i bars None paper"

definition unavailable_batch ::
  "service \<Rightarrow> environment \<Rightarrow> closed_bar \<Rightarrow> string \<Rightarrow> evaluation_batch result" where
  "unavailable_batch w env bar reason =
     unavailable_runtime_evaluations (n_core w) (n_generators w) (n_settings w) (n_policy w) (w_clock env) bar reason"

text \<open>The bar is the newest of its window: evaluate, prepare, publish.\<close>

definition evaluate_accepted ::
  "service \<Rightarrow> environment \<Rightarrow> closed_bar \<Rightarrow> service_state \<Rightarrow> service_state \<times> strategy_intent list result" where
  "evaluate_accepted w env bar st =
     (case evaluate_runtime_bar (n_core w) (n_generators w) (n_settings w) (n_policy w) (w_clock env)
             (service_generator w) get_runtime_requirements bar (t_bars st (b_symbol bar)) of
        Inl e \<Rightarrow> (st, Inl e)
      | Inr batch \<Rightarrow> finish_batch env bar batch st)"

text \<open>The bar is already part of the window, or older than the restored one.\<close>

definition observe_replay ::
  "service \<Rightarrow> environment \<Rightarrow> closed_bar \<Rightarrow> string \<Rightarrow> service_state \<Rightarrow> service_state \<times> strategy_intent list result" where
  "observe_replay w env bar anchor st =
     (if t_restored st (b_symbol bar) = None then (st, Inr [])
      else case saved_batch w env bar anchor of
        Inl e \<Rightarrow> (st, Inl e)
      | Inr (Some batch) \<Rightarrow>
          (st\<lparr>t_prepared := (t_prepared st)(b_symbol bar := Some (anchor, batch)),
              t_last_evaluations := x_evaluations batch\<rparr>, Inr [])
      | Inr None \<Rightarrow>
          (case unavailable_batch w env bar ''HISTORICAL_REPLAY_NOT_EVALUATED'' of
             Inl e \<Rightarrow> (st, Inl e)
           | Inr batch \<Rightarrow> finish_batch env bar batch st))"

text \<open>The bar violates the sequence: its receipts are published, then the violation is raised again.\<close>

definition quarantine ::
  "service \<Rightarrow> environment \<Rightarrow> closed_bar \<Rightarrow> py_error \<Rightarrow> service_state \<Rightarrow> service_state \<times> strategy_intent list result" where
  "quarantine w env bar violation st =
     (case unavailable_batch w env bar ''CLOSED_BAR_SEQUENCE_QUARANTINED'' of
        Inl e \<Rightarrow> (st, Inl e)
      | Inr batch \<Rightarrow>
          (case finish_batch env bar batch st of
             (st, Inl e) \<Rightarrow> (st, Inl e)
           | (st, Inr _) \<Rightarrow> (st, Inl violation)))"

definition accept_bar ::
  "service \<Rightarrow> environment \<Rightarrow> closed_bar \<Rightarrow> string \<Rightarrow> service_state \<Rightarrow> service_state \<times> strategy_intent list result" where
  "accept_bar w env bar anchor st =
     (case append_or_replay w bar st of
        (st, Inl violation) \<Rightarrow>
          (case violation of
             ClosedBarSequenceError _ \<Rightarrow> quarantine w env bar violation st
           | _ \<Rightarrow> (st, Inl violation))
      | (st, Inr False) \<Rightarrow> observe_replay w env bar anchor st
      | (st, Inr True) \<Rightarrow>
          evaluate_accepted w env bar
            (st\<lparr>t_evaluation_pending := (t_evaluation_pending st)(b_symbol bar := Some anchor)\<rparr>))"

text \<open>The bar has an identity; what the service remembers of its symbol decides.\<close>

definition prepared_anchor :: "service_state \<Rightarrow> string \<Rightarrow> string option" where
  "prepared_anchor st symbol = map_option fst (t_prepared st symbol)"

definition process_identified ::
  "service \<Rightarrow> environment \<Rightarrow> closed_bar \<Rightarrow> string \<Rightarrow> service_state \<Rightarrow> service_state \<times> strategy_intent list result" where
  "process_identified w env bar anchor st =
     (if b_symbol bar \<in> t_publication_pending st then
        (if prepared_anchor st (b_symbol bar) \<noteq> Some anchor
         then (st, Inl (RuntimeError ''an unpublished predecessor must finish before the next symbol bar''))
         else publish_prepared env (b_symbol bar) st)
      else if prepared_anchor st (b_symbol bar) = Some anchor then (st, Inr [])
      else case t_evaluation_pending st (b_symbol bar) of
        Some unfinished \<Rightarrow>
          (if unfinished \<noteq> anchor
           then (st, Inl (RuntimeError ''an unprepared predecessor must finish before the next symbol bar''))
           else evaluate_accepted w env bar st)
      | None \<Rightarrow> accept_bar w env bar anchor st)"

definition process_bar ::
  "service \<Rightarrow> environment \<Rightarrow> closed_bar \<Rightarrow> service_state \<Rightarrow> service_state \<times> strategy_intent list result" where
  "process_bar w env bar st =
     (if \<not> s_symbol_allowed (n_settings w) (b_symbol bar)
      then (st, Inl (ValueError (''closed bar symbol is outside the configured universe: '' @ b_symbol bar)))
      else if w_now env < b_close_time_ms bar
      then (st, Inl (ValueError ''a future closed bar cannot enter the strategy's causal history''))
      else case b_bar_sha256 bar of
        None \<Rightarrow> (st, Inl (ValueError ''a runtime bar requires its canonical identity''))
      | Some anchor \<Rightarrow> process_identified w env bar anchor st)"

subsection \<open>One envelope\<close>

text \<open>After a failure the prepared batch of this bar stays due: the next delivery republishes it.\<close>

definition keep_due :: "closed_bar \<Rightarrow> service_state \<Rightarrow> service_state" where
  "keep_due bar st =
     (if prepared_anchor st (b_symbol bar) \<noteq> None \<and> prepared_anchor st (b_symbol bar) = b_bar_sha256 bar
      then st\<lparr>t_publication_pending := insert (b_symbol bar) (t_publication_pending st)\<rparr> else st)"

fun is_sequence_error :: "py_error \<Rightarrow> bool" where
  "is_sequence_error (ClosedBarSequenceError _) = True"
| "is_sequence_error _ = False"

definition acknowledge ::
  "environment \<Rightarrow> string \<Rightarrow> closed_bar \<Rightarrow> service_state \<Rightarrow> service_state \<times> unit result" where
  "acknowledge env ident bar st =
     (case w_ack env of
        None \<Rightarrow> (st\<lparr>t_bus := t_bus st @ [AckOut ident]\<rparr>, Inr ())
      | Some e \<Rightarrow> (keep_due bar st, Inl e))"

definition handle_envelope ::
  "service \<Rightarrow> environment \<Rightarrow> envelope \<Rightarrow> service_state \<Rightarrow> service_state \<times> unit result" where
  "handle_envelope w env y st =
     (if y_topic y \<noteq> n_closed_bar_topic w
      then (st, Inl (ValueError ''strategy consumer requires the CLOSED_BAR input topic''))
      else case y_payload y of
        Inl e \<Rightarrow> (st, Inl e)
      | Inr bar \<Rightarrow>
          (case process_bar w env bar st of
             (st, Inl e) \<Rightarrow>
               (if is_sequence_error e then acknowledge env (y_id y) bar st else (keep_due bar st, Inl e))
           | (st, Inr _) \<Rightarrow> acknowledge env (y_id y) bar st))"

subsection \<open>Restart\<close>

text \<open>One row of the audit log: decoded, filtered by the universe and the blocked symbols, appended; a
  violation blocks the symbol and the restoration goes on.\<close>

definition restore_payload :: "service \<Rightarrow> closed_bar result \<Rightarrow> service_state \<Rightarrow> service_state \<times> unit result" where
  "restore_payload w payload st =
     (case payload of
        Inl e \<Rightarrow> (st, Inl e)
      | Inr bar \<Rightarrow>
          (if \<not> s_symbol_allowed (n_settings w) (b_symbol bar) \<or> t_blocked st (b_symbol bar) \<noteq> None then (st, Inr ())
           else case append_or_replay w bar st of
             (st, Inl e) \<Rightarrow> (st, if is_sequence_error e then Inr () else Inl e)
           | (st, Inr _) \<Rightarrow> (st, Inr ())))"

fun restore_loop :: "service \<Rightarrow> closed_bar result list \<Rightarrow> service_state \<Rightarrow> service_state \<times> unit result" where
  "restore_loop w [] st = (st, Inr ())"
| "restore_loop w (p # ps) st =
     (case restore_payload w p st of
        (st, Inl e) \<Rightarrow> (st, Inl e)
      | (st, Inr _) \<Rightarrow> restore_loop w ps st)"

definition restored_marks :: "service_state \<Rightarrow> string \<Rightarrow> int option" where
  "restored_marks st symbol =
     (if t_bars st symbol \<noteq> [] \<and> t_blocked st symbol = None
      then Some (b_open_time_ms (last (t_bars st symbol))) else None)"

definition restore_payloads :: "service \<Rightarrow> closed_bar result list \<Rightarrow> service_state \<Rightarrow> service_state \<times> unit result" where
  "restore_payloads w ps st =
     (case restore_loop w ps st of
        (st, Inl e) \<Rightarrow> (st, Inl e)
      | (st, Inr _) \<Rightarrow> (st\<lparr>t_restored := restored_marks st\<rparr>, Inr ()))"

text \<open>The rows of the restart query, newest \<open>window_bars\<close> of every symbol, come from the audit log.\<close>

definition restore_history ::
  "service \<Rightarrow> closed_bar result list result option \<Rightarrow> service_state \<Rightarrow> service_state \<times> unit result" where
  "restore_history w rows st =
     (case rows of
        None \<Rightarrow> (st, Inr ())
      | Some (Inl e) \<Rightarrow> (st, Inl e)
      | Some (Inr ps) \<Rightarrow> restore_payloads w ps st)"

subsection \<open>The pure generation of one bar\<close>

definition generate_for_strategy ::
  "service \<Rightarrow> closed_bar \<Rightarrow> closed_bar list \<Rightarrow> string \<Rightarrow> strategy_intent list result" where
  "generate_for_strategy w bar history strategy_id =
     (let r = get_runtime_requirements strategy_id in
      if int (length history) < minimum_window_bars r \<or> \<not> on_decision_minute r bar then Inr []
      else rmap (filter (\<lambda>v. v_decision_ts_ms v = b_close_time_ms bar))
        (service_generator w strategy_id history (s_trading_mode (n_settings w) = PAPER)))"

definition generate_for_bar :: "service \<Rightarrow> closed_bar \<Rightarrow> service_state \<Rightarrow> strategy_intent list result" where
  "generate_for_bar w bar st =
     rmap (sort_key batch_key)
       (extend_all (generate_for_strategy w bar (t_bars st (b_symbol bar))) (s_enabled_strategy_ids (n_settings w)))"

subsection \<open>What one symbol sees\<close>

text \<open>The part of the state that belongs to one symbol. The bus log and the last observations are shared.\<close>

definition view ::
  "service_state \<Rightarrow> string \<Rightarrow> closed_bar list \<times> string option \<times> int option \<times> (string \<times> evaluation_batch) option \<times>
     bool \<times> string option" where
  "view st symbol =
     (t_bars st symbol, t_blocked st symbol, t_restored st symbol, t_prepared st symbol,
      symbol \<in> t_publication_pending st, t_evaluation_pending st symbol)"

definition minute_steps :: "closed_bar list \<Rightarrow> bool" where
  "minute_steps bars \<longleftrightarrow> successively (\<lambda>a b. b_open_time_ms b = b_open_time_ms a + 60000) bars"

definition window_ok :: "service \<Rightarrow> string \<Rightarrow> closed_bar list \<Rightarrow> bool" where
  "window_ok w symbol bars \<longleftrightarrow>
     minute_steps bars \<and> list_all (\<lambda>b. b_symbol b = symbol) bars \<and>
     length bars \<le> nat (s_window_bars (n_settings w))"

text \<open>The receipts of a prepared batch are about this symbol, this anchor and the policy of the service.\<close>

definition batch_of :: "service \<Rightarrow> string \<Rightarrow> string \<Rightarrow> evaluation_batch \<Rightarrow> bool" where
  "batch_of w symbol anchor batch \<longleftrightarrow>
     x_evaluations batch \<noteq> [] \<and>
     list_all (\<lambda>e. r_anchor_bar_sha256 e = anchor \<and> r_symbol e = symbol \<and>
       r_runtime_policy_sha256 e = n_policy w) (x_evaluations batch)"

definition symbol_inv :: "service \<Rightarrow> service_state \<Rightarrow> string \<Rightarrow> bool" where
  "symbol_inv w st symbol \<longleftrightarrow>
     window_ok w symbol (t_bars st symbol) \<and>
     (symbol \<in> t_publication_pending st \<longrightarrow> t_prepared st symbol \<noteq> None) \<and>
     (\<forall>anchor. t_evaluation_pending st symbol = Some anchor \<longrightarrow>
        t_blocked st symbol = None \<and> t_bars st symbol \<noteq> [] \<and>
        b_bar_sha256 (last (t_bars st symbol)) = Some anchor) \<and>
     (\<forall>anchor batch. t_prepared st symbol = Some (anchor, batch) \<longrightarrow> batch_of w symbol anchor batch)"

definition service_inv :: "service \<Rightarrow> service_state \<Rightarrow> bool" where
  "service_inv w st \<longleftrightarrow> (\<forall>symbol. symbol_inv w st symbol)"

lemma symbol_inv_view: "view st' symbol = view st symbol \<Longrightarrow> symbol_inv w st' symbol \<longleftrightarrow> symbol_inv w st symbol"
  by (simp add: view_def symbol_inv_def)

text \<open>
  The contract of every operation on a bar: it touches only the symbol of the bar, it keeps the invariant of
  that symbol, and a blocked symbol stays blocked with its window unchanged.
\<close>

definition good_step :: "service \<Rightarrow> string \<Rightarrow> service_state \<Rightarrow> service_state \<Rightarrow> bool" where
  "good_step w symbol st st' \<longleftrightarrow>
     (\<forall>other. other \<noteq> symbol \<longrightarrow> view st' other = view st other) \<and>
     (symbol_inv w st symbol \<longrightarrow> symbol_inv w st' symbol) \<and>
     (\<forall>reason. t_blocked st symbol = Some reason \<longrightarrow>
        t_blocked st' symbol = Some reason \<and> t_bars st' symbol = t_bars st symbol)"

lemma good_step_refl [simp, intro]: "good_step w symbol st st"
  by (simp add: good_step_def)

lemma good_step_trans: "good_step w symbol st st1 \<Longrightarrow> good_step w symbol st1 st2 \<Longrightarrow> good_step w symbol st st2"
  by (simp add: good_step_def)

text \<open>Only the bus log or the last observations change.\<close>

lemma good_step_bus [simp, intro]: "good_step w symbol st (st\<lparr>t_bus := bus\<rparr>)"
  by (simp add: good_step_def view_def symbol_inv_def)

lemma minute_steps_last_n: "minute_steps bars \<Longrightarrow> minute_steps (last_n n bars)"
proof -
  assume "minute_steps bars"
  then have "minute_steps (take (length bars - n) bars @ drop (length bars - n) bars)" by simp
  then show ?thesis unfolding minute_steps_def last_n_def successively_append_iff by blast
qed

lemma block_good: "t_evaluation_pending st symbol = None \<Longrightarrow> t_blocked st symbol = None \<Longrightarrow>
    good_step w symbol st (block symbol reason st)"
  by (auto simp: good_step_def view_def symbol_inv_def block_def)

lemma append_bar_good:
  assumes "t_blocked st (b_symbol bar) = None" and "t_evaluation_pending st (b_symbol bar) = None"
    and "t_bars st (b_symbol bar) \<noteq> [] \<longrightarrow>
      b_open_time_ms bar = b_open_time_ms (last (t_bars st (b_symbol bar))) + 60000"
  shows "good_step w (b_symbol bar) st (append_bar w bar st)"
proof -
  have "window_ok w (b_symbol bar) (last_n (nat (s_window_bars (n_settings w))) (t_bars st (b_symbol bar) @ [bar]))"
    if "window_ok w (b_symbol bar) (t_bars st (b_symbol bar))"
    using that assms(3) set_last_n_subset [of "nat (s_window_bars (n_settings w))" "t_bars st (b_symbol bar) @ [bar]"]
    by (auto simp: window_ok_def list_all_iff minute_steps_def successively_append_iff
        intro!: minute_steps_last_n [unfolded minute_steps_def])
  with assms(1,2) show ?thesis by (simp add: good_step_def view_def symbol_inv_def append_bar_def)
qed

text \<open>What accepting a bar can do.\<close>

lemma append_or_replay_cases:
  assumes "append_or_replay w bar st = (st', r)"
  obtains
    (blocked) reason m where "t_blocked st (b_symbol bar) = Some reason" "st' = st" "r = Inl (ClosedBarSequenceError m)"
  | (violation) reason where "t_blocked st (b_symbol bar) = None" "t_bars st (b_symbol bar) \<noteq> []"
      "st' = block (b_symbol bar) reason st" "r = Inl (ClosedBarSequenceError reason)"
  | (replay) "t_blocked st (b_symbol bar) = None" "st' = st" "r = Inr False"
      "(\<exists>b \<in> set (t_bars st (b_symbol bar)). b_open_time_ms b = b_open_time_ms bar \<and> b_bar_sha256 b = b_bar_sha256 bar)
         \<or> restored_prefix st bar"
  | (accepted) "t_blocked st (b_symbol bar) = None" "st' = append_bar w bar st" "r = Inr True"
      "t_bars st (b_symbol bar) \<noteq> [] \<Longrightarrow>
         b_open_time_ms bar = b_open_time_ms (last (t_bars st (b_symbol bar))) + 60000"
      "\<not> restored_prefix st bar"
proof (cases "t_blocked st (b_symbol bar)")
  case (Some reason)
  with assms show ?thesis by (auto simp: append_or_replay_def Let_def intro: blocked)
next
  case None
  show ?thesis
  proof (cases "find (\<lambda>existing. b_open_time_ms existing = b_open_time_ms bar) (t_bars st (b_symbol bar))")
    case (Some existing)
    then have "existing \<in> set (t_bars st (b_symbol bar))" "b_open_time_ms existing = b_open_time_ms bar"
      by (auto simp: find_Some_iff)
    moreover from this have "t_bars st (b_symbol bar) \<noteq> []" by auto
    ultimately show ?thesis using assms None Some
      by (auto simp: append_or_replay_def Let_def block_and_raise_def split: if_splits intro: replay violation)
  next
    case absent: None
    show ?thesis using assms None absent
      by (auto simp: append_or_replay_def Let_def block_and_raise_def split: if_splits
          intro: replay violation accepted)
  qed
qed

lemma append_or_replay_error:
  "append_or_replay w bar st = (st', Inl e) \<Longrightarrow> \<exists>m. e = ClosedBarSequenceError m"
  by (erule append_or_replay_cases) auto

lemma append_or_replay_good:
  assumes "append_or_replay w bar st = (st', r)" and "t_evaluation_pending st (b_symbol bar) = None"
  shows "good_step w (b_symbol bar) st st'"
  using assms(1)
proof (cases rule: append_or_replay_cases)
  case (violation reason)
  then show ?thesis using assms(2) by (simp add: block_good)
next
  case accepted
  then show ?thesis using assms(2) by (simp add: append_bar_good)
qed simp_all

subsection \<open>Batches are about their bar\<close>

lemma unavailable_receipt_Inr:
  assumes "faithful_contracts K" and "unavailable_receipt K s policy bar reason now d = Inr e"
  shows "b_bar_sha256 bar = Some (r_anchor_bar_sha256 e) \<and> r_symbol e = b_symbol bar \<and>
    r_runtime_policy_sha256 e = policy \<and> r_status e = UNAVAILABLE \<and> r_intent_ids e = []"
proof -
  from assms(2) obtain f where m: "make_receipt K s policy bar [bar] now f = Inr e" and
    f: "f_status f = UNAVAILABLE" "f_intents f = []"
    by (auto simp: unavailable_receipt_def rbind_Inr_iff engine_facts_def)
  note r = make_receipt_Inr [OF assms(1) m]
  show ?thesis using r f by simp
qed

lemma engine_receipt_Inr:
  assumes "faithful_contracts K" and "make_receipt K s policy bar history now (engine_facts st reason) = Inr e"
  shows "b_bar_sha256 bar = Some (r_anchor_bar_sha256 e) \<and> r_symbol e = b_symbol bar \<and>
    r_runtime_policy_sha256 e = policy \<and> r_status e = st \<and> r_intent_ids e = []"
  using make_receipt_Inr [OF assms] by (simp add: engine_facts_def)

lemma unavailable_Inr:
  assumes "faithful_contracts K" and "unavailable_runtime_evaluations K G s policy clock bar reason = Inr b"
  shows "x_intents b = [] \<and> x_evaluations b \<noteq> [] \<and>
    list_all (\<lambda>e. b_bar_sha256 bar = Some (r_anchor_bar_sha256 e) \<and> r_symbol e = b_symbol bar \<and>
      r_runtime_policy_sha256 e = policy \<and> r_status e = UNAVAILABLE \<and> r_intent_ids e = []) (x_evaluations b)"
proof -
  from assms(2) obtain ds es where b: "b = \<lparr>x_intents = [], x_evaluations = es\<rparr>" and
    es: "(if ds = [] then rmap (\<lambda>e. [e]) (make_receipt K s policy bar [bar] (clock 0) (engine_facts UNAVAILABLE reason))
        else traverse (\<lambda>(k, d). unavailable_receipt K s policy bar reason (clock k) d) (enumerate 0 ds)) = Inr es"
    by (auto simp: unavailable_runtime_evaluations_def rbind_Inr_iff rmap_Inr_iff)
  show ?thesis
  proof (cases "ds = []")
    case True
    with es show ?thesis using engine_receipt_Inr [OF assms(1)] by (auto simp: b rmap_Inr_iff)
  next
    case False
    with es have t: "traverse (\<lambda>(k, d). unavailable_receipt K s policy bar reason (clock k) d) (enumerate 0 ds) = Inr es"
      by simp
    have "es \<noteq> []" using traverse_length [OF t] False by auto
    moreover have "\<exists>now d. unavailable_receipt K s policy bar reason now d = Inr e" if "e \<in> set es" for e
      using traverse_mem [OF t that] by auto
    ultimately show ?thesis using unavailable_receipt_Inr [OF assms(1)] unfolding b list_all_iff
      by (auto; blast)
  qed
qed

lemma unavailable_batch_of:
  assumes "faithful_contracts (n_core w)" and "unavailable_batch w env bar reason = Inr b"
    and "b_bar_sha256 bar = Some anchor"
  shows "batch_of w (b_symbol bar) anchor b" and "x_intents b = []"
    and "list_all (\<lambda>e. r_status e = UNAVAILABLE) (x_evaluations b)"
  using unavailable_Inr [OF assms(1) assms(2) [unfolded unavailable_batch_def]] assms(3)
  by (auto simp: batch_of_def list_all_iff)

lemma evaluation_batch_of:
  assumes K: "faithful_contracts (n_core w)" and sha: "b_bar_sha256 bar = Some anchor"
    and run: "evaluate_runtime_bar (n_core w) (n_generators w) (n_settings w) (n_policy w) clock gen req bar history = Inr b"
  shows "batch_of w (b_symbol bar) anchor b"
proof (cases "s_enabled_strategy_ids (n_settings w) = []")
  case True
  with run obtain e where "make_receipt (n_core w) (n_settings w) (n_policy w) bar [bar] (clock 0)
      (engine_facts DISABLED ''EMPTY_STRATEGY_ALLOW_LIST'') = Inr e" "x_evaluations b = [e]"
    by (auto simp: evaluate_runtime_bar_def rmap_Inr_iff)
  then show ?thesis using engine_receipt_Inr [OF K] sha by (auto simp: batch_of_def)
next
  case False
  from evaluate_runtime_bar_receipts [OF run False] obtain ordered where
    len: "length (x_evaluations b) = length (s_enabled_strategy_ids (n_settings w))" and
    each: "\<forall>k < length (x_evaluations b). \<exists>d. receipt_of (n_core w) (n_generators w) (n_settings w) (n_policy w) gen req bar
       ordered (clock k) (s_enabled_strategy_ids (n_settings w) ! k) d (x_evaluations b ! k)" by blast
  have "r_anchor_bar_sha256 e = anchor \<and> r_symbol e = b_symbol bar \<and> r_runtime_policy_sha256 e = n_policy w"
    if "e \<in> set (x_evaluations b)" for e
  proof -
    from that each obtain now i d where "receipt_of (n_core w) (n_generators w) (n_settings w) (n_policy w) gen req bar
       ordered now i d e" by (metis in_set_conv_nth)
    from make_receipt_Inr [OF K receipt_of_make [OF this]] sha show ?thesis by simp
  qed
  moreover have "x_evaluations b \<noteq> []" using len False by auto
  ultimately show ?thesis by (simp add: batch_of_def list_all_iff)
qed

lemma check_saved_batch_Inr:
  assumes "check_saved_batch w bar a es = Inr b"
  shows "length es = card (expected_roster w)" and "set (map r_strategy_id es) = expected_roster w"
    and "\<not> list_ex (slot_differs w bar) es"
    and "x_evaluations b = sort_key strategy_or_empty es" and "saved_intents a es = Inr (x_intents b)"
    and "card (set (map (k_evaluation_id (n_core w)) es)) = length es"
    and "list_all (\<lambda>e. validate_runtime_evaluation_provenance (n_core w) (n_generators w) e = Inr ()) es"
  using assms traverse_dom
  by (fastforce simp: check_saved_batch_def rbind_Inr_iff rmap_Inr_iff list_all_iff split: if_splits)+

lemma expected_roster_nonempty: "expected_roster w \<noteq> {}" "finite (expected_roster w)"
  by (simp_all add: expected_roster_def)

lemma check_saved_batch_of:
  assumes "check_saved_batch w bar a es = Inr b" and "b_bar_sha256 bar = Some anchor"
  shows "batch_of w (b_symbol bar) anchor b"
proof -
  note c = check_saved_batch_Inr [OF assms(1)]
  have "es \<noteq> []" using c(2) expected_roster_nonempty(1) [of w] by auto
  then have "x_evaluations b \<noteq> []" unfolding c(4) using mset_sort by (metis mset_zero_iff)
  moreover have "\<not> slot_differs w bar e" if "e \<in> set es" for e using c(3) that by (auto simp: list_ex_iff)
  ultimately show ?thesis using assms(2) by (auto simp: batch_of_def c(4) list_all_iff slot_differs_def)
qed

lemma saved_batch_of:
  assumes "saved_batch w env bar anchor = Inr (Some b)" and "b_bar_sha256 bar = Some anchor"
  shows "batch_of w (b_symbol bar) anchor b"
  using assms check_saved_batch_of
  by (auto simp: saved_batch_def rbind_Inr_iff rmap_Inr_iff split: option.splits if_splits)

subsection \<open>Every operation keeps the contract\<close>

lemma publish_prepared_cases:
  assumes "publish_prepared env symbol st = (st', r)"
  obtains (missing) "t_prepared st symbol = None" "st' = st" "r = Inl (KeyError symbol)"
  | (failed) anchor batch bus e where "t_prepared st symbol = Some (anchor, batch)"
      "publish_all (w_publish env) 0 (batch_events batch) (t_bus st) = (bus, Inl e)"
      "st' = st\<lparr>t_bus := bus\<rparr>" "r = Inl e"
  | (published) anchor batch bus where "t_prepared st symbol = Some (anchor, batch)"
      "publish_all (w_publish env) 0 (batch_events batch) (t_bus st) = (bus, Inr ())"
      "st' = st\<lparr>t_bus := bus, t_publication_pending := t_publication_pending st - {symbol}\<rparr>"
      "r = Inr (x_intents batch)"
  using assms by (auto simp: publish_prepared_def split: option.splits prod.splits sum.splits intro: that)

lemma publish_prepared_good:
  "publish_prepared env symbol st = (st', r) \<Longrightarrow> good_step w symbol st st'"
  by (erule publish_prepared_cases) (auto simp: good_step_def view_def symbol_inv_def)

lemma prepared_good:
  assumes "batch_of w symbol anchor batch"
  shows "good_step w symbol st (st\<lparr>t_prepared := (t_prepared st)(symbol := Some (anchor, batch)),
      t_last_evaluations := es\<rparr>)"
    and "good_step w symbol st (st\<lparr>t_prepared := (t_prepared st)(symbol := Some (anchor, batch)),
      t_evaluation_pending := (t_evaluation_pending st)(symbol := None),
      t_publication_pending := insert symbol (t_publication_pending st), t_last_evaluations := es\<rparr>)"
  using assms by (auto simp: good_step_def view_def symbol_inv_def)

lemma finish_batch_good:
  assumes "batch_of w (b_symbol bar) anchor batch" and "b_bar_sha256 bar = Some anchor"
    and "finish_batch env bar batch st = (st', r)"
  shows "good_step w (b_symbol bar) st st'"
  using assms(3) unfolding finish_batch_def prepare_publication_def assms(2)
  by (auto intro: good_step_trans [OF prepared_good(2) [OF assms(1)] publish_prepared_good])

lemma evaluate_accepted_good:
  assumes "faithful_contracts (n_core w)" and "b_bar_sha256 bar = Some anchor"
    and "evaluate_accepted w env bar st = (st', r)"
  shows "good_step w (b_symbol bar) st st'"
  using assms(3) finish_batch_good [OF evaluation_batch_of [OF assms(1,2)] assms(2)]
  by (auto simp: evaluate_accepted_def split: sum.splits)

lemma observe_replay_good:
  assumes "faithful_contracts (n_core w)" and "b_bar_sha256 bar = Some anchor"
    and "observe_replay w env bar anchor st = (st', r)"
  shows "good_step w (b_symbol bar) st st'"
  using assms(3) finish_batch_good [OF unavailable_batch_of(1) [OF assms(1) _ assms(2)] assms(2)]
    prepared_good(1) [OF saved_batch_of [OF _ assms(2)]]
  by (auto simp: observe_replay_def split: sum.splits if_splits option.splits)

lemma quarantine_good:
  assumes "faithful_contracts (n_core w)" and "b_bar_sha256 bar = Some anchor"
    and "quarantine w env bar violation st = (st', r)"
  shows "good_step w (b_symbol bar) st st'"
  using assms(3) finish_batch_good [OF unavailable_batch_of(1) [OF assms(1) _ assms(2)] assms(2)]
  by (auto simp: quarantine_def split: sum.splits prod.splits)

text \<open>Appending and marking the evaluation as due is one step of the contract.\<close>

lemma mark_good:
  assumes "good_step w symbol st st1" and "t_bars st1 symbol \<noteq> []" and "t_blocked st1 symbol = None"
    and "b_bar_sha256 (last (t_bars st1 symbol)) = Some anchor"
  shows "good_step w symbol st (st1\<lparr>t_evaluation_pending := (t_evaluation_pending st1)(symbol := Some anchor)\<rparr>)"
proof -
  have "good_step w symbol st1 (st1\<lparr>t_evaluation_pending := (t_evaluation_pending st1)(symbol := Some anchor)\<rparr>)"
    using assms(2-4) by (simp add: good_step_def view_def symbol_inv_def)
  with assms(1) show ?thesis by (rule good_step_trans)
qed

lemma append_and_mark_good:
  assumes app: "append_or_replay w bar st = (st1, Inr True)" and none: "t_evaluation_pending st (b_symbol bar) = None"
    and sha: "b_bar_sha256 bar = Some anchor" and window: "0 < s_window_bars (n_settings w)"
  shows "good_step w (b_symbol bar) st
    (st1\<lparr>t_evaluation_pending := (t_evaluation_pending st1)(b_symbol bar := Some anchor)\<rparr>)"
  using app
proof (cases rule: append_or_replay_cases)
  case accepted
  have good: "good_step w (b_symbol bar) st st1" using append_or_replay_good [OF app none] .
  have bars: "t_bars st1 (b_symbol bar) = last_n (nat (s_window_bars (n_settings w))) (t_bars st (b_symbol bar) @ [bar])"
    and blocked: "t_blocked st1 (b_symbol bar) = None"
    using accepted by (simp_all add: append_bar_def)
  have "t_bars st1 (b_symbol bar) \<noteq> []"
  proof -
    have "length (t_bars st1 (b_symbol bar)) > 0" using window unfolding bars length_last_n by simp
    then show ?thesis by blast
  qed
  moreover have "b_bar_sha256 (last (t_bars st1 (b_symbol bar))) = Some anchor"
    using window sha by (simp add: bars last_last_n)
  ultimately show ?thesis using good blocked by (intro mark_good)
qed simp_all

lemma accept_bar_good:
  assumes "faithful_contracts (n_core w)" and "0 < s_window_bars (n_settings w)" and "b_bar_sha256 bar = Some anchor"
    and "t_evaluation_pending st (b_symbol bar) = None" and "accept_bar w env bar anchor st = (st', r)"
  shows "good_step w (b_symbol bar) st st'"
proof -
  obtain st1 r1 where app: "append_or_replay w bar st = (st1, r1)" by fastforce
  note good = append_or_replay_good [OF app assms(4)]
  show ?thesis
  proof (cases r1)
    case (Inl e)
    with append_or_replay_error app obtain m where "e = ClosedBarSequenceError m" by blast
    with assms(5) app Inl good quarantine_good [OF assms(1,3)] show ?thesis
      by (auto simp: accept_bar_def intro: good_step_trans)
  next
    case (Inr fresh)
    then show ?thesis
      using assms(5) app good observe_replay_good [OF assms(1,3)] evaluate_accepted_good [OF assms(1,3)]
        append_and_mark_good [OF _ assms(4,3,2), of st1]
      by (cases fresh) (auto simp: accept_bar_def intro: good_step_trans)
  qed
qed

lemma process_bar_good:
  assumes "faithful_contracts (n_core w)" and "0 < s_window_bars (n_settings w)" and "process_bar w env bar st = (st', r)"
  shows "good_step w (b_symbol bar) st st'"
  using assms(3) publish_prepared_good evaluate_accepted_good [OF assms(1)] accept_bar_good [OF assms(1,2)]
  by (auto simp: process_bar_def process_identified_def split: if_splits option.splits)

lemma keep_due_good: "good_step w (b_symbol bar) st (keep_due bar st)"
  by (auto simp: keep_due_def good_step_def view_def symbol_inv_def prepared_anchor_def)

lemma acknowledge_good: "acknowledge env i bar st = (st', r) \<Longrightarrow> good_step w (b_symbol bar) st st'"
  using keep_due_good by (auto simp: acknowledge_def split: option.splits)

lemma handle_envelope_good:
  assumes "faithful_contracts (n_core w)" and "0 < s_window_bars (n_settings w)"
    and "y_payload y = Inr bar" and "handle_envelope w env y st = (st', r)"
  shows "good_step w (b_symbol bar) st st'"
proof -
  obtain st1 r1 where p: "process_bar w env bar st = (st1, r1)" by fastforce
  note good = good_step_trans [OF process_bar_good [OF assms(1,2) p]]
  show ?thesis
    using assms(4) p good [OF keep_due_good] good [OF acknowledge_good]
    by (auto simp: handle_envelope_def assms(3) split: if_splits sum.splits)
qed

lemma handle_envelope_undecoded:
  assumes "y_payload y = Inl e" and "handle_envelope w env y st = (st', r)"
  shows "st' = st"
  using assms by (auto simp: handle_envelope_def split: if_splits)

lemma restore_payload_good:
  assumes "payload = Inr bar" and "t_evaluation_pending st (b_symbol bar) = None" and "restore_payload w payload st = (st', r)"
  shows "good_step w (b_symbol bar) st st'"
  using assms append_or_replay_good [OF _ assms(2)]
  by (auto simp: restore_payload_def split: if_splits sum.splits prod.splits)

subsection \<open>A concrete service\<close>

text \<open>No strategy is enabled, the window holds two bars, the bus is healthy.\<close>

definition sample_service :: service where
  "sample_service =
    \<lparr>n_core = sample_core, n_generators = sample_generators,
     n_settings = sample_settings\<lparr>s_enabled_strategy_ids := [], s_window_bars := 2\<rparr>,
     n_policy = ''p'', n_closed_bar_topic = ''closed-bar''\<rparr>"

definition sample_environment :: environment where
  "sample_environment =
    \<lparr>w_now = 1000000000, w_clock = (\<lambda>_. 7), w_publish = (\<lambda>_. None), w_ack = None, w_audit = None\<rparr>"

definition stream_bar :: "int \<Rightarrow> string \<Rightarrow> closed_bar" where
  "stream_bar i sha = (sample_bar i)\<lparr>b_bar_sha256 := Some sha\<rparr>"

definition sample_envelope :: "int \<Rightarrow> string \<Rightarrow> envelope" where
  "sample_envelope i sha = \<lparr>y_id = sha, y_topic = ''closed-bar'', y_payload = Inr (stream_bar i sha)\<rparr>"

lemma stream_bar_fields [simp]:
  "b_symbol (stream_bar i sha) = ''BTCUSDT''" "b_bar_sha256 (stream_bar i sha) = Some sha"
  "b_open_time_ms (stream_bar i sha) = 60000 * i" "b_close_time_ms (stream_bar i sha) = 60000 * i + 59999"
  by (simp_all add: stream_bar_def sample_bar_def bar_of_candle_def sample_minute_def)

lemma sample_service_sound: "faithful_contracts (n_core sample_service)" "0 < s_window_bars (n_settings sample_service)"
  "s_symbol_allowed (n_settings sample_service) ''BTCUSDT''" "s_window_bars (n_settings sample_service) = 2"
  "n_closed_bar_topic sample_service = ''closed-bar''" "s_enabled_strategy_ids (n_settings sample_service) = []"
  by (simp_all add: sample_service_def sample_core_faithful sample_settings_def)

lemma sample_engine_receipt:
  "\<exists>e. evaluate_runtime_bar (n_core sample_service) (n_generators sample_service) (n_settings sample_service)
     (n_policy sample_service) clock gen req (stream_bar i sha) history = Inr \<lparr>x_intents = [], x_evaluations = [e]\<rparr>"
  by (simp add: evaluate_runtime_bar_def sample_service_def sample_core_def make_receipt_def engine_facts_def Let_def)

lemma initial_fields:
  "t_bars initial_state = (\<lambda>_. [])" "t_blocked initial_state = (\<lambda>_. None)" "t_restored initial_state = (\<lambda>_. None)"
  "t_prepared initial_state = (\<lambda>_. None)" "t_publication_pending initial_state = {}"
  "t_evaluation_pending initial_state = (\<lambda>_. None)" "t_last_evaluations initial_state = []" "t_bus initial_state = []"
  by (simp_all add: initial_state_def)

text \<open>The first bar of a stream.\<close>

lemma sample_first_bar:
  assumes "0 \<le> i" and "60000 * i + 59999 \<le> w_now env" and "\<And>k. w_publish env k = None"
  shows "\<exists>e. process_bar sample_service env (stream_bar i sha) initial_state =
    (initial_state\<lparr>t_bars := (\<lambda>_. [])(''BTCUSDT'' := [stream_bar i sha]),
       t_prepared := (\<lambda>_. None)(''BTCUSDT'' := Some (sha, \<lparr>x_intents = [], x_evaluations = [e]\<rparr>)),
       t_last_evaluations := [e], t_bus := [EvaluationOut e]\<rparr>, Inr [])"
proof -
  obtain e where e: "evaluate_runtime_bar (n_core sample_service) (n_generators sample_service) (n_settings sample_service)
     (n_policy sample_service) (w_clock env) (service_generator sample_service) get_runtime_requirements
     (stream_bar i sha) [stream_bar i sha] = Inr \<lparr>x_intents = [], x_evaluations = [e]\<rparr>"
    using sample_engine_receipt by blast
  have app: "append_or_replay sample_service (stream_bar i sha) initial_state =
      (initial_state\<lparr>t_bars := (\<lambda>_. [])(''BTCUSDT'' := [stream_bar i sha])\<rparr>, Inr True)"
    by (simp add: append_or_replay_def initial_fields restored_prefix_def append_bar_def last_n_def
        sample_service_sound)
  let ?st = "initial_state\<lparr>t_bars := (\<lambda>_. [])(''BTCUSDT'' := [stream_bar i sha]),
      t_evaluation_pending := (\<lambda>_. None)(''BTCUSDT'' := Some sha)\<rparr>"
  let ?b = "\<lparr>x_intents = [], x_evaluations = [e]\<rparr>"
  have "process_bar sample_service env (stream_bar i sha) initial_state =
      accept_bar sample_service env (stream_bar i sha) sha initial_state"
    using assms by (simp add: process_bar_def process_identified_def sample_service_sound prepared_anchor_def initial_fields)
  also have "\<dots> = evaluate_accepted sample_service env (stream_bar i sha) ?st"
    by (simp add: accept_bar_def app initial_fields)
  also have "\<dots> = finish_batch env (stream_bar i sha) ?b ?st"
    using e by (simp add: evaluate_accepted_def)
  also have "\<dots> = publish_prepared env ''BTCUSDT'' (?st\<lparr>t_prepared := (\<lambda>_. None)(''BTCUSDT'' := Some (sha, ?b)),
      t_evaluation_pending := (\<lambda>_. None), t_publication_pending := {''BTCUSDT''}, t_last_evaluations := [e]\<rparr>)"
    by (simp add: finish_batch_def prepare_publication_def initial_fields)
  finally show ?thesis
    using assms(3) by (auto simp: publish_prepared_def batch_events_def initial_state_def)
qed

end
