(* ===== verification/Delivery.thy ===== *)
theory Delivery
  imports Service
begin

section \<open>Runs of the consumer\<close>

text \<open>
  What holds over any sequence of deliveries. The locale \<open>symbol_steps\<close> is the interface between a run and
  its steps: every step concerns at most one symbol, keeps the contract \<open>good_step\<close> of that symbol and depends
  on the state only through what that symbol sees. It is interpreted for the deliveries and for the rows of a
  restart. The properties of the service follow.
\<close>

subsection \<open>An operation reads and writes one symbol\<close>

text \<open>Two states that agree on a symbol: the operation agrees on the outcome, on the symbol and on what it
  hands to the bus, and the log only grows.\<close>

definition local_op :: "string \<Rightarrow> (service_state \<Rightarrow> service_state \<times> 'a) \<Rightarrow> bool" where
  "local_op symbol f \<longleftrightarrow>
     (\<forall>st st'. view st symbol = view st' symbol \<longrightarrow>
        snd (f st) = snd (f st') \<and> view (fst (f st)) symbol = view (fst (f st')) symbol \<and>
        (\<exists>out. t_bus (fst (f st)) = t_bus st @ out \<and> t_bus (fst (f st')) = t_bus st' @ out))"

lemma local_opD:
  assumes "local_op symbol f" and "view st symbol = view st' symbol" and "f st = (u, r)" and "f st' = (u', r')"
  shows "r' = r" and "view u' symbol = view u symbol" and "\<exists>out. t_bus u = t_bus st @ out \<and> t_bus u' = t_bus st' @ out"
proof -
  have "snd (f st) = snd (f st') \<and> view (fst (f st)) symbol = view (fst (f st')) symbol \<and>
        (\<exists>out. t_bus (fst (f st)) = t_bus st @ out \<and> t_bus (fst (f st')) = t_bus st' @ out)"
    using assms(1,2) unfolding local_op_def by blast
  then show "r' = r" "view u' symbol = view u symbol" "\<exists>out. t_bus u = t_bus st @ out \<and> t_bus u' = t_bus st' @ out"
    using assms(3,4) by simp_all
qed

lemma local_op_return [intro]: "local_op symbol (\<lambda>st. (st, c))"
  by (auto simp: local_op_def)

text \<open>Choosing an operation by what the symbol sees, and running one after the other.\<close>

lemma local_op_read:
  assumes h: "\<And>st st'. view st symbol = view st' symbol \<Longrightarrow> h st = h st'" and g: "\<And>x. local_op symbol (g x)"
  shows "local_op symbol (\<lambda>st. g (h st) st)"
  unfolding local_op_def
proof (intro allI impI)
  fix st st' assume v: "view st symbol = view st' symbol"
  from g [of "h st", unfolded local_op_def, rule_format, OF v]
  show "snd (g (h st) st) = snd (g (h st') st') \<and> view (fst (g (h st) st)) symbol = view (fst (g (h st') st')) symbol \<and>
    (\<exists>out. t_bus (fst (g (h st) st)) = t_bus st @ out \<and> t_bus (fst (g (h st') st')) = t_bus st' @ out)"
    unfolding h [OF v] .
qed

lemma local_op_bind:
  assumes f: "local_op symbol f" and g: "\<And>r. local_op symbol (g r)"
  shows "local_op symbol (\<lambda>st. case f st of (u, r) \<Rightarrow> g r u)"
  unfolding local_op_def
proof (intro allI impI)
  fix st st' assume v: "view st symbol = view st' symbol"
  obtain u r where u: "f st = (u, r)" by fastforce
  obtain u' r' where u': "f st' = (u', r')" by fastforce
  note d = local_opD [OF f v u u']
  obtain x s where x: "g r u = (x, s)" by fastforce
  obtain x' s' where x': "g r u' = (x', s')" by fastforce
  note e = local_opD [OF g d(2) [symmetric] x x']
  from d(3) e(3) obtain out out' where "t_bus u = t_bus st @ out" "t_bus u' = t_bus st' @ out"
    "t_bus x = t_bus u @ out'" "t_bus x' = t_bus u' @ out'" by blast
  with d(1) e(1,2) show "snd (case f st of (u, r) \<Rightarrow> g r u) = snd (case f st' of (u, r) \<Rightarrow> g r u) \<and>
    view (fst (case f st of (u, r) \<Rightarrow> g r u)) symbol = view (fst (case f st' of (u, r) \<Rightarrow> g r u)) symbol \<and>
    (\<exists>out. t_bus (fst (case f st of (u, r) \<Rightarrow> g r u)) = t_bus st @ out \<and>
       t_bus (fst (case f st' of (u, r) \<Rightarrow> g r u)) = t_bus st' @ out)"
    by (simp add: u u' x x')
qed

text \<open>An update of the symbol's own fields.\<close>

lemma local_op_update:
  assumes "\<And>st st'. view st symbol = view st' symbol \<Longrightarrow> view (h st) symbol = view (h st') symbol"
    and "\<And>st. t_bus (h st) = t_bus st"
  shows "local_op symbol (\<lambda>st. (h st, c))"
  unfolding local_op_def fst_conv snd_conv
  by (intro allI impI conjI refl assms(1)) (simp_all add: assms(2))

lemma publish_all_out: "\<exists>out. (\<forall>bus. publish_all f k ms bus = (bus @ out, snd (publish_all f k ms [])))"
proof (induction ms arbitrary: k)
  case (Cons m ms)
  show ?case
  proof (cases "f k")
    case None
    from Cons [of "Suc k"] obtain out where o: "\<And>bus. publish_all f (Suc k) ms bus = (bus @ out, snd (publish_all f (Suc k) ms []))"
      by blast
    have "publish_all f k (m # ms) bus = (bus @ m # out, snd (publish_all f k (m # ms) []))" for bus
      using o [of "bus @ [m]"] o [of "[m]"] None by simp
    then show ?thesis by blast
  qed auto
qed auto

lemma publish_prepared_local: "local_op symbol (publish_prepared env symbol)"
  unfolding local_op_def
proof (intro allI impI)
  fix st st' assume v: "view st symbol = view st' symbol"
  then have p: "t_prepared st symbol = t_prepared st' symbol" by (simp add: view_def)
  show "snd (publish_prepared env symbol st) = snd (publish_prepared env symbol st') \<and>
     view (fst (publish_prepared env symbol st)) symbol = view (fst (publish_prepared env symbol st')) symbol \<and>
     (\<exists>out. t_bus (fst (publish_prepared env symbol st)) = t_bus st @ out \<and>
        t_bus (fst (publish_prepared env symbol st')) = t_bus st' @ out)"
  proof (cases "t_prepared st' symbol")
    case None
    then show ?thesis using v p by (simp add: publish_prepared_def)
  next
    case (Some ab)
    obtain anchor batch where ab: "ab = (anchor, batch)" by fastforce
    obtain out where "\<And>bus. publish_all (w_publish env) 0 (batch_events batch) bus =
        (bus @ out, snd (publish_all (w_publish env) 0 (batch_events batch) []))"
      using publish_all_out by blast
    with v p show ?thesis
      by (cases "snd (publish_all (w_publish env) 0 (batch_events batch) [])")
        (auto simp: publish_prepared_def Some ab view_def)
  qed
qed

lemma finish_batch_local: "local_op (b_symbol bar) (finish_batch env bar batch)"
proof (cases "b_bar_sha256 bar")
  case None
  then have "finish_batch env bar batch =
      (\<lambda>st. (st, Inl (ValueError ''a prepared publication requires its canonical anchor identity'')))"
    by (auto simp: finish_batch_def prepare_publication_def)
  then show ?thesis by (simp add: local_op_return)
next
  case (Some anchor)
  have eq: "prepare_publication bar batch = (\<lambda>st. (st\<lparr>t_prepared := (t_prepared st)(b_symbol bar := Some (anchor, batch)),
              t_evaluation_pending := (t_evaluation_pending st)(b_symbol bar := None),
              t_publication_pending := insert (b_symbol bar) (t_publication_pending st),
              t_last_evaluations := x_evaluations batch\<rparr>, Inr ()))"
    using Some by (auto simp: prepare_publication_def)
  have "local_op (b_symbol bar) (prepare_publication bar batch)"
    unfolding eq by (rule local_op_update) (simp_all add: view_def)
  moreover have "finish_batch env bar batch = (\<lambda>st. case prepare_publication bar batch st of (u, r) \<Rightarrow>
      (case r of Inl e \<Rightarrow> (\<lambda>st. (st, Inl e)) | Inr _ \<Rightarrow> publish_prepared env (b_symbol bar)) u)"
    by (auto simp: finish_batch_def split: prod.splits sum.splits)
  ultimately show ?thesis
    by (auto intro!: local_op_bind local_op_return publish_prepared_local split: sum.splits)
qed

lemma local_op_result: "(\<And>x. local_op symbol (f x)) \<Longrightarrow> (\<And>e. local_op symbol (g e)) \<Longrightarrow>
    local_op symbol (case r of Inl e \<Rightarrow> g e | Inr x \<Rightarrow> f x)"
  by (cases r) simp_all

lemma observe_replay_local: "local_op (b_symbol bar) (observe_replay w env bar anchor)"
proof -
  let ?saved = "\<lambda>batch st. (st\<lparr>t_prepared := (t_prepared st)(b_symbol bar := Some (anchor, batch)),
              t_last_evaluations := x_evaluations batch\<rparr>, Inr []) :: service_state \<times> strategy_intent list result"
  let ?fresh = "case unavailable_batch w env bar ''HISTORICAL_REPLAY_NOT_EVALUATED'' of
      Inl e \<Rightarrow> (\<lambda>st. (st, Inl e)) | Inr batch \<Rightarrow> finish_batch env bar batch"
  let ?g = "\<lambda>restored. if restored = None then (\<lambda>st. (st, Inr []))
     else case saved_batch w env bar anchor of Inl e \<Rightarrow> (\<lambda>st. (st, Inl e))
       | Inr saved \<Rightarrow> (case saved of Some batch \<Rightarrow> ?saved batch | None \<Rightarrow> ?fresh)"
  have eq: "observe_replay w env bar anchor = (\<lambda>st. ?g (t_restored st (b_symbol bar)) st)"
    by (intro ext) (simp add: observe_replay_def split: sum.split option.split)
  have saved: "local_op (b_symbol bar) (?saved batch)" for batch
    by (rule local_op_update) (simp_all add: view_def)
  have "local_op (b_symbol bar) (?g restored)" for restored
    using saved finish_batch_local by (simp add: local_op_return split: sum.split option.split)
  then show ?thesis
    unfolding eq by (rule local_op_read [where h = "\<lambda>st. t_restored st (b_symbol bar)" and g = ?g, rotated])
      (simp add: view_def)
qed

lemma quarantine_local: "local_op (b_symbol bar) (quarantine w env bar violation)"
proof -
  have "quarantine w env bar violation =
    (case unavailable_batch w env bar ''CLOSED_BAR_SEQUENCE_QUARANTINED'' of
       Inl e \<Rightarrow> (\<lambda>st. (st, Inl e))
     | Inr batch \<Rightarrow> (\<lambda>st. case finish_batch env bar batch st of (u, r) \<Rightarrow>
         (case r of Inl e \<Rightarrow> (\<lambda>st. (st, Inl e)) | Inr _ \<Rightarrow> (\<lambda>st. (st, Inl violation))) u))"
    by (intro ext) (simp add: quarantine_def split: sum.split prod.split)
  then show ?thesis by (simp add: local_op_result local_op_bind finish_batch_local local_op_return)
qed

lemma evaluate_accepted_local: "local_op (b_symbol bar) (evaluate_accepted w env bar)"
proof -
  let ?g = "\<lambda>history.
      case evaluate_runtime_bar (n_core w) (n_generators w) (n_settings w) (n_policy w) (w_clock env)
             (service_generator w) get_runtime_requirements bar history of
        Inl e \<Rightarrow> (\<lambda>st. (st, Inl e)) | Inr batch \<Rightarrow> finish_batch env bar batch"
  have eq: "evaluate_accepted w env bar = (\<lambda>st. ?g (t_bars st (b_symbol bar)) st)"
    by (intro ext) (simp add: evaluate_accepted_def split: sum.split)
  have "local_op (b_symbol bar) (?g history)" for history
    by (intro local_op_result finish_batch_local local_op_return)
  then show ?thesis
    unfolding eq by (rule local_op_read [where h = "\<lambda>st. t_bars st (b_symbol bar)" and g = ?g, rotated])
      (simp add: view_def)
qed

lemma append_or_replay_local: "local_op (b_symbol bar) (append_or_replay w bar)"
  unfolding local_op_def
proof (intro allI impI)
  fix st st' assume v: "view st (b_symbol bar) = view st' (b_symbol bar)"
  then have "t_bars st (b_symbol bar) = t_bars st' (b_symbol bar)" "t_blocked st (b_symbol bar) = t_blocked st' (b_symbol bar)"
    "restored_prefix st bar = restored_prefix st' bar" by (simp_all add: view_def restored_prefix_def)
  with v show "snd (append_or_replay w bar st) = snd (append_or_replay w bar st') \<and>
    view (fst (append_or_replay w bar st)) (b_symbol bar) = view (fst (append_or_replay w bar st')) (b_symbol bar) \<and>
    (\<exists>out. t_bus (fst (append_or_replay w bar st)) = t_bus st @ out \<and>
       t_bus (fst (append_or_replay w bar st')) = t_bus st' @ out)"
    by (simp add: append_or_replay_def Let_def block_and_raise_def block_def append_bar_def view_def
        split: option.split)
qed

lemma accept_bar_local: "local_op (b_symbol bar) (accept_bar w env bar anchor)"
proof -
  let ?mark = "\<lambda>st. (st\<lparr>t_evaluation_pending := (t_evaluation_pending st)(b_symbol bar := Some anchor)\<rparr>, ())"
  let ?g = "\<lambda>r. case r of
      Inl violation \<Rightarrow> (if is_sequence_error violation then quarantine w env bar violation
                        else (\<lambda>st. (st, Inl violation)))
    | Inr fresh \<Rightarrow> (if fresh then (\<lambda>st. case ?mark st of (u, _) \<Rightarrow> evaluate_accepted w env bar u)
                    else observe_replay w env bar anchor)"
  have eq: "accept_bar w env bar anchor = (\<lambda>st. case append_or_replay w bar st of (u, r) \<Rightarrow> ?g r u)"
    by (intro ext) (auto simp: accept_bar_def split: prod.split sum.split bool.split py_error.split)
  have "local_op (b_symbol bar) ?mark" by (rule local_op_update) (simp_all add: view_def)
  then have "local_op (b_symbol bar) (\<lambda>st. case ?mark st of (u, _) \<Rightarrow> evaluate_accepted w env bar u)"
    by (rule local_op_bind) (rule evaluate_accepted_local)
  then have "local_op (b_symbol bar) (?g r)" for r
    by (cases r) (simp_all add: local_op_return quarantine_local observe_replay_local)
  then show ?thesis unfolding eq by (rule local_op_bind [OF append_or_replay_local])
qed

lemma process_bar_local: "local_op (b_symbol bar) (process_bar w env bar)"
proof -
  let ?pick = "\<lambda>anchor (pending, prepared, unfinished).
    if pending then
      (if prepared \<noteq> Some anchor
       then (\<lambda>st. (st, Inl (RuntimeError ''an unpublished predecessor must finish before the next symbol bar'')))
       else publish_prepared env (b_symbol bar))
    else if prepared = Some anchor then (\<lambda>st. (st, Inr []))
    else case unfinished of
      Some u \<Rightarrow> (if u \<noteq> anchor
         then (\<lambda>st. (st, Inl (RuntimeError ''an unprepared predecessor must finish before the next symbol bar'')))
         else evaluate_accepted w env bar)
    | None \<Rightarrow> accept_bar w env bar anchor"
  have eq: "process_identified w env bar anchor = (\<lambda>st. ?pick anchor (b_symbol bar \<in> t_publication_pending st,
      prepared_anchor st (b_symbol bar), t_evaluation_pending st (b_symbol bar)) st)" for anchor
    by (intro ext) (simp add: process_identified_def split: option.split)
  have pick: "local_op (b_symbol bar) (?pick anchor x)" for anchor x
    by (cases x) (simp add: local_op_return publish_prepared_local evaluate_accepted_local accept_bar_local
        split: option.split)
  have identified: "local_op (b_symbol bar) (process_identified w env bar anchor)" for anchor
    unfolding eq by (rule local_op_read [where g = "?pick anchor" and h = "\<lambda>st. (b_symbol bar \<in> t_publication_pending st,
      prepared_anchor st (b_symbol bar), t_evaluation_pending st (b_symbol bar))"])
      (simp add: view_def prepared_anchor_def, rule pick)
  have "process_bar w env bar =
    (if \<not> s_symbol_allowed (n_settings w) (b_symbol bar)
     then (\<lambda>st. (st, Inl (ValueError (''closed bar symbol is outside the configured universe: '' @ b_symbol bar))))
     else if w_now env < b_close_time_ms bar
     then (\<lambda>st. (st, Inl (ValueError ''a future closed bar cannot enter the strategy's causal history'')))
     else case b_bar_sha256 bar of
       None \<Rightarrow> (\<lambda>st. (st, Inl (ValueError ''a runtime bar requires its canonical identity'')))
     | Some anchor \<Rightarrow> process_identified w env bar anchor)"
    by (intro ext) (simp add: process_bar_def split: option.split)
  then show ?thesis by (simp add: local_op_return identified split: option.split)
qed

lemma acknowledge_local: "local_op (b_symbol bar) (acknowledge env i bar)"
  unfolding local_op_def
proof (intro allI impI)
  fix st st' assume "view st (b_symbol bar) = view st' (b_symbol bar)"
  then show "snd (acknowledge env i bar st) = snd (acknowledge env i bar st') \<and>
    view (fst (acknowledge env i bar st)) (b_symbol bar) = view (fst (acknowledge env i bar st')) (b_symbol bar) \<and>
    (\<exists>out. t_bus (fst (acknowledge env i bar st)) = t_bus st @ out \<and>
       t_bus (fst (acknowledge env i bar st')) = t_bus st' @ out)"
    by (cases "w_ack env") (auto simp: acknowledge_def keep_due_def prepared_anchor_def view_def)
qed

lemma keep_due_local: "local_op (b_symbol bar) (\<lambda>st. (keep_due bar st, c))"
  by (rule local_op_update) (auto simp: keep_due_def prepared_anchor_def view_def)

lemma handle_envelope_local:
  assumes "y_payload y = Inr bar"
  shows "local_op (b_symbol bar) (handle_envelope w env y)"
proof -
  let ?g = "\<lambda>r. case r of
      Inl e \<Rightarrow> (if is_sequence_error e then acknowledge env (y_id y) bar else (\<lambda>st. (keep_due bar st, Inl e)))
    | Inr _ \<Rightarrow> acknowledge env (y_id y) bar"
  have eq: "handle_envelope w env y = (if y_topic y \<noteq> n_closed_bar_topic w
     then (\<lambda>st. (st, Inl (ValueError ''strategy consumer requires the CLOSED_BAR input topic'')))
     else (\<lambda>st. case process_bar w env bar st of (u, r) \<Rightarrow> ?g r u))"
    by (intro ext) (simp add: handle_envelope_def assms split: prod.split sum.split)
  have "local_op (b_symbol bar) (?g r)" for r
    by (cases r) (simp_all add: acknowledge_local keep_due_local)
  then have "local_op (b_symbol bar) (\<lambda>st. case process_bar w env bar st of (u, r) \<Rightarrow> ?g r u)"
    by (rule local_op_bind [OF process_bar_local])
  then show ?thesis unfolding eq by (simp add: local_op_return)
qed

lemma restore_payload_local:
  assumes "payload = Inr bar"
  shows "local_op (b_symbol bar) (restore_payload w payload)"
proof -
  let ?append = "\<lambda>st. case append_or_replay w bar st of (u, r) \<Rightarrow>
      (u, case r of Inl e \<Rightarrow> if is_sequence_error e then Inr () else Inl e | Inr _ \<Rightarrow> Inr ())"
  let ?g = "\<lambda>blocked. if \<not> s_symbol_allowed (n_settings w) (b_symbol bar) \<or> blocked \<noteq> None
     then (\<lambda>st. (st, Inr ())) else ?append"
  have eq: "restore_payload w payload = (\<lambda>st. ?g (t_blocked st (b_symbol bar)) st)"
    by (intro ext) (simp add: restore_payload_def assms split: prod.split sum.split)
  have "local_op (b_symbol bar) ?append"
    by (rule local_op_bind [OF append_or_replay_local]) (rule local_op_return)
  then have "local_op (b_symbol bar) (?g blocked)" for blocked by (simp add: local_op_return)
  then show ?thesis
    unfolding eq by (rule local_op_read [where h = "\<lambda>st. t_blocked st (b_symbol bar)" and g = ?g, rotated])
      (simp add: view_def)
qed

subsection \<open>The interface of a run\<close>

text \<open>
  \<open>target e\<close> is the symbol an event concerns, \<open>ok\<close> what a step may rely on. The laws say that a step touches one
  symbol, keeps its contract and does not look at the others.
\<close>

locale symbol_steps =
  fixes w :: service
    and target :: "'e \<Rightarrow> string option"
    and step :: "'e \<Rightarrow> service_state \<Rightarrow> service_state"
    and ok :: "service_state \<Rightarrow> bool"
  assumes step_good: "ok st \<Longrightarrow> target e = Some symbol \<Longrightarrow> good_step w symbol st (step e st)"
    and step_silent: "target e = None \<Longrightarrow> step e st = st"
    and step_ok: "ok st \<Longrightarrow> ok (step e st)"
    and step_local: "target e = Some symbol \<Longrightarrow> view st symbol = view st' symbol \<Longrightarrow>
      view (step e st) symbol = view (step e st') symbol"
begin

lemma step_frame: "ok st \<Longrightarrow> target e \<noteq> Some symbol \<Longrightarrow> view (step e st) symbol = view st symbol"
proof (cases "target e")
  case None
  then show ?thesis by (simp add: step_silent)
next
  case (Some other)
  assume "ok st" "target e \<noteq> Some symbol"
  with step_good [OF _ Some] Some show ?thesis by (auto simp: good_step_def)
qed

lemma step_inv: "ok st \<Longrightarrow> service_inv w st \<Longrightarrow> service_inv w (step e st)"
  unfolding service_inv_def
proof
  fix symbol assume ok: "ok st" and inv: "\<forall>symbol. symbol_inv w st symbol"
  show "symbol_inv w (step e st) symbol"
  proof (cases "target e = Some symbol")
    case True
    from step_good [OF ok True] inv show ?thesis unfolding good_step_def by blast
  next
    case False
    from symbol_inv_view [OF step_frame [OF ok False]] inv show ?thesis by blast
  qed
qed

lemma run_ok: "ok st \<Longrightarrow> ok (fold step es st)"
  by (induction es arbitrary: st) (simp_all add: step_ok)

lemma run_inv: "ok st \<Longrightarrow> service_inv w st \<Longrightarrow> service_inv w (fold step es st)"
  by (induction es arbitrary: st) (simp_all add: step_ok step_inv)

text \<open>A blocked symbol stays blocked and accepts nothing more.\<close>

lemma step_blocked:
  assumes "ok st" and "t_blocked st symbol = Some reason"
  shows "t_blocked (step e st) symbol = Some reason \<and> t_bars (step e st) symbol = t_bars st symbol"
proof (cases "target e = Some symbol")
  case True
  with step_good [OF assms(1)] assms(2) show ?thesis by (auto simp: good_step_def)
next
  case False
  with step_frame [OF assms(1)] assms(2) show ?thesis by (simp add: view_def)
qed

lemma run_blocked: "ok st \<Longrightarrow> t_blocked st symbol = Some reason \<Longrightarrow>
    t_blocked (fold step es st) symbol = Some reason \<and> t_bars (fold step es st) symbol = t_bars st symbol"
  by (induction es arbitrary: st) (simp_all add: step_ok step_blocked)

text \<open>What a symbol sees of a run is what it sees of its own events.\<close>

lemma run_projection_aux:
  "ok st \<Longrightarrow> ok st' \<Longrightarrow> view st symbol = view st' symbol \<Longrightarrow>
     view (fold step es st) symbol = view (fold step (filter (\<lambda>e. target e = Some symbol) es) st') symbol"
proof (induction es arbitrary: st st')
  case (Cons e es)
  show ?case
  proof (cases "target e = Some symbol")
    case True
    have "view (step e st) symbol = view (step e st') symbol" using True Cons.prems(3) by (rule step_local)
    from Cons.IH [OF step_ok [OF Cons.prems(1)] step_ok [OF Cons.prems(2)] this] True show ?thesis by simp
  next
    case False
    have "view (step e st) symbol = view st' symbol" using step_frame [OF Cons.prems(1) False] Cons.prems(3) by simp
    from Cons.IH [OF step_ok [OF Cons.prems(1)] Cons.prems(2) this] False show ?thesis by simp
  qed
qed simp

lemma run_projection:
  "ok st \<Longrightarrow> view (fold step es st) symbol = view (fold step (filter (\<lambda>e. target e = Some symbol) es) st) symbol"
  by (rule run_projection_aux) simp_all

end

text \<open>Deliveries: an event is an environment and an envelope.\<close>

definition event_symbol :: "environment \<times> envelope \<Rightarrow> string option" where
  "event_symbol e = (case y_payload (snd e) of Inl _ \<Rightarrow> None | Inr bar \<Rightarrow> Some (b_symbol bar))"

definition deliver :: "service \<Rightarrow> environment \<times> envelope \<Rightarrow> service_state \<Rightarrow> service_state" where
  "deliver w e st = fst (handle_envelope w (fst e) (snd e) st)"

text \<open>Rows of a restart: an event is a decoded row.\<close>

definition row_symbol :: "closed_bar result \<Rightarrow> string option" where
  "row_symbol p = (case p of Inl _ \<Rightarrow> None | Inr bar \<Rightarrow> Some (b_symbol bar))"

definition restore_row :: "service \<Rightarrow> closed_bar result \<Rightarrow> service_state \<Rightarrow> service_state" where
  "restore_row w p st = fst (restore_payload w p st)"

definition nothing_due :: "service_state \<Rightarrow> bool" where
  "nothing_due st \<longleftrightarrow> (\<forall>symbol. t_evaluation_pending st symbol = None)"

definition sound_service :: "service \<Rightarrow> bool" where
  "sound_service w \<longleftrightarrow> faithful_contracts (n_core w) \<and> 0 < s_window_bars (n_settings w)"

interpretation deliveries: symbol_steps w event_symbol "deliver w" "\<lambda>_. sound_service w" for w
proof
  fix st :: service_state and e symbol
  assume e: "event_symbol e = Some symbol"
  then obtain bar where bar: "y_payload (snd e) = Inr bar" "b_symbol bar = symbol"
    by (auto simp: event_symbol_def split: sum.splits)
  show "good_step w symbol st (deliver w e st)" if "sound_service w"
    using handle_envelope_good [OF _ _ bar(1), of w "fst e" st] that bar(2)
    by (metis deliver_def prod.collapse sound_service_def)
  fix st' :: service_state assume "view st symbol = view st' symbol"
  with handle_envelope_local [OF bar(1), of w "fst e"] show "view (deliver w e st) symbol = view (deliver w e st') symbol"
    unfolding bar(2) deliver_def local_op_def by blast
next
  fix e and st :: service_state assume "event_symbol e = None"
  then obtain err where "y_payload (snd e) = Inl err" by (auto simp: event_symbol_def split: sum.splits)
  then show "deliver w e st = st"
    using handle_envelope_undecoded by (metis deliver_def prod.collapse)
qed simp

lemma append_or_replay_pending:
  "append_or_replay w bar st = (st', r) \<Longrightarrow> t_evaluation_pending st' = t_evaluation_pending st"
  by (erule append_or_replay_cases) (simp_all add: block_def append_bar_def)

lemma restore_row_pending: "t_evaluation_pending (restore_row w p st) = t_evaluation_pending st"
  using append_or_replay_pending
  by (auto simp: restore_row_def restore_payload_def split: sum.split prod.split)

lemma restore_row_bus: "t_bus (restore_row w p st) = t_bus st"
proof (cases p)
  case (Inr bar)
  have "t_bus st' = t_bus st" if "append_or_replay w bar st = (st', r)" for st' r
    using that by (rule append_or_replay_cases) (simp_all add: block_def append_bar_def)
  then show ?thesis by (auto simp: restore_row_def restore_payload_def Inr split: sum.split prod.split)
qed (simp add: restore_row_def restore_payload_def)

interpretation restore_rows: symbol_steps w row_symbol "restore_row w" nothing_due for w
proof
  fix st :: service_state and p symbol
  assume e: "row_symbol p = Some symbol"
  then obtain bar where bar: "p = Inr bar" "b_symbol bar = symbol" by (auto simp: row_symbol_def split: sum.splits)
  show "good_step w symbol st (restore_row w p st)" if "nothing_due st"
    using restore_payload_good [OF bar(1), of st w] that bar(2)
    by (metis nothing_due_def prod.collapse restore_row_def)
  fix st' :: service_state assume "view st symbol = view st' symbol"
  with restore_payload_local [OF bar(1), of w] show "view (restore_row w p st) symbol = view (restore_row w p st') symbol"
    unfolding bar(2) restore_row_def local_op_def by blast
next
  fix p and st :: service_state assume "row_symbol p = None"
  then show "restore_row w p st = st"
    by (auto simp: row_symbol_def restore_row_def restore_payload_def split: sum.splits)
next
  fix p and st :: service_state assume "nothing_due st"
  then show "nothing_due (restore_row w p st)" by (simp add: nothing_due_def restore_row_pending)
qed

subsection \<open>Reachable states\<close>

text \<open>A service starts empty, or from the rows of a restart, and then handles envelopes.\<close>

inductive reachable :: "service \<Rightarrow> service_state \<Rightarrow> bool" for w where
  fresh: "reachable w initial_state"
| restarted: "restore_payloads w ps initial_state = (st, Inr ()) \<Longrightarrow> reachable w st"
| delivered: "reachable w st \<Longrightarrow> reachable w (deliver w e st)"

lemma restore_loop_fold: "restore_loop w ps st = (st', Inr ()) \<Longrightarrow> st' = fold (restore_row w) ps st"
proof (induction ps arbitrary: st)
  case (Cons p ps)
  obtain u r where u: "restore_payload w p st = (u, r)" by fastforce
  with Cons show ?case by (cases r) (simp_all add: restore_row_def)
qed simp

lemma restore_payloads_fold:
  assumes "restore_payloads w ps st = (st', Inr ())"
  shows "st' = (fold (restore_row w) ps st)\<lparr>t_restored := restored_marks (fold (restore_row w) ps st)\<rparr>"
proof -
  obtain u r where u: "restore_loop w ps st = (u, r)" by fastforce
  with assms obtain x where "r = Inr x" "st' = u\<lparr>t_restored := restored_marks u\<rparr>"
    by (cases r) (auto simp: restore_payloads_def)
  then show ?thesis using restore_loop_fold u by auto
qed

lemma initial_ok: "nothing_due initial_state" "service_inv w initial_state"
  by (simp_all add: nothing_due_def service_inv_def symbol_inv_def initial_state_def window_ok_def minute_steps_def)

lemma symbol_inv_restored [simp]: "symbol_inv w (st\<lparr>t_restored := m\<rparr>) symbol \<longleftrightarrow> symbol_inv w st symbol"
  by (simp add: symbol_inv_def)

lemma reachable_inv:
  assumes "reachable w st" and "sound_service w"
  shows "service_inv w st"
  using assms(1)
proof (induction rule: reachable.induct)
  case fresh
  show ?case by (rule initial_ok)
next
  case (restarted ps st)
  have "service_inv w (fold (restore_row w) ps initial_state)"
    by (intro restore_rows.run_inv initial_ok)
  then show ?case unfolding restore_payloads_fold [OF restarted] by (simp add: service_inv_def)
next
  case (delivered st e)
  then show ?case by (intro deliveries.step_inv assms(2))
qed

lemma reachable_run: "reachable w st \<Longrightarrow> reachable w (fold (deliver w) es st)"
  by (induction es arbitrary: st) (simp_all add: reachable.delivered)

subsection \<open>The window is the end of the accepted stream\<close>

text \<open>The specification of the history of a symbol: the stream of all bars it accepted, of which the service
  keeps the end.\<close>

definition accepts :: "service \<Rightarrow> closed_bar list \<Rightarrow> service_state \<Rightarrow> service_state \<times> bool result list" where
  "accepts w bars st =
     foldl (\<lambda>(st, rs) bar. let (st', r) = append_or_replay w bar st in (st', rs @ [r])) (st, []) bars"

lemma accepts_snoc:
  "accepts w (bars @ [b]) st =
     (let (st1, rs) = accepts w bars st; (st2, r) = append_or_replay w b st1 in (st2, rs @ [r]))"
  by (simp add: accepts_def split: prod.split)

lemma last_n_append_last_n: "n \<le> m \<Longrightarrow> last_n n (last_n m xs @ ys) = last_n n (xs @ ys)"
proof (cases "length xs \<le> m")
  case False
  assume "n \<le> m"
  with False have "length xs + length ys - (length xs - m + n) + (length xs - m) = length xs + length ys - n" by simp
  with \<open>n \<le> m\<close> False show ?thesis by (simp add: last_n_def)
qed (simp add: last_n_def)

lemma minute_steps_ascending:
  assumes "minute_steps bars"
  shows "sorted_wrt (\<lambda>a b. b_open_time_ms a < b_open_time_ms b) bars"
proof -
  have "successively (\<lambda>a b. b_open_time_ms a < b_open_time_ms b) bars"
    by (rule successively_mono [OF assms [unfolded minute_steps_def]]) simp
  then show ?thesis by (simp add: successively_sorted_less)
qed

lemma minute_steps_below_last:
  assumes "minute_steps bars" and "b \<in> set bars"
  shows "b_open_time_ms b \<le> b_open_time_ms (last bars)"
proof -
  have split: "bars = butlast bars @ [last bars]" using assms(2) by (cases bars rule: rev_cases) auto
  with minute_steps_ascending [OF assms(1)] have "sorted_wrt (\<lambda>a b. b_open_time_ms a < b_open_time_ms b) (butlast bars @ [last bars])"
    by metis
  moreover have "b \<in> set (butlast bars) \<or> b = last bars"
    using assms(2) split by (metis UnE empty_iff list.set(1) set_ConsD set_append)
  ultimately show ?thesis by (auto simp: sorted_wrt_append)
qed

lemma append_next:
  assumes inv: "window_ok w (b_symbol bar) (t_bars st (b_symbol bar))" and free: "t_blocked st (b_symbol bar) = None"
    and restored: "\<not> restored_prefix st bar"
    and next_bar: "t_bars st (b_symbol bar) \<noteq> [] \<longrightarrow>
      b_open_time_ms bar = b_open_time_ms (last (t_bars st (b_symbol bar))) + 60000"
  shows "append_or_replay w bar st = (append_bar w bar st, Inr True)"
proof -
  let ?h = "t_bars st (b_symbol bar)"
  have "b_open_time_ms b < b_open_time_ms bar" if "b \<in> set ?h" for b
    using minute_steps_below_last [of ?h b] that inv next_bar by (fastforce simp: window_ok_def)
  then have "find (\<lambda>existing. b_open_time_ms existing = b_open_time_ms bar) ?h = None"
    by (fastforce simp: find_None_iff)
  with free restored show ?thesis
    by (simp add: append_or_replay_def Let_def) (use next_bar in blast)
qed

lemma accepts_stream:
  assumes w: "0 < s_window_bars (n_settings w)"
    and "minute_steps bars" and "list_all (\<lambda>b. b_symbol b = symbol) bars"
  shows "accepts w bars initial_state =
    (initial_state\<lparr>t_bars := (\<lambda>_. [])(symbol := last_n (nat (s_window_bars (n_settings w))) bars)\<rparr>,
     replicate (length bars) (Inr True))"
  using assms(2,3)
proof (induction bars rule: rev_induct)
  case Nil
  then show ?case by (simp add: accepts_def initial_state_def last_n_def)
next
  case (snoc b bars)
  let ?n = "nat (s_window_bars (n_settings w))"
  let ?st = "initial_state\<lparr>t_bars := (\<lambda>_. [])(symbol := last_n ?n bars)\<rparr>"
  have steps: "minute_steps bars" and b: "b_symbol b = symbol" and all: "list_all (\<lambda>b. b_symbol b = symbol) bars"
    and nxt: "bars \<noteq> [] \<longrightarrow> b_open_time_ms b = b_open_time_ms (last bars) + 60000"
    using snoc.prems by (auto simp: minute_steps_def successively_append_iff)
  have win: "window_ok w (b_symbol b) (t_bars ?st (b_symbol b))"
    using minute_steps_last_n [OF steps] set_last_n_subset [of ?n bars] all b
    by (auto simp: window_ok_def list_all_iff)
  have "append_or_replay w b ?st = (append_bar w b ?st, Inr True)"
  proof (rule append_next [OF win])
    show "t_bars ?st (b_symbol b) \<noteq> [] \<longrightarrow> b_open_time_ms b = b_open_time_ms (last (t_bars ?st (b_symbol b))) + 60000"
      using nxt w b by (auto simp: last_last_n last_n_def split: if_splits)
  qed (simp_all add: initial_state_def restored_prefix_def)
  moreover have "append_bar w b ?st = initial_state\<lparr>t_bars := (\<lambda>_. [])(symbol := last_n ?n (bars @ [b]))\<rparr>"
    using b by (simp add: append_bar_def last_n_append_last_n)
  ultimately have step: "append_or_replay w b ?st =
      (initial_state\<lparr>t_bars := (\<lambda>_. [])(symbol := last_n ?n (bars @ [b]))\<rparr>, Inr True)" by metis
  show ?case unfolding accepts_snoc snoc.IH [OF steps all] Let_def prod.case step
    by (simp add: replicate_append_same fun_upd_def)
qed

subsection \<open>Properties\<close>

lemma sample_sound: "sound_service sample_service"
  by (simp add: sound_service_def sample_service_sound)

text \<open>Property C4: in every reachable state, whatever was delivered, failed or restored, the window of every symbol is a
  gap-free minute sequence of that symbol's bars within its bound, a symbol with an unfinished publication has a prepared
  batch, an unfinished evaluation is that of the newest bar of a symbol that is not blocked, and the receipts of a prepared
  batch are about its anchor, its symbol and the policy of the service.\<close>

theorem service_invariant:
  assumes "sound_service w" and "reachable w st"
  shows "window_ok w symbol (t_bars st symbol) \<and>
    (symbol \<in> t_publication_pending st \<longrightarrow> t_prepared st symbol \<noteq> None) \<and>
    (\<forall>anchor. t_evaluation_pending st symbol = Some anchor \<longrightarrow> t_blocked st symbol = None \<and>
       t_bars st symbol \<noteq> [] \<and> b_bar_sha256 (last (t_bars st symbol)) = Some anchor) \<and>
    (\<forall>anchor batch. t_prepared st symbol = Some (anchor, batch) \<longrightarrow> batch_of w symbol anchor batch)"
  using reachable_inv [OF assms(2,1)] by (simp add: service_inv_def symbol_inv_def)

theorem service_invariant_witness:
  "window_ok sample_service ''BTCUSDT''
     (t_bars (deliver sample_service (sample_environment, sample_envelope 0 ''a'') initial_state) ''BTCUSDT'')"
  using service_invariant [OF sample_sound reachable.delivered [OF reachable.fresh]] by blast

text \<open>Property C34: symbols do not interfere. After any sequence of deliveries, with any failures, what the service holds
  about a symbol (window, blocking reason, restored mark, prepared batch, pending publication and evaluation) is what it
  would hold if only the envelopes of that symbol had been delivered.\<close>

theorem symbols_do_not_interfere:
  assumes "sound_service w"
  shows "view (fold (deliver w) es st) symbol =
    view (fold (deliver w) (filter (\<lambda>e. event_symbol e = Some symbol) es) st) symbol"
  by (rule deliveries.run_projection [OF assms])

theorem symbols_do_not_interfere_witness:
  "view (fold (deliver sample_service) [(sample_environment, sample_envelope 0 ''a'')] initial_state) ''ETHUSDT'' =
     view initial_state ''ETHUSDT''"
  using symbols_do_not_interfere [OF sample_sound, of "[(sample_environment, sample_envelope 0 ''a'')]" initial_state
      "''ETHUSDT''"]
  by (simp add: event_symbol_def sample_envelope_def)



text \<open>Property C8: the bounded window refines the unbounded stream. Starting empty, a gap-free stream of one symbol is
  accepted bar by bar without exception, and the window is then exactly the last \<open>window_bars\<close> bars of the stream; nothing
  else of the state changes.\<close>

theorem window_is_end_of_stream:
  assumes "0 < s_window_bars (n_settings w)" and "minute_steps bars" and "list_all (\<lambda>b. b_symbol b = symbol) bars"
  shows "accepts w bars initial_state =
    (initial_state\<lparr>t_bars := (\<lambda>_. [])(symbol := last_n (nat (s_window_bars (n_settings w))) bars)\<rparr>,
     replicate (length bars) (Inr True))"
  using assms by (rule accepts_stream)

theorem window_is_end_of_stream_witness:
  "t_bars (fst (accepts sample_service [stream_bar 0 ''a'', stream_bar 1 ''b'', stream_bar 2 ''c''] initial_state)) ''BTCUSDT'' =
     [stream_bar 1 ''b'', stream_bar 2 ''c'']"
proof -
  have "minute_steps [stream_bar 0 ''a'', stream_bar 1 ''b'', stream_bar 2 ''c'']"
    "list_all (\<lambda>b. b_symbol b = ''BTCUSDT'') [stream_bar 0 ''a'', stream_bar 1 ''b'', stream_bar 2 ''c'']"
    by (simp_all add: minute_steps_def)
  from window_is_end_of_stream [OF sample_service_sound(2) this] show ?thesis
    by (simp add: last_n_def sample_service_sound)
qed



end
