(* ===== verification/Acknowledgement.thy ===== *)
theory Acknowledgement
  imports Delivery
begin

section \<open>When an envelope is acknowledged\<close>

text \<open>
  The handler acknowledges after \<open>process_bar\<close> returned, or after a \<open>ClosedBarSequenceError\<close>. The second case is
  meant for a quarantined bar, whose receipts have been published by then; it is only that case if no other step
  of the handler raises this class. The first part of the theory finds the steps that cannot raise it; the second
  says what has been published when an envelope is acknowledged and what a redelivery does.
\<close>

subsection \<open>Where a sequence error comes from\<close>

definition sequence_free :: "'a result \<Rightarrow> bool" where
  "sequence_free r \<longleftrightarrow> (\<forall>e. r = Inl e \<longrightarrow> \<not> is_sequence_error e)"

named_theorems sequence_free_intros \<open>computations that raise no sequence error\<close>

lemma sequence_free_Inr [sequence_free_intros]: "sequence_free (Inr x)"
  by (simp add: sequence_free_def)

lemma sequence_free_Inl [simp]: "sequence_free (Inl e) \<longleftrightarrow> \<not> is_sequence_error e"
  by (simp add: sequence_free_def)

lemma sequence_free_rbind [sequence_free_intros]:
  "sequence_free m \<Longrightarrow> (\<And>x. m = Inr x \<Longrightarrow> sequence_free (f x)) \<Longrightarrow> sequence_free (rbind m f)"
  by (cases m) (simp_all add: sequence_free_def)

lemma sequence_free_rmap [sequence_free_intros]: "sequence_free m \<Longrightarrow> sequence_free (rmap f m)"
  by (cases m) (simp_all add: sequence_free_def)

lemma sequence_free_traverse [sequence_free_intros]:
  "(\<And>x. x \<in> set xs \<Longrightarrow> sequence_free (f x)) \<Longrightarrow> sequence_free (traverse f xs)"
  by (induction xs) (auto intro!: sequence_free_intros)

lemma sequence_free_extend_all [sequence_free_intros]:
  "(\<And>x. x \<in> set xs \<Longrightarrow> sequence_free (f x)) \<Longrightarrow> sequence_free (extend_all f xs)"
  unfolding extend_all_def by (intro sequence_free_intros)

lemma sequence_free_validate [sequence_free_intros]:
  "list_all (\<lambda>c. \<not> is_sequence_error (snd c)) checks \<Longrightarrow> sequence_free (validate checks x)"
  by (auto simp: sequence_free_def validate_Inl_iff list_all_iff find_Some_iff) (metis nth_mem snd_conv)

lemma sequence_free_if [sequence_free_intros]:
  "(b \<Longrightarrow> sequence_free x) \<Longrightarrow> (\<not> b \<Longrightarrow> sequence_free y) \<Longrightarrow> sequence_free (if b then x else y)"
  by simp

lemma canonical_value_free [sequence_free_intros]: "sequence_free (canonical_value v)"
  by (induction v rule: canonical_value.induct)
    (auto simp: json_members_def intro!: sequence_free_intros)

lemma canonical_sha256_free [sequence_free_intros]: "sequence_free (canonical_sha256 v)"
  unfolding canonical_sha256_def canonical_json_bytes_def by (intro sequence_free_intros)

lemma config_checks_free: "list_all (\<lambda>c. \<not> is_sequence_error (snd c)) (config_checks c)"
  by (cases c)
    (auto simp: list_all_iff at_most_one_def not_in_def positive_int_def positive_float_def regime_aligned_checks_def right_tail_checks_def quarter_hour_checks_def
      orderflow_checks_def range_checks_def trend_breakout_checks_def trend_pullback_checks_def crowded_checks_def
      donchian_checks_def four_hour_checks_def regime_retest_checks_def)

lemma configuration_fingerprint_free [sequence_free_intros]: "sequence_free (configuration_fingerprint d)"
  unfolding configuration_fingerprint_def runtime_configuration_def make_config_def config_sha256_def
  by (intro sequence_free_intros config_checks_free) simp

lemma logical_source_path_free [sequence_free_intros]: "sequence_free (logical_source_path p)"
  by (simp add: logical_source_path_def Let_def sequence_free_Inr)

lemma collect_sources_free [sequence_free_intros]: "sequence_free (collect_sources acc sources)"
  by (induction acc sources rule: collect_sources.induct) (auto intro!: sequence_free_intros)

lemma source_tree_free [sequence_free_intros]: "sequence_free (source_tree_sha256 sources)"
  unfolding source_tree_sha256_def source_stream_def
  by (intro sequence_free_intros) (auto simp: source_frame_def Let_def intro: sequence_free_intros)

lemma get_strategy_free [sequence_free_intros]: "sequence_free (get_strategy G i)"
  by (auto simp: get_strategy_def intro: sequence_free_intros split: option.split)

text \<open>The functions of the core package raise their own classes, never one of this repository.\<close>

definition foreign_contracts :: "core_package \<Rightarrow> bool" where
  "foreign_contracts K \<longleftrightarrow>
     (\<forall>x. sequence_free (k_make_evaluation K x)) \<and> (\<forall>path. sequence_free (k_read_source K path))"

lemma code_fingerprint_free:
  "foreign_contracts K \<Longrightarrow> sequence_free (code_fingerprint K d)"
  unfolding code_fingerprint_def installed_source_tree_sha256_def
  by (intro sequence_free_intros) (simp add: foreign_contracts_def)

lemma make_receipt_free:
  assumes "foreign_contracts K"
  shows "sequence_free (make_receipt K s policy bar history now f)"
proof -
  have "sequence_free (k_make_evaluation K x)" for x using assms by (simp add: foreign_contracts_def)
  then show ?thesis
    unfolding make_receipt_def Let_def
    by (cases "b_bar_sha256 bar") (auto intro!: sequence_free_intros split: option.split)
qed

lemma unavailable_free:
  assumes "foreign_contracts K"
  shows "sequence_free (unavailable_runtime_evaluations K G s policy clock bar reason)"
  unfolding unavailable_runtime_evaluations_def unavailable_receipt_def
  by (intro sequence_free_intros)
    (auto intro!: sequence_free_intros make_receipt_free code_fingerprint_free assms)

text \<open>An evaluation can only raise it because of the history itself.\<close>

lemma evaluate_runtime_bar_free:
  assumes "foreign_contracts K" and "s_enabled_strategy_ids s \<noteq> [] \<Longrightarrow> \<exists>ordered. canonical_closed_bars history = Inr ordered"
  shows "sequence_free (evaluate_runtime_bar K G s policy clock gen req bar history)"
proof (cases "s_enabled_strategy_ids s = []")
  case True
  then show ?thesis by (simp add: evaluate_runtime_bar_def sequence_free_rmap make_receipt_free assms(1))
next
  case False
  with assms(2) obtain ordered where "canonical_closed_bars history = Inr ordered" by blast
  with False show ?thesis
    by (auto simp: evaluate_runtime_bar_def evaluate_strategy_def Let_def
        intro!: sequence_free_intros make_receipt_free assms(1))
qed

text \<open>A window of one venue is a canonical history.\<close>

lemma window_canonical:
  assumes "window_ok w symbol bars" and "bars \<noteq> []" and "list_all (\<lambda>b. b_venue b = venue) bars"
  shows "canonical_closed_bars bars = Inr bars"
proof -
  have steps: "successively follows bars"
    using assms(1) by (auto simp: window_ok_def minute_steps_def follows_def elim: successively_mono)
  moreover have "sort_key b_open_time_ms bars = bars"
    using follows_strict [OF steps] by (rule sort_key_eqI [OF refl])
  moreover have "hd bars \<in> set bars" using assms(2) by simp
  ultimately show ?thesis using assms unfolding canonical_closed_bars_Inr_iff
    by (auto simp: window_ok_def list_all_iff)
qed

text \<open>Neither do the bus and the audit log.\<close>

definition foreign_audit :: "audit \<Rightarrow> bool" where
  "foreign_audit a \<longleftrightarrow>
     (\<forall>symbol anchor policy. sequence_free (a_evaluations a symbol anchor policy) \<and>
        (\<forall>rows. a_evaluations a symbol anchor policy = Inr rows \<longrightarrow> list_all sequence_free rows)) \<and>
     (\<forall>ids. sequence_free (a_intents a ids) \<and> (\<forall>rows. a_intents a ids = Inr rows \<longrightarrow> list_all sequence_free rows))"

definition foreign_environment :: "environment \<Rightarrow> bool" where
  "foreign_environment env \<longleftrightarrow>
     (\<forall>k e. w_publish env k = Some e \<longrightarrow> \<not> is_sequence_error e) \<and>
     (\<forall>a. w_audit env = Some a \<longrightarrow> foreign_audit a)"

lemma saved_intents_free:
  assumes "foreign_audit a"
  shows "sequence_free (saved_intents a es)"
proof -
  have "sequence_free (check_saved_intent vs e p)" for vs e p
    by (cases p) (simp add: check_saved_intent_def sequence_free_Inr split: option.split)
  then have "sequence_free (check_saved_evaluation vs e)" for vs e
    unfolding check_saved_evaluation_def by (intro sequence_free_intros) simp_all
  then show ?thesis
    using assms unfolding saved_intents_def Let_def
    by (intro sequence_free_intros) (auto simp: foreign_audit_def list_all_iff)
qed

lemma validate_provenance_free:
  assumes "foreign_contracts K"
  shows "sequence_free (validate_runtime_evaluation_provenance K G e)"
  unfolding validate_runtime_evaluation_provenance_def Let_def
  by (cases "r_strategy_id e") (auto intro!: sequence_free_intros code_fingerprint_free assms)

lemma saved_batch_free:
  assumes "foreign_contracts (n_core w)" and "foreign_environment env"
  shows "sequence_free (saved_batch w env bar anchor)"
proof (cases "w_audit env")
  case (Some a)
  then have a: "foreign_audit a" using assms(2) by (simp add: foreign_environment_def)
  have "sequence_free (check_saved_batch w bar a es)" for es
    unfolding check_saved_batch_def
    by (auto intro!: sequence_free_intros validate_provenance_free assms(1) saved_intents_free a)
  with a show ?thesis unfolding saved_batch_def Some option.case
    by (intro sequence_free_intros) (auto simp: foreign_audit_def list_all_iff)
qed (simp add: saved_batch_def sequence_free_Inr)

subsection \<open>What has been published\<close>

lemma publish_all_Inr: "publish_all f k ms bus = (bus', Inr u) \<Longrightarrow> bus' = bus @ ms"
  by (induction f k ms bus rule: publish_all.induct) (auto split: option.splits)

lemma publish_all_Inl: "publish_all f k ms bus = (bus', Inl e) \<Longrightarrow> \<exists>j. f j = Some e"
  by (induction f k ms bus rule: publish_all.induct) (auto split: option.splits)

lemma publish_all_healthy: "(\<And>j. f j = None) \<Longrightarrow> publish_all f k ms bus = (bus @ ms, Inr ())"
  by (induction f k ms bus rule: publish_all.induct) auto

lemma publish_all_prefix: "\<exists>n. fst (publish_all f k ms bus) = bus @ take n ms"
proof (induction f k ms bus rule: publish_all.induct)
  case (2 f k m ms bus)
  show ?case
  proof (cases "f k")
    case None
    from 2 [OF None] obtain n where "fst (publish_all f (Suc k) ms (bus @ [m])) = (bus @ [m]) @ take n ms" by blast
    then have "fst (publish_all f k (m # ms) bus) = bus @ take (Suc n) (m # ms)" using None by simp
    then show ?thesis by blast
  next
    case (Some e)
    then have "fst (publish_all f k (m # ms) bus) = bus @ take 0 (m # ms)" by simp
    then show ?thesis by blast
  qed
qed simp

lemma check_saved_evaluation_Inr:
  assumes "check_saved_evaluation vs e = Inr u"
  shows "list_all (\<lambda>(i, sd). \<exists>v. v \<in> set vs \<and> v_intent_id v = Some i \<and> \<not> intent_differs e sd v)
      (zip (r_intent_ids e) (r_intent_sides e))"
proof -
  from assms obtain us where "traverse (check_saved_intent vs e) (zip (r_intent_ids e) (r_intent_sides e)) = Inr us"
    by (auto simp: check_saved_evaluation_def rbind_Inr_iff)
  note dom = traverse_dom [OF this]
  have "\<exists>v. v \<in> set vs \<and> v_intent_id v = Some i \<and> \<not> intent_differs e sd v"
    if "(i, sd) \<in> set (zip (r_intent_ids e) (r_intent_sides e))" for i sd
  proof -
    from dom [OF that] obtain v where "intent_by_id vs i = Some v" "\<not> intent_differs e sd v"
      by (auto simp: check_saved_intent_def split: option.splits if_splits)
    moreover from this(1) have "v \<in> set vs" "v_intent_id v = Some i"
      by (auto simp: intent_by_id_def find_Some_iff) (metis length_rev nth_mem set_rev)
    ultimately show ?thesis by blast
  qed
  then show ?thesis by (auto simp: list_all_iff)
qed

lemma saved_intents_Inr:
  assumes "saved_intents a es = Inr vs"
  shows "length vs = length (concat (map r_intent_ids es)) \<and>
    set (map v_intent_id vs) = Some ` set (concat (map r_intent_ids es)) \<and>
    (\<forall>e \<in> set es. concat (map r_intent_ids es) = [] \<or> (\<exists>u. check_saved_evaluation vs e = Inr u))"
proof (cases "concat (map r_intent_ids es) = []")
  case True
  then show ?thesis using assms by (simp add: saved_intents_def)
next
  case False
  with assms obtain us where us: "traverse (check_saved_evaluation vs) es = Inr us"
    and eq: "length vs = length (concat (map r_intent_ids es))"
      "set (map v_intent_id vs) = Some ` set (concat (map r_intent_ids es))"
    unfolding saved_intents_def Let_def
    by (simp only: if_False rbind_Inr_iff) (auto simp: rmap_Inr_iff split: if_splits)
  show ?thesis using eq traverse_dom [OF us] by blast
qed

text \<open>Between two states the whole batch prepared for this anchor went out, and nothing else.\<close>

definition published_between :: "string \<Rightarrow> string \<Rightarrow> service_state \<Rightarrow> service_state \<Rightarrow> bool" where
  "published_between symbol anchor st st' \<longleftrightarrow>
     (\<exists>batch. t_prepared st' symbol = Some (anchor, batch) \<and> t_bus st' = t_bus st @ batch_events batch \<and>
        symbol \<notin> t_publication_pending st')"

lemma publish_prepared_Inr:
  assumes "publish_prepared env symbol st = (st', Inr vs)" and "prepared_anchor st symbol = Some anchor"
  shows "published_between symbol anchor st st'"
  using assms(1)
  by (cases rule: publish_prepared_cases)
    (use assms(2) in \<open>auto simp: published_between_def prepared_anchor_def dest: publish_all_Inr\<close>)

lemma publish_prepared_free:
  assumes "publish_prepared env symbol st = (st', Inl e)" and "foreign_environment env"
  shows "\<not> is_sequence_error e"
  using assms(1)
  by (cases rule: publish_prepared_cases)
    (use assms(2) in \<open>auto simp: foreign_environment_def dest: publish_all_Inl\<close>)

lemma finish_batch_eq:
  assumes "b_bar_sha256 bar = Some anchor"
  obtains st1 where "finish_batch env bar batch st = publish_prepared env (b_symbol bar) st1"
    "t_bus st1 = t_bus st" "prepared_anchor st1 (b_symbol bar) = Some anchor"
    "t_prepared st1 (b_symbol bar) = Some (anchor, batch)"
  using assms that by (simp add: finish_batch_def prepare_publication_def prepared_anchor_def)

lemma finish_batch_Inr:
  assumes "b_bar_sha256 bar = Some anchor" and "finish_batch env bar batch st = (st', Inr vs)"
  shows "published_between (b_symbol bar) anchor st st'"
  using finish_batch_eq [OF assms(1), of env batch st] publish_prepared_Inr assms(2)
  by (metis published_between_def)

lemma finish_batch_free:
  assumes "b_bar_sha256 bar = Some anchor" and "finish_batch env bar batch st = (st', Inl e)" and "foreign_environment env"
  shows "\<not> is_sequence_error e"
  using finish_batch_eq [OF assms(1), of env batch st] publish_prepared_free [OF _ assms(3)] assms(2) by metis

text \<open>The outcomes after which the handler acknowledges.\<close>

definition acknowledged :: "'a result \<Rightarrow> bool" where
  "acknowledged r \<longleftrightarrow> (case r of Inr _ \<Rightarrow> True | Inl e \<Rightarrow> is_sequence_error e)"

lemma acknowledged_simps [simp]: "acknowledged (Inr x)" "acknowledged (Inl e) \<longleftrightarrow> is_sequence_error e"
  by (simp_all add: acknowledged_def)

lemma evaluate_accepted_settles:
  assumes "foreign_contracts (n_core w)" and "foreign_environment env" and "b_bar_sha256 bar = Some anchor"
    and "canonical_closed_bars (t_bars st (b_symbol bar)) = Inr ordered"
    and "evaluate_accepted w env bar st = (st', r)" and "acknowledged r"
  shows "published_between (b_symbol bar) anchor st st'"
proof -
  have free: "sequence_free (evaluate_runtime_bar (n_core w) (n_generators w) (n_settings w) (n_policy w) (w_clock env)
      (service_generator w) get_runtime_requirements bar (t_bars st (b_symbol bar)))"
    using assms(4) by (intro evaluate_runtime_bar_free [OF assms(1)]) blast
  with assms(5,6) obtain batch where f: "finish_batch env bar batch st = (st', r)"
    by (auto simp: evaluate_accepted_def split: sum.splits)
  then show ?thesis
    using assms(6) finish_batch_Inr [OF assms(3)] finish_batch_free [OF assms(3) _ assms(2)] by (cases r) auto
qed

lemma unavailable_batch_free:
  "foreign_contracts (n_core w) \<Longrightarrow> sequence_free (unavailable_batch w env bar reason)"
  unfolding unavailable_batch_def by (rule unavailable_free)

lemma observe_replay_settles:
  assumes "foreign_contracts (n_core w)" and "foreign_environment env" and "b_bar_sha256 bar = Some anchor"
    and "observe_replay w env bar anchor st = (st', r)" and "acknowledged r"
  shows "published_between (b_symbol bar) anchor st st' \<or> t_bus st' = t_bus st"
  using assms(4,5) saved_batch_free [OF assms(1,2), of bar anchor]
    unavailable_batch_free [OF assms(1), of env bar "''HISTORICAL_REPLAY_NOT_EVALUATED''"]
    finish_batch_Inr [OF assms(3)] finish_batch_free [OF assms(3) _ assms(2)]
  by (cases r) (auto simp: observe_replay_def split: if_splits sum.splits option.splits)

lemma quarantine_settles:
  assumes "foreign_contracts (n_core w)" and "foreign_environment env" and "b_bar_sha256 bar = Some anchor"
    and "quarantine w env bar violation st = (st', r)" and "acknowledged r"
  shows "published_between (b_symbol bar) anchor st st'"
  using assms(4,5) unavailable_batch_free [OF assms(1), of env bar "''CLOSED_BAR_SEQUENCE_QUARANTINED''"]
    finish_batch_Inr [OF assms(3)] finish_batch_free [OF assms(3) _ assms(2)]
  by (auto simp: quarantine_def split: sum.splits prod.splits)

text \<open>A bar is settled when its outputs need no further publication: the prepared batch is its own and is not due,
  or the bar is a replay of the window or of the restored prefix.\<close>

definition already_settled :: "service \<Rightarrow> closed_bar \<Rightarrow> string \<Rightarrow> service_state \<Rightarrow> bool" where
  "already_settled w bar anchor st \<longleftrightarrow>
     b_symbol bar \<notin> t_publication_pending st \<and>
     (prepared_anchor st (b_symbol bar) = Some anchor \<or> append_or_replay w bar st = (st, Inr False))"

definition one_venue :: "closed_bar \<Rightarrow> service_state \<Rightarrow> bool" where
  "one_venue bar st \<longleftrightarrow> list_all (\<lambda>b. b_venue b = b_venue bar) (t_bars st (b_symbol bar))"

lemma published_between_bus: "t_bus st1 = t_bus st \<Longrightarrow> published_between symbol anchor st1 st' \<Longrightarrow> published_between symbol anchor st st'"
  by (simp add: published_between_def)

lemma accept_bar_settles:
  assumes w: "sound_service w" and K: "foreign_contracts (n_core w)" and env: "foreign_environment env"
    and sha: "b_bar_sha256 bar = Some anchor" and inv: "symbol_inv w st (b_symbol bar)" and venue: "one_venue bar st"
    and none: "t_evaluation_pending st (b_symbol bar) = None"
    and run: "accept_bar w env bar anchor st = (st', r)" and ack: "acknowledged r"
  shows "published_between (b_symbol bar) anchor st st' \<or>
    t_bus st' = t_bus st \<and> append_or_replay w bar st = (st, Inr False)"
proof -
  obtain st1 r1 where app: "append_or_replay w bar st = (st1, r1)" by fastforce
  then show ?thesis
  proof (cases rule: append_or_replay_cases)
    case (blocked reason m)
    with run app quarantine_settles [OF K env sha _ ack] show ?thesis by (simp add: accept_bar_def)
  next
    case (violation reason)
    then have "quarantine w env bar (ClosedBarSequenceError reason) st1 = (st', r)" using run app by (simp add: accept_bar_def)
    from quarantine_settles [OF K env sha this ack] published_between_bus [of st1 st] violation(3)
    show ?thesis by (simp add: block_def)
  next
    case replay
    with run app have "observe_replay w env bar anchor st = (st', r)" by (simp add: accept_bar_def)
    with observe_replay_settles [OF K env sha _ ack] app replay show ?thesis by blast
  next
    case accepted
    let ?n = "nat (s_window_bars (n_settings w))"
    let ?st2 = "st1\<lparr>t_evaluation_pending := (t_evaluation_pending st1)(b_symbol bar := Some anchor)\<rparr>"
    have eval: "evaluate_accepted w env bar ?st2 = (st', r)" using run app accepted(3) by (simp add: accept_bar_def)
    have bars: "t_bars ?st2 (b_symbol bar) = last_n ?n (t_bars st (b_symbol bar) @ [bar])"
      using accepted(2) by (simp add: append_bar_def)
    have "symbol_inv w st1 (b_symbol bar)" using append_or_replay_good [OF app none] inv by (simp add: good_step_def)
    then have "window_ok w (b_symbol bar) (t_bars ?st2 (b_symbol bar))" by (simp add: symbol_inv_def)
    moreover have "t_bars ?st2 (b_symbol bar) \<noteq> []"
      using w unfolding bars sound_service_def by (auto simp: last_n_def)
    moreover have "list_all (\<lambda>b. b_venue b = b_venue bar) (t_bars ?st2 (b_symbol bar))"
      using venue set_last_n_subset [of ?n "t_bars st (b_symbol bar) @ [bar]"]
      unfolding bars by (auto simp: one_venue_def list_all_iff)
    ultimately have "canonical_closed_bars (t_bars ?st2 (b_symbol bar)) = Inr (t_bars ?st2 (b_symbol bar))"
      by (rule window_canonical)
    from evaluate_accepted_settles [OF K env sha this eval ack] have "published_between (b_symbol bar) anchor ?st2 st'" .
    then show ?thesis using published_between_bus [of ?st2 st] accepted(2) by (simp add: append_bar_def)
  qed
qed

lemma process_bar_settles:
  assumes w: "sound_service w" and K: "foreign_contracts (n_core w)" and env: "foreign_environment env"
    and sha: "b_bar_sha256 bar = Some anchor" and inv: "symbol_inv w st (b_symbol bar)" and venue: "one_venue bar st"
    and run: "process_bar w env bar st = (st', r)" and ack: "acknowledged r"
  shows "published_between (b_symbol bar) anchor st st' \<or> t_bus st' = t_bus st \<and> already_settled w bar anchor st"
proof -
  from run ack sha have id: "process_identified w env bar anchor st = (st', r)"
    by (auto simp: process_bar_def split: if_splits)
  show ?thesis
  proof (cases "b_symbol bar \<in> t_publication_pending st")
    case True
    with id ack have own: "prepared_anchor st (b_symbol bar) = Some anchor" and
      pub: "publish_prepared env (b_symbol bar) st = (st', r)"
      by (auto simp: process_identified_def split: if_splits)
    then show ?thesis using ack publish_prepared_Inr publish_prepared_free [OF _ env] by (cases r) auto
  next
    case fresh: False
    show ?thesis
    proof (cases "prepared_anchor st (b_symbol bar) = Some anchor")
      case True
      with id fresh show ?thesis by (auto simp: process_identified_def already_settled_def)
    next
      case other: False
      show ?thesis
      proof (cases "t_evaluation_pending st (b_symbol bar)")
        case None
        with id fresh other have "accept_bar w env bar anchor st = (st', r)" by (simp add: process_identified_def)
        from accept_bar_settles [OF w K env sha inv venue None this ack] fresh show ?thesis
          by (auto simp: already_settled_def)
      next
        case (Some unfinished)
        with id fresh other ack have "unfinished = anchor" and eval: "evaluate_accepted w env bar st = (st', r)"
          by (auto simp: process_identified_def split: if_splits)
        then have "window_ok w (b_symbol bar) (t_bars st (b_symbol bar))" "t_bars st (b_symbol bar) \<noteq> []"
          using inv Some by (simp_all add: symbol_inv_def)
        from window_canonical [OF this] venue have
          "canonical_closed_bars (t_bars st (b_symbol bar)) = Inr (t_bars st (b_symbol bar))" by (simp add: one_venue_def)
        from evaluate_accepted_settles [OF K env sha this eval ack] show ?thesis ..
      qed
    qed
  qed
qed

lemma handle_envelope_Inr:
  assumes "handle_envelope w env y st = (st', Inr u)" and "y_payload y = Inr bar"
  obtains st1 r where "process_bar w env bar st = (st1, r)" "acknowledged r"
    "st' = st1\<lparr>t_bus := t_bus st1 @ [AckOut (y_id y)]\<rparr>"
  using assms
  by (auto simp: handle_envelope_def acknowledge_def split: if_splits sum.splits prod.splits option.splits)

subsection \<open>Properties\<close>

lemma sample_foreign: "foreign_contracts (n_core sample_service)" "foreign_environment sample_environment"
  by (simp_all add: foreign_contracts_def sample_service_def sample_core_def foreign_environment_def
      sample_environment_def sequence_free_Inr)

text \<open>Property C2: an envelope is acknowledged only after its outputs are out. In a reachable state and for a bar of the
  venue of its window, a successful handling appends to the bus the acknowledgement as the last event, preceded either by the
  complete prepared batch of exactly this bar, which has at least one receipt, or by nothing if the bar was already settled.
  The handler acknowledges after a sequence error too, so this rests on no other step raising that class.\<close>

theorem acknowledged_after_publication:
  assumes w: "sound_service w" and K: "foreign_contracts (n_core w)" and env: "foreign_environment env"
    and st: "reachable w st" and bar: "y_payload y = Inr bar" and sha: "b_bar_sha256 bar = Some anchor"
    and venue: "one_venue bar st" and run: "handle_envelope w env y st = (st', Inr u)"
  shows "\<exists>out. t_bus st' = t_bus st @ out @ [AckOut (y_id y)] \<and>
    ((\<exists>batch. out = batch_events batch \<and> batch_of w (b_symbol bar) anchor batch \<and>
        t_prepared st' (b_symbol bar) = Some (anchor, batch) \<and> b_symbol bar \<notin> t_publication_pending st') \<or>
     out = [] \<and> already_settled w bar anchor st)"
proof -
  have inv: "service_inv w st" using reachable_inv [OF st w] .
  from handle_envelope_Inr [OF run bar] obtain st1 r where p: "process_bar w env bar st = (st1, r)" "acknowledged r"
    "st' = st1\<lparr>t_bus := t_bus st1 @ [AckOut (y_id y)]\<rparr>" .
  have "symbol_inv w st' (b_symbol bar)"
    using handle_envelope_good [OF _ _ bar run] w inv
    by (simp add: sound_service_def good_step_def service_inv_def)
  then have batch: "batch_of w (b_symbol bar) anchor batch" if "t_prepared st' (b_symbol bar) = Some (anchor, batch)" for batch
    using that by (simp add: symbol_inv_def)
  from process_bar_settles [OF w K env sha _ venue p(1,2)] inv
  have "published_between (b_symbol bar) anchor st st1 \<or> t_bus st1 = t_bus st \<and> already_settled w bar anchor st"
    by (simp add: service_inv_def)
  then show ?thesis
  proof
    assume "published_between (b_symbol bar) anchor st st1"
    then show ?thesis using batch p(3) by (fastforce simp: published_between_def)
  next
    assume "t_bus st1 = t_bus st \<and> already_settled w bar anchor st"
    then show ?thesis using p(3) by simp
  qed
qed

theorem acknowledged_after_publication_witness:
  "\<exists>st'. handle_envelope sample_service sample_environment (sample_envelope 0 ''a'') initial_state = (st', Inr ()) \<and>
     last (t_bus st') = AckOut ''a''"
proof -
  let ?bar = "stream_bar 0 ''a''"
  obtain st1 where "process_bar sample_service sample_environment ?bar initial_state = (st1, Inr [])"
    using sample_first_bar [of 0 sample_environment "''a''"] by (auto simp: sample_environment_def)
  then have run: "handle_envelope sample_service sample_environment (sample_envelope 0 ''a'') initial_state =
      (st1\<lparr>t_bus := t_bus st1 @ [AckOut ''a'']\<rparr>, Inr ())"
    by (simp add: handle_envelope_def sample_envelope_def sample_service_sound acknowledge_def sample_environment_def)
  have bar: "y_payload (sample_envelope 0 ''a'') = Inr ?bar" by (simp add: sample_envelope_def)
  have "b_bar_sha256 ?bar = Some ''a''" "one_venue ?bar initial_state" by (simp_all add: one_venue_def initial_fields)
  from acknowledged_after_publication [OF sample_sound sample_foreign(1,2) reachable.fresh bar this run]
  obtain out where "t_bus (st1\<lparr>t_bus := t_bus st1 @ [AckOut ''a'']\<rparr>) =
      t_bus initial_state @ out @ [AckOut (y_id (sample_envelope 0 ''a''))]" by blast
  with run show ?thesis by simp
qed

text \<open>Property C33: no bar overtakes an unfinished predecessor. While another bar of the symbol still has to be published or
  evaluated, an envelope is refused with an exception, is not acknowledged and leaves the state exactly as it was.\<close>

theorem predecessor_must_finish:
  assumes "y_payload y = Inr bar" and "b_bar_sha256 bar = Some anchor" and "prepared_anchor st (b_symbol bar) \<noteq> Some anchor"
    and "b_symbol bar \<in> t_publication_pending st \<or>
      (\<exists>unfinished. t_evaluation_pending st (b_symbol bar) = Some unfinished \<and> unfinished \<noteq> anchor)"
  shows "\<exists>e. handle_envelope w env y st = (st, Inl e)"
proof -
  have "keep_due bar st = st" using assms(2,3) by (auto simp: keep_due_def)
  moreover have "\<exists>e. process_bar w env bar st = (st, Inl e) \<and> \<not> is_sequence_error e"
    using assms(2-4) by (auto simp: process_bar_def process_identified_def)
  ultimately show ?thesis using assms(1) by (auto simp: handle_envelope_def)
qed

theorem predecessor_must_finish_witness:
  "\<exists>e. handle_envelope sample_service sample_environment (sample_envelope 1 ''b'')
     (initial_state\<lparr>t_evaluation_pending := (\<lambda>_. Some ''a'')\<rparr>) =
     (initial_state\<lparr>t_evaluation_pending := (\<lambda>_. Some ''a'')\<rparr>, Inl e)"
  by (rule predecessor_must_finish [of _ "stream_bar 1 ''b''" "''b''"])
    (simp_all add: sample_envelope_def prepared_anchor_def initial_fields)

text \<open>Property C5: a redelivery publishes the same bytes. If handling an envelope failed after its batch was prepared, then
  the next delivery on a healthy bus publishes exactly this batch and acknowledges, whatever the clock and the audit log say
  by then: nothing is evaluated again, and the symbol is free for the next bar.\<close>

theorem redelivery_publishes_the_same_batch:
  assumes bar: "y_payload y = Inr bar" and sha: "b_bar_sha256 bar = Some anchor" and topic: "y_topic y = n_closed_bar_topic w"
    and allowed: "s_symbol_allowed (n_settings w) (b_symbol bar)"
    and failed: "handle_envelope w env y st = (st1, Inl e)"
    and batch: "t_prepared st1 (b_symbol bar) = Some (anchor, batch)"
    and healthy: "\<And>k. w_publish env' k = None" "w_ack env' = None" "b_close_time_ms bar \<le> w_now env'"
  shows "handle_envelope w env' y st1 =
    (st1\<lparr>t_bus := t_bus st1 @ batch_events batch @ [AckOut (y_id y)],
         t_publication_pending := t_publication_pending st1 - {b_symbol bar}\<rparr>, Inr ())"
proof -
  have due: "b_symbol bar \<in> t_publication_pending (keep_due bar u)" if "prepared_anchor u (b_symbol bar) = Some anchor" for u
    using that sha by (simp add: keep_due_def)
  obtain u r where p: "process_bar w env bar st = (u, r)" by fastforce
  have "st1 = keep_due bar u"
    using failed p bar topic
    by (auto simp: handle_envelope_def acknowledge_def split: if_splits sum.splits option.splits)
  moreover from this have "prepared_anchor u (b_symbol bar) = Some anchor"
    using batch by (simp add: keep_due_def prepared_anchor_def split: if_splits)
  ultimately have pending: "b_symbol bar \<in> t_publication_pending st1" using due by simp
  have own: "prepared_anchor st1 (b_symbol bar) = Some anchor" using batch by (simp add: prepared_anchor_def)
  have "publish_prepared env' (b_symbol bar) st1 =
      (st1\<lparr>t_bus := t_bus st1 @ batch_events batch,
           t_publication_pending := t_publication_pending st1 - {b_symbol bar}\<rparr>, Inr (x_intents batch))"
    using batch by (simp add: publish_prepared_def publish_all_healthy [OF healthy(1)])
  then have "process_bar w env' bar st1 =
      (st1\<lparr>t_bus := t_bus st1 @ batch_events batch,
           t_publication_pending := t_publication_pending st1 - {b_symbol bar}\<rparr>, Inr (x_intents batch))"
    using allowed healthy(3) sha pending own by (simp add: process_bar_def process_identified_def)
  then show ?thesis using bar topic healthy(2) by (simp add: handle_envelope_def acknowledge_def)
qed

theorem redelivery_publishes_the_same_batch_witness:
  "\<exists>st1 st2 e. handle_envelope sample_service (sample_environment\<lparr>w_ack := Some (ExternalError ''Timeout'')\<rparr>)
       (sample_envelope 0 ''a'') initial_state = (st1, Inl (ExternalError ''Timeout'')) \<and>
     handle_envelope sample_service sample_environment (sample_envelope 0 ''a'') st1 = (st2, Inr ()) \<and>
     t_bus st2 = [EvaluationOut e, EvaluationOut e, AckOut ''a'']"
proof -
  let ?bar = "stream_bar 0 ''a''" and ?env = "sample_environment\<lparr>w_ack := Some (ExternalError ''Timeout'')\<rparr>"
  obtain e where first: "process_bar sample_service ?env ?bar initial_state =
    (initial_state\<lparr>t_bars := (\<lambda>_. [])(''BTCUSDT'' := [?bar]),
       t_prepared := (\<lambda>_. None)(''BTCUSDT'' := Some (''a'', \<lparr>x_intents = [], x_evaluations = [e]\<rparr>)),
       t_last_evaluations := [e], t_bus := [EvaluationOut e]\<rparr>, Inr [])" (is "_ = (?u, _)")
    using sample_first_bar [of 0 ?env "''a''"] by (auto simp: sample_environment_def)
  have failed: "handle_envelope sample_service ?env (sample_envelope 0 ''a'') initial_state =
      (keep_due ?bar ?u, Inl (ExternalError ''Timeout''))"
    using first by (simp add: handle_envelope_def sample_envelope_def sample_service_sound acknowledge_def)
  have bar: "y_payload (sample_envelope 0 ''a'') = Inr ?bar" "b_bar_sha256 ?bar = Some ''a''"
    "y_topic (sample_envelope 0 ''a'') = n_closed_bar_topic sample_service"
    "s_symbol_allowed (n_settings sample_service) (b_symbol ?bar)"
    by (simp_all add: sample_envelope_def sample_service_sound)
  have due: "t_prepared (keep_due ?bar ?u) (b_symbol ?bar) = Some (''a'', \<lparr>x_intents = [], x_evaluations = [e]\<rparr>)"
    "t_bus (keep_due ?bar ?u) = [EvaluationOut e]"
    by (simp_all add: keep_due_def)
  have "handle_envelope sample_service sample_environment (sample_envelope 0 ''a'') (keep_due ?bar ?u) =
    ((keep_due ?bar ?u)\<lparr>t_bus := t_bus (keep_due ?bar ?u) @ batch_events \<lparr>x_intents = [], x_evaluations = [e]\<rparr> @
         [AckOut (y_id (sample_envelope 0 ''a''))],
       t_publication_pending := t_publication_pending (keep_due ?bar ?u) - {b_symbol ?bar}\<rparr>, Inr ())"
    by (rule redelivery_publishes_the_same_batch [OF bar failed due(1)]) (simp_all add: sample_environment_def)
  with failed due(2) show ?thesis by (auto simp: batch_events_def sample_envelope_def)
qed

text \<open>History never trades. A bar that is already in the window or older than the restored one (and is not the
  prepared bar of the symbol) produces no candidate: whatever the audit log returns and whatever fails, only receipts reach the
  bus, all of them \<open>UNAVAILABLE\<close>, and neither the windows nor the blocked symbols change.\<close>

theorem replay_publishes_no_intent:
  assumes K: "faithful_contracts (n_core w)" and sha: "b_bar_sha256 bar = Some anchor"
    and replay: "append_or_replay w bar st = (st, Inr False)" and run: "accept_bar w env bar anchor st = (st', r)"
  shows "(\<exists>out. t_bus st' = t_bus st @ map EvaluationOut out \<and> list_all (\<lambda>e. r_status e = UNAVAILABLE) out) \<and>
    t_bars st' = t_bars st \<and> t_blocked st' = t_blocked st \<and> (\<forall>vs. r = Inr vs \<longrightarrow> vs = [])"
proof -
  have obs: "observe_replay w env bar anchor st = (st', r)" using replay run by (simp add: accept_bar_def)
  consider (plain) "t_bus st' = t_bus st" "t_bars st' = t_bars st" "t_blocked st' = t_blocked st" "\<forall>vs. r = Inr vs \<longrightarrow> vs = []"
    | (fresh) batch where "unavailable_batch w env bar ''HISTORICAL_REPLAY_NOT_EVALUATED'' = Inr batch"
        "finish_batch env bar batch st = (st', r)"
    using obs by (auto simp: observe_replay_def split: if_splits sum.splits option.splits)
  then show ?thesis
  proof cases
    case plain
    then have "t_bus st' = t_bus st @ map EvaluationOut [] \<and> list_all (\<lambda>e. r_status e = UNAVAILABLE) []" by simp
    with plain show ?thesis by blast
  next
    case fresh
    note b = unavailable_batch_of [OF K fresh(1) sha]
    from finish_batch_eq [OF sha, of env batch st] obtain u where u: "publish_prepared env (b_symbol bar) u = (st', r)"
      "t_bus u = t_bus st" "t_prepared u (b_symbol bar) = Some (anchor, batch)" using fresh(2) by metis
    have frame: "t_bars st' = t_bars st \<and> t_blocked st' = t_blocked st"
      using fresh(2) by (auto simp: finish_batch_def prepare_publication_def publish_prepared_def sha
          split: option.splits prod.splits sum.splits)
    obtain out where out: "\<And>bus. publish_all (w_publish env) 0 (batch_events batch) bus =
        (bus @ out, snd (publish_all (w_publish env) 0 (batch_events batch) []))" using publish_all_out by blast
    have prefix_out: "\<exists>n. out = take n (batch_events batch)"
      using publish_all_prefix out by (metis append_Nil fst_conv)
    then obtain n where n: "out = map EvaluationOut (take n (x_evaluations batch))"
      using b(2) by (auto simp: batch_events_def take_map)
    have "t_bus st' = t_bus st @ out" "\<forall>vs. r = Inr vs \<longrightarrow> vs = []"
      using u b(2) out [of "t_bus st"] by (auto simp: publish_prepared_def split: prod.splits sum.splits)
    moreover have "list_all (\<lambda>e. r_status e = UNAVAILABLE) (take n (x_evaluations batch))"
      using b(3) by (auto simp: list_all_iff dest: in_set_takeD)
    ultimately show ?thesis using frame n by blast
  qed
qed

theorem replay_publishes_no_intent_witness:
  "\<exists>st'. accept_bar sample_service sample_environment (stream_bar 0 ''a'') ''a''
     (initial_state\<lparr>t_bars := (\<lambda>_. [stream_bar 0 ''a''])\<rparr>) = (st', Inr []) \<and> t_blocked st' = (\<lambda>_. None)"
proof -
  let ?st = "initial_state\<lparr>t_bars := (\<lambda>_. [stream_bar 0 ''a''])\<rparr>"
  have replay: "append_or_replay sample_service (stream_bar 0 ''a'') ?st = (?st, Inr False)"
    by (simp add: append_or_replay_def initial_fields)
  then have run: "accept_bar sample_service sample_environment (stream_bar 0 ''a'') ''a'' ?st = (?st, Inr [])"
    by (simp add: accept_bar_def observe_replay_def initial_fields)
  from replay_publishes_no_intent [OF sample_service_sound(1) _ _ run] replay have "t_blocked ?st = t_blocked ?st" by simp
  with run show ?thesis by (simp add: initial_fields)
qed

text \<open>Property C14: a batch restored from the audit log is the complete committed outcome of this very bar: exactly one receipt
  for every enabled strategy (one engine receipt if none is enabled), all with this anchor, decision time, symbol, policy,
  allow-list and mode, with distinct identities and fingerprints that pass the recheck against the installation, and its
  candidates are exactly the intents the receipts name, each agreeing with its receipt in strategy, symbol, time, side and
  fingerprints.\<close>

theorem restored_batch_is_exact:
  assumes "saved_batch w env bar anchor = Inr (Some batch)" and "b_bar_sha256 bar = Some anchor"
    and "distinct (s_enabled_strategy_ids (n_settings w))"
  shows "mset (map r_strategy_id (x_evaluations batch)) = mset_set (expected_roster w) \<and>
    list_all (\<lambda>e. \<not> slot_differs w bar e \<and>
      validate_runtime_evaluation_provenance (n_core w) (n_generators w) e = Inr ()) (x_evaluations batch) \<and>
    distinct (map (k_evaluation_id (n_core w)) (x_evaluations batch)) \<and>
    length (x_intents batch) = length (concat (map r_intent_ids (x_evaluations batch))) \<and>
    set (map v_intent_id (x_intents batch)) = Some ` set (concat (map r_intent_ids (x_evaluations batch))) \<and>
    list_all (\<lambda>e. list_all (\<lambda>(i, sd). \<exists>v. v \<in> set (x_intents batch) \<and> v_intent_id v = Some i \<and> \<not> intent_differs e sd v)
      (zip (r_intent_ids e) (r_intent_sides e))) (x_evaluations batch)"
proof -
  from assms(1) obtain a es where c: "check_saved_batch w bar a es = Inr batch"
    by (auto simp: saved_batch_def rbind_Inr_iff rmap_Inr_iff split: option.splits if_splits)
  note s = check_saved_batch_Inr [OF c]
  have es: "mset es = mset (x_evaluations batch)" "set es = set (x_evaluations batch)" by (simp_all add: s(4))
  have "card (set (map r_strategy_id es)) = length (map r_strategy_id es)" using s(1,2) by simp
  then have "distinct (map r_strategy_id es)" by (rule card_distinct)
  then have roster: "mset (map r_strategy_id (x_evaluations batch)) = mset_set (expected_roster w)"
    using s(2) es(1) by (metis mset_map mset_set_set)
  have "distinct (map (k_evaluation_id (n_core w)) es)" using s(6) by (intro card_distinct) simp
  then have ident: "distinct (map (k_evaluation_id (n_core w)) (x_evaluations batch))"
    using es(1) by (metis mset_eq_imp_distinct_iff mset_map)
  have len: "length (concat (map r_intent_ids es)) = length (concat (map r_intent_ids (x_evaluations batch)))"
  proof -
    have "mset (map (length \<circ> r_intent_ids) es) = mset (map (length \<circ> r_intent_ids) (x_evaluations batch))"
      using es(1) by simp
    then have "sum_list (map (length \<circ> r_intent_ids) es) = sum_list (map (length \<circ> r_intent_ids) (x_evaluations batch))"
      by (metis sum_mset_sum_list)
    then show ?thesis by (simp add: length_concat)
  qed
  have ids: "set (concat (map r_intent_ids es)) = set (concat (map r_intent_ids (x_evaluations batch)))"
    using es(2) by simp
  have saved: "length (x_intents batch) = length (concat (map r_intent_ids es)) \<and>
      set (map v_intent_id (x_intents batch)) = Some ` set (concat (map r_intent_ids es)) \<and>
      (\<forall>e \<in> set es. concat (map r_intent_ids es) = [] \<or> (\<exists>u. check_saved_evaluation (x_intents batch) e = Inr u))"
    using s(5) by (rule saved_intents_Inr)
  have "list_all (\<lambda>(i, sd). \<exists>v. v \<in> set (x_intents batch) \<and> v_intent_id v = Some i \<and> \<not> intent_differs e sd v)
      (zip (r_intent_ids e) (r_intent_sides e))" if e: "e \<in> set es" for e
  proof (cases "concat (map r_intent_ids es) = []")
    case True
    then have "r_intent_ids e = []" using e by (auto simp: concat_eq_Nil_conv)
    then show ?thesis by simp
  next
    case False
    with saved e obtain u where "check_saved_evaluation (x_intents batch) e = Inr u" by blast
    then show ?thesis by (rule check_saved_evaluation_Inr)
  qed
  then show ?thesis using roster ident len ids saved s(3,7) es(2)
    by (simp add: list_all_iff list_ex_iff)
qed

text \<open>The audit log returns the receipt the service itself had made.\<close>

theorem restored_batch_is_exact_witness:
  "\<exists>a batch. saved_batch sample_service (sample_environment\<lparr>w_audit := Some a\<rparr>) (stream_bar 0 ''a'') ''a'' = Inr (Some batch) \<and>
     mset (map r_strategy_id (x_evaluations batch)) = {#None#}"
proof -
  let ?bar = "stream_bar 0 ''a''" and ?w = sample_service
  obtain e where run: "evaluate_runtime_bar (n_core ?w) (n_generators ?w) (n_settings ?w) (n_policy ?w) (\<lambda>_. 7)
      (\<lambda>_ _ _. Inr []) get_runtime_requirements ?bar [?bar] = Inr \<lparr>x_intents = [], x_evaluations = [e]\<rparr>"
    using sample_engine_receipt by blast
  then have "make_receipt (n_core ?w) (n_settings ?w) (n_policy ?w) ?bar [?bar] 7
      (engine_facts DISABLED ''EMPTY_STRATEGY_ALLOW_LIST'') = Inr e"
    by (auto simp: evaluate_runtime_bar_def sample_service_sound rmap_Inr_iff)
  note r = make_receipt_Inr [OF sample_service_sound(1) this]
  let ?a = "\<lparr>a_evaluations = (\<lambda>_ _ _. Inr [Inr e]), a_intents = (\<lambda>_. Inr [])\<rparr>"
  have ids: "r_intent_ids e = []" using r(3) by (simp add: engine_facts_def)
  have saved: "saved_batch ?w (sample_environment\<lparr>w_audit := Some ?a\<rparr>) ?bar ''a'' =
      Inr (Some \<lparr>x_intents = [], x_evaluations = [e]\<rparr>)"
    using r(2,4,7,13-17) ids
    by (simp add: saved_batch_def check_saved_batch_def expected_roster_def sample_service_sound engine_facts_def
        slot_differs_def validate_runtime_evaluation_provenance_def saved_intents_def)
  have "mset (map r_strategy_id [e]) = mset_set (expected_roster ?w)"
    using restored_batch_is_exact [OF saved] by (simp add: sample_service_sound)
  then have "mset (map r_strategy_id [e]) = {#None#}" by (simp add: expected_roster_def sample_service_sound)
  with saved show ?thesis by (intro exI [of _ ?a] exI [of _ "\<lparr>x_intents = [], x_evaluations = [e]\<rparr>"] conjI) simp_all
qed

text \<open>The state after the bar of a second venue was appended, marked as due and refused by the evaluation.\<close>

definition foreign_state :: "service \<Rightarrow> closed_bar \<Rightarrow> string \<Rightarrow> service_state \<Rightarrow> service_state" where
  "foreign_state w bar anchor st =
     (append_bar w bar st)\<lparr>t_evaluation_pending := (t_evaluation_pending st)(b_symbol bar := Some anchor)\<rparr>"

lemma mixed_window_refused:
  assumes "2 \<le> n" and "xs \<noteq> []" and "b_venue (last xs) \<noteq> b_venue b"
  shows "\<exists>m. canonical_closed_bars (last_n n (xs @ [b])) = Inl (ClosedBarSequenceError m)"
proof (cases "canonical_closed_bars (last_n n (xs @ [b]))")
  case (Inl e)
  with canonical_closed_bars_error show ?thesis by blast
next
  case (Inr ys)
  then have "ys = sort_key b_open_time_ms (last_n n (xs @ [b]))" and
    one: "list_all (\<lambda>b. b_symbol b = b_symbol (hd ys) \<and> b_venue b = b_venue (hd ys)) ys"
    unfolding canonical_closed_bars_Inr_iff by blast+
  then have set_ys: "set ys = set (last_n n (xs @ [b]))" by simp
  obtain us u where xs: "xs = us @ [u]" using assms(2) by (cases xs rule: rev_cases) simp_all
  have "{last xs, b} \<subseteq> set (last_n n (xs @ [b]))" using assms(1) by (simp add: last_n_def xs)
  then show ?thesis using one assms(3) unfolding set_ys [symmetric] list_all_iff by fastforce
qed

text \<open>Property C40: the handler acknowledges a bar that nobody observed. A bar that continues the window of its symbol but comes
  from another venue is accepted by the sequence check; the evaluation then refuses the mixed window with the same exception
  class as the sequence check, the handler takes it for a quarantined bar and acknowledges it: no receipt is published, the
  symbol is not blocked, and the bar stays due, so that every later bar of the symbol is refused.\<close>

theorem foreign_venue_acknowledged_unobserved:
  assumes topic: "y_topic y = n_closed_bar_topic w" and bar: "y_payload y = Inr bar" and sha: "b_bar_sha256 bar = Some anchor"
    and allowed: "s_symbol_allowed (n_settings w) (b_symbol bar)" and past: "b_close_time_ms bar \<le> w_now env"
    and enabled: "s_enabled_strategy_ids (n_settings w) \<noteq> []" and window: "2 \<le> s_window_bars (n_settings w)"
    and inv: "symbol_inv w st (b_symbol bar)" and idle: "t_blocked st (b_symbol bar) = None"
      "b_symbol bar \<notin> t_publication_pending st" "t_evaluation_pending st (b_symbol bar) = None"
      "prepared_anchor st (b_symbol bar) \<noteq> Some anchor" "\<not> restored_prefix st bar"
    and continues: "t_bars st (b_symbol bar) \<noteq> []"
      "b_open_time_ms bar = b_open_time_ms (last (t_bars st (b_symbol bar))) + 60000"
    and venue: "b_venue (last (t_bars st (b_symbol bar))) \<noteq> b_venue bar" and ack: "w_ack env = None"
  shows "handle_envelope w env y st =
    ((foreign_state w bar anchor st)\<lparr>t_bus := t_bus st @ [AckOut (y_id y)]\<rparr>, Inr ())"
proof -
  let ?h = "t_bars st (b_symbol bar)"
  have app: "append_or_replay w bar st = (append_bar w bar st, Inr True)"
    using inv idle continues by (intro append_next) (simp_all add: symbol_inv_def)
  have fields: "t_bars (foreign_state w bar anchor st) (b_symbol bar) =
      last_n (nat (s_window_bars (n_settings w))) (?h @ [bar])" "t_bus (foreign_state w bar anchor st) = t_bus st"
    "(append_bar w bar st)\<lparr>t_evaluation_pending := (t_evaluation_pending (append_bar w bar st))(b_symbol bar := Some anchor)\<rparr> =
      foreign_state w bar anchor st"
    by (simp_all add: foreign_state_def append_bar_def)
  obtain m where "canonical_closed_bars (t_bars (foreign_state w bar anchor st) (b_symbol bar)) = Inl (ClosedBarSequenceError m)"
    using mixed_window_refused [OF _ continues(1) venue, of "nat (s_window_bars (n_settings w))"] window
    unfolding fields(1) by fastforce
  then have "evaluate_accepted w env bar (foreign_state w bar anchor st) =
      (foreign_state w bar anchor st, Inl (ClosedBarSequenceError m))"
    using enabled by (simp add: evaluate_accepted_def evaluate_runtime_bar_def)
  then have "process_bar w env bar st = (foreign_state w bar anchor st, Inl (ClosedBarSequenceError m))"
    using sha allowed past idle app fields(3) by (simp add: process_bar_def process_identified_def accept_bar_def)
  then show ?thesis using topic bar ack fields(2) by (simp add: handle_envelope_def acknowledge_def)
qed

text \<open>One enabled strategy, a window of one bar, the next minute from another venue.\<close>

theorem foreign_venue_acknowledged_unobserved_witness:
  "\<exists>st'. handle_envelope (sample_service\<lparr>n_settings := (n_settings sample_service)\<lparr>s_enabled_strategy_ids := [''x'']\<rparr>\<rparr>) sample_environment
      (sample_envelope 1 ''b'')
      (initial_state\<lparr>t_bars := (\<lambda>_. [])(''BTCUSDT'' := [(stream_bar 0 ''a'')\<lparr>b_venue := ''OTHER''\<rparr>])\<rparr>) = (st', Inr ()) \<and>
    t_bus st' = [AckOut ''b''] \<and> t_evaluation_pending st' ''BTCUSDT'' = Some ''b'' \<and> t_blocked st' ''BTCUSDT'' = None"
proof -
  let ?w = "sample_service\<lparr>n_settings := (n_settings sample_service)\<lparr>s_enabled_strategy_ids := [''x'']\<rparr>\<rparr>"
  let ?st = "initial_state\<lparr>t_bars := (\<lambda>_. [])(''BTCUSDT'' := [(stream_bar 0 ''a'')\<lparr>b_venue := ''OTHER''\<rparr>])\<rparr>"
  have inv: "symbol_inv ?w ?st ''BTCUSDT''"
    by (simp add: symbol_inv_def window_ok_def minute_steps_def initial_fields sample_service_sound)
  have venue: "b_venue (stream_bar 1 ''b'') \<noteq> ''OTHER''"
    by (simp add: stream_bar_def sample_bar_def bar_of_candle_def sample_minute_def)
  have "handle_envelope ?w sample_environment (sample_envelope 1 ''b'') ?st =
      ((foreign_state ?w (stream_bar 1 ''b'') ''b'' ?st)\<lparr>t_bus := t_bus ?st @ [AckOut (y_id (sample_envelope 1 ''b''))]\<rparr>, Inr ())"
    by (rule foreign_venue_acknowledged_unobserved [where bar = "stream_bar 1 ''b''" and anchor = "''b''"])
      (use inv venue in \<open>simp_all add: sample_envelope_def sample_service_sound initial_fields prepared_anchor_def
         restored_prefix_def sample_environment_def\<close>)
  then show ?thesis by (simp add: foreign_state_def append_bar_def initial_fields sample_envelope_def)
qed

end
