(* ===== verification/Segments.thy ===== *)
theory Segments
  imports Models Allocation Timeframes Configs
begin

section \<open>What the sleeves share\<close>

text \<open>
  Every sleeve splits its frames into gap-free runs (\<open>_segments\<close>, the same loop in each module), computes features
  along a run and decides row by row. The loop is modelled once with the length of a frame as an argument. The
  locales state when such a generator is causal, and prove it for the whole generator: minutes that arrive later
  change nothing it has already emitted.
\<close>

subsection \<open>Gap-free runs\<close>

definition row_aligned :: "int \<Rightarrow> candle \<Rightarrow> bool" where
  "row_aligned sz row \<longleftrightarrow> c_open_time_ms row mod sz = 0 \<and> c_close_time_ms row = c_open_time_ms row + sz - 1"

text \<open>One row of the loop; the state is the finished segments and the current one.\<close>

definition segment_step :: "int \<Rightarrow> candle list list \<times> candle list \<Rightarrow> candle \<Rightarrow> candle list list \<times> candle list" where
  "segment_step sz = (\<lambda>(result, current) row.
     let aligned = row_aligned sz row;
         contiguous = (current = [] \<or> c_open_time_ms row = c_open_time_ms (last current) + sz);
         (result, current) =
           (if \<not> aligned \<or> \<not> contiguous
            then (if current \<noteq> [] then result @ [current] else result, []) else (result, current))
     in (result, if aligned then current @ [row] else current))"

definition close_segment :: "candle list list \<times> candle list \<Rightarrow> candle list list" where
  "close_segment = (\<lambda>(result, current). if current \<noteq> [] then result @ [current] else result)"

definition segments :: "int \<Rightarrow> candle list \<Rightarrow> candle list list" where
  "segments sz rows = close_segment (foldl (segment_step sz) ([], []) rows)"

text \<open>What a segment is.\<close>

definition gap_free :: "int \<Rightarrow> candle list \<Rightarrow> bool" where
  "gap_free sz rows \<longleftrightarrow> list_all (row_aligned sz) rows \<and>
     successively (\<lambda>a b. c_open_time_ms b = c_open_time_ms a + sz) rows"

lemma gap_free_Nil [simp]: "gap_free sz []"
  by (simp add: gap_free_def)

lemma gap_free_snoc:
  "gap_free sz rows \<Longrightarrow> row_aligned sz row \<Longrightarrow> rows = [] \<or> c_open_time_ms row = c_open_time_ms (last rows) + sz \<Longrightarrow>
     gap_free sz (rows @ [row])"
  by (auto simp: gap_free_def successively_append_iff)

lemma segment_loop:
  assumes "foldl (segment_step sz) ([], []) rows = (result, current)"
  shows "concat result @ current = filter (row_aligned sz) rows \<and> list_all (\<lambda>s. s \<noteq> [] \<and> gap_free sz s) result \<and>
    gap_free sz current"
  using assms
proof (induction rows arbitrary: result current rule: rev_induct)
  case (snoc row rows)
  obtain closed current0 where before: "foldl (segment_step sz) ([], []) rows = (closed, current0)" by fastforce
  from snoc.IH [OF before] have IH: "concat closed @ current0 = filter (row_aligned sz) rows"
    "list_all (\<lambda>s. s \<noteq> [] \<and> gap_free sz s) closed" "gap_free sz current0" by blast+
  from snoc.prems have step: "segment_step sz (closed, current0) row = (result, current)" by (simp add: before)
  show ?case
    using step IH gap_free_snoc [of sz current0 row] gap_free_snoc [of sz "[]" row]
    by (auto simp: segment_step_def Let_def split: if_splits)
qed simp

lemma segments_facts:
  shows "concat (segments sz rows) = filter (row_aligned sz) rows"
    and "seg \<in> set (segments sz rows) \<Longrightarrow> seg \<noteq> [] \<and> gap_free sz seg \<and> set seg \<subseteq> set rows \<and> length seg \<le> length rows"
proof -
  obtain closed current where l: "foldl (segment_step sz) ([], []) rows = (closed, current)" by fastforce
  note loop = segment_loop [OF l]
  show whole: "concat (segments sz rows) = filter (row_aligned sz) rows"
    using loop by (auto simp: segments_def close_segment_def l)
  assume seg: "seg \<in> set (segments sz rows)"
  then have "set seg \<subseteq> set (concat (segments sz rows))" by auto
  moreover have "length seg \<le> length (concat (segments sz rows))"
  proof -
    from seg obtain as bs where "segments sz rows = as @ seg # bs" by (meson split_list)
    then show ?thesis by simp
  qed
  moreover have "length (filter (row_aligned sz) rows) \<le> length rows" by (rule length_filter_le)
  moreover have "seg \<noteq> [] \<and> gap_free sz seg"
    using seg loop by (auto simp: segments_def close_segment_def l list_all_iff split: if_splits)
  ultimately show "seg \<noteq> [] \<and> gap_free sz seg \<and> set seg \<subseteq> set rows \<and> length seg \<le> length rows"
    unfolding whole by (auto intro: le_trans)
qed

text \<open>Later rows extend the last segment and add further ones.\<close>

lemma segment_step_continue:
  "close_segment (foldl (segment_step sz) (result, current) rows) =
     result @ close_segment (foldl (segment_step sz) ([], current) rows)"
proof (induction rows arbitrary: result current)
  case (Cons row rows)
  obtain new kept where step: "segment_step sz ([], current) row = (new, kept)" by fastforce
  then have "segment_step sz (result, current) row = (result @ new, kept)"
    by (auto simp: segment_step_def Let_def split: if_splits)
  then show ?case using step Cons.IH [of "result @ new" kept] Cons.IH [of new kept] by simp
qed (simp add: close_segment_def)

lemma segment_step_open:
  "current \<noteq> [] \<Longrightarrow> segment_step sz ([], current) row =
     (if row_aligned sz row \<and> c_open_time_ms row = c_open_time_ms (last current) + sz then ([], current @ [row])
      else ([current], if row_aligned sz row then [row] else []))"
  by (simp add: segment_step_def Let_def)

lemma segment_open_continues:
  assumes "current \<noteq> []"
  shows "\<exists>later rest. close_segment (foldl (segment_step sz) ([], current) rows) = (current @ later) # rest"
  using assms
proof (induction rows arbitrary: current)
  case Nil
  then show ?case by (auto simp: close_segment_def intro: exI [of _ "[]"])
next
  case (Cons row rows)
  show ?case
  proof (cases "row_aligned sz row \<and> c_open_time_ms row = c_open_time_ms (last current) + sz")
    case True
    then have "segment_step sz ([], current) row = ([], current @ [row])" by (simp add: segment_step_open [OF Cons.prems])
    with Cons.IH [of "current @ [row]"] show ?thesis by auto
  next
    case False
    then have "segment_step sz ([], current) row = ([current], if row_aligned sz row then [row] else [])"
      by (simp only: segment_step_open [OF Cons.prems] if_False)
    then show ?thesis using segment_step_continue [of sz "[current]" _ rows]
      by (auto intro: exI [of _ "[]"])
  qed
qed

lemma segments_append:
  "\<exists>closed. segments sz rows = closed \<and> (\<exists>rest. segments sz (rows @ later) = closed @ rest) \<or>
     (\<exists>closed current ext rest. segments sz rows = closed @ [current] \<and> segments sz (rows @ later) = closed @ (current @ ext) # rest)"
proof -
  obtain closed current where l: "foldl (segment_step sz) ([], []) rows = (closed, current)" by fastforce
  have both: "segments sz rows = close_segment (closed, current)"
    "segments sz (rows @ later) = closed @ close_segment (foldl (segment_step sz) ([], current) later)"
    using segment_step_continue [of sz closed current later] by (simp_all add: segments_def l)
  show ?thesis
  proof (cases "current = []")
    case True
    then show ?thesis using both by (auto simp: close_segment_def)
  next
    case False
    with segment_open_continues [OF this] both show ?thesis by (fastforce simp: close_segment_def)
  qed
qed

text \<open>Times and frames of a run of minutes without gaps.\<close>

lemma gap_free_strict: "gap_free sz rows \<Longrightarrow> 0 < sz \<Longrightarrow> sorted_wrt (\<lambda>a b. c_open_time_ms a < c_open_time_ms b) rows"
  unfolding successively_sorted_less [symmetric] by (auto simp: gap_free_def elim: successively_mono)

lemma gap_free_canonical:
  assumes "gap_free sz rows" "0 < sz" "canonical_candles rows tf = Inr ordered"
  shows "ordered = rows"
proof -
  have "successively (\<lambda>a b. c_open_time_ms a < c_open_time_ms b) rows"
    using assms(1,2) by (auto simp: gap_free_def elim: successively_mono)
  then have "sorted_wrt (\<lambda>a b. c_open_time_ms a < c_open_time_ms b) rows" by (simp add: successively_sorted_less)
  then have "sorted_wrt (\<lambda>a b. candle_key a < candle_key b) rows"
    by (rule sorted_wrt_mono_rel [rotated]) (simp add: candle_key_def)
  then have "sort_key candle_key rows = rows" by (rule sort_key_eqI [OF refl])
  with assms(3) show ?thesis by (simp add: canonical_candles_Inr_iff)
qed

lemma gap_free_open:
  "gap_free sz rows \<Longrightarrow> i < length rows \<Longrightarrow> c_open_time_ms (rows ! i) = c_open_time_ms (rows ! 0) + int i * sz"
proof (induction i)
  case (Suc i)
  then have "c_open_time_ms (rows ! Suc i) = c_open_time_ms (rows ! i) + sz"
    by (simp add: gap_free_def successively_conv_nth)
  with Suc show ?case by (simp add: algebra_simps)
qed simp

lemma gap_free_row:
  assumes rows: "gap_free sz rows" "0 < sz" and ab: "a \<in> set rows" "b \<in> set rows"
    and t: "c_open_time_ms a \<le> t" "t \<le> c_open_time_ms b" "t mod sz = 0"
  shows "\<exists>i < length rows. c_open_time_ms (rows ! i) = t"
proof -
  from ab obtain i j where i: "i < length rows" "a = rows ! i" and j: "j < length rows" "b = rows ! j" by (metis in_set_conv_nth)
  let ?o = "c_open_time_ms (rows ! 0)"
  have o: "c_open_time_ms a = ?o + int i * sz" "c_open_time_ms b = ?o + int j * sz"
    using gap_free_open [OF rows(1)] i j by simp_all
  have "row_aligned sz a" using rows(1) ab by (simp add: gap_free_def list_all_iff)
  then have "sz dvd c_open_time_ms a" by (simp add: row_aligned_def mod_eq_0_iff_dvd)
  then have "sz dvd t - c_open_time_ms a" using t(3) by (simp add: mod_eq_0_iff_dvd)
  then obtain d where d: "t = c_open_time_ms a + d * sz" by (auto simp: dvd_def algebra_simps)
  with t(1) rows(2) have "0 \<le> d" by (simp add: zero_le_mult_iff)
  have "(int i + d) * sz \<le> int j * sz" using d t(2) o by (simp add: algebra_simps)
  then have "int i + d \<le> int j" using rows(2) by simp
  then have "i + nat d < length rows" using \<open>0 \<le> d\<close> j(1) by linarith
  with gap_free_open [OF rows(1) this] show ?thesis
    using d o(1) \<open>0 \<le> d\<close> by (intro exI [of _ "i + nat d"]) (simp add: algebra_simps)
qed

lemma gap_free_bucket:
  assumes rows: "gap_free 60000 rows" and a: "a + m \<le> length rows" "0 < m"
    and k: "k = c_open_time_ms (rows ! a)" "k mod (60000 * int m) = 0"
  shows "bucket_rows (60000 * int m) rows k = take m (drop a rows)"
proof -
  let ?in = "\<lambda>c. k \<le> c_open_time_ms c \<and> c_open_time_ms c < k + 60000 * int m"
  have at: "c_open_time_ms (rows ! i) = k + (int i - int a) * 60000" if "i < length rows" for i
    using gap_free_open [OF rows that] gap_free_open [OF rows, of a] a k(1) by (simp add: algebra_simps)
  have before: "filter ?in (take a rows) = []"
    by (auto simp: filter_empty_conv in_set_conv_nth at)
  have inside: "filter ?in (take m (drop a rows)) = take m (drop a rows)"
    using a by (intro filter_True) (auto simp: in_set_conv_nth at)
  have after: "filter ?in (drop (a + m) rows) = []"
    by (auto simp: filter_empty_conv in_set_conv_nth at)
  have "rows = take a rows @ take m (drop a rows) @ drop (a + m) rows"
    by (metis append_take_drop_id drop_drop add.commute)
  from arg_cong [OF this, of "filter ?in"] have "filter ?in rows = take m (drop a rows)"
    unfolding filter_append before inside after by simp
  then show ?thesis using bucket_rows_range [OF _ k(2)] a(2) by simp
qed

lemma complete_frame_emitted:
  assumes agg: "aggregate rows tf = Inr frames" and sz: "timeframe_ms tf = Some (60000 * int m)"
    and rows: "gap_free 60000 rows" and a: "a + m \<le> length rows" "0 < m" "c_open_time_ms (rows ! a) mod (60000 * int m) = 0"
  shows "\<exists>f \<in> set frames. c_open_time_ms f = c_open_time_ms (rows ! a) \<and>
    c_close_time_ms f = c_open_time_ms (rows ! a) + 60000 * int m - 1"
proof -
  let ?k = "c_open_time_ms (rows ! a)" and ?b = "take m (drop a rows)"
  have bucket: "bucket_rows (60000 * int m) rows ?k = ?b" using gap_free_bucket [OF rows a(1,2) refl a(3)] .
  have at: "c_open_time_ms (rows ! Suc i) - c_open_time_ms (rows ! i) = 60000" if "Suc i < length rows" for i
    using rows that by (simp add: gap_free_def successively_conv_nth)
  have full: "\<not> bucket_skipped m ?b"
    using a by (auto simp: bucket_skipped_iff successively_conv_nth at)
  have ne: "?b \<noteq> []" using a by auto
  have keyed: "?k \<in> set (bucket_keys (60000 * int m) rows)"
  proof -
    have "hd ?b \<in> set (bucket_rows (60000 * int m) rows ?k)" unfolding bucket using ne by (rule hd_in_set)
    then show ?thesis by (auto simp: bucket_rows_def bucket_keys_def image_iff) metis
  qed
  from agg sz gap_free_canonical [OF rows] have "extend_all (emitted tf (60000 * int m) rows) (bucket_keys (60000 * int m) rows) = Inr frames"
    by (elim aggregate_InrE) auto
  from extend_all_part [OF this keyed] obtain zs where zs: "emitted tf (60000 * int m) rows ?k = Inr zs" "set zs \<subseteq> set frames" by blast
  obtain x xs where "?b = x # xs" using ne by (cases ?b) auto
  with zs(1) full bucket have "zs = [merged_candle tf (60000 * int m) ?k x xs]"
    by (auto simp: emitted_def emit_bucket_def rmap_Inr_iff dest!: make_candle_Inr)
  with zs(2) show ?thesis
    by (intro bexI [of _ "merged_candle tf (60000 * int m) ?k x xs"]) (simp_all add: merged_candle_def)
qed


subsection \<open>Causal generators\<close>

text \<open>
  A generator of one segment is causal when its outputs on a prefix of the segment are a prefix of its outputs on
  the whole. Then the generator over all segments, and over the minutes the frames are aggregated from, is causal too.
\<close>

locale causal_run =
  fixes sz :: int and generate_segment :: "candle list \<Rightarrow> 'a list result"
  assumes run_prefix: "gap_free sz (rows @ later) \<Longrightarrow> generate_segment (rows @ later) = Inr zs \<Longrightarrow>
      \<exists>as bs. generate_segment rows = Inr as \<and> zs = as @ bs"
    and on_empty: "generate_segment [] = Inr []"
begin

lemma rows_prefix:
  assumes "extend_all generate_segment (segments sz (rows @ later)) = Inr zs"
  shows "\<exists>as bs. extend_all generate_segment (segments sz rows) = Inr as \<and> zs = as @ bs"
proof -
  from segments_append [of sz rows later] show ?thesis
  proof (elim exE conjE disjE)
    fix closed rest assume "segments sz rows = closed" "segments sz (rows @ later) = closed @ rest"
    with assms show ?thesis by (auto simp: extend_all_append rbind_Inr_iff rmap_Inr_iff)
  next
    fix closed current ext rest
    assume s: "segments sz rows = closed @ [current]" "segments sz (rows @ later) = closed @ (current @ ext) # rest"
    with assms obtain xs ys ws where "extend_all generate_segment closed = Inr xs" "zs = xs @ ys @ ws"
      and y: "generate_segment (current @ ext) = Inr ys"
      by (auto simp: extend_all_append extend_all_Cons rbind_Inr_iff rmap_Inr_iff)
    moreover have "gap_free sz (current @ ext)" using segments_facts(2) [of "current @ ext" sz "rows @ later"] s(2) by simp
    ultimately show ?thesis using run_prefix [OF _ y] s(1)
      by (auto simp: extend_all_append extend_all_Cons rbind_Inr_iff rmap_Inr_iff)
  qed
qed

lemma no_lookahead:
  assumes order: "canonical_candles (xs @ ys) (Some ''1m'') = Inr (xs @ ys)"
    and run: "rbind (aggregate (xs @ ys) tf) (\<lambda>rows. extend_all generate_segment (segments sz rows)) = Inr zs"
  shows "\<exists>as bs. rbind (aggregate xs tf) (\<lambda>rows. extend_all generate_segment (segments sz rows)) = Inr as \<and> zs = as @ bs"
proof -
  from run obtain rows where rows: "aggregate (xs @ ys) tf = Inr rows"
    "extend_all generate_segment (segments sz rows) = Inr zs" by (auto simp: rbind_Inr_iff)
  from aggregate_prefix [OF order rows(1)] obtain early later where "aggregate xs tf = Inr early" "rows = early @ later"
    by blast
  with rows(2) rows_prefix [of early later zs] show ?thesis by auto
qed

text \<open>The same for the whole generator, which orders its minutes first.\<close>

lemma minutes_prefix:
  assumes order: "canonical_candles (xs @ ys) (Some ''1m'') = Inr (xs @ ys)"
    and run: "rbind (canonical_candles (xs @ ys) (Some ''1m'')) (\<lambda>ordered.
      rbind (aggregate ordered tf) (\<lambda>rows. extend_all generate_segment (segments sz rows))) = Inr zs"
  shows "\<exists>as bs. rbind (canonical_candles xs (Some ''1m'')) (\<lambda>ordered.
      rbind (aggregate ordered tf) (\<lambda>rows. extend_all generate_segment (segments sz rows))) = Inr as \<and> zs = as @ bs"
  using no_lookahead [OF order, of tf zs] run order canonical_prefix [OF order] by simp

end

text \<open>Most generators are causal whatever the rows.\<close>

locale causal_segment =
  fixes sz :: int and generate_segment :: "candle list \<Rightarrow> 'a list result"
  assumes segment_prefix: "generate_segment (rows @ later) = Inr zs \<Longrightarrow>
      \<exists>as bs. generate_segment rows = Inr as \<and> zs = as @ bs"
    and segment_empty: "generate_segment [] = Inr []"
begin

sublocale causal_run sz generate_segment
proof
  show "\<exists>as bs. generate_segment rows = Inr as \<and> zs = as @ bs"
    if "gap_free sz (rows @ later)" "generate_segment (rows @ later) = Inr zs" for rows later zs
    using that(2) by (rule segment_prefix)
  show "generate_segment [] = Inr []" by (rule segment_empty)
qed

end

text \<open>
  A generator that computes features along the segment and decides at every row from the features and the rows up to
  it: it is causal when the features are and when a decision does not depend on later rows.
\<close>

locale row_generator =
  fixes sz :: int and features :: "candle list \<Rightarrow> 'f list result"
    and decide :: "candle list \<Rightarrow> 'f list \<Rightarrow> nat \<Rightarrow> 'a list result" and start :: nat
  assumes features_prefix: "features (rows @ later) = Inr fs \<Longrightarrow>
      \<exists>as bs. features rows = Inr as \<and> fs = as @ bs \<and> length as = length rows"
    and decide_local: "i < length rows \<Longrightarrow> length as = length rows \<Longrightarrow> decide (rows @ later) (as @ bs) i = decide rows as i"
    and features_nothing: "features [] = Inr []"
begin

lemma decisions_prefix:
  assumes "rbind (features (rows @ later)) (\<lambda>fs. extend_all (decide (rows @ later) fs) [start..<length (rows @ later)]) = Inr zs"
  shows "\<exists>as bs. rbind (features rows) (\<lambda>fs. extend_all (decide rows fs) [start..<length rows]) = Inr as \<and> zs = as @ bs"
proof -
  from assms obtain fs where fs: "features (rows @ later) = Inr fs"
    and run: "extend_all (decide (rows @ later) fs) [start..<length (rows @ later)] = Inr zs" by (auto simp: rbind_Inr_iff)
  from features_prefix [OF fs] obtain as bs where f: "features rows = Inr as" "fs = as @ bs" "length as = length rows" by blast
  have split: "[start..<length (rows @ later)] =
      [start..<length rows] @ [max start (length rows)..<length (rows @ later)]"
  proof (cases "start \<le> length rows")
    case True
    then show ?thesis using upt_add_eq_append [of start "length rows" "length later"] by (simp add: max_def)
  qed (simp add: max_def)
  have "extend_all (decide (rows @ later) fs) [start..<length rows] = extend_all (decide rows as) [start..<length rows]"
    by (rule extend_all_cong) (simp add: f(2) decide_local [OF _ f(3)])
  with run show ?thesis unfolding split by (auto simp: extend_all_append rbind_Inr_iff rmap_Inr_iff f(1))
qed

sublocale causal_segment sz "\<lambda>rows. rbind (features rows) (\<lambda>fs. extend_all (decide rows fs) [start..<length rows])"
proof
  show "\<exists>as bs. rbind (features rows) (\<lambda>fs. extend_all (decide rows fs) [start..<length rows]) = Inr as \<and> zs = as @ bs"
    if "rbind (features (rows @ later)) (\<lambda>fs. extend_all (decide (rows @ later) fs) [start..<length (rows @ later)]) = Inr zs"
    for rows later zs
    using that by (rule decisions_prefix)
  show "rbind (features []) (\<lambda>fs. extend_all (decide [] fs) [start..<length ([] :: candle list)]) = Inr []"
    by (simp add: features_nothing)
qed

end

end
