(* ===== verification/Features.thy ===== *)
theory Features
  imports Segments
begin

section \<open>What the sleeves measure along a segment\<close>

text \<open>
  The helpers that several sleeve modules repeat: true ranges and Wilder's average, the mean of a window of closes,
  the return-to-variation score, the text of a finite number. The logarithm is the one of the C library: it is an
  argument, and Python adds the domain error.
\<close>

subsection \<open>Square root and logarithm\<close>

text \<open>
  A correctly rounded root: a root of more than sixty bits is found bit by bit, and a bit below it stands for what is
  left, so that rounding once gives the double next to the exact root.
\<close>

definition sqrt_pos :: "rat \<Rightarrow> pyfloat" where
  "sqrt_pos q =
     (let k = nat (max 0 (60 - ilog2 q div 2));
          n = \<lfloor>q * 4 ^ k\<rfloor>;
          m = root_bits 2 n (nat (bit_size n)) 0
      in if of_int (m * m) = q * 4 ^ k then rnd (of_int m / 2 ^ k) else rnd (of_int (2 * m + 1) / 2 ^ (k + 1)))"

fun py_sqrt :: "pyfloat \<Rightarrow> pyfloat result" where
  "py_sqrt (Num q) =
     (if q < 0 then Inl (ValueError ''math domain error'') else if q = 0 then Inr fzero else Inr (sqrt_pos q))"
| "py_sqrt NegInf = Inl (ValueError ''math domain error'')"
| "py_sqrt x = Inr x"

text \<open>\<open>math.log\<close> over the C library's \<open>log\<close>.\<close>

definition py_log :: "(pyfloat \<Rightarrow> pyfloat) \<Rightarrow> pyfloat \<Rightarrow> pyfloat result" where
  "py_log c_log x = (if fle x fzero then Inl (ValueError ''math domain error'') else Inr (c_log x))"

lemma root_bits_spec:
  assumes "0 \<le> x" "x ^ 2 \<le> n" "n < (x + 2 ^ b) ^ 2"
  shows "x \<le> root_bits 2 n b x \<and> (root_bits 2 n b x) ^ 2 \<le> n \<and> n < (root_bits 2 n b x + 1) ^ 2"
  using assms
proof (induction b arbitrary: x)
  case (Suc b)
  show ?case
  proof (cases "(x + 2 ^ b) ^ 2 \<le> n")
    case True
    have "n < (x + 2 ^ b + 2 ^ b) ^ 2" using Suc.prems(3) by (simp add: algebra_simps)
    with Suc.IH [of "x + 2 ^ b"] Suc.prems(1) True
    have "x + 2 ^ b \<le> root_bits 2 n b (x + 2 ^ b)" "(root_bits 2 n b (x + 2 ^ b)) ^ 2 \<le> n"
      "n < (root_bits 2 n b (x + 2 ^ b) + 1) ^ 2" by simp_all
    moreover have "(0 :: int) \<le> 2 ^ b" by simp
    ultimately have "x \<le> root_bits 2 n b (x + 2 ^ b)" by linarith
    then show ?thesis using True \<open>(root_bits 2 n b (x + 2 ^ b)) ^ 2 \<le> n\<close> \<open>n < (root_bits 2 n b (x + 2 ^ b) + 1) ^ 2\<close>
      by simp
  next
    case False
    with Suc.IH [of x] Suc.prems(1,2) show ?thesis by simp
  qed
qed simp

text \<open>The root the definition rounds is the integer part of the scaled root.\<close>

lemma sqrt_pos_root:
  assumes "0 < n" "m = root_bits 2 n (nat (bit_size n)) 0"
  shows "0 \<le> m \<and> m * m \<le> n \<and> n < (m + 1) * (m + 1)"
proof -
  have "rat_of_int n < 2 powi bit_size n" "0 < bit_size n" using bit_size_bounds [of n] assms(1) by auto
  then have "rat_of_int n < rat_of_int (2 ^ nat (bit_size n))" by (simp add: power_int_def)
  then have "n < 2 ^ nat (bit_size n)" by (simp only: of_int_less_iff)
  also have "(2 :: int) ^ nat (bit_size n) \<le> (0 + 2 ^ nat (bit_size n)) ^ 2"
    by (simp add: power2_eq_square)
  finally have "n < (0 + 2 ^ nat (bit_size n)) ^ 2" .
  then show ?thesis using root_bits_spec [of 0 n "nat (bit_size n)"] assms by (simp add: power2_eq_square)
qed

lemma py_sqrt_nonneg: "py_sqrt x = Inr y \<Longrightarrow> x \<noteq> NaN \<Longrightarrow> x \<noteq> NegZero \<Longrightarrow> fle fzero y"
proof (induction x rule: py_sqrt.induct)
  case (1 q)
  show ?case
  proof (cases "q = 0")
    case False
    define k where "k = nat (max 0 (60 - ilog2 q div 2))"
    define n where "n = \<lfloor>q * 4 ^ k\<rfloor>"
    define m where "m = root_bits 2 n (nat (bit_size n)) 0"
    have "0 < q" using 1 False by (simp split: if_splits)
    then have "0 \<le> n" by (simp add: n_def)
    then have "0 \<le> m" using sqrt_pos_root [of n m] by (cases "n = 0") (auto simp: m_def bit_size.simps [of 0])
    then have "fle fzero (sqrt_pos q)"
      by (simp add: sqrt_pos_def Let_def rnd_nonneg flip: k_def n_def m_def)
    then show ?thesis using 1 False by (simp split: if_splits)
  qed (use 1 in simp)
qed auto

text \<open>The root of a square that the scaled root meets is exact.\<close>

lemma sqrt_pos_exact:
  assumes r: "0 < r" and j: "r * 2 ^ nat (max 0 (60 - ilog2 (r * r) div 2)) = of_int j"
  shows "sqrt_pos (r * r) = rnd r"
proof -
  define k where "k = nat (max 0 (60 - ilog2 (r * r) div 2))"
  define m where "m = root_bits 2 (j * j) (nat (bit_size (j * j))) 0"
  have "(4 :: rat) ^ k = 2 ^ k * 2 ^ k" by (simp add: power_mult_distrib [symmetric])
  then have scaled: "r * r * 4 ^ k = of_int (j * j)" using j by (simp add: k_def [symmetric] ac_simps flip: j)
  have "0 < (of_int j :: rat)" using r j [symmetric] by simp
  then have "0 < j" by simp
  then have "0 \<le> m" "m * m \<le> j * j" "j * j < (m + 1) * (m + 1)" using sqrt_pos_root [OF _ m_def] by simp_all
  then have "m = j" using \<open>0 < j\<close>
    by (metis abs_le_square_iff abs_of_nonneg less_le_not_le mult_strict_mono nle_le order_less_imp_le power2_eq_square
        zle_add1_eq_le not_less)
  have floor: "\<lfloor>r * r * 4 ^ k\<rfloor> = j * j" unfolding scaled by (rule floor_of_int)
  have "sqrt_pos (r * r) = (if of_int (m * m) = r * r * 4 ^ k then rnd (of_int m / 2 ^ k) else rnd (of_int (2 * m + 1) / 2 ^ (k + 1)))"
    unfolding sqrt_pos_def Let_def k_def [symmetric] floor m_def [symmetric] by (rule refl)
  also have "\<dots> = rnd (of_int j / 2 ^ k)" by (simp only: \<open>m = j\<close> scaled if_True simp_thms)
  also have "of_int j / 2 ^ k = r" using j [folded k_def] by (simp add: field_simps)
  finally show ?thesis .
qed

subsection \<open>True range and Wilder's average\<close>

definition true_range :: "candle list \<Rightarrow> nat \<Rightarrow> pyfloat" where
  "true_range rows index =
     (let row = rows ! index in
      if index = 0 then fsub (c_high row) (c_low row)
      else let previous_close = c_close (rows ! (index - 1)) in
        fmax (fsub (c_high row) (c_low row))
          [fabs (fsub (c_high row) previous_close), fabs (fsub (c_low row) previous_close)])"

fun wilder_loop :: "int \<Rightarrow> pyfloat \<Rightarrow> pyfloat list \<Rightarrow> pyfloat list result" where
  "wilder_loop period atr [] = Inr []"
| "wilder_loop period atr (tr # ranges) =
     rbind (py_div (fadd (fmul atr (float_of_int (period - 1))) tr) (float_of_int period)) (\<lambda>atr.
       rmap ((#) atr) (wilder_loop period atr ranges))"

text \<open>The average from the \<open>period\<close>-th row on; \<open>add_up\<close> sums the first ranges (\<open>math.fsum\<close> or \<open>sum\<close>).\<close>

definition wilder_atr ::
  "(pyfloat list \<Rightarrow> pyfloat result) \<Rightarrow> (candle list \<Rightarrow> nat \<Rightarrow> pyfloat) \<Rightarrow> candle list \<Rightarrow> int \<Rightarrow> pyfloat list result" where
  "wilder_atr add_up tr rows period =
     (let first = nat (period - 1); ranges = map (tr rows) [0..<length rows] in
      if length rows \<le> first then Inr (replicate (length rows) NaN)
      else rbind (add_up (take (Suc first) ranges)) (\<lambda>sum.
           rbind (py_div sum (float_of_int period)) (\<lambda>atr.
             rmap (\<lambda>rest. replicate first NaN @ atr # rest) (wilder_loop period atr (drop (Suc first) ranges)))))"

lemma length_wilder_loop: "wilder_loop period atr ranges = Inr vs \<Longrightarrow> length vs = length ranges"
  by (induction ranges arbitrary: atr vs) (auto simp: rbind_Inr_iff rmap_Inr_iff)

lemma wilder_loop_append:
  "wilder_loop period atr (ranges @ later) = Inr vs \<Longrightarrow>
     \<exists>as bs. wilder_loop period atr ranges = Inr as \<and> vs = as @ bs"
proof (induction ranges arbitrary: atr vs)
  case (Cons tr ranges)
  from Cons.prems obtain a ws where a: "py_div (fadd (fmul atr (float_of_int (period - 1))) tr) (float_of_int period) = Inr a"
    and ws: "wilder_loop period a (ranges @ later) = Inr ws" "vs = a # ws"
    by (auto simp: rbind_Inr_iff rmap_Inr_iff)
  from Cons.IH [OF ws(1)] obtain as bs where "wilder_loop period a ranges = Inr as" "ws = as @ bs" by blast
  with a ws(2) show ?case by simp
qed simp

lemma true_range_append: "i < length rows \<Longrightarrow> true_range (rows @ later) i = true_range rows i"
  by (cases "i = 0") (auto simp: true_range_def Let_def nth_append)

lemma map_upt_append:
  assumes "\<And>i. i < length rows \<Longrightarrow> f (rows @ later) i = f rows i"
  shows "\<exists>more. map (f (rows @ later)) [0..<length (rows @ later)] = map (f rows) [0..<length rows] @ more"
proof -
  have "[0..<length (rows @ later)] = [0..<length rows] @ [length rows..<length (rows @ later)]"
    using upt_add_eq_append [of 0 "length rows" "length later"] by simp
  then have "map (f (rows @ later)) [0..<length (rows @ later)] =
      map (f (rows @ later)) [0..<length rows] @ map (f (rows @ later)) [length rows..<length (rows @ later)]" by simp
  moreover have "map (f (rows @ later)) [0..<length rows] = map (f rows) [0..<length rows]"
    using assms by simp
  ultimately show ?thesis by metis
qed

text \<open>The average is causal: later rows do not change it.\<close>

lemma wilder_atr_prefix:
  assumes local: "\<And>i. i < length rows \<Longrightarrow> tr (rows @ later) i = tr rows i"
    and atr: "wilder_atr add_up tr (rows @ later) period = Inr vs"
  shows "\<exists>as bs. wilder_atr add_up tr rows period = Inr as \<and> vs = as @ bs \<and> length as = length rows"
proof -
  define first where "first = nat (period - 1)"
  note def = wilder_atr_def [of add_up tr _ period, folded first_def, unfolded Let_def]
  define ranges where "ranges = map (tr rows) [0..<length rows]"
  have len: "length ranges = length rows" by (simp add: ranges_def)
  obtain more where more: "map (tr (rows @ later)) [0..<length (rows @ later)] = ranges @ more"
    using map_upt_append [of rows tr later] local unfolding ranges_def by blast
  note atr = atr [unfolded def more]
  consider "length (rows @ later) \<le> first" | "length rows \<le> first" "first < length (rows @ later)" | "first < length rows"
    by (meson not_le)
  then show ?thesis
  proof cases
    case 1
    with atr show ?thesis by (auto simp: def replicate_add)
  next
    case 2
    then have early: "replicate first NaN = replicate (length rows) NaN @ replicate (first - length rows) NaN"
      by (simp flip: replicate_add)
    from atr 2 obtain tail where "vs = replicate first NaN @ tail"
      by (auto simp: rbind_Inr_iff rmap_Inr_iff)
    with 2 show ?thesis unfolding early by (simp add: def)
  next
    case 3
    then have take: "take (Suc first) (ranges @ more) = take (Suc first) ranges"
      "drop (Suc first) (ranges @ more) = drop (Suc first) ranges @ more" using len by simp_all
    from atr 3 obtain sum atr ws where s: "add_up (take (Suc first) ranges) = Inr sum"
      "py_div sum (float_of_int period) = Inr atr"
      and ws: "wilder_loop period atr (drop (Suc first) ranges @ more) = Inr ws"
      and vs: "vs = replicate first NaN @ atr # ws"
      unfolding take by (auto simp: rbind_Inr_iff rmap_Inr_iff)
    from wilder_loop_append [OF ws] obtain as bs where as: "wilder_loop period atr (drop (Suc first) ranges) = Inr as"
      "ws = as @ bs" by blast
    show ?thesis using 3 s as vs length_wilder_loop [OF as(1)] len by (simp add: def ranges_def)
  qed
qed

lemma wilder_atr_Nil [simp]: "wilder_atr add_up tr [] period = Inr []"
  by (simp add: wilder_atr_def)

lemma length_wilder_atr: "wilder_atr add_up tr rows period = Inr vs \<Longrightarrow> length vs = length rows"
  using wilder_atr_prefix [of rows tr "[]" add_up period vs] by auto

subsection \<open>Windows of closes\<close>

text \<open>\<open>rows[index - bars + 1 : index + 1]\<close>.\<close>

definition window :: "candle list \<Rightarrow> nat \<Rightarrow> int \<Rightarrow> candle list" where
  "window rows index bars = Prelude.slice (Suc index - nat bars) (Suc index) rows"

text \<open>\<open>math.fsum(item.close for item in window) / bars\<close>.\<close>

definition close_mean :: "candle list \<Rightarrow> int \<Rightarrow> pyfloat result" where
  "close_mean rows bars = rbind (fsum (map c_close rows)) (\<lambda>total. py_div total (float_of_int bars))"

lemma slice_prefix: "j \<le> length xs \<Longrightarrow> Prelude.slice i j (xs @ ys) = Prelude.slice i j xs"
  by (simp add: Prelude.slice_def)

lemma window_prefix: "index < length rows \<Longrightarrow> window (rows @ later) index bars = window rows index bars"
  by (simp add: window_def slice_prefix)

lemma window_subset: "set (window rows index bars) \<subseteq> set rows"
  by (auto simp: window_def Prelude.slice_def dest: in_set_takeD in_set_dropD)

subsection \<open>The return-to-variation score\<close>

text \<open>The logarithmic returns of the \<open>lookback\<close> rows up to \<open>index\<close>.\<close>

definition log_returns :: "(pyfloat \<Rightarrow> pyfloat) \<Rightarrow> candle list \<Rightarrow> nat \<Rightarrow> int \<Rightarrow> pyfloat list result" where
  "log_returns c_log rows index lookback =
     traverse (\<lambda>position. rbind (py_div (c_close (rows ! position)) (c_close (rows ! (position - 1)))) (py_log c_log))
       [Suc index - nat lookback..<Suc index]"

definition trend_score :: "(pyfloat \<Rightarrow> pyfloat) \<Rightarrow> candle list \<Rightarrow> nat \<Rightarrow> int \<Rightarrow> pyfloat option result" where
  "trend_score c_log rows index lookback =
     (if int index < lookback then Inr None
      else rbind (log_returns c_log rows index lookback) (\<lambda>returns.
           rbind (fsum (map (\<lambda>r. fmul r r) returns)) (\<lambda>squared_sum.
             if \<not> is_finite squared_sum \<or> fle squared_sum fzero then Inr None
             else rbind (fsum returns) (\<lambda>total.
                  rbind (py_sqrt squared_sum) (\<lambda>root.
                  rbind (py_div total root) (\<lambda>score.
                    Inr (if is_finite score then Some score else None)))))))"

lemma log_returns_prefix:
  "index < length rows \<Longrightarrow> log_returns c_log (rows @ later) index lookback = log_returns c_log rows index lookback"
  unfolding log_returns_def by (rule traverse_cong [OF refl]) (auto simp: nth_append simp del: upt_Suc)

lemma trend_score_prefix:
  "index < length rows \<Longrightarrow> trend_score c_log (rows @ later) index lookback = trend_score c_log rows index lookback"
  by (simp add: trend_score_def log_returns_prefix)

lemma trend_score_finite: "trend_score c_log rows index lookback = Inr (Some score) \<Longrightarrow> is_finite score \<and> lookback \<le> int index"
  by (auto simp: trend_score_def rbind_Inr_iff split: if_splits)

subsection \<open>Evidence\<close>

text \<open>\<open>_number\<close> of the sleeves: canonical text of a finite value.\<close>

definition evidence_number :: "string \<Rightarrow> pyfloat \<Rightarrow> string result" where
  "evidence_number complaint v =
     (if \<not> is_finite v then Inl (ValueError complaint) else Inr (format_17g (drop_zero_sign v)))"

text \<open>\<open>math.isfinite(v) and v > 0\<close>.\<close>

definition usable :: "pyfloat \<Rightarrow> bool" where
  "usable v \<longleftrightarrow> is_finite v \<and> fless fzero v"

lemma usable_evidence [simp]: "usable v \<Longrightarrow> evidence_number complaint v = Inr (format_17g v)"
  by (cases v) (auto simp: usable_def evidence_number_def drop_zero_sign_def feq_def fle_def fless_def)

lemma usable_normalized [simp]: "usable v \<Longrightarrow> normalized_float v = v"
  by (cases v) (auto simp: usable_def normalized_float_def drop_zero_sign_def feq_def fle_def fless_def)

subsection \<open>Where a generator decides\<close>

text \<open>The rows of the segments from the \<open>start\<close>-th on, in order, each with its segment.\<close>

definition positions :: "nat \<Rightarrow> candle list list \<Rightarrow> (candle list \<times> nat) list" where
  "positions start segs = concat (map (\<lambda>seg. map (Pair seg) [start..<length seg]) segs)"

lemma extend_all_map: "extend_all f (map g xs) = extend_all (f \<circ> g) xs"
  by (simp add: extend_all_def traverse_map comp_def)

lemma extend_all_positions:
  "extend_all (\<lambda>seg. extend_all (decide seg) [start..<length seg]) segs = extend_all (\<lambda>(seg, i). decide seg i) (positions start segs)"
proof (induction segs)
  case (Cons seg segs)
  have "extend_all (\<lambda>(seg, i). decide seg i) (map (Pair seg) [start..<length seg]) = extend_all (decide seg) [start..<length seg]"
    by (simp add: extend_all_map comp_def)
  with Cons show ?case by (simp add: positions_def extend_all_Cons extend_all_append)
qed (simp add: positions_def)

lemma positions_mem: "(seg, i) \<in> set (positions start segs) \<longleftrightarrow> seg \<in> set segs \<and> start \<le> i \<and> i < length seg"
  by (force simp: positions_def)

lemma extend_all_single:
  assumes "extend_all (\<lambda>x. rmap (\<lambda>a. [a]) (g x)) xs = Inr zs"
  shows "list_all2 (\<lambda>x z. g x = Inr z) xs zs"
  using assms
  by (induction xs arbitrary: zs) (auto simp: extend_all_Cons rbind_Inr_iff rmap_Inr_iff)

end
