(* ===== verification/StepMarket.thy ===== *)
theory StepMarket
  imports Features
begin

section \<open>A market that moves from frame to frame\<close>

text \<open>
  Concrete histories for witnesses: every minute of the \<open>k\<close>-th frame of \<open>m\<close> minutes trades at the price \<open>f k\<close>. The
  frames of that length are known in closed form for every \<open>m\<close> and \<open>f\<close>, so that a generator can be evaluated on
  days of minutes by looking at a few frames.
\<close>

definition step_candle :: "string \<Rightarrow> int \<Rightarrow> int \<Rightarrow> rat \<Rightarrow> int \<Rightarrow> int \<Rightarrow> candle" where
  "step_candle tf sz opened p v t =
    \<lparr>c_symbol = ''BTCUSDT'', c_timeframe = tf, c_open_time_ms = opened, c_close_time_ms = opened + sz - 1,
     c_open = Num p, c_high = Num (p + 1), c_low = Num (p - 1), c_close = Num p, c_volume = Num (of_int v),
     c_quote_volume = Num (of_int v), c_taker_buy_volume = Num (of_int t), c_taker_buy_quote_volume = Num (of_int t)\<rparr>"

definition step_minute :: "nat \<Rightarrow> (nat \<Rightarrow> rat) \<Rightarrow> int \<Rightarrow> int \<Rightarrow> nat \<Rightarrow> candle" where
  "step_minute m f v t i = step_candle ''1m'' 60000 (60000 * int i) (f (i div m)) v t"

definition step_minutes :: "nat \<Rightarrow> (nat \<Rightarrow> rat) \<Rightarrow> int \<Rightarrow> int \<Rightarrow> nat \<Rightarrow> candle list" where
  "step_minutes m f v t n = map (step_minute m f v t) [0..<n]"

definition step_frame :: "string \<Rightarrow> nat \<Rightarrow> (nat \<Rightarrow> rat) \<Rightarrow> int \<Rightarrow> int \<Rightarrow> nat \<Rightarrow> candle" where
  "step_frame tf m f v t k =
     step_candle tf (60000 * int m) (60000 * int m * int k) (f k) (int m * v) (int m * t)"

lemma step_candle_simps [simp]:
  "c_symbol (step_candle tf sz opened p v t) = ''BTCUSDT''" "c_timeframe (step_candle tf sz opened p v t) = tf"
  "c_open_time_ms (step_candle tf sz opened p v t) = opened" "c_close_time_ms (step_candle tf sz opened p v t) = opened + sz - 1"
  "c_open (step_candle tf sz opened p v t) = Num p" "c_high (step_candle tf sz opened p v t) = Num (p + 1)"
  "c_low (step_candle tf sz opened p v t) = Num (p - 1)" "c_close (step_candle tf sz opened p v t) = Num p"
  "c_volume (step_candle tf sz opened p v t) = Num (of_int v)" "c_quote_volume (step_candle tf sz opened p v t) = Num (of_int v)"
  "c_taker_buy_volume (step_candle tf sz opened p v t) = Num (of_int t)"
  "c_taker_buy_quote_volume (step_candle tf sz opened p v t) = Num (of_int t)"
  by (simp_all add: step_candle_def)

lemma step_candle_valid:
  assumes "0 \<le> opened" "1 < sz" "1 < p" "0 \<le> t" "t \<le> v" "strip tf \<noteq> []"
  shows "make_candle (step_candle tf sz opened p v t) = Inr (step_candle tf sz opened p v t)"
  using assms by (simp add: make_candle_def validate_Inr_iff candle_prices_def candle_volumes_def fmin_Cons fmax_Cons
      strip_def is_space_def Let_def)

lemma step_canonical: "canonical_candles (step_minutes m f v t n) (Some ''1m'') = Inr (step_minutes m f v t n)"
proof -
  let ?xs = "step_minutes m f v t n"
  have "sort_key candle_key ?xs = ?xs"
    by (rule sort_key_eqI [OF refl]) (auto simp: step_minutes_def step_minute_def sorted_wrt_iff_nth_less candle_key_def)
  moreover have "successively candle_before ?xs"
    by (auto simp: step_minutes_def step_minute_def successively_conv_nth candle_before_def)
  moreover have "list_all (row_ok (c_symbol (hd ?xs)) (resolve_timeframe (Some ''1m'') (hd ?xs))) ?xs" if "?xs \<noteq> []"
    using that by (auto simp: step_minutes_def step_minute_def list_all_iff row_ok_def resolve_timeframe_def hd_map
        step_candle_def)
  ultimately show ?thesis by (simp add: canonical_candles_Inr_iff)
qed

subsection \<open>Its frames\<close>

lemma step_bucket_key: "0 < m \<Longrightarrow> bucket_key (60000 * int m) (step_minute m f v t i) = 60000 * int m * int (i div m)"
proof -
  have "60000 * int i div (60000 * int m) = int i div int m" by (rule div_mult_mult1) simp
  then show ?thesis by (simp add: bucket_key_def step_minute_def zdiv_int mult.commute)
qed

lemma step_bucket_keys:
  assumes "0 < m"
  shows "bucket_keys (60000 * int m) (step_minutes m f v t (m * n)) = map (\<lambda>k. 60000 * int m * int k) [0..<n]"
proof -
  let ?ks = "map (\<lambda>k. 60000 * int m * int k) [0..<n]"
  have "(\<lambda>i. i div m) ` {0..<m * n} = {0..<n}"
  proof
    show "(\<lambda>i. i div m) ` {0..<m * n} \<subseteq> {0..<n}" using assms by (auto simp: less_mult_imp_div_less mult.commute)
    show "{0..<n} \<subseteq> (\<lambda>i. i div m) ` {0..<m * n}"
      using assms by (intro subsetI, rule_tac x = "m * x" in image_eqI) auto
  qed
  then have "(\<lambda>k. 60000 * int m * int k) ` (\<lambda>i. i div m) ` {0..<m * n} = set ?ks" by simp
  then have "bucket_key (60000 * int m) ` set (step_minutes m f v t (m * n)) = set ?ks"
    by (simp add: step_minutes_def image_image step_bucket_key [OF assms])
  moreover have "sorted ?ks" "distinct ?ks"
    using assms by (auto simp: sorted_iff_nth_mono distinct_map inj_on_def)
  ultimately show ?thesis
    unfolding bucket_keys_def by (simp only: sorted_list_of_set.idem_if_sorted_distinct)
qed

lemma upt_around: "a \<le> b \<Longrightarrow> b \<le> n \<Longrightarrow> [0..<n] = [0..<a] @ [a..<b] @ [b..<n]"
  using upt_add_eq_append [of 0 b "n - b"] upt_add_eq_append [of 0 a "b - a"] by simp

lemma step_bucket_rows:
  assumes "0 < m" "k < n"
  shows "bucket_rows (60000 * int m) (step_minutes m f v t (m * n)) (60000 * int m * int k) =
    map (step_minute m f v t) [m * k..<m * k + m]"
proof -
  have "Suc k \<le> n" using assms(2) by simp
  then have "m * Suc k \<le> m * n" by (rule mult_le_mono2)
  then have around: "[0..<m * n] = [0..<m * k] @ [m * k..<m * k + m] @ [m * k + m..<m * n]"
    by (intro upt_around) (simp_all add: add.commute)
  have frame: "i div m = k \<longleftrightarrow> m * k \<le> i \<and> i < m * k + m" for i
    using div_nat_eqI [of m k i] dividend_less_times_div [of m i] times_div_less_eq_dividend [of m i] assms(1)
    by (auto simp: mult.commute add.commute)
  have "bucket_rows (60000 * int m) (step_minutes m f v t (m * n)) (60000 * int m * int k) =
      map (step_minute m f v t) (filter (\<lambda>i. m * k \<le> i \<and> i < m * k + m) [0..<m * n])"
    using assms(1) by (simp add: bucket_rows_def step_minutes_def filter_map comp_def step_bucket_key [OF assms(1)] frame)
  also have "filter (\<lambda>i. m * k \<le> i \<and> i < m * k + m) [0..<m * n] = [m * k..<m * k + m]"
    unfolding around by (simp add: filter_empty_conv filter_id_conv)
  finally show ?thesis .
qed

lemma sum_same_integers:
  assumes "0 \<le> a" "0 \<le> v" "a + int k * v \<le> 2 ^ 53"
  shows "foldl fadd (Num (of_int a)) (replicate k (Num (of_int v))) = Num (of_int (a + int k * v))"
  using assms
proof (induction k arbitrary: a)
  case (Suc k)
  have "0 \<le> int k * v" using Suc.prems(2) by simp
  then have "a + v \<le> 2 ^ 53" using Suc.prems(3) by (simp add: distrib_right)
  then have "fadd (Num (of_int a)) (Num (of_int v)) = Num (of_int (a + v))"
    using rnd_of_int [of "a + v"] Suc.prems by (simp add: fadd_def)
  then show ?case using Suc.IH [of "a + v"] Suc.prems by (simp add: algebra_simps)
qed simp

lemma fmax_same: "fmax x (replicate k x) = x" and fmin_same: "fmin x (replicate k x) = x"
  by (induction k) (simp_all add: fmax_Cons fmin_Cons)

text \<open>Side conditions under which the history is made of valid candles and its sums are exact.\<close>

definition step_market :: "nat \<Rightarrow> (nat \<Rightarrow> rat) \<Rightarrow> int \<Rightarrow> int \<Rightarrow> bool" where
  "step_market m f v t \<longleftrightarrow> 0 < m \<and> (\<forall>k. 1 < f k) \<and> 0 \<le> t \<and> t \<le> v \<and> int m * v \<le> 2 ^ 53"

lemma step_merge:
  assumes ok: "step_market m f v t" and tf: "strip tf \<noteq> []"
  shows "merge_rows tf (60000 * int m) (60000 * int m * int k) (map (step_minute m f v t) [m * k..<m * k + m]) =
    Inr (step_frame tf m f v t k)"
proof -
  from ok obtain l where m: "m = Suc l" by (cases m) (auto simp: step_market_def)
  have first: "step_minute m f v t (m * k) = step_candle ''1m'' 60000 (60000 * (int m * int k)) (f k) v t"
    using ok by (simp add: step_minute_def step_market_def)
  define rest where "rest = map (\<lambda>j. step_candle ''1m'' 60000 (60000 * int (Suc (m * k) + j)) (f k) v t) [0..<l]"
  have "[m * k..<m * k + m] = m * k # [Suc (m * k)..<m * k + m]" by (simp add: m upt_conv_Cons)
  moreover have "map (step_minute m f v t) [Suc (m * k)..<m * k + m] = map (step_minute m f v t) (map (\<lambda>j. Suc (m * k) + j) [0..<l])"
    by (rule nth_equalityI) (simp_all add: m del: upt_Suc)
  moreover have "Suc (m * k + j) div m = k" if "j < l" for j
    using that by (intro div_nat_eqI) (auto simp: m)
  ultimately have rows: "map (step_minute m f v t) [m * k..<m * k + m] = step_minute m f v t (m * k) # rest"
    unfolding rest_def
    by (simp add: step_minute_def [of m f v t "Suc (m * k + _)"])
  have cols: "map c_high rest = replicate l (Num (f k + 1))" "map c_low rest = replicate l (Num (f k - 1))"
    "map c_volume rest = replicate l (Num (of_int v))" "map c_quote_volume rest = replicate l (Num (of_int v))"
    "map c_taker_buy_volume rest = replicate l (Num (of_int t))"
    "map c_taker_buy_quote_volume rest = replicate l (Num (of_int t))"
    by (simp_all add: rest_def comp_def map_replicate_const)
  have "c_close (last (step_minute m f v t (m * k) # rest)) = Num (f k)" by (simp add: first rest_def last_map)
  note cols = cols this [unfolded first]
  have bounds: "0 \<le> v" "0 \<le> t" "int m * v \<le> 2 ^ 53" "int m * t \<le> 2 ^ 53"
    using ok by (auto simp: step_market_def intro: order_trans [OF mult_left_mono])
  have sums: "fsum_builtin (Num (of_int w) # replicate l (Num (of_int w))) = Num (of_int (int m * w))"
    if "0 \<le> w" "int m * w \<le> 2 ^ 53" for w
    using sum_same_integers [of 0 w m] that by (simp add: fsum_builtin_def m)
  have "merged_candle tf (60000 * int m) (60000 * int m * int k) (step_minute m f v t (m * k)) rest = step_frame tf m f v t k"
    unfolding merged_candle_def first step_frame_def step_candle_def [of tf]
    by (simp add: cols fmax_same fmin_same sums [OF bounds(1,3)] sums [OF bounds(2,4)] del: upt_Suc last.simps)
  moreover have "make_candle (step_frame tf m f v t k) = Inr (step_frame tf m f v t k)"
    unfolding step_frame_def using ok tf by (intro step_candle_valid) (auto simp: step_market_def m intro: mult_left_mono)
  ultimately show ?thesis unfolding rows by simp
qed

lemma step_aggregate:
  assumes tf: "timeframe_ms tf = Some (60000 * int m)" "tf \<noteq> ''1m''" and ok: "step_market m f v t"
  shows "aggregate (step_minutes m f v t (m * n)) tf = Inr (map (step_frame tf m f v t) [0..<n])"
proof -
  have m: "0 < m" using ok by (simp add: step_market_def)
  have named: "strip tf \<noteq> []"
    using tf by (auto simp: timeframe_ms_def timeframe_table_def strip_def is_space_def split: if_splits)
  have emit: "emitted tf (60000 * int m) (step_minutes m f v t (m * n)) (60000 * int m * int k) = Inr [step_frame tf m f v t k]"
    if "k < n" for k
    using step_merge [OF ok named, of k] step_bucket_rows [OF m that]
    by (simp add: emitted_def emit_bucket_def bucket_skipped_iff successively_conv_nth step_minute_def)
  have "aggregate (step_minutes m f v t (m * n)) tf =
      extend_all (emitted tf (60000 * int m) (step_minutes m f v t (m * n))) (map (\<lambda>k. 60000 * int m * int k) [0..<n])"
    unfolding step_bucket_keys [OF m, of f v t n, symmetric]
    by (rule aggregate_eq [OF tf step_canonical]) (auto simp: step_minutes_def step_minute_def list_all_iff is_minute_bar_def)
  also have "\<dots> = rmap concat (traverse (\<lambda>k. emitted tf (60000 * int m) (step_minutes m f v t (m * n)) (60000 * int m * int k)) [0..<n])"
    by (simp add: extend_all_def traverse_map)
  also have "traverse (\<lambda>k. emitted tf (60000 * int m) (step_minutes m f v t (m * n)) (60000 * int m * int k)) [0..<n] =
      Inr (map (\<lambda>k. [step_frame tf m f v t k]) [0..<n])"
    by (rule traverse_total) (simp add: emit)
  finally show ?thesis by (simp add: comp_def)
qed

text \<open>The frames form one segment.\<close>

lemma step_gap_free: "0 < m \<Longrightarrow> gap_free (60000 * int m) (map (step_frame tf m f v t) [0..<n])"
  by (auto simp: gap_free_def list_all_iff row_aligned_def step_frame_def successively_conv_nth algebra_simps)

lemma segments_gap_free:
  assumes "gap_free sz rows" "rows \<noteq> []"
  shows "segments sz rows = [rows]"
proof -
  have "foldl (segment_step sz) ([], []) rows = ([], rows)" using assms(1)
  proof (induction rows rule: rev_induct)
    case (snoc row rows)
    then have "gap_free sz rows" "row_aligned sz row" "rows = [] \<or> c_open_time_ms row = c_open_time_ms (last rows) + sz"
      by (auto simp: gap_free_def successively_append_iff)
    with snoc.IH show ?case by (auto simp: segment_step_def Let_def)
  qed simp
  with assms(2) show ?thesis by (simp add: segments_def close_segment_def)
qed

lemma step_segments:
  "0 < m \<Longrightarrow> 0 < n \<Longrightarrow> segments (60000 * int m) (map (step_frame tf m f v t) [0..<n]) = [map (step_frame tf m f v t) [0..<n]]"
  by (rule segments_gap_free [OF step_gap_free]) auto

lemma window_of_upt: "i < n \<Longrightarrow> window (map g [0..<n]) i bars = map g [Suc i - nat bars..<Suc i]"
  by (simp add: window_def Prelude.slice_def take_map drop_map take_upt del: upt_Suc)

lemma step_minutes_split: "a \<le> b \<Longrightarrow> step_minutes m f v t a @ drop a (step_minutes m f v t b) = step_minutes m f v t b"
proof -
  assume "a \<le> b"
  then have "step_minutes m f v t a = take a (step_minutes m f v t b)" by (simp add: step_minutes_def take_map take_upt)
  then show ?thesis by simp
qed

end
