(* ===== verification/FourHour.thy ===== *)
theory FourHour
  imports StepMarket
begin

section \<open>The four-hour SMA200 allocation (sleeves/four\_hour\_sma200.py)\<close>

text \<open>
  Long when the close of a four-hour frame is above the mean of the last closes, flat otherwise; one allocation per
  frame once the mean is defined.
\<close>

definition four_hour_ms :: int where
  "four_hour_ms = 14400000"

definition four_hour_metadata :: "four_hour_config \<Rightarrow> (string \<times> string) list" where
  "four_hour_metadata c =
    [(''config_sha256'', config_fingerprint (FourHourSma200 c)),
     (''source'', ''olanipekun_2026_where_the_edge_lives''),
     (''source_commit'', ''5acae6b7a4ff53bacb47a348233060f6a7090b24''),
     (''source_rule'', ''four_hour_close_gt_rolling_sma_next_bar''),
     (''threshold_kind'', ''moving_average_exit'')]"

definition four_hour_allocation :: "four_hour_config \<Rightarrow> candle \<Rightarrow> pyfloat \<Rightarrow> allocation_fields" where
  "four_hour_allocation c row moving_average =
     (let is_long = fless moving_average (c_close row) in
      \<lparr>a_strategy_id = ''four_hour_sma200_long_v1'', a_symbol = c_symbol row,
       a_decision_ts_ms = c_close_time_ms row, a_effective_ts_ms = c_close_time_ms row + 1,
       a_target_weight = (if is_long then fs_target_weight c else fzero),
       a_annualized_volatility = None,
       a_active_horizons = (if is_long then [fs_sma_bars c] else []),
       a_trailing_stops = (if is_long then [(fs_sma_bars c, moving_average)] else []),
       a_reason = SIGNAL, a_metadata = four_hour_metadata c\<rparr>)"

definition four_hour_row :: "four_hour_config \<Rightarrow> candle list \<Rightarrow> nat \<Rightarrow> target_allocation result" where
  "four_hour_row c rows index =
     rbind (close_mean (window rows index (fs_sma_bars c)) (fs_sma_bars c)) (\<lambda>moving_average.
       make_target_allocation (four_hour_allocation c (rows ! index) moving_average))"

definition four_hour_segment :: "four_hour_config \<Rightarrow> candle list \<Rightarrow> target_allocation list result" where
  "four_hour_segment c rows =
     extend_all (\<lambda>index. rmap (\<lambda>a. [a]) (four_hour_row c rows index)) [nat (fs_sma_bars c - 1)..<length rows]"

definition four_hour_settings :: "strategy_config option \<Rightarrow> four_hour_config result" where
  "four_hour_settings config =
     (case config of
        None \<Rightarrow> make_four_hour four_hour_default
      | Some (FourHourSma200 c) \<Rightarrow> Inr c
      | Some _ \<Rightarrow> Inl (ValueError ''config must be a FourHourSma200Config or None''))"

definition generate_four_hour_sma200_allocations ::
  "candle list \<Rightarrow> strategy_config option \<Rightarrow> target_allocation list result" where
  "generate_four_hour_sma200_allocations candles config =
     rbind (four_hour_settings config) (\<lambda>c.
     rbind (canonical_candles candles (Some ''1m'')) (\<lambda>ordered.
     rbind (aggregate ordered ''4h'') (\<lambda>four_hour.
       extend_all (four_hour_segment c) (segments four_hour_ms four_hour))))"

subsection \<open>The generator is causal\<close>

lemma four_hour_row_local: "i < length rows \<Longrightarrow> four_hour_row c (rows @ later) i = four_hour_row c rows i"
  by (simp add: four_hour_row_def nth_append window_prefix)

interpretation four_hour: row_generator four_hour_ms "\<lambda>rows. Inr (map (\<lambda>_. ()) rows)"
  "\<lambda>rows _ i. rmap (\<lambda>a. [a]) (four_hour_row c rows i)" "nat (fs_sma_bars c - 1)" for c
  by unfold_locales (auto simp: four_hour_row_local)

lemma four_hour_segment_row_generator:
  "(\<lambda>rows. rbind (Inr (map (\<lambda>_. ()) rows)) (\<lambda>_. extend_all (\<lambda>i. rmap (\<lambda>a. [a]) (four_hour_row c rows i))
      [nat (fs_sma_bars c - 1)..<length rows])) = four_hour_segment c"
  by (rule ext) (simp add: four_hour_segment_def)

lemma four_hour_run:
  "generate_four_hour_sma200_allocations candles config = Inr zs \<longleftrightarrow>
     (\<exists>c ordered frames. four_hour_settings config = Inr c \<and> canonical_candles candles (Some ''1m'') = Inr ordered \<and>
        aggregate ordered ''4h'' = Inr frames \<and> extend_all (four_hour_segment c) (segments four_hour_ms frames) = Inr zs)"
  by (auto simp: generate_four_hour_sma200_allocations_def rbind_Inr_iff)

lemma four_hour_causal:
  assumes order: "canonical_candles (xs @ ys) (Some ''1m'') = Inr (xs @ ys)"
    and run: "generate_four_hour_sma200_allocations (xs @ ys) config = Inr zs"
  shows "\<exists>as bs. generate_four_hour_sma200_allocations xs config = Inr as \<and> zs = as @ bs"
  using run four_hour.minutes_prefix [OF order, unfolded four_hour_segment_row_generator]
  by (auto simp: generate_four_hour_sma200_allocations_def rbind_Inr_iff)

text \<open>What is emitted for the \<open>i\<close>-th row of a segment.\<close>

definition four_hour_decides :: "four_hour_config \<Rightarrow> candle list \<Rightarrow> nat \<Rightarrow> target_allocation \<Rightarrow> bool" where
  "four_hour_decides c seg i a \<longleftrightarrow>
     (case close_mean (window seg i (fs_sma_bars c)) (fs_sma_bars c) of
        Inl _ \<Rightarrow> False
      | Inr moving_average \<Rightarrow>
          a_target_weight a = (if fless moving_average (c_close (seg ! i)) then fs_target_weight c else fzero) \<and>
          a_decision_ts_ms a = c_close_time_ms (seg ! i) \<and> a_effective_ts_ms a = c_close_time_ms (seg ! i) + 1 \<and>
          a_symbol a = c_symbol (seg ! i) \<and> allocation_wf a)"

lemma four_hour_row_decides:
  assumes "four_hour_row c seg i = Inr a"
  shows "four_hour_decides c seg i a"
proof -
  from assms obtain m where m: "close_mean (window seg i (fs_sma_bars c)) (fs_sma_bars c) = Inr m"
    and a: "make_target_allocation (four_hour_allocation c (seg ! i) m) = Inr a"
    by (auto simp: four_hour_row_def rbind_Inr_iff)
  from a have "allocation_wf a" by (rule make_target_allocation_wf)
  moreover from a have "a = with_allocation_id (four_hour_allocation c (seg ! i) m\<lparr>a_metadata := sort (four_hour_metadata c)\<rparr>)"
    by (simp add: make_target_allocation_def validate_Inr_iff four_hour_allocation_def Let_def)
  ultimately show ?thesis using m
    by (simp add: four_hour_decides_def with_allocation_id_def allocation_fields.extend_def four_hour_allocation_def Let_def)
qed

subsection \<open>A rise and a pause\<close>

definition sample_four_hour :: four_hour_config where
  "sample_four_hour = \<lparr>fs_sma_bars = 2, fs_target_weight = Num 1\<rparr>"

definition rise_and_pause :: "nat \<Rightarrow> rat" where
  "rise_and_pause k = (if k = 0 then 100 else if k = 1 then 110 else 106)"

lemma four_hour_accepted:
  assumes "c_symbol row = ''BTCUSDT''" "0 \<le> c_close_time_ms row" "fle fzero (fs_target_weight c)" "fle (fs_target_weight c) (Num 2)"
    "is_finite (fs_target_weight c)" "is_finite m" "fless fzero m"
  shows "\<exists>a. make_target_allocation (four_hour_allocation c row m) = Inr a"
proof -
  have "sort (four_hour_metadata c) = four_hour_metadata c"
    by (rule sorted_sort_id) (simp add: four_hour_metadata_def less_eq_prod_def)
  moreover have "\<not> fle m fzero" using assms(7) by (simp add: fless_def)
  ultimately show ?thesis using assms
    by (simp add: make_target_allocation_def validate_Inr_iff allocation_checks_def four_hour_allocation_def Let_def
        strip_def is_space_def upper_def upper_char_def four_hour_metadata_def)
qed

lemma sample_means:
  "fsum [Num 100, Num 110] = Inr (Num 210)" "py_div (Num 210) (float_of_int 2) = Inr (Num 105)"
  "fsum [Num 110, Num 106] = Inr (Num 216)" "py_div (Num 216) (float_of_int 2) = Inr (Num 108)"
  by code_simp+

lemma sample_four_hour_row:
  assumes "0 < i" "i < n" "n \<le> 3"
  shows "\<exists>a. four_hour_row sample_four_hour (map (step_frame ''4h'' 240 rise_and_pause 1 0) [0..<n]) i = Inr a"
proof -
  let ?frame = "step_frame ''4h'' 240 rise_and_pause 1 0"
  let ?mean = "Num (if i = 1 then 105 else 108)"
  from assms have i: "i = 1 \<or> i = 2" by auto
  have "window (map ?frame [0..<n]) i 2 = map ?frame [i - 1, i]"
    unfolding window_of_upt [OF assms(2)] using i by (elim disjE) (simp_all add: upt_conv_Cons numeral_2_eq_2)
  moreover have "close_mean (map ?frame [i - 1, i]) 2 = Inr ?mean"
    using i by (elim disjE) (simp_all add: close_mean_def step_frame_def rise_and_pause_def sample_means)
  ultimately have "four_hour_row sample_four_hour (map ?frame [0..<n]) i =
      make_target_allocation (four_hour_allocation sample_four_hour (?frame i) ?mean)"
    using assms by (simp add: four_hour_row_def sample_four_hour_def)
  then show ?thesis
    using four_hour_accepted [of "?frame i" sample_four_hour ?mean] by (auto simp: step_frame_def sample_four_hour_def)
qed

abbreviation sample_four_hour_minutes :: "nat \<Rightarrow> candle list" where
  "sample_four_hour_minutes n \<equiv> step_minutes 240 rise_and_pause 1 0 (240 * n)"

lemma sample_four_hour_frames:
  "aggregate (sample_four_hour_minutes n) ''4h'' = Inr (map (step_frame ''4h'' 240 rise_and_pause 1 0) [0..<n])"
  by (rule step_aggregate) (auto simp: timeframe_ms_def timeframe_table_def step_market_def rise_and_pause_def)

lemma sample_four_hour_run:
  assumes "n = 2 \<or> n = 3"
  shows "\<exists>zs. generate_four_hour_sma200_allocations (sample_four_hour_minutes n) (Some (FourHourSma200 sample_four_hour)) = Inr zs"
proof -
  let ?rows = "map (step_frame ''4h'' 240 rise_and_pause 1 0) [0..<n]"
  have "segments four_hour_ms ?rows = [?rows]"
    using assms step_segments [of 240 n] by (auto simp: four_hour_ms_def)
  moreover obtain a where "four_hour_row sample_four_hour ?rows 1 = Inr a"
    using sample_four_hour_row [of 1 n] assms by auto
  moreover obtain b where "n = 2 \<or> four_hour_row sample_four_hour ?rows 2 = Inr b"
    using sample_four_hour_row [of 2 n] assms by (cases "n = 2") auto
  moreover have "n = 2 \<and> [1..<n] = [1] \<or> n = 3 \<and> [1..<n] = [1, 2]" using assms by (auto simp: upt_conv_Cons)
  ultimately have "\<exists>zs. extend_all (four_hour_segment sample_four_hour) (segments four_hour_ms ?rows) = Inr zs"
    by (auto simp: extend_all_Cons four_hour_segment_def sample_four_hour_def rmap_def)
  then show ?thesis
    using sample_four_hour_frames [of n] step_canonical by (auto simp: four_hour_run four_hour_settings_def)
qed

subsection \<open>Properties\<close>

text \<open>
  Property C32: the published rule. There is exactly one allocation for every closed four-hour frame that ends a run
  of enough gap-free frames, in order; it targets the configured weight exactly when the frame closed above the mean
  of the last closes and is flat otherwise, and takes effect after the frame has closed.
\<close>

theorem four_hour_rule:
  assumes "generate_four_hour_sma200_allocations candles config = Inr zs"
    and "four_hour_settings config = Inr c"
  shows "\<exists>ordered frames. canonical_candles candles (Some ''1m'') = Inr ordered \<and> aggregate ordered ''4h'' = Inr frames \<and>
    list_all2 (\<lambda>(seg, i). four_hour_decides c seg i)
      (positions (nat (fs_sma_bars c - 1)) (segments four_hour_ms frames)) zs"
proof -
  from assms obtain ordered frames where o: "canonical_candles candles (Some ''1m'') = Inr ordered"
    "aggregate ordered ''4h'' = Inr frames" and g: "extend_all (four_hour_segment c) (segments four_hour_ms frames) = Inr zs"
    by (auto simp: four_hour_run)
  from g have "extend_all (\<lambda>p. rmap (\<lambda>a. [a]) (case p of (seg, i) \<Rightarrow> four_hour_row c seg i))
      (positions (nat (fs_sma_bars c - 1)) (segments four_hour_ms frames)) = Inr zs"
    by (simp add: four_hour_segment_def [abs_def] extend_all_positions split_def)
  then have "list_all2 (\<lambda>p z. (case p of (seg, i) \<Rightarrow> four_hour_row c seg i) = Inr z)
      (positions (nat (fs_sma_bars c - 1)) (segments four_hour_ms frames)) zs" by (rule extend_all_single)
  then have "list_all2 (\<lambda>(seg, i). four_hour_decides c seg i)
      (positions (nat (fs_sma_bars c - 1)) (segments four_hour_ms frames)) zs"
    by (rule list_all2_mono) (auto intro: four_hour_row_decides)
  with o show ?thesis by blast
qed

lemma sample_four_hour_positions:
  "positions 1 (segments four_hour_ms (map (step_frame ''4h'' 240 rise_and_pause 1 0) [0..<3])) =
     [(map (step_frame ''4h'' 240 rise_and_pause 1 0) [0..<3], 1), (map (step_frame ''4h'' 240 rise_and_pause 1 0) [0..<3], 2)]"
  using step_segments [of 240 3 "''4h''" rise_and_pause 1 0] by (simp add: four_hour_ms_def positions_def upt_conv_Cons numeral_2_eq_2)

theorem four_hour_rule_witness:
  "\<exists>zs. generate_four_hour_sma200_allocations (sample_four_hour_minutes 3) (Some (FourHourSma200 sample_four_hour)) = Inr zs \<and>
     list_all2 (\<lambda>(seg, i). four_hour_decides sample_four_hour seg i)
       [(map (step_frame ''4h'' 240 rise_and_pause 1 0) [0..<3], 1), (map (step_frame ''4h'' 240 rise_and_pause 1 0) [0..<3], 2)] zs"
proof -
  obtain zs where run: "generate_four_hour_sma200_allocations (sample_four_hour_minutes 3) (Some (FourHourSma200 sample_four_hour)) = Inr zs"
    using sample_four_hour_run [of 3] by auto
  have "four_hour_settings (Some (FourHourSma200 sample_four_hour)) = Inr sample_four_hour" by (simp add: four_hour_settings_def)
  from four_hour_rule [OF run this] have "list_all2 (\<lambda>(seg, i). four_hour_decides sample_four_hour seg i)
      (positions 1 (segments four_hour_ms (map (step_frame ''4h'' 240 rise_and_pause 1 0) [0..<3]))) zs"
    using step_canonical sample_four_hour_frames [of 3] by (auto simp: sample_four_hour_def)
  with run show ?thesis unfolding sample_four_hour_positions by blast
qed

text \<open>
  The four-hour rule does not look ahead: minutes that arrive after a history leave every
  allocation computed from it in place and only append new ones.
\<close>

theorem four_hour_no_lookahead:
  assumes "canonical_candles (past @ future) (Some ''1m'') = Inr (past @ future)"
    and "generate_four_hour_sma200_allocations (past @ future) config = Inr zs"
  shows "\<exists>as bs. generate_four_hour_sma200_allocations past config = Inr as \<and> zs = as @ bs"
  using assms by (rule four_hour_causal)

theorem four_hour_no_lookahead_witness:
  "\<exists>as bs. generate_four_hour_sma200_allocations (sample_four_hour_minutes 2) (Some (FourHourSma200 sample_four_hour)) = Inr as \<and>
     generate_four_hour_sma200_allocations (sample_four_hour_minutes 3) (Some (FourHourSma200 sample_four_hour)) = Inr (as @ bs)"
proof -
  let ?later = "drop (240 * 2) (sample_four_hour_minutes 3)"
  have split: "sample_four_hour_minutes 2 @ ?later = sample_four_hour_minutes 3" by (rule step_minutes_split) simp
  obtain zs where "generate_four_hour_sma200_allocations (sample_four_hour_minutes 3) (Some (FourHourSma200 sample_four_hour)) = Inr zs"
    using sample_four_hour_run [of 3] by auto
  moreover have "canonical_candles (sample_four_hour_minutes 3) (Some ''1m'') = Inr (sample_four_hour_minutes 3)"
    by (rule step_canonical)
  ultimately show ?thesis using four_hour_no_lookahead [of "sample_four_hour_minutes 2" ?later] unfolding split by blast
qed

end
