(* ===== verification/Decisions.thy ===== *)
theory Decisions
  imports Features "HOL-Library.Sublist"
begin

section \<open>The order of a sleeve's outputs\<close>

text \<open>
  A sleeve walks over the rows of its segments and emits at most one output per row. The outputs then correspond to a
  subsequence of the rows, which fixes their order and, when a row qualifies only on a grid of times, their distance.
\<close>

lemma extend_all_optional:
  assumes "extend_all f xs = Inr zs"
    and "\<And>x ys. x \<in> set xs \<Longrightarrow> f x = Inr ys \<Longrightarrow> ys = [] \<or> (\<exists>y. ys = [y] \<and> P x y)"
  shows "\<exists>ps. subseq ps xs \<and> list_all2 P ps zs"
  using assms
proof (induction xs arbitrary: zs)
  case (Cons x xs)
  from Cons.prems(1) obtain ys ws where f: "f x = Inr ys" and r: "extend_all f xs = Inr ws" and zs: "zs = ys @ ws"
    by (auto simp: extend_all_Cons rbind_Inr_iff rmap_Inr_iff)
  from Cons.IH [OF r] Cons.prems(2) obtain ps where ps: "subseq ps xs" "list_all2 P ps ws" by auto
  from Cons.prems(2) [OF _ f] have "ys = [] \<or> (\<exists>y. ys = [y] \<and> P x y)" by simp
  then show ?case
  proof
    assume "ys = []"
    with ps zs show ?thesis by auto
  next
    assume "\<exists>y. ys = [y] \<and> P x y"
    with ps zs show ?thesis by (intro exI [of _ "x # ps"]) auto
  qed
qed simp

lemma sorted_wrt_subseq: "subseq ps xs \<Longrightarrow> sorted_wrt R xs \<Longrightarrow> sorted_wrt R ps"
proof (induction rule: list_emb.induct)
  case (list_emb_Cons2 x y xs ys)
  then show ?case by (auto dest: list_emb_set)
qed auto

lemma subseq_subset: "subseq ps xs \<Longrightarrow> set ps \<subseteq> set xs"
  by (induction rule: list_emb.induct) auto

lemma output_source:
  assumes "list_all2 P ps zs" "subseq ps xs" "z \<in> set zs"
  shows "\<exists>p \<in> set xs. P p z"
proof -
  from assms(3) obtain j where j: "j < length zs" "z = zs ! j" by (auto simp: in_set_conv_nth)
  then have "P (ps ! j) z" "ps ! j \<in> set ps" using assms(1) by (auto simp: list_all2_conv_all_nth)
  then show ?thesis using subseq_subset [OF assms(2)] by blast
qed

text \<open>The row a position names.\<close>

definition row_at :: "candle list \<times> nat \<Rightarrow> candle" where
  "row_at p = fst p ! snd p"

lemma row_at_Pair [simp]: "row_at (seg, i) = seg ! i"
  by (simp add: row_at_def)

lemma positions_rows: "map row_at (positions 0 segs) = concat segs"
  by (induction segs) (simp_all add: positions_def comp_def map_nth)

lemma extend_all_segments:
  assumes "extend_all generate_segment segs = Inr zs"
    and "\<And>seg out. seg \<in> set segs \<Longrightarrow> generate_segment seg = Inr out \<Longrightarrow>
      \<exists>ps. subseq ps (map (Pair seg) [0..<length seg]) \<and> list_all2 P ps out"
  shows "\<exists>ps. subseq ps (positions 0 segs) \<and> list_all2 P ps zs"
  using assms
proof (induction segs arbitrary: zs)
  case (Cons seg segs)
  from Cons.prems(1) obtain out rest where o: "generate_segment seg = Inr out" and r: "extend_all generate_segment segs = Inr rest"
    and zs: "zs = out @ rest" by (auto simp: extend_all_Cons rbind_Inr_iff rmap_Inr_iff)
  from Cons.prems(2) [OF _ o] obtain ps where ps: "subseq ps (map (Pair seg) [0..<length seg])" "list_all2 P ps out" by auto
  from Cons.IH [OF r] Cons.prems(2) obtain qs where qs: "subseq qs (positions 0 segs)" "list_all2 P qs rest" by auto
  have "subseq (ps @ qs) (positions 0 (seg # segs))"
    using list_emb_append_mono [OF ps(1) qs(1)] by (simp add: positions_def)
  with ps(2) qs(2) show ?case unfolding zs by (intro exI [of _ "ps @ qs"]) (simp add: list_all2_appendI)
qed (auto simp: positions_def)

lemma positions_sorted:
  assumes "aggregate xs tf = Inr rows"
  shows "sorted_wrt (\<lambda>p q. c_open_time_ms (row_at p) < c_open_time_ms (row_at q)) (positions 0 (segments sz rows))"
proof -
  have "sorted_wrt (\<lambda>a b. c_open_time_ms a < c_open_time_ms b) (concat (segments sz rows))"
    using aggregate_strict [OF assms] by (simp add: segments_facts(1) sorted_wrt_filter)
  then show ?thesis by (simp add: positions_rows [symmetric] sorted_wrt_map del: positions_rows)
qed

lemma position_aligned:
  assumes "(seg, i) \<in> set (positions start (segments sz rows))"
  shows "row_aligned sz (seg ! i) \<and> seg ! i \<in> set rows \<and> gap_free sz seg \<and> i < length rows \<and> length seg \<le> length rows"
proof -
  from assms have "seg \<in> set (segments sz rows)" and i: "i < length seg" by (auto simp: positions_mem)
  with segments_facts(2) have "gap_free sz seg" "set seg \<subseteq> set rows" "length seg \<le> length rows" by blast+
  with i show ?thesis by (auto simp: gap_free_def list_all_length)
qed

lemma outputs_on_grid:
  assumes sorted: "sorted_wrt (\<lambda>p q. c_open_time_ms (row_at p) < c_open_time_ms (row_at q)) ps"
    and out: "list_all2 (\<lambda>p z. P p z \<and> key z = c_open_time_ms (row_at p) + shift \<and> c_open_time_ms (row_at p) mod d = 0) ps zs"
    and d: "0 < d"
  shows "sorted_wrt (\<lambda>a b. key a + d \<le> key b) zs"
  unfolding sorted_wrt_iff_nth_less
proof (intro allI impI)
  fix i j assume ij: "i < j" "j < length zs"
  have len: "length ps = length zs" using out by (rule list_all2_lengthD)
  have at: "key (zs ! k) = c_open_time_ms (row_at (ps ! k)) + shift \<and> c_open_time_ms (row_at (ps ! k)) mod d = 0"
    if "k < length zs" for k using list_all2_nthD2 [OF out that] by blast
  have "c_open_time_ms (row_at (ps ! i)) < c_open_time_ms (row_at (ps ! j))"
    using sorted ij len unfolding sorted_wrt_iff_nth_less by simp
  then show "key (zs ! i) + d \<le> key (zs ! j)"
    using at [of i] at [of j] ij grid_step [OF d, of "c_open_time_ms (row_at (ps ! i))" "c_open_time_ms (row_at (ps ! j))"]
    by linarith
qed

text \<open>Before the period is complete, Wilder's average is not a number.\<close>

lemma wilder_atr_defined:
  assumes "wilder_atr add_up tr rows period = Inr vs" "i < length rows" "vs ! i \<noteq> NaN"
  shows "period \<le> int i + 1"
  using assms by (auto simp: wilder_atr_def Let_def rbind_Inr_iff rmap_Inr_iff nth_append split: if_splits)

lemma frame_time_nonneg: "aggregate xs tf = Inr rows \<Longrightarrow> row \<in> set rows \<Longrightarrow> 0 \<le> c_open_time_ms row"
  by (elim aggregate_member) (auto simp: valid_candle_iff candle_wf_def)

text \<open>Frames depend only on the canonical order of the minutes.\<close>

lemma aggregate_canonical: "canonical_candles candles (Some ''1m'') = Inr ordered \<Longrightarrow> aggregate ordered tf = aggregate candles tf"
  using candles.canon_idempotent [of candles "Some ''1m''" ordered] by (auto simp: aggregate_def split: option.split)

subsection \<open>What later minutes can add\<close>

lemma extend_all_contains: "extend_all f xs = Inr ys \<Longrightarrow> x \<in> set xs \<Longrightarrow> f x = Inr zs \<Longrightarrow> set zs \<subseteq> set ys"
  by (induction xs arbitrary: ys) (auto simp: extend_all_Cons rbind_Inr_iff rmap_Inr_iff)

text \<open>A frame that appears only with later minutes closes after every earlier minute.\<close>

lemma new_frames_later:
  assumes canon: "canonical_candles (xs @ ys) (Some ''1m'') = Inr (xs @ ys)"
    and whole: "aggregate (xs @ ys) tf = Inr (as @ cs)" and part: "aggregate xs tf = Inr as"
    and c: "c \<in> set cs" and x: "x \<in> set xs"
  shows "c_close_time_ms x < c_close_time_ms c"
proof (rule ccontr)
  assume late: "\<not> c_close_time_ms x < c_close_time_ms c"
  from whole c obtain sz ordered first rest where sz: "timeframe_ms tf = Some sz"
    and canon': "canonical_candles (xs @ ys) (Some ''1m'') = Inr ordered" and "list_all is_minute_bar ordered"
    and rows: "bucket_rows sz ordered (c_open_time_ms c) = first # rest"
    and full: "\<not> bucket_skipped (sz div 60000) (first # rest)"
    and m: "c = merged_candle tf sz (c_open_time_ms c) first rest" "valid_candle c"
    by (elim aggregate_member) auto
  from canon canon' have eq: "ordered = xs @ ys" by simp
  with \<open>list_all is_minute_bar ordered\<close> have min: "list_all is_minute_bar (xs @ ys)" by simp
  have pos: "0 < sz" "sz mod 60000 = 0" using timeframe_ms_cases [OF sz] by auto
  have grid: "c_open_time_ms c mod sz = 0"
    using aggregate_frame_rows [OF whole sz canon, of c] c by auto
  have close: "c_close_time_ms c = c_open_time_ms c + sz - 1" by (subst m(1)) (simp add: merged_candle_def)
  have "c_open_time_ms c + sz \<le> c_open_time_ms y" if y: "y \<in> set ys" for y
  proof -
    have "c_open_time_ms x < c_open_time_ms y" using canonical_candles_strict [OF canon] x y by (auto simp: sorted_wrt_append)
    moreover have "c_open_time_ms x mod 60000 = 0" "c_open_time_ms y mod 60000 = 0" "c_close_time_ms x = c_open_time_ms x + 59999"
      using min x y by (auto simp: list_all_iff is_minute_bar_def)
    ultimately show ?thesis using late close grid_step [of 60000 "c_open_time_ms x" "c_open_time_ms y"] by simp
  qed
  then have "filter (\<lambda>r. c_open_time_ms c \<le> c_open_time_ms r \<and> c_open_time_ms r < c_open_time_ms c + sz) ys = []"
    by (fastforce simp: filter_empty_conv)
  then have same: "bucket_rows sz xs (c_open_time_ms c) = first # rest"
    using rows unfolding eq bucket_rows_range [OF pos(1) grid] by simp
  then have "emitted tf sz xs (c_open_time_ms c) = Inr [c]"
    using full m by (simp add: emitted_def emit_bucket_def valid_candle_def)
  moreover have "c_open_time_ms c \<in> set (bucket_keys sz xs)"
  proof -
    have "first \<in> set (bucket_rows sz xs (c_open_time_ms c))" using same by simp
    then have "first \<in> set xs" "bucket_key sz first = c_open_time_ms c" by (auto simp: bucket_rows_def)
    then show ?thesis unfolding bucket_keys_def by (metis List.finite_set finite_imageI image_eqI set_sorted_list_of_set)
  qed
  moreover have "extend_all (emitted tf sz xs) (bucket_keys sz xs) = Inr as"
  proof -
    have "tf \<noteq> ''1m''" using part by (auto simp: aggregate_def split: option.splits)
    then show ?thesis using aggregate_eq [OF sz _ canonical_prefix [OF canon]] min part by simp
  qed
  ultimately have "c \<in> set as" using extend_all_contains by fastforce
  then show False using aggregate_strict [OF whole] c by (auto simp: sorted_wrt_append)
qed

text \<open>Every frame closes with one of its minutes.\<close>

lemma frame_close_minute:
  assumes canon: "canonical_candles xs (Some ''1m'') = Inr ordered" and agg: "aggregate xs tf = Inr rows" and row: "row \<in> set rows"
  shows "\<exists>x \<in> set ordered. c_close_time_ms x = c_close_time_ms row"
proof -
  from agg row obtain sz ordered' where sz: "timeframe_ms tf = Some sz" and "canonical_candles xs (Some ''1m'') = Inr ordered'"
    and min: "list_all is_minute_bar ordered'" by (elim aggregate_member) auto
  with canon have min: "list_all is_minute_bar ordered" by simp
  from aggregate_frame_rows [OF agg sz canon row] obtain first rest where
    f: "filter (\<lambda>c. c_open_time_ms row \<le> c_open_time_ms c \<and> c_open_time_ms c < c_open_time_ms row + sz) ordered = first # rest"
    and len: "int (length (first # rest)) * 60000 = sz"
    and at: "\<forall>i < length (first # rest). c_open_time_ms ((first # rest) ! i) = c_open_time_ms row + int i * 60000"
    and m: "row = merged_candle tf sz (c_open_time_ms row) first rest" by blast
  let ?x = "(first # rest) ! length rest"
  have "?x \<in> set (first # rest)" by (rule nth_mem) simp
  then have x: "?x \<in> set ordered" unfolding f [symmetric] by simp
  with min have "c_close_time_ms ?x = c_open_time_ms ?x + 59999" by (auto simp: list_all_iff is_minute_bar_def)
  moreover have "c_open_time_ms ?x = c_open_time_ms row + int (length rest) * 60000" using at by simp
  moreover have "c_close_time_ms row = c_open_time_ms row + sz - 1" by (subst m) (simp add: merged_candle_def)
  ultimately show ?thesis using x len by (intro bexI [OF _ x]) (simp add: algebra_simps)
qed

text \<open>Later rows add positions of their own and keep the earlier ones.\<close>

lemma positions_append_segs: "positions start (xs @ ys) = positions start xs @ positions start ys"
  by (simp add: positions_def)

lemma positions_append:
  "\<exists>more. map row_at (positions start (segments sz (rows @ later))) = map row_at (positions start (segments sz rows)) @ more \<and>
     set more \<subseteq> set later"
proof -
  have rows: "concat (segments sz rows) = filter (row_aligned sz) rows"
    "concat (segments sz (rows @ later)) = filter (row_aligned sz) rows @ filter (row_aligned sz) later"
    by (simp_all add: segments_facts(1))
  have rest_rows: "row_at ` set (positions start segs) \<subseteq> set (concat segs)" for segs by (auto simp: positions_def)
  from segments_append [of sz rows later] show ?thesis
  proof (elim disjE exE conjE)
    fix closed rest assume s: "segments sz rows = closed" "segments sz (rows @ later) = closed @ rest"
    then have "concat rest = filter (row_aligned sz) later" using rows by simp
    with rest_rows [of rest] show ?thesis by (auto simp: s positions_append_segs)
  next
    fix closed current ext rest
    assume s: "segments sz rows = closed @ [current]" "segments sz (rows @ later) = closed @ (current @ ext) # rest"
    then have "filter (row_aligned sz) rows = concat closed @ current"
      "concat closed @ current @ ext @ concat rest = filter (row_aligned sz) rows @ filter (row_aligned sz) later"
      using rows by auto
    then have ext: "ext @ concat rest = filter (row_aligned sz) later" by simp
    let ?n = "length current"
    have "[start..<?n + length ext] = [start..<?n] @ [max start ?n..<?n + length ext]"
      using upt_add_eq_append [of start ?n "length ext"] by (cases "start \<le> ?n") (simp_all add: max_def)
    then have "map ((!) (current @ ext)) [start..<?n + length ext] =
        map ((!) current) [start..<?n] @ map (\<lambda>i. ext ! (i - ?n)) [max start ?n..<?n + length ext]"
      by (simp add: nth_append)
    moreover have "(\<lambda>i. ext ! (i - ?n)) ` {max start ?n..<?n + length ext} \<subseteq> set ext" by auto
    moreover have "set ext \<union> set (concat rest) \<subseteq> set later" using arg_cong [OF ext, of set] by auto
    moreover have "map row_at (positions start (closed @ [current])) @ map (\<lambda>i. ext ! (i - ?n)) [max start ?n..<?n + length ext] @
        map row_at (positions start rest) = map row_at (positions start (closed @ (current @ ext) # rest))"
      using calculation(1) by (simp add: positions_append_segs positions_def comp_def)
    moreover have "row_at p \<in> set later" if "p \<in> set (positions start rest)" for p
      using rest_rows [of rest] calculation(3) that by blast
    ultimately show ?thesis unfolding s by (intro exI [of _ "map (\<lambda>i. ext ! (i - ?n)) [max start ?n..<?n + length ext] @ map row_at (positions start rest)"]) auto
  qed
qed

end
