(* ===== verification/RightTail.thy ===== *)
theory RightTail
  imports StepMarket Decisions Readiness
begin

section \<open>The hourly right-tail trend sleeve (sleeves/right\_tail\_trend.py)\<close>

text \<open>
  Once per decision interval the sleeve measures the return-to-variation score of the hours behind it and, when the
  score is large enough, emits a bracket of fixed multiples of the average range around the closing price.
\<close>

definition sleeve_hour_ms :: int where
  "sleeve_hour_ms = 3600000"

definition right_tail_number :: "pyfloat \<Rightarrow> string result" where
  "right_tail_number = evidence_number ''right-tail trend evidence must be finite''"

definition right_tail_side :: "right_tail_config \<Rightarrow> pyfloat \<Rightarrow> side option" where
  "right_tail_side c score =
     (if fle (rt_minimum_trend_score c) score then Some LONG
      else if fle score (fneg (rt_minimum_trend_score c)) then Some SHORT else None)"

text \<open>Stop and target on either side of the reference.\<close>

definition bracket :: "side \<Rightarrow> pyfloat \<Rightarrow> pyfloat \<Rightarrow> pyfloat \<Rightarrow> pyfloat \<times> pyfloat" where
  "bracket sd reference risk_distance reward_distance =
     (if sd = LONG then (fsub reference risk_distance, fadd reference reward_distance)
      else (fadd reference risk_distance, fsub reference reward_distance))"

definition right_tail_risk :: "right_tail_config \<Rightarrow> pyfloat \<Rightarrow> pyfloat" where
  "right_tail_risk c atr = fmul (rt_stop_atr_multiple c) atr"

definition right_tail_reward :: "right_tail_config \<Rightarrow> pyfloat \<Rightarrow> pyfloat" where
  "right_tail_reward c atr = fmul (rt_target_reward_to_risk c) (right_tail_risk c atr)"

text \<open>\<open>_feature_hash(feature_payload)\<close>.\<close>

definition right_tail_feature_hash ::
  "right_tail_config \<Rightarrow> candle \<Rightarrow> side \<Rightarrow> pyfloat \<Rightarrow> pyfloat \<Rightarrow> pyfloat \<Rightarrow> pyfloat \<Rightarrow> string result" where
  "right_tail_feature_hash c row sd atr score stop target =
     rbind (right_tail_number atr) (\<lambda>atr_text.
     rbind (right_tail_number (c_close row)) (\<lambda>reference_text.
     rbind (right_tail_number stop) (\<lambda>stop_text.
     rbind (right_tail_number target) (\<lambda>target_text.
     rbind (right_tail_number score) (\<lambda>score_text.
       Inr (json_sha256 (JObj
         [(''atr'', JStr atr_text),
          (''config_sha256'', JStr (config_fingerprint (RightTailTrend c))),
          (''decision_ts_ms'', JInt (c_close_time_ms row)),
          (''reference_price'', JStr reference_text),
          (''side'', JStr (side_value sd)),
          (''stop_price'', JStr stop_text),
          (''strategy_version'', JStr ''right_tail_trend_v1''),
          (''symbol'', JStr (c_symbol row)),
          (''target_price'', JStr target_text),
          (''trend_score'', JStr score_text)])))))))"

definition right_tail_intent ::
  "right_tail_config \<Rightarrow> candle \<Rightarrow> side \<Rightarrow> pyfloat \<Rightarrow> pyfloat \<Rightarrow> pyfloat \<Rightarrow> pyfloat \<Rightarrow> sleeve_intent result" where
  "right_tail_intent c row sd atr score stop target =
     rbind (right_tail_feature_hash c row sd atr score stop target) (\<lambda>feature_hash.
     rbind (py_div (fabs score) (fmul (Num 2) (rt_minimum_trend_score c))) (\<lambda>strength.
     rbind (py_div (right_tail_reward c atr) (c_close row)) (\<lambda>reward.
     rbind (make_exit_plan \<lparr>stop_price = stop, target_price = target, max_holding_ms = rt_max_hold_hours c * sleeve_hour_ms,
              trailing_activation_price = None, trailing_distance = None\<rparr>) (\<lambda>plan.
     rbind (right_tail_number atr) (\<lambda>atr_text.
     rbind (right_tail_number score) (\<lambda>score_text.
       make_sleeve_intent
         \<lparr>i_sleeve_id = ''right_tail_trend_v1'', i_symbol = c_symbol row, i_side = sd,
          i_decision_ts_ms = c_close_time_ms row, i_entry_eligible_ts_ms = c_close_time_ms row + 1,
          i_entry_expires_ts_ms = c_close_time_ms row + rt_intent_valid_hours c * sleeve_hour_ms,
          i_reference_price = c_close row, i_signal_strength = fmin fone [strength],
          i_gross_reward_bps = fmul reward (Num 10000), i_exit_plan = plan,
          i_metadata =
            [(''atr'', atr_text),
             (''config_sha256'', config_fingerprint (RightTailTrend c)),
             (''decision_clock'', ''utc_epoch_aligned''),
             (''feature_hash'', feature_hash),
             (''strategy_version'', ''right_tail_trend_v1''),
             (''trend_score'', score_text)]\<rparr>))))))"

text \<open>One iteration of the loop over the rows of a segment; the second part decides on the measurements.\<close>

definition right_tail_trade ::
  "right_tail_config \<Rightarrow> candle \<Rightarrow> pyfloat option \<Rightarrow> pyfloat \<Rightarrow> sleeve_intent list result" where
  "right_tail_trade c row measured atr =
     (case measured of
        None \<Rightarrow> Inr []
      | Some score \<Rightarrow>
          if \<not> usable atr then Inr []
          else case right_tail_side c score of
              None \<Rightarrow> Inr []
            | Some sd \<Rightarrow>
                (let reference = c_close row;
                     (stop, target) = bracket sd reference (right_tail_risk c atr) (right_tail_reward c atr) in
                 if \<not> list_all usable [reference, stop, target] then Inr []
                 else rmap (\<lambda>i. [i]) (right_tail_intent c row sd atr score stop target)))"

definition right_tail_row ::
  "(pyfloat \<Rightarrow> pyfloat) \<Rightarrow> right_tail_config \<Rightarrow> candle list \<Rightarrow> pyfloat list \<Rightarrow> nat \<Rightarrow> sleeve_intent list result" where
  "right_tail_row c_log c rows atr_values index =
     (let row = rows ! index in
      if c_open_time_ms row mod (rt_decision_interval_hours c * sleeve_hour_ms) \<noteq> 0 then Inr []
      else rbind (trend_score c_log rows index (rt_trend_lookback_hours c)) (\<lambda>measured.
        right_tail_trade c row measured (atr_values ! index)))"

definition right_tail_segment ::
  "(pyfloat \<Rightarrow> pyfloat) \<Rightarrow> right_tail_config \<Rightarrow> candle list \<Rightarrow> sleeve_intent list result" where
  "right_tail_segment c_log c rows =
     rbind (wilder_atr fsum true_range rows (rt_atr_period_hours c)) (\<lambda>atr_values.
       extend_all (right_tail_row c_log c rows atr_values) [0..<length rows])"

definition right_tail_settings :: "strategy_config option \<Rightarrow> right_tail_config result" where
  "right_tail_settings config =
     (case config of
        None \<Rightarrow> make_right_tail right_tail_default
      | Some (RightTailTrend c) \<Rightarrow> Inr c
      | Some _ \<Rightarrow> Inl (ValueError ''config must be a RightTailTrendConfig or None''))"

definition generate_right_tail_trend_intents ::
  "(pyfloat \<Rightarrow> pyfloat) \<Rightarrow> candle list \<Rightarrow> strategy_config option \<Rightarrow> sleeve_intent list result" where
  "generate_right_tail_trend_intents c_log candles config =
     rbind (right_tail_settings config) (\<lambda>c.
     rbind (canonical_candles candles (Some ''1m'')) (\<lambda>ordered.
     rbind (aggregate ordered ''1h'') (\<lambda>hourly.
       extend_all (right_tail_segment c_log c) (segments sleeve_hour_ms hourly))))"

subsection \<open>The generator is causal\<close>

lemma right_tail_row_local:
  "i < length rows \<Longrightarrow> length as = length rows \<Longrightarrow>
     right_tail_row c_log c (rows @ later) (as @ bs) i = right_tail_row c_log c rows as i"
  by (simp add: right_tail_row_def nth_append trend_score_prefix Let_def)

interpretation right_tail: row_generator sleeve_hour_ms "\<lambda>rows. wilder_atr fsum true_range rows (rt_atr_period_hours c)"
  "right_tail_row c_log c" 0 for c_log c
proof unfold_locales
  show "wilder_atr fsum true_range (rows @ later) (rt_atr_period_hours c) = Inr fs \<Longrightarrow>
      \<exists>as bs. wilder_atr fsum true_range rows (rt_atr_period_hours c) = Inr as \<and> fs = as @ bs \<and> length as = length rows"
    for rows later fs by (rule wilder_atr_prefix) (rule true_range_append)
qed (simp_all add: right_tail_row_local)

lemma right_tail_run:
  "generate_right_tail_trend_intents c_log candles config = Inr zs \<longleftrightarrow>
     (\<exists>c ordered hourly. right_tail_settings config = Inr c \<and> canonical_candles candles (Some ''1m'') = Inr ordered \<and>
        aggregate ordered ''1h'' = Inr hourly \<and>
        extend_all (right_tail_segment c_log c) (segments sleeve_hour_ms hourly) = Inr zs)"
  by (auto simp: generate_right_tail_trend_intents_def rbind_Inr_iff)

lemma right_tail_causal:
  assumes order: "canonical_candles (xs @ ys) (Some ''1m'') = Inr (xs @ ys)"
    and run: "generate_right_tail_trend_intents c_log (xs @ ys) config = Inr zs"
  shows "\<exists>as bs. generate_right_tail_trend_intents c_log xs config = Inr as \<and> zs = as @ bs"
  using run right_tail.minutes_prefix [OF order, folded right_tail_segment_def]
  by (auto simp: generate_right_tail_trend_intents_def rbind_Inr_iff)

subsection \<open>What an intent says\<close>

text \<open>The justification of an intent emitted at the \<open>i\<close>-th hour of a segment.\<close>

definition right_tail_justifies ::
  "(pyfloat \<Rightarrow> pyfloat) \<Rightarrow> right_tail_config \<Rightarrow> candle list \<times> nat \<Rightarrow> sleeve_intent \<Rightarrow> bool" where
  "right_tail_justifies c_log c p s \<longleftrightarrow>
     (let (seg, i) = p; row = seg ! i in
      case (trend_score c_log seg i (rt_trend_lookback_hours c), wilder_atr fsum true_range seg (rt_atr_period_hours c)) of
        (Inr (Some score), Inr atr_values) \<Rightarrow>
          (let atr = atr_values ! i in
           usable atr \<and> right_tail_side c score = Some (i_side s) \<and>
           (stop_price (i_exit_plan s), target_price (i_exit_plan s)) =
             bracket (i_side s) (c_close row) (right_tail_risk c atr) (right_tail_reward c atr) \<and>
           max_holding_ms (i_exit_plan s) = rt_max_hold_hours c * sleeve_hour_ms \<and>
           i_sleeve_id s = ''right_tail_trend_v1'' \<and> i_symbol s = c_symbol row \<and> i_reference_price s = c_close row \<and>
           i_decision_ts_ms s = c_close_time_ms row \<and> i_entry_eligible_ts_ms s = c_close_time_ms row + 1 \<and>
           i_entry_expires_ts_ms s = c_close_time_ms row + rt_intent_valid_hours c * sleeve_hour_ms)
      | _ \<Rightarrow> False)"

lemma right_tail_intent_fields:
  assumes "right_tail_intent c row sd atr score stop target = Inr s" "list_all usable [c_close row, stop, target]"
  shows "stop_price (i_exit_plan s) = stop \<and> target_price (i_exit_plan s) = target \<and>
    max_holding_ms (i_exit_plan s) = rt_max_hold_hours c * sleeve_hour_ms \<and>
    i_sleeve_id s = ''right_tail_trend_v1'' \<and> i_symbol s = c_symbol row \<and> i_reference_price s = c_close row \<and>
    i_side s = sd \<and> i_decision_ts_ms s = c_close_time_ms row \<and> i_entry_eligible_ts_ms s = c_close_time_ms row + 1 \<and>
    i_entry_expires_ts_ms s = c_close_time_ms row + rt_intent_valid_hours c * sleeve_hour_ms"
  using assms
  by (auto simp: right_tail_intent_def rbind_Inr_iff make_exit_plan_def make_sleeve_intent_def validate_Inr_iff with_intent_id_def
      normalized_intent_def intent_fields.extend_def)

lemma right_tail_trade_cases:
  assumes "right_tail_trade c row measured atr = Inr out" "out \<noteq> []"
  obtains score sd stop target s where "measured = Some score" "usable atr" "right_tail_side c score = Some sd"
    "bracket sd (c_close row) (right_tail_risk c atr) (right_tail_reward c atr) = (stop, target)"
    "list_all usable [c_close row, stop, target]" "right_tail_intent c row sd atr score stop target = Inr s" "out = [s]"
proof (cases measured)
  case (Some score)
  obtain sd where sd: "right_tail_side c score = Some sd" "usable atr"
    using assms Some by (cases "right_tail_side c score") (auto simp: right_tail_trade_def split: if_splits)
  obtain stop target where b: "bracket sd (c_close row) (right_tail_risk c atr) (right_tail_reward c atr) = (stop, target)"
    by fastforce
  show thesis using assms Some sd b that by (auto simp: right_tail_trade_def rmap_Inr_iff split: if_splits)
qed (use assms in \<open>simp add: right_tail_trade_def\<close>)

lemma right_tail_row_output:
  assumes run: "right_tail_row c_log c seg atr_values i = Inr out"
    and atr: "wilder_atr fsum true_range seg (rt_atr_period_hours c) = Inr atr_values"
  shows "out = [] \<or> (\<exists>s. out = [s] \<and> right_tail_justifies c_log c (seg, i) s \<and> sleeve_intent_wf s \<and>
    c_open_time_ms (seg ! i) mod (rt_decision_interval_hours c * sleeve_hour_ms) = 0)"
proof (cases "out = []")
  case False
  from run False obtain measured where m: "trend_score c_log seg i (rt_trend_lookback_hours c) = Inr measured"
    "right_tail_trade c (seg ! i) measured (atr_values ! i) = Inr out"
    and grid: "c_open_time_ms (seg ! i) mod (rt_decision_interval_hours c * sleeve_hour_ms) = 0"
    by (auto simp: right_tail_row_def Let_def rbind_Inr_iff split: if_splits)
  from m(2) False show ?thesis
  proof (rule right_tail_trade_cases)
    fix score sd stop target s
    assume r: "measured = Some score" "usable (atr_values ! i)" "right_tail_side c score = Some sd"
      "bracket sd (c_close (seg ! i)) (right_tail_risk c (atr_values ! i)) (right_tail_reward c (atr_values ! i)) = (stop, target)"
      "list_all usable [c_close (seg ! i), stop, target]"
      and s: "right_tail_intent c (seg ! i) sd (atr_values ! i) score stop target = Inr s" "out = [s]"
    note f = right_tail_intent_fields [OF s(1) r(5)]
    have "right_tail_justifies c_log c (seg, i) s"
      using f r m(1) atr by (simp add: right_tail_justifies_def Let_def)
    moreover have "sleeve_intent_wf s"
      using s(1) unfolding right_tail_intent_def rbind_Inr_iff by (blast intro: make_sleeve_intent_wf)
    ultimately show ?thesis using grid s(2) by simp
  qed
qed simp

lemma right_tail_segment_output:
  assumes seg: "seg \<in> set (segments sleeve_hour_ms hourly)" and run: "right_tail_segment c_log c seg = Inr out"
  shows "\<exists>ps. subseq ps (map (Pair seg) [0..<length seg]) \<and>
    list_all2 (\<lambda>p s. right_tail_justifies c_log c p s \<and> sleeve_intent_wf s \<and> row_aligned sleeve_hour_ms (row_at p) \<and>
      c_open_time_ms (row_at p) mod (rt_decision_interval_hours c * sleeve_hour_ms) = 0) ps out"
proof -
  have rows: "row_aligned sleeve_hour_ms (seg ! i)" if "i < length seg" for i
    using segments_facts(2) [OF seg] that by (simp add: gap_free_def list_all_length)
  from run obtain atr_values where atr: "wilder_atr fsum true_range seg (rt_atr_period_hours c) = Inr atr_values"
    and run: "extend_all (right_tail_row c_log c seg atr_values) [0..<length seg] = Inr out"
    by (auto simp: right_tail_segment_def rbind_Inr_iff)
  from run have "extend_all (\<lambda>(seg, i). right_tail_row c_log c seg atr_values i) (map (Pair seg) [0..<length seg]) = Inr out"
    by (simp add: extend_all_map comp_def)
  then show ?thesis by (rule extend_all_optional) (use atr rows in \<open>auto dest: right_tail_row_output\<close>)
qed

lemma right_tail_outputs:
  assumes "generate_right_tail_trend_intents c_log candles config = Inr zs" "right_tail_settings config = Inr c"
  obtains ordered hourly ps where "canonical_candles candles (Some ''1m'') = Inr ordered" "aggregate ordered ''1h'' = Inr hourly"
    "subseq ps (positions 0 (segments sleeve_hour_ms hourly))"
    "list_all2 (\<lambda>p s. right_tail_justifies c_log c p s \<and> sleeve_intent_wf s \<and> row_aligned sleeve_hour_ms (row_at p) \<and>
      c_open_time_ms (row_at p) mod (rt_decision_interval_hours c * sleeve_hour_ms) = 0) ps zs"
proof -
  from assms obtain ordered hourly where o: "canonical_candles candles (Some ''1m'') = Inr ordered" "aggregate ordered ''1h'' = Inr hourly"
    and g: "extend_all (right_tail_segment c_log c) (segments sleeve_hour_ms hourly) = Inr zs"
    by (auto simp: right_tail_run)
  have "\<exists>ps. subseq ps (positions 0 (segments sleeve_hour_ms hourly)) \<and>
      list_all2 (\<lambda>p s. right_tail_justifies c_log c p s \<and> sleeve_intent_wf s \<and> row_aligned sleeve_hour_ms (row_at p) \<and>
        c_open_time_ms (row_at p) mod (rt_decision_interval_hours c * sleeve_hour_ms) = 0) ps zs"
    by (rule extend_all_segments [OF g]) (rule right_tail_segment_output)
  then show thesis using that [OF o] by (elim exE conjE)
qed

lemma right_tail_justifiesE:
  assumes "right_tail_justifies c_log c (seg, i) s"
  obtains score atr_values where "trend_score c_log seg i (rt_trend_lookback_hours c) = Inr (Some score)"
    "wilder_atr fsum true_range seg (rt_atr_period_hours c) = Inr atr_values" "usable (atr_values ! i)"
    "right_tail_side c score = Some (i_side s)" "i_decision_ts_ms s = c_close_time_ms (seg ! i)"
    "(stop_price (i_exit_plan s), target_price (i_exit_plan s)) =
      bracket (i_side s) (c_close (seg ! i)) (right_tail_risk c (atr_values ! i)) (right_tail_reward c (atr_values ! i))"
proof (cases "trend_score c_log seg i (rt_trend_lookback_hours c)")
  case (Inr measured)
  then show thesis using assms that
    by (cases measured; cases "wilder_atr fsum true_range seg (rt_atr_period_hours c)") (simp_all add: right_tail_justifies_def Let_def)
qed (use assms in \<open>simp add: right_tail_justifies_def Let_def\<close>)

lemma right_tail_decision_time:
  "right_tail_justifies c_log c p s \<Longrightarrow> i_decision_ts_ms s = c_close_time_ms (row_at p)"
  by (cases p) (auto elim: right_tail_justifiesE)

text \<open>When an intent is decided, and how many hours it needs.\<close>

lemma right_tail_hours:
  assumes run: "generate_right_tail_trend_intents c_log candles (Some (RightTailTrend c)) = Inr zs" and s: "s \<in> set zs"
  obtains hourly opened where "aggregate candles ''1h'' = Inr hourly"
    "max (rt_trend_lookback_hours c + 1) (rt_atr_period_hours c) \<le> int (length hourly)"
    "i_decision_ts_ms s = opened + sleeve_hour_ms - 1" "0 \<le> opened" "opened mod (rt_decision_interval_hours c * sleeve_hour_ms) = 0"
proof -
  from run obtain ordered hourly ps where o: "canonical_candles candles (Some ''1m'') = Inr ordered"
    "aggregate ordered ''1h'' = Inr hourly" and sub: "subseq ps (positions 0 (segments sleeve_hour_ms hourly))"
    and out: "list_all2 (\<lambda>p s. right_tail_justifies c_log c p s \<and> sleeve_intent_wf s \<and> row_aligned sleeve_hour_ms (row_at p) \<and>
      c_open_time_ms (row_at p) mod (rt_decision_interval_hours c * sleeve_hour_ms) = 0) ps zs"
    by (rule right_tail_outputs) (simp add: right_tail_settings_def)
  from output_source [OF out sub s] obtain seg i where p: "(seg, i) \<in> set (positions 0 (segments sleeve_hour_ms hourly))"
    and j: "right_tail_justifies c_log c (seg, i) s"
    and grid: "c_open_time_ms (seg ! i) mod (rt_decision_interval_hours c * sleeve_hour_ms) = 0" by auto
  then have row: "row_aligned sleeve_hour_ms (seg ! i)" "seg ! i \<in> set hourly" "i < length hourly" "i < length seg"
    using position_aligned [OF p] by (simp_all add: positions_mem)
  from j obtain score atr_values where score: "trend_score c_log seg i (rt_trend_lookback_hours c) = Inr (Some score)"
    and atr: "wilder_atr fsum true_range seg (rt_atr_period_hours c) = Inr atr_values" "usable (atr_values ! i)"
    and ts: "i_decision_ts_ms s = c_close_time_ms (seg ! i)" by (rule right_tail_justifiesE)
  have "rt_trend_lookback_hours c \<le> int i" using trend_score_finite [OF score] by simp
  moreover have "rt_atr_period_hours c \<le> int i + 1"
    using wilder_atr_defined [OF atr(1) row(4)] atr(2) is_finite_not_NaN by (auto simp: usable_def)
  ultimately show thesis
    using that [of hourly "c_open_time_ms (seg ! i)"] aggregate_canonical [OF o(1)] o(2) row grid ts frame_time_nonneg [OF o(2) row(2)]
    by (simp add: row_aligned_def)
qed

subsection \<open>A rising hour\<close>

text \<open>\<open>x - 1\<close> stands in for the logarithm.\<close>

definition sample_log :: "pyfloat \<Rightarrow> pyfloat" where
  "sample_log x = fsub x fone"

definition sample_right_tail_config :: right_tail_config where
  "sample_right_tail_config =
    \<lparr>rt_trend_lookback_hours = 1, rt_minimum_trend_score = Num (1 / 2), rt_atr_period_hours = 1,
     rt_stop_atr_multiple = Num 2, rt_target_reward_to_risk = Num 4, rt_max_hold_hours = 72,
     rt_decision_interval_hours = 1, rt_intent_valid_hours = 1\<rparr>"

definition rising :: "nat \<Rightarrow> rat" where
  "rising k = (if k = 0 then 100 else 150)"

abbreviation sample_hours :: "nat \<Rightarrow> candle list" where
  "sample_hours n \<equiv> map (step_frame ''1h'' 60 rising 1 0) [0..<n]"

lemma sample_right_tail_valid: "make_right_tail sample_right_tail_config = Inr sample_right_tail_config"
  by code_simp

lemma half_is_root: "sqrt_pos (1 / 4) = Num (1 / 2)"
proof -
  have "ilog2 (1 / 2 * (1 / 2)) = - 2" "rnd (1 / 2) = Num (1 / 2)" by code_simp+
  then have "sqrt_pos (1 / 2 * (1 / 2)) = Num (1 / 2)" using sqrt_pos_exact [of "1 / 2" "2 ^ 60"] by simp
  then show ?thesis by simp
qed

lemma sample_return: "log_returns sample_log (sample_hours 2) 1 1 = Inr [Num (1 / 2)]"
  by code_simp

lemma sample_squares:
  "fsum [fmul (Num (1 / 2)) (Num (1 / 2))] = Inr (Num (1 / 4))" "fsum [Num (1 / 2)] = Inr (Num (1 / 2))"
  "py_div (Num (1 / 2)) (Num (1 / 2)) = Inr fone"
  by code_simp+

lemma sample_ranges:
  "fsub (Num 101) (Num 99) = Num 2" "fmax (fsub (Num 151) (Num 149)) [fabs (fsub (Num 151) (Num 100)), fabs (fsub (Num 149) (Num 100))] = Num 51"
  "fsum [Num 2] = Inr (Num 2)" "py_div (Num 2) (float_of_int 1) = Inr (Num 2)"
  "py_div (fadd (fmul (Num 2) (float_of_int 0)) (Num 51)) (float_of_int 1) = Inr (Num 51)"
  by code_simp+

lemma sample_hour_features:
  "trend_score sample_log (sample_hours 2) 0 1 = Inr None"
  "trend_score sample_log (sample_hours 2) 1 1 = Inr (Some fone)"
  "wilder_atr fsum true_range (sample_hours 2) 1 = Inr [Num 2, Num 51]"
proof -
  show "trend_score sample_log (sample_hours 2) 0 1 = Inr None" by (simp add: trend_score_def)
  show "trend_score sample_log (sample_hours 2) 1 1 = Inr (Some fone)"
    unfolding trend_score_def sample_return by (simp add: sample_squares half_is_root)
  show "wilder_atr fsum true_range (sample_hours 2) 1 = Inr [Num 2, Num 51]"
    by (simp add: wilder_atr_def true_range_def step_frame_def rising_def Let_def numeral_2_eq_2 sample_ranges [unfolded One_nat_def])
qed

lemma sample_right_tail_checks:
  "list_all (\<lambda>k. \<not> fst k) (intent_checks
     \<lparr>i_sleeve_id = ''right_tail_trend_v1'', i_symbol = ''BTCUSDT'', i_side = LONG,
      i_decision_ts_ms = 7199999, i_entry_eligible_ts_ms = 7200000, i_entry_expires_ts_ms = 10799999,
      i_reference_price = Num 150, i_signal_strength = fone,
      i_gross_reward_bps = fmul (fdiv (Num 408) (Num 150)) (Num 10000),
      i_exit_plan = \<lparr>stop_price = Num 48, target_price = Num 558, max_holding_ms = 259200000,
        trailing_activation_price = None, trailing_distance = None\<rparr>,
      i_metadata = [(''atr'', a), (''config_sha256'', b), (''decision_clock'', d), (''feature_hash'', e),
        (''strategy_version'', f), (''trend_score'', g)]\<rparr>)"
  by code_simp

lemma sample_right_tail_arithmetic:
  "right_tail_risk sample_right_tail_config (Num 51) = Num 102" "right_tail_reward sample_right_tail_config (Num 51) = Num 408"
  "py_div fone (fmul (Num 2) (Num (1 / 2))) = Inr fone"
  "py_div (Num 408) (Num 150) = Inr (fdiv (Num 408) (Num 150))" "fmin fone [fone] = fone"
  "bracket LONG (Num 150) (Num 102) (Num 408) = (Num 48, Num 558)" "right_tail_side sample_right_tail_config fone = Some LONG"
  "make_exit_plan \<lparr>stop_price = Num 48, target_price = Num 558, max_holding_ms = 259200000,
     trailing_activation_price = None, trailing_distance = None\<rparr> =
   Inr \<lparr>stop_price = Num 48, target_price = Num 558, max_holding_ms = 259200000,
     trailing_activation_price = None, trailing_distance = None\<rparr>"
  by code_simp+

lemma sample_trend_fields:
  "rt_minimum_trend_score sample_right_tail_config = Num (1 / 2)" "rt_max_hold_hours sample_right_tail_config = 72"
  "rt_intent_valid_hours sample_right_tail_config = 1" "rt_trend_lookback_hours sample_right_tail_config = 1"
  "rt_atr_period_hours sample_right_tail_config = 1" "rt_decision_interval_hours sample_right_tail_config = 1"
  by (simp_all add: sample_right_tail_config_def)

lemma sample_right_tail_intent:
  "\<exists>s. right_tail_intent sample_right_tail_config (step_frame ''1h'' 60 rising 1 0 1) LONG (Num 51) fone (Num 48) (Num 558) = Inr s"
proof -
  have u: "usable (Num 51)" "usable (Num 150)" "usable (Num 48)" "usable (Num 558)" "usable fone"
    by (simp_all add: usable_def)
  have "right_tail_feature_hash sample_right_tail_config (step_frame ''1h'' 60 rising 1 0 1) LONG (Num 51) fone (Num 48) (Num 558) \<noteq> Inl e" for e
    by (simp add: right_tail_feature_hash_def right_tail_number_def step_frame_def rising_def u)
  then obtain h where "right_tail_feature_hash sample_right_tail_config (step_frame ''1h'' 60 rising 1 0 1) LONG (Num 51) fone (Num 48) (Num 558) = Inr h"
    by (meson sum.exhaust)
  then show ?thesis
    using sample_right_tail_checks [of "format_17g (Num 51)" "config_fingerprint (RightTailTrend sample_right_tail_config)"
      "''utc_epoch_aligned''" h "''right_tail_trend_v1''" "format_17g fone"]
    by (simp add: right_tail_intent_def step_frame_def rising_def sample_right_tail_arithmetic right_tail_number_def u
      make_sleeve_intent_def validate_Inr_iff sample_trend_fields sleeve_hour_ms_def)
qed

abbreviation sample_hour_minutes :: "candle list" where
  "sample_hour_minutes \<equiv> step_minutes 60 rising 1 0 120"

lemma sample_hour_frames: "aggregate sample_hour_minutes ''1h'' = Inr (sample_hours 2)"
  using step_aggregate [of "''1h''" 60 rising 1 0 2]
  by (auto simp: timeframe_ms_def timeframe_table_def step_market_def rising_def)

lemma sample_right_tail_rows:
  "right_tail_row sample_log sample_right_tail_config (sample_hours 2) [Num 2, Num 51] 0 = Inr []"
  "\<exists>s. right_tail_row sample_log sample_right_tail_config (sample_hours 2) [Num 2, Num 51] 1 = Inr [s]"
proof -
  have at: "sample_hours 2 ! 0 = step_frame ''1h'' 60 rising 1 0 0" "sample_hours 2 ! 1 = step_frame ''1h'' 60 rising 1 0 1" by simp_all
  show "right_tail_row sample_log sample_right_tail_config (sample_hours 2) [Num 2, Num 51] 0 = Inr []"
    unfolding right_tail_row_def at Let_def sample_trend_fields sample_hour_features
    by (simp add: right_tail_trade_def)
  obtain s where s: "right_tail_intent sample_right_tail_config (step_frame ''1h'' 60 rising 1 0 1) LONG (Num 51) fone (Num 48) (Num 558) = Inr s"
    using sample_right_tail_intent by blast
  have "c_close (step_frame ''1h'' 60 rising 1 0 1) = Num 150" "usable (Num 51)" "usable (Num 150)" "usable (Num 48)" "usable (Num 558)"
    by (simp_all add: step_frame_def rising_def usable_def)
  then have "right_tail_trade sample_right_tail_config (step_frame ''1h'' 60 rising 1 0 1) (Some fone) (Num 51) = Inr [s]"
    using s by (simp add: right_tail_trade_def sample_right_tail_arithmetic)
  then show "\<exists>s. right_tail_row sample_log sample_right_tail_config (sample_hours 2) [Num 2, Num 51] 1 = Inr [s]"
    unfolding right_tail_row_def at Let_def sample_trend_fields sample_hour_features
    by (simp add: step_frame_def sleeve_hour_ms_def)
qed

lemma sample_right_tail_run:
  "\<exists>s. generate_right_tail_trend_intents sample_log sample_hour_minutes (Some (RightTailTrend sample_right_tail_config)) = Inr [s] \<and>
     i_decision_ts_ms s = 7199999"
proof -
  obtain s where s: "right_tail_row sample_log sample_right_tail_config (sample_hours 2) [Num 2, Num 51] 1 = Inr [s]"
    using sample_right_tail_rows(2) by blast
  with right_tail_row_output [OF s, unfolded sample_trend_fields, OF sample_hour_features(3)]
  have "i_decision_ts_ms s = 7199999" by (auto dest: right_tail_decision_time simp: step_frame_def)
  have "segments sleeve_hour_ms (sample_hours 2) = [sample_hours 2]"
    using step_segments [of 60 2] by (simp add: sleeve_hour_ms_def)
  moreover have "[0..<length (sample_hours 2)] = [0, 1]" by (simp add: upt_rec)
  then have "right_tail_segment sample_log sample_right_tail_config (sample_hours 2) = Inr [s]"
    unfolding right_tail_segment_def sample_trend_fields sample_hour_features
    by (simp only: rbind_simps extend_all_Cons extend_all_Nil sample_right_tail_rows(1) s rmap_simps) simp
  ultimately have "extend_all (right_tail_segment sample_log sample_right_tail_config) (segments sleeve_hour_ms (sample_hours 2)) = Inr [s]"
    by (simp add: extend_all_Cons)
  then show ?thesis
    using sample_hour_frames step_canonical [of 60 rising 1 0 120] \<open>i_decision_ts_ms s = 7199999\<close>
    by (auto simp: right_tail_run right_tail_settings_def)
qed

subsection \<open>Properties\<close>

text \<open>
  Property C18: every right-tail intent is justified by one hour of one gap-free run of closed hours. Its
  score passes the threshold on the side it takes, stop and target are the configured multiples of the average true
  range around the close, the entry window opens after the close, and decisions are at least one decision interval
  apart.
\<close>

theorem right_tail_intents_justified:
  assumes "generate_right_tail_trend_intents c_log candles (Some (RightTailTrend c)) = Inr zs"
    and "make_right_tail c = Inr c"
  shows "\<exists>ordered hourly ps. canonical_candles candles (Some ''1m'') = Inr ordered \<and> aggregate ordered ''1h'' = Inr hourly \<and>
    subseq ps (positions 0 (segments sleeve_hour_ms hourly)) \<and> list_all2 (right_tail_justifies c_log c) ps zs \<and>
    list_all sleeve_intent_wf zs \<and>
    sorted_wrt (\<lambda>a b. i_decision_ts_ms a + rt_decision_interval_hours c * sleeve_hour_ms \<le> i_decision_ts_ms b) zs"
proof -
  let ?d = "rt_decision_interval_hours c * sleeve_hour_ms"
  from assms(1) obtain ordered hourly ps where o: "canonical_candles candles (Some ''1m'') = Inr ordered"
    "aggregate ordered ''1h'' = Inr hourly" and sub: "subseq ps (positions 0 (segments sleeve_hour_ms hourly))"
    and out: "list_all2 (\<lambda>p s. right_tail_justifies c_log c p s \<and> sleeve_intent_wf s \<and>
      row_aligned sleeve_hour_ms (row_at p) \<and> c_open_time_ms (row_at p) mod ?d = 0) ps zs"
    by (rule right_tail_outputs) (simp add: right_tail_settings_def)
  have sorted: "sorted_wrt (\<lambda>p q. c_open_time_ms (row_at p) < c_open_time_ms (row_at q)) ps"
    using sub positions_sorted [OF o(2)] by (rule sorted_wrt_subseq)
  have d: "0 < ?d" using assms(2) by (simp add: make_right_tail_def validate_Inr_iff right_tail_checks_def positive_int_def sleeve_hour_ms_def)
  from out have "list_all2 (\<lambda>p s. True \<and> i_decision_ts_ms s = c_open_time_ms (row_at p) + (sleeve_hour_ms - 1) \<and>
      c_open_time_ms (row_at p) mod ?d = 0) ps zs"
    by (rule list_all2_mono) (auto simp: row_aligned_def dest: right_tail_decision_time)
  from outputs_on_grid [OF sorted this d]
  have "sorted_wrt (\<lambda>a b. i_decision_ts_ms a + ?d \<le> i_decision_ts_ms b) zs" .
  moreover from out have "list_all2 (right_tail_justifies c_log c) ps zs" by (rule list_all2_mono) simp
  moreover from out have "list_all sleeve_intent_wf zs" by (auto simp: list_all2_conv_all_nth list_all_length)
  ultimately show ?thesis using o sub by blast
qed

theorem right_tail_intents_justified_witness:
  "\<exists>s p. generate_right_tail_trend_intents sample_log sample_hour_minutes (Some (RightTailTrend sample_right_tail_config)) = Inr [s] \<and>
     right_tail_justifies sample_log sample_right_tail_config p s \<and> sleeve_intent_wf s"
proof -
  obtain s where run: "generate_right_tail_trend_intents sample_log sample_hour_minutes (Some (RightTailTrend sample_right_tail_config)) = Inr [s]"
    using sample_right_tail_run by blast
  from right_tail_intents_justified [OF run sample_right_tail_valid] obtain ps where
    "list_all2 (right_tail_justifies sample_log sample_right_tail_config) ps [s]" "sleeve_intent_wf s" by auto
  then show ?thesis using run by (auto simp: list_all2_Cons2)
qed

text \<open>
  The decision clock and the history requirement of the runtime never hide a right-tail
  intent. On the bar that closes at its decision the strategy is scheduled, and the window holds the complete hours
  the readiness check asks for.
\<close>

theorem right_tail_clock_hides_nothing:
  assumes "generate_right_tail_trend_intents c_log candles (Some (RightTailTrend c)) = Inr zs"
    and "s \<in> set zs" and "b_close_time_ms bar = i_decision_ts_ms s"
    and "complete_frame_requirements ''right_tail_trend_v1'' (RightTailTrend c) = Inr frames"
  shows "scheduled ''right_tail_trend_v1'' (RightTailTrend c) bar (get_runtime_requirements ''right_tail_trend_v1'') (Some frames) =
      Inr True \<and> frames_ready ''right_tail_trend_v1'' candles frames = Inr True"
  using assms(1,2)
proof (rule right_tail_hours)
  fix hourly opened
  assume h: "aggregate candles ''1h'' = Inr hourly" "max (rt_trend_lookback_hours c + 1) (rt_atr_period_hours c) \<le> int (length hourly)"
    "i_decision_ts_ms s = opened + sleeve_hour_ms - 1" "0 \<le> opened" "opened mod (rt_decision_interval_hours c * sleeve_hour_ms) = 0"
  then have "right_tail_hour c bar" using assms(3) by (simp add: right_tail_hour_def sleeve_hour_ms_def hour_size_def)
  then show ?thesis using assms(4) h(1,2)
    by (auto simp: scheduled_def on_decision_minute_def get_runtime_requirements_def requirements_table_def
        default_requirements_def available_frames_def)
qed

definition sample_hour_bar :: closed_bar where
  "sample_hour_bar = bar_of_candle (step_minute 60 rising 1 0 119) ''h''"

theorem right_tail_clock_hides_nothing_witness:
  "scheduled ''right_tail_trend_v1'' (RightTailTrend sample_right_tail_config) sample_hour_bar
     (get_runtime_requirements ''right_tail_trend_v1'') (Some [(''1h'', 2)]) = Inr True \<and>
   frames_ready ''right_tail_trend_v1'' sample_hour_minutes [(''1h'', 2)] = Inr True"
proof -
  obtain s where run: "generate_right_tail_trend_intents sample_log sample_hour_minutes (Some (RightTailTrend sample_right_tail_config)) = Inr [s]"
    and ts: "i_decision_ts_ms s = 7199999" using sample_right_tail_run by blast
  have "complete_frame_requirements ''right_tail_trend_v1'' (RightTailTrend sample_right_tail_config) = Inr [(''1h'', 2)]"
    by (simp add: sample_trend_fields)
  moreover have "b_close_time_ms sample_hour_bar = i_decision_ts_ms s"
    by (simp add: ts sample_hour_bar_def bar_of_candle_def step_minute_def)
  ultimately show ?thesis
    using right_tail_clock_hides_nothing [OF run, of s sample_hour_bar "[(''1h'', 2)]"] by simp
qed

text \<open>
  The right-tail sleeve does not look ahead: minutes that arrive after a history leave every
  intent computed from it in place and only append new ones.
\<close>

theorem right_tail_no_lookahead:
  assumes "canonical_candles (past @ future) (Some ''1m'') = Inr (past @ future)"
    and "generate_right_tail_trend_intents c_log (past @ future) config = Inr zs"
  shows "\<exists>as bs. generate_right_tail_trend_intents c_log past config = Inr as \<and> zs = as @ bs"
  using assms by (rule right_tail_causal)

theorem right_tail_no_lookahead_witness:
  "\<exists>s as bs. generate_right_tail_trend_intents sample_log (step_minutes 60 rising 1 0 60) (Some (RightTailTrend sample_right_tail_config)) = Inr as \<and>
     generate_right_tail_trend_intents sample_log sample_hour_minutes (Some (RightTailTrend sample_right_tail_config)) = Inr [s] \<and>
     [s] = as @ bs"
proof -
  let ?later = "drop 60 sample_hour_minutes"
  have split: "step_minutes 60 rising 1 0 60 @ ?later = sample_hour_minutes" by (rule step_minutes_split) simp
  have "canonical_candles sample_hour_minutes (Some ''1m'') = Inr sample_hour_minutes" by (rule step_canonical)
  then show ?thesis
    using sample_right_tail_run right_tail_no_lookahead [of "step_minutes 60 rising 1 0 60" ?later sample_log] unfolding split by blast
qed

end
