(* ===== verification/RegimeAligned.thy ===== *)
theory RegimeAligned
  imports RightTail
begin

section \<open>The regime filter on top of it (sleeves/regime\_aligned\_right\_tail.py)\<close>

text \<open>
  The right-tail intents, kept only when the last closed four-hour frame is on the same side of its moving average.
\<close>

definition regime_ms :: int where
  "regime_ms = 14400000"

definition regime_number :: "pyfloat \<Rightarrow> string result" where
  "regime_number = evidence_number ''regime evidence must be finite''"

text \<open>\<open>(close_time_ms, close, moving_average)\<close>.\<close>

type_synonym regime_state = "int \<times> pyfloat \<times> pyfloat"

definition regime_state :: "int \<Rightarrow> candle list \<Rightarrow> nat \<Rightarrow> regime_state result" where
  "regime_state sma_bars segment index =
     rmap (\<lambda>moving_average. (c_close_time_ms (segment ! index), c_close (segment ! index), moving_average))
       (close_mean (window segment index sma_bars) sma_bars)"

definition regime_segment :: "int \<Rightarrow> candle list \<Rightarrow> regime_state list result" where
  "regime_segment sma_bars segment =
     extend_all (\<lambda>index. rmap (\<lambda>state. [state]) (regime_state sma_bars segment index)) [nat (sma_bars - 1)..<length segment]"

definition regime_states :: "candle list \<Rightarrow> int \<Rightarrow> regime_state list result" where
  "regime_states rows sma_bars = extend_all (regime_segment sma_bars) (segments regime_ms rows)"

fun regime_allows :: "side \<Rightarrow> pyfloat \<Rightarrow> pyfloat \<Rightarrow> bool" where
  "regime_allows LONG close moving_average = fless moving_average close"
| "regime_allows SHORT close moving_average = fless close moving_average"
| "regime_allows FLAT close moving_average = False"

text \<open>\<open>states[bisect_right(state_times, decision_ts_ms) - 1]\<close>, unless it is missing or four hours old.\<close>

definition current_regime :: "regime_state list \<Rightarrow> int \<Rightarrow> regime_state option" where
  "current_regime states decision_ts_ms =
     (let state_index = int (bisect_right (map fst states) decision_ts_ms) - 1 in
      if state_index < 0 then None
      else let state = states ! nat state_index; age_ms = decision_ts_ms - fst state in
        if age_ms < 0 \<or> regime_ms \<le> age_ms then None else Some state)"

text \<open>\<open>dict(base.metadata)[key]\<close>.\<close>

definition metadata_value :: "sleeve_intent \<Rightarrow> string \<Rightarrow> string result" where
  "metadata_value base key =
     (case map_of (rev (i_metadata base)) key of None \<Rightarrow> Inl (KeyError key) | Some v \<Rightarrow> Inr v)"

definition regime_feature_hash :: "regime_aligned_config \<Rightarrow> sleeve_intent \<Rightarrow> regime_state \<Rightarrow> string result" where
  "regime_feature_hash c base state =
     (case state of (regime_ts_ms, regime_close, regime_sma) \<Rightarrow>
        rbind (metadata_value base ''feature_hash'') (\<lambda>base_hash.
        rbind (regime_number regime_close) (\<lambda>close_text.
        rbind (regime_number regime_sma) (\<lambda>sma_text.
          Inr (json_sha256 (JObj
            [(''base_feature_hash'', JStr base_hash),
             (''base_intent_id'', JStr (intent_id base)),
             (''config_sha256'', JStr (config_fingerprint (RegimeAlignedRightTail c))),
             (''decision_ts_ms'', JInt (i_decision_ts_ms base)),
             (''regime_close'', JStr close_text),
             (''regime_close_ts_ms'', JInt regime_ts_ms),
             (''regime_sma'', JStr sma_text),
             (''regime_sma_bars'', JInt (ra_regime_sma_bars c)),
             (''side'', JStr (side_value (i_side base))),
             (''strategy_version'', JStr ''regime_aligned_right_tail_v1''),
             (''symbol'', JStr (i_symbol base))]))))))"

definition regime_metadata ::
  "regime_aligned_config \<Rightarrow> sleeve_intent \<Rightarrow> regime_state \<Rightarrow> string \<Rightarrow> (string \<times> string) list result" where
  "regime_metadata c base state feature_hash =
     (case state of (regime_ts_ms, regime_close, regime_sma) \<Rightarrow>
        rbind (metadata_value base ''atr'') (\<lambda>atr.
        rbind (metadata_value base ''feature_hash'') (\<lambda>base_hash.
        rbind (regime_number regime_close) (\<lambda>close_text.
        rbind (regime_number regime_sma) (\<lambda>sma_text.
        rbind (metadata_value base ''trend_score'') (\<lambda>trend_score.
          Inr
            [(''atr'', atr),
             (''base_config_sha256'', config_fingerprint (RightTailTrend (base_config c))),
             (''base_feature_hash'', base_hash),
             (''base_intent_id'', intent_id base),
             (''config_sha256'', config_fingerprint (RegimeAlignedRightTail c)),
             (''decision_clock'', ''utc_epoch_aligned''),
             (''feature_hash'', feature_hash),
             (''regime_close'', close_text),
             (''regime_close_ts_ms'', str_int regime_ts_ms),
             (''regime_sma'', sma_text),
             (''regime_sma_bars'', str_int (ra_regime_sma_bars c)),
             (''regime_timeframe'', ''4h''),
             (''strategy_version'', ''regime_aligned_right_tail_v1''),
             (''trend_score'', trend_score)]))))))"

definition regime_intent :: "regime_aligned_config \<Rightarrow> regime_state \<Rightarrow> sleeve_intent \<Rightarrow> sleeve_intent result" where
  "regime_intent c state base =
     rbind (regime_feature_hash c base state) (\<lambda>feature_hash.
     rbind (regime_metadata c base state feature_hash) (\<lambda>metadata.
       make_sleeve_intent
         \<lparr>i_sleeve_id = ''regime_aligned_right_tail_v1'', i_symbol = i_symbol base, i_side = i_side base,
          i_decision_ts_ms = i_decision_ts_ms base, i_entry_eligible_ts_ms = i_entry_eligible_ts_ms base,
          i_entry_expires_ts_ms = i_entry_expires_ts_ms base, i_reference_price = i_reference_price base,
          i_signal_strength = i_signal_strength base, i_gross_reward_bps = i_gross_reward_bps base,
          i_exit_plan = i_exit_plan base, i_metadata = metadata\<rparr>))"

text \<open>One iteration of the loop over the base intents.\<close>

definition regime_accept :: "regime_aligned_config \<Rightarrow> regime_state list \<Rightarrow> sleeve_intent \<Rightarrow> sleeve_intent list result" where
  "regime_accept c states base =
     (case current_regime states (i_decision_ts_ms base) of
        None \<Rightarrow> Inr []
      | Some state \<Rightarrow>
          if \<not> regime_allows (i_side base) (fst (snd state)) (snd (snd state)) then Inr []
          else rmap (\<lambda>i. [i]) (regime_intent c state base))"

definition regime_settings :: "strategy_config option \<Rightarrow> regime_aligned_config result" where
  "regime_settings config =
     (case config of
        None \<Rightarrow> make_regime_aligned regime_aligned_default
      | Some (RegimeAlignedRightTail c) \<Rightarrow> Inr c
      | Some _ \<Rightarrow> Inl (ValueError ''config must be a RegimeAlignedRightTailConfig or None''))"

definition generate_regime_aligned_right_tail_intents ::
  "(pyfloat \<Rightarrow> pyfloat) \<Rightarrow> candle list \<Rightarrow> strategy_config option \<Rightarrow> sleeve_intent list result" where
  "generate_regime_aligned_right_tail_intents c_log candles config =
     rbind (regime_settings config) (\<lambda>c.
     rbind (canonical_candles candles (Some ''1m'')) (\<lambda>ordered.
     rbind (make_right_tail (base_config c)) (\<lambda>base_config.
     rbind (generate_right_tail_trend_intents c_log ordered (Some (RightTailTrend base_config))) (\<lambda>base_intents.
     rbind (aggregate ordered ''4h'') (\<lambda>four_hour.
     rbind (regime_states four_hour (ra_regime_sma_bars c)) (\<lambda>states.
       extend_all (regime_accept c states) base_intents))))))"

subsection \<open>The state that applies\<close>

lemma positions_subseq: "subseq (positions start segs) (positions 0 segs)"
proof (induction segs)
  case (Cons seg segs)
  have "[start..<length seg] = drop start [0..<length seg]" by simp
  then have "subseq (map (Pair seg) [start..<length seg]) (map (Pair seg) [0..<length seg])"
    by (metis suffix_drop suffix_imp_subseq subseq_map)
  with Cons list_emb_append_mono show ?case by (simp add: positions_def list_emb_append_mono)
qed (simp add: positions_def)

lemma regime_states_spec:
  assumes "regime_states rows sma_bars = Inr states"
  shows "list_all2 (\<lambda>(seg, i) state. regime_state sma_bars seg i = Inr state)
    (positions (nat (sma_bars - 1)) (segments regime_ms rows)) states"
proof -
  let ?at = "\<lambda>p. case p of (seg, i) \<Rightarrow> regime_state sma_bars seg i"
  from assms have "extend_all (\<lambda>p. rmap (\<lambda>state. [state]) (?at p)) (positions (nat (sma_bars - 1)) (segments regime_ms rows)) = Inr states"
    by (simp add: regime_states_def regime_segment_def [abs_def] extend_all_positions split_def)
  from extend_all_single [OF this] show ?thesis by (simp add: split_def)
qed

lemma regime_state_time: "regime_state n seg i = Inr st \<Longrightarrow> fst st = c_close_time_ms (seg ! i)"
  by (auto simp: regime_state_def rmap_Inr_iff)

lemma regime_times_apart:
  assumes "aggregate xs tf = Inr rows" "regime_states rows n = Inr states"
  shows "sorted_wrt (\<lambda>a b. fst a + regime_ms \<le> fst b) states"
proof -
  let ?ps = "positions (nat (n - 1)) (segments regime_ms rows)"
  have sorted: "sorted_wrt (\<lambda>p q. c_open_time_ms (row_at p) < c_open_time_ms (row_at q)) ?ps"
    using positions_subseq positions_sorted [OF assms(1)] by (rule sorted_wrt_subseq)
  have aligned: "row_aligned regime_ms (seg ! i)" if "(seg, i) \<in> set ?ps" for seg i
    using position_aligned [OF that] by blast
  have "list_all2 (\<lambda>p st. True \<and> fst st = c_open_time_ms (row_at p) + (regime_ms - 1) \<and> c_open_time_ms (row_at p) mod regime_ms = 0) ?ps states"
    unfolding list_all2_conv_all_nth
  proof (intro conjI allI impI)
    show "length ?ps = length states" using regime_states_spec [OF assms(2)] by (rule list_all2_lengthD)
    fix k assume k: "k < length ?ps"
    obtain seg i where p: "?ps ! k = (seg, i)" by fastforce
    with nth_mem [OF k] have al: "row_aligned regime_ms (seg ! i)" using aligned by simp
    have "regime_state n seg i = Inr (states ! k)" using list_all2_nthD [OF regime_states_spec [OF assms(2)] k] p by simp
    then have "fst (states ! k) = c_close_time_ms (seg ! i)" by (rule regime_state_time)
    with al show "fst (states ! k) = c_open_time_ms (row_at (?ps ! k)) + (regime_ms - 1)"
      "c_open_time_ms (row_at (?ps ! k)) mod regime_ms = 0" by (simp_all add: p row_aligned_def)
  qed simp
  from outputs_on_grid [OF sorted this] show ?thesis by (simp add: regime_ms_def)
qed

text \<open>The state found by bisection is the one that closed at most four hours ago.\<close>

lemma current_regime_iff:
  assumes apart: "sorted_wrt (\<lambda>a b. fst a + regime_ms \<le> fst b) states"
  shows "current_regime states t = Some st \<longleftrightarrow> st \<in> set states \<and> fst st \<le> t \<and> t < fst st + regime_ms"
proof -
  have sorted: "sorted (map fst states)"
    unfolding sorted_map by (rule sorted_wrt_mono_rel [OF _ apart]) (auto simp: regime_ms_def)
  let ?known = "filter (\<lambda>st. fst st \<le> t) states"
  let ?n = "bisect_right (map fst states) t"
  have known: "take ?n states = ?known" by (rule take_bisect_right [OF sorted])
  have le: "?n \<le> length states" using bisect_right_le_length [of "map fst states" t] by simp
  have found: "current_regime states t = (if ?known = [] then None else if regime_ms \<le> t - fst (last ?known) then None else Some (last ?known))"
  proof (cases ?n)
    case 0
    then have "?known = []" using known by simp
    with 0 show ?thesis by (simp add: current_regime_def)
  next
    case (Suc k)
    then have "last ?known = states ! k" "?known \<noteq> []" using le by (simp_all flip: known add: take_Suc_conv_app_nth)
    moreover have "fst (states ! k) \<le> t" using last_in_set [OF calculation(2)] calculation(1) by simp
    ultimately show ?thesis using Suc by (auto simp: current_regime_def Let_def)
  qed
  show ?thesis
  proof
    assume r: "current_regime states t = Some st"
    then have "?known \<noteq> []" "st = last ?known" "t < fst st + regime_ms" by (auto simp: found split: if_splits)
    then have "st \<in> set ?known" using last_in_set by metis
    with \<open>t < fst st + regime_ms\<close> show "st \<in> set states \<and> fst st \<le> t \<and> t < fst st + regime_ms" by auto
  next
    assume st: "st \<in> set states \<and> fst st \<le> t \<and> t < fst st + regime_ms"
    then have mem: "st \<in> set ?known" by simp
    then have ne: "?known \<noteq> []" by force
    have "last ?known = st"
    proof (rule ccontr)
      assume other: "last ?known \<noteq> st"
      from ne have split: "?known = butlast ?known @ [last ?known]" by simp
      with mem other have "st \<in> set (butlast ?known)" by (metis Un_iff empty_iff empty_set insertE list.simps(15) set_append)
      moreover have "sorted_wrt (\<lambda>a b. fst a + regime_ms \<le> fst b) (butlast ?known @ [last ?known])"
        using apart by (simp flip: split add: sorted_wrt_filter)
      ultimately have "fst st + regime_ms \<le> fst (last ?known)" by (auto simp: sorted_wrt_append)
      moreover have "fst (last ?known) \<le> t" using last_in_set [OF ne] by simp
      ultimately show False using st by simp
    qed
    with ne st show "current_regime states t = Some st" by (simp add: found)
  qed
qed

subsection \<open>The filter as a specification\<close>

text \<open>
  A base intent is supported by a four-hour frame that closed at most four hours before its decision, ends a gap-free
  run of enough frames, and closed on the intent's side of the mean of these frames.
\<close>

definition frame_supports :: "regime_aligned_config \<Rightarrow> sleeve_intent \<Rightarrow> candle list \<times> nat \<Rightarrow> bool" where
  "frame_supports c base p \<longleftrightarrow>
     (let (seg, i) = p; row = seg ! i in
      c_close_time_ms row \<le> i_decision_ts_ms base \<and> i_decision_ts_ms base < c_close_time_ms row + regime_ms \<and>
      (case close_mean (window seg i (ra_regime_sma_bars c)) (ra_regime_sma_bars c) of
         Inl _ \<Rightarrow> False | Inr moving_average \<Rightarrow> regime_allows (i_side base) (c_close row) moving_average))"

definition regime_supports :: "regime_aligned_config \<Rightarrow> candle list \<Rightarrow> sleeve_intent \<Rightarrow> bool" where
  "regime_supports c four_hour base \<longleftrightarrow>
     list_ex (frame_supports c base) (positions (nat (ra_regime_sma_bars c - 1)) (segments regime_ms four_hour))"

text \<open>The filtered intent trades exactly what the base intent trades.\<close>

definition same_trade :: "sleeve_intent \<Rightarrow> sleeve_intent \<Rightarrow> bool" where
  "same_trade a b \<longleftrightarrow>
     i_symbol a = i_symbol b \<and> i_side a = i_side b \<and> i_decision_ts_ms a = i_decision_ts_ms b \<and>
     i_entry_eligible_ts_ms a = i_entry_eligible_ts_ms b \<and> i_entry_expires_ts_ms a = i_entry_expires_ts_ms b \<and>
     i_reference_price a = i_reference_price b \<and> i_signal_strength a = i_signal_strength b \<and>
     i_gross_reward_bps a = i_gross_reward_bps b \<and> i_exit_plan a = i_exit_plan b"

lemma right_tail_made:
  assumes "generate_right_tail_trend_intents c_log candles config = Inr zs" "s \<in> set zs"
  shows "\<exists>f. make_sleeve_intent f = Inr s"
proof -
  from assms obtain c hourly where "extend_all (right_tail_segment c_log c) (segments sleeve_hour_ms hourly) = Inr zs"
    by (auto simp: right_tail_run)
  from extend_all_mem [OF this assms(2)] obtain seg out where "right_tail_segment c_log c seg = Inr out" "s \<in> set out" by blast
  then obtain vs where "extend_all (right_tail_row c_log c seg vs) [0..<length seg] = Inr out"
    by (auto simp: right_tail_segment_def rbind_Inr_iff)
  from extend_all_mem [OF this \<open>s \<in> set out\<close>] obtain i one where one: "right_tail_row c_log c seg vs i = Inr one" "s \<in> set one" by blast
  then have ne: "one \<noteq> []" by auto
  from one(1) ne obtain measured where "right_tail_trade c (seg ! i) measured (vs ! i) = Inr one"
    by (auto simp: right_tail_row_def Let_def rbind_Inr_iff split: if_splits)
  from this ne show ?thesis
  proof (rule right_tail_trade_cases)
    fix sd score stop target s' assume "right_tail_intent c (seg ! i) sd (vs ! i) score stop target = Inr s'" "one = [s']"
    with one(2) show ?thesis unfolding right_tail_intent_def rbind_Inr_iff by auto
  qed
qed

lemma regime_intent_same_trade:
  assumes base: "make_sleeve_intent f = Inr base" and run: "regime_intent c state base = Inr s"
  shows "same_trade base s \<and> i_sleeve_id s = ''regime_aligned_right_tail_v1'' \<and> sleeve_intent_wf s"
proof -
  from run obtain g where g: "make_sleeve_intent g = Inr s" and id: "i_sleeve_id g = ''regime_aligned_right_tail_v1''"
    and same: "i_symbol g = i_symbol base" "i_side g = i_side base" "i_decision_ts_ms g = i_decision_ts_ms base"
      "i_entry_eligible_ts_ms g = i_entry_eligible_ts_ms base" "i_entry_expires_ts_ms g = i_entry_expires_ts_ms base"
      "i_reference_price g = i_reference_price base" "i_signal_strength g = i_signal_strength base"
      "i_gross_reward_bps g = i_gross_reward_bps base" "i_exit_plan g = i_exit_plan base"
    unfolding regime_intent_def rbind_Inr_iff by auto
  have "s = with_intent_id (normalized_intent g)" "base = with_intent_id (normalized_intent f)"
    using g base by (simp_all add: make_sleeve_intent_def validate_Inr_iff)
  then have "same_trade base s" "i_sleeve_id s = ''regime_aligned_right_tail_v1''"
    using same id
    by (simp_all add: same_trade_def with_intent_id_def normalized_intent_def intent_fields.extend_def normalized_float_def)
  with make_sleeve_intent_wf [OF g] show ?thesis by blast
qed

lemma regime_admits:
  assumes frames: "aggregate xs tf = Inr four_hour" and states: "regime_states four_hour (ra_regime_sma_bars c) = Inr states"
  shows "regime_supports c four_hour base \<longleftrightarrow>
    (\<exists>state. current_regime states (i_decision_ts_ms base) = Some state \<and> regime_allows (i_side base) (fst (snd state)) (snd (snd state)))"
proof -
  let ?ps = "positions (nat (ra_regime_sma_bars c - 1)) (segments regime_ms four_hour)"
  note spec = regime_states_spec [OF states]
  have len: "length ?ps = length states" using spec by (rule list_all2_lengthD)
  have at: "frame_supports c base (?ps ! k) \<longleftrightarrow> fst (states ! k) \<le> i_decision_ts_ms base \<and>
      i_decision_ts_ms base < fst (states ! k) + regime_ms \<and> regime_allows (i_side base) (fst (snd (states ! k))) (snd (snd (states ! k)))"
    if k: "k < length states" for k
  proof -
    obtain seg i where p: "?ps ! k = (seg, i)" by fastforce
    have "regime_state (ra_regime_sma_bars c) seg i = Inr (states ! k)" using list_all2_nthD2 [OF spec k] p by simp
    then show ?thesis by (auto simp: p frame_supports_def regime_state_def rmap_Inr_iff Let_def)
  qed
  have "regime_supports c four_hour base \<longleftrightarrow> (\<exists>k < length states. frame_supports c base (?ps ! k))"
    by (simp add: regime_supports_def list_ex_length len)
  also have "\<dots> \<longleftrightarrow> list_ex (\<lambda>state. fst state \<le> i_decision_ts_ms base \<and> i_decision_ts_ms base < fst state + regime_ms \<and>
      regime_allows (i_side base) (fst (snd state)) (snd (snd state))) states"
    using at by (auto simp: list_ex_length)
  finally show ?thesis using current_regime_iff [OF regime_times_apart [OF frames states]] unfolding list_ex_iff by blast
qed

lemma extend_all_filter:
  assumes "extend_all f xs = Inr zs"
    and "\<And>x ys. x \<in> set xs \<Longrightarrow> f x = Inr ys \<Longrightarrow> if Q x then \<exists>y. ys = [y] \<and> P x y else ys = []"
  shows "list_all2 P (filter Q xs) zs"
  using assms
proof (induction xs arbitrary: zs)
  case (Cons x xs)
  from Cons.prems(1) obtain ys ws where f: "f x = Inr ys" and r: "extend_all f xs = Inr ws" and zs: "zs = ys @ ws"
    by (auto simp: extend_all_Cons rbind_Inr_iff rmap_Inr_iff)
  have "list_all2 P (filter Q xs) ws" by (rule Cons.IH [OF r]) (rule Cons.prems(2), simp_all)
  moreover have "if Q x then \<exists>y. ys = [y] \<and> P x y else ys = []" using Cons.prems(2) [OF _ f] by simp
  ultimately show ?case by (auto simp: zs split: if_splits)
qed simp

lemma regime_accept_filters:
  assumes frames: "aggregate xs tf = Inr four_hour" and states: "regime_states four_hour (ra_regime_sma_bars c) = Inr states"
    and run: "extend_all (regime_accept c states) base_intents = Inr zs"
    and made: "\<And>base. base \<in> set base_intents \<Longrightarrow> \<exists>f. make_sleeve_intent f = Inr base"
  shows "list_all2 (\<lambda>base s. same_trade base s \<and> i_sleeve_id s = ''regime_aligned_right_tail_v1'' \<and> sleeve_intent_wf s)
    (filter (regime_supports c four_hour) base_intents) zs"
  using run
proof (rule extend_all_filter)
  fix base out assume base: "base \<in> set base_intents" and out: "regime_accept c states base = Inr out"
  obtain f where f: "make_sleeve_intent f = Inr base" using made [OF base] by blast
  note admits = regime_admits [OF frames states, of base]
  show "if regime_supports c four_hour base then
      \<exists>s. out = [s] \<and> same_trade base s \<and> i_sleeve_id s = ''regime_aligned_right_tail_v1'' \<and> sleeve_intent_wf s else out = []"
  proof (cases "current_regime states (i_decision_ts_ms base)")
    case None
    with out admits show ?thesis by (simp add: regime_accept_def)
  next
    case (Some state)
    then show ?thesis using out admits regime_intent_same_trade [OF f, of c state]
      by (cases "regime_allows (i_side base) (fst (snd state)) (snd (snd state))") (auto simp: regime_accept_def rmap_Inr_iff)
  qed
qed

lemma regime_aligned_run:
  "generate_regime_aligned_right_tail_intents c_log candles config = Inr zs \<longleftrightarrow>
     (\<exists>c ordered base_intents four_hour states. regime_settings config = Inr c \<and>
        canonical_candles candles (Some ''1m'') = Inr ordered \<and> make_right_tail (base_config c) = Inr (base_config c) \<and>
        generate_right_tail_trend_intents c_log ordered (Some (RightTailTrend (base_config c))) = Inr base_intents \<and>
        aggregate ordered ''4h'' = Inr four_hour \<and> regime_states four_hour (ra_regime_sma_bars c) = Inr states \<and>
        extend_all (regime_accept c states) base_intents = Inr zs)"
  by (auto simp: generate_regime_aligned_right_tail_intents_def rbind_Inr_iff make_right_tail_def validate_Inr_iff)

lemma regime_filter_run:
  assumes "generate_regime_aligned_right_tail_intents c_log candles (Some (RegimeAlignedRightTail c)) = Inr zs"
  shows "\<exists>ordered base_intents four_hour. canonical_candles candles (Some ''1m'') = Inr ordered \<and>
    generate_right_tail_trend_intents c_log ordered (Some (RightTailTrend (base_config c))) = Inr base_intents \<and>
    aggregate ordered ''4h'' = Inr four_hour \<and>
    list_all2 (\<lambda>base s. same_trade base s \<and> i_sleeve_id s = ''regime_aligned_right_tail_v1'' \<and> sleeve_intent_wf s)
      (filter (regime_supports c four_hour) base_intents) zs"
proof -
  from assms obtain ordered base_intents four_hour states where run: "canonical_candles candles (Some ''1m'') = Inr ordered"
    "generate_right_tail_trend_intents c_log ordered (Some (RightTailTrend (base_config c))) = Inr base_intents"
    "aggregate ordered ''4h'' = Inr four_hour" "regime_states four_hour (ra_regime_sma_bars c) = Inr states"
    "extend_all (regime_accept c states) base_intents = Inr zs" by (auto simp: regime_aligned_run regime_settings_def)
  from regime_accept_filters [OF run(3-5)] right_tail_made [OF run(2)] have
    "list_all2 (\<lambda>base s. same_trade base s \<and> i_sleeve_id s = ''regime_aligned_right_tail_v1'' \<and> sleeve_intent_wf s)
      (filter (regime_supports c four_hour) base_intents) zs" by blast
  with run(1-3) show ?thesis by blast
qed

subsection \<open>A concrete week for the witnesses\<close>

definition sample_regime_config :: regime_aligned_config where
  "sample_regime_config =
    \<lparr>ra_trend_lookback_hours = 1, ra_minimum_trend_score = Num (1 / 2), ra_atr_period_hours = 1,
     ra_stop_atr_multiple = Num 2, ra_target_reward_to_risk = Num 4, ra_max_hold_hours = 72,
     ra_decision_interval_hours = 24, ra_intent_valid_hours = 1, ra_regime_sma_bars = 2\<rparr>"

text \<open>Seven four-hour frames; the price doubles in the sixth and rises by half in the seventh.\<close>

definition breakout :: "nat \<Rightarrow> rat" where
  "breakout k = (if k < 5 then 100 else if k = 5 then 200 else 300)"

abbreviation breakout_minutes :: "candle list" where
  "breakout_minutes \<equiv> step_minutes 240 breakout 1 0 1680"

definition breakout_hour :: "nat \<Rightarrow> candle" where
  "breakout_hour = step_frame ''1h'' 60 (\<lambda>h. breakout (h div 4)) 1 0"

definition breakout_frame :: "nat \<Rightarrow> candle" where
  "breakout_frame = step_frame ''4h'' 240 breakout 1 0"

lemma breakout_hours: "aggregate breakout_minutes ''1h'' = Inr (map breakout_hour [0..<28])"
proof -
  have "breakout_minutes = step_minutes 60 (\<lambda>h. breakout (h div 4)) 1 0 (60 * 28)"
    by (simp add: step_minutes_def step_minute_def div_mult2_eq [of _ 60 4, simplified])
  then show ?thesis using step_aggregate [of "''1h''" 60 "\<lambda>h. breakout (h div 4)" 1 0 28]
    by (simp add: timeframe_ms_def timeframe_table_def step_market_def breakout_def breakout_hour_def)
qed

lemma breakout_frames: "aggregate breakout_minutes ''4h'' = Inr (map breakout_frame [0..<7])"
  using step_aggregate [of "''4h''" 240 breakout 1 0 7]
  by (simp add: timeframe_ms_def timeframe_table_def step_market_def breakout_def breakout_frame_def)

lemma breakout_fields:
  "rt_minimum_trend_score (base_config sample_regime_config) = Num (1 / 2)" "rt_max_hold_hours (base_config sample_regime_config) = 72"
  "rt_intent_valid_hours (base_config sample_regime_config) = 1" "rt_trend_lookback_hours (base_config sample_regime_config) = 1"
  "rt_atr_period_hours (base_config sample_regime_config) = 1" "rt_decision_interval_hours (base_config sample_regime_config) = 24"
  "ra_regime_sma_bars sample_regime_config = 2" "ra_decision_interval_hours sample_regime_config = 24"
  by (simp_all add: base_config_def sample_regime_config_def)

lemma breakout_arithmetic:
  "fsub (Num 101) (Num 99) = Num 2" "fmax (Num 2) [fabs (fsub (Num 101) (Num 100)), fabs (fsub (Num 99) (Num 100))] = Num 2"
  "fmax (fsub (Num 201) (Num 199)) [fabs (fsub (Num 201) (Num 100)), fabs (fsub (Num 199) (Num 100))] = Num 101"
  "fmax (fsub (Num 201) (Num 199)) [fabs (fsub (Num 201) (Num 200)), fabs (fsub (Num 199) (Num 200))] = Num 2"
  "fmax (fsub (Num 301) (Num 299)) [fabs (fsub (Num 301) (Num 200)), fabs (fsub (Num 299) (Num 200))] = Num 101"
  "fmax (fsub (Num 301) (Num 299)) [fabs (fsub (Num 301) (Num 300)), fabs (fsub (Num 299) (Num 300))] = Num 2"
  "fsum [Num 2] = Inr (Num 2)" "py_div (Num 2) (float_of_int 1) = Inr (Num 2)"
  "py_div (fadd (fmul (Num 2) (float_of_int 0)) (Num 2)) (float_of_int 1) = Inr (Num 2)"
  "py_div (fadd (fmul (Num 2) (float_of_int 0)) (Num 101)) (float_of_int 1) = Inr (Num 101)"
  "py_div (fadd (fmul (Num 101) (float_of_int 0)) (Num 2)) (float_of_int 1) = Inr (Num 2)"
  "py_div (fadd (fmul (Num 101) (float_of_int 0)) (Num 101)) (float_of_int 1) = Inr (Num 101)"
  by code_simp+

lemma breakout_range:
  assumes "h < 28"
  shows "true_range (map breakout_hour [0..<28]) h = (if h = 20 \<or> h = 24 then Num 101 else Num 2)"
proof (cases "h = 0")
  case True
  then show ?thesis by (simp add: true_range_def breakout_hour_def step_frame_def breakout_def breakout_arithmetic Let_def)
next
  case False
  then obtain g where h: "h = Suc g" by (cases h) auto
  consider "Suc g < 20" | "g = 19" | "19 < g" "g < 23" | "g = 23" | "23 < g" by linarith
  then have "true_range (map breakout_hour [0..<28]) (Suc g) = (if Suc g = 20 \<or> Suc g = 24 then Num 101 else Num 2)"
  proof cases
    case 1
    then have "Suc g div 4 < 5" "g div 4 < 5" by linarith+
    with 1 assms show ?thesis
      by (simp add: h true_range_def breakout_hour_def step_frame_def breakout_def breakout_arithmetic Let_def)
  next
    case 3
    then have "Suc g div 4 = 5" "g div 4 = 5" by linarith+
    with 3 assms show ?thesis
      by (simp add: h true_range_def breakout_hour_def step_frame_def breakout_def breakout_arithmetic Let_def)
  next
    case 5
    then have "Suc g div 4 = 6" "g div 4 = 6" using assms h by linarith+
    with 5 assms show ?thesis
      by (simp add: h true_range_def breakout_hour_def step_frame_def breakout_def breakout_arithmetic Let_def)
  qed (simp_all add: true_range_def breakout_hour_def step_frame_def breakout_def breakout_arithmetic Let_def)
  then show ?thesis by (simp add: h)
qed

definition breakout_atr :: "nat \<Rightarrow> pyfloat" where
  "breakout_atr h = (if h = 20 \<or> h = 24 then Num 101 else Num 2)"

lemma breakout_loop:
  "a \<in> {Num 2, Num 101} \<Longrightarrow> set ranges \<subseteq> {Num 2, Num 101} \<Longrightarrow> wilder_loop 1 a ranges = Inr ranges"
proof (induction ranges arbitrary: a)
  case (Cons tr ranges)
  then have "py_div (fadd (fmul a (float_of_int 0)) tr) (float_of_int 1) = Inr tr"
    by (auto simp: breakout_arithmetic)
  with Cons show ?case by simp
qed simp

lemma breakout_average: "wilder_atr fsum true_range (map breakout_hour [0..<28]) 1 = Inr (map breakout_atr [0..<28])"
proof -
  have ranges: "map (true_range (map breakout_hour [0..<28])) [0..<28] = map breakout_atr [0..<28]"
    by (simp add: breakout_range breakout_atr_def del: upt_rec_numeral)
  have split: "map breakout_atr [0..<28] = Num 2 # map breakout_atr [1..<28]"
    by (simp add: upt_conv_Cons breakout_atr_def del: upt_rec_numeral)
  have "wilder_loop 1 (Num 2) (map breakout_atr [1..<28]) = Inr (map breakout_atr [1..<28])"
    by (rule breakout_loop) (auto simp: breakout_atr_def)
  then show ?thesis
    by (simp add: wilder_atr_def ranges split breakout_arithmetic Let_def del: upt_rec_numeral)
qed

lemma breakout_score: "trend_score sample_log (map breakout_hour [0..<28]) 24 1 = Inr (Some fone)"
proof -
  have "py_div (Num 300) (Num 200) = Inr (Num (3 / 2))" "py_log sample_log (Num (3 / 2)) = Inr (Num (1 / 2))" by code_simp+
  then have "log_returns sample_log (map breakout_hour [0..<28]) 24 1 = Inr [Num (1 / 2)]"
    by (simp add: log_returns_def breakout_hour_def step_frame_def breakout_def)
  then show ?thesis by (simp add: trend_score_def sample_squares half_is_root)
qed

definition breakout_trade :: "string \<Rightarrow> pyfloat \<Rightarrow> (string \<times> string) list \<Rightarrow> intent_fields" where
  "breakout_trade sleeve reward metadata =
    \<lparr>i_sleeve_id = sleeve, i_symbol = ''BTCUSDT'', i_side = LONG, i_decision_ts_ms = 89999999,
     i_entry_eligible_ts_ms = 90000000, i_entry_expires_ts_ms = 93599999, i_reference_price = Num 300,
     i_signal_strength = fone, i_gross_reward_bps = reward,
     i_exit_plan = \<lparr>stop_price = Num 98, target_price = Num 1108, max_holding_ms = 259200000,
       trailing_activation_price = None, trailing_distance = None\<rparr>,
     i_metadata = metadata\<rparr>"

abbreviation breakout_reward :: pyfloat where
  "breakout_reward \<equiv> fmul (fdiv (Num 808) (Num 300)) (Num 10000)"

lemma breakout_checks:
  "list_all (\<lambda>k. \<not> fst k) (intent_checks (breakout_trade ''right_tail_trend_v1'' breakout_reward
     [(''atr'', a), (''config_sha256'', b), (''decision_clock'', d), (''feature_hash'', e), (''strategy_version'', f), (''trend_score'', g)]))"
  "list_all (\<lambda>k. \<not> fst k) (intent_checks (breakout_trade ''regime_aligned_right_tail_v1'' (normalized_float breakout_reward)
     [(''atr'', a), (''base_config_sha256'', b), (''base_feature_hash'', d), (''base_intent_id'', e), (''config_sha256'', f),
      (''decision_clock'', g), (''feature_hash'', h), (''regime_close'', i), (''regime_close_ts_ms'', j), (''regime_sma'', k),
      (''regime_sma_bars'', l), (''regime_timeframe'', m), (''strategy_version'', n), (''trend_score'', q)]))"
  by code_simp+

lemma canonical_metadata_lookup:
  assumes "distinct (map fst md)"
  shows "map_of (rev (canonical_metadata md)) = map_of md"
proof -
  have "mset (map fst (rev (sort md))) = mset (map fst md)" by (simp flip: rev_map add: mset_map)
  then have "distinct (map fst (rev (sort md)))" using assms mset_eq_imp_distinct_iff by blast
  then show ?thesis using assms by (simp add: canonical_metadata_def map_of_inject_set)
qed

lemma breakout_arithmetic2:
  "right_tail_risk (base_config sample_regime_config) (Num 101) = Num 202" "right_tail_reward (base_config sample_regime_config) (Num 101) = Num 808"
  "py_div (Num 808) (Num 300) = Inr (fdiv (Num 808) (Num 300))"
  "bracket LONG (Num 300) (Num 202) (Num 808) = (Num 98, Num 1108)" "right_tail_side (base_config sample_regime_config) fone = Some LONG"
  "make_exit_plan \<lparr>stop_price = Num 98, target_price = Num 1108, max_holding_ms = 259200000,
     trailing_activation_price = None, trailing_distance = None\<rparr> =
   Inr \<lparr>stop_price = Num 98, target_price = Num 1108, max_holding_ms = 259200000,
     trailing_activation_price = None, trailing_distance = None\<rparr>"
  by code_simp+

definition breakout_evidence :: "string \<Rightarrow> (string \<times> string) list" where
  "breakout_evidence feature_hash =
    [(''atr'', format_17g (Num 101)), (''config_sha256'', config_fingerprint (RightTailTrend (base_config sample_regime_config))),
     (''decision_clock'', ''utc_epoch_aligned''), (''feature_hash'', feature_hash),
     (''strategy_version'', ''right_tail_trend_v1''), (''trend_score'', format_17g fone)]"

definition breakout_base :: "string \<Rightarrow> sleeve_intent" where
  "breakout_base feature_hash =
     with_intent_id (normalized_intent (breakout_trade ''right_tail_trend_v1'' breakout_reward (breakout_evidence feature_hash)))"

lemma breakout_usable: "usable (Num 101)" "usable (Num 300)" "usable (Num 98)" "usable (Num 1108)" "usable fone"
  by (simp_all add: usable_def)

lemma breakout_base_intent:
  "\<exists>h. right_tail_intent (base_config sample_regime_config) (breakout_hour 24) LONG (Num 101) fone (Num 98) (Num 1108) = Inr (breakout_base h)"
proof -
  have "right_tail_feature_hash (base_config sample_regime_config) (breakout_hour 24) LONG (Num 101) fone (Num 98) (Num 1108) \<noteq> Inl e" for e
    by (simp add: right_tail_feature_hash_def right_tail_number_def breakout_hour_def step_frame_def breakout_def breakout_usable)
  then obtain h where "right_tail_feature_hash (base_config sample_regime_config) (breakout_hour 24) LONG (Num 101) fone (Num 98) (Num 1108) = Inr h"
    by (meson sum.exhaust)
  then have "right_tail_intent (base_config sample_regime_config) (breakout_hour 24) LONG (Num 101) fone (Num 98) (Num 1108) = Inr (breakout_base h)"
    using breakout_checks(1) [of "format_17g (Num 101)" "config_fingerprint (RightTailTrend (base_config sample_regime_config))"
      "''utc_epoch_aligned''" h "''right_tail_trend_v1''" "format_17g fone"]
    by (simp add: right_tail_intent_def breakout_hour_def step_frame_def breakout_def breakout_arithmetic2 sample_right_tail_arithmetic
      right_tail_number_def breakout_usable make_sleeve_intent_def validate_Inr_iff breakout_fields sleeve_hour_ms_def
      breakout_base_def breakout_trade_def breakout_evidence_def)
  then show ?thesis by blast
qed

lemma breakout_base_fields:
  "i_symbol (breakout_base h) = ''BTCUSDT''" "i_side (breakout_base h) = LONG" "i_decision_ts_ms (breakout_base h) = 89999999"
  "i_entry_eligible_ts_ms (breakout_base h) = 90000000" "i_entry_expires_ts_ms (breakout_base h) = 93599999"
  "i_reference_price (breakout_base h) = Num 300" "i_signal_strength (breakout_base h) = fone"
  "i_gross_reward_bps (breakout_base h) = normalized_float breakout_reward"
  "i_exit_plan (breakout_base h) = \<lparr>stop_price = Num 98, target_price = Num 1108, max_holding_ms = 259200000,
     trailing_activation_price = None, trailing_distance = None\<rparr>"
proof -
  have "normalized_float (Num 300) = Num 300" "normalized_float fone = fone" by code_simp+
  then show "i_reference_price (breakout_base h) = Num 300" "i_signal_strength (breakout_base h) = fone"
    by (simp_all add: breakout_base_def normalized_intent_def breakout_trade_def)
qed (simp_all add: breakout_base_def normalized_intent_def breakout_trade_def)

lemma breakout_base_metadata:
  "metadata_value (breakout_base h) ''atr'' = Inr (format_17g (Num 101))" "metadata_value (breakout_base h) ''feature_hash'' = Inr h"
  "metadata_value (breakout_base h) ''trend_score'' = Inr (format_17g fone)"
proof -
  have "distinct (map fst (breakout_evidence h))" by (simp add: breakout_evidence_def)
  from canonical_metadata_lookup [OF this] have "metadata_value (breakout_base h) k =
      (case map_of (breakout_evidence h) k of None \<Rightarrow> Inl (KeyError k) | Some v \<Rightarrow> Inr v)" for k
    by (simp add: metadata_value_def breakout_base_def normalized_intent_def breakout_trade_def)
  then show "metadata_value (breakout_base h) ''atr'' = Inr (format_17g (Num 101))" "metadata_value (breakout_base h) ''feature_hash'' = Inr h"
    "metadata_value (breakout_base h) ''trend_score'' = Inr (format_17g fone)" by (simp_all add: breakout_evidence_def)
qed

lemma breakout_filtered: "\<exists>s. regime_intent sample_regime_config (86399999, Num 200, Num 150) (breakout_base h) = Inr s"
proof -
  have "usable (Num 200)" "usable (Num 150)" by (simp_all add: usable_def)
  then obtain u v where "regime_number (Num 200) = Inr u" "regime_number (Num 150) = Inr v"
    unfolding regime_number_def using usable_evidence by blast
  then show ?thesis
    using breakout_checks(2)
    by (auto simp: regime_intent_def regime_feature_hash_def regime_metadata_def breakout_base_fields
      breakout_base_metadata make_sleeve_intent_def validate_Inr_iff breakout_trade_def)
qed

lemma extend_all_nothing: "(\<And>x. x \<in> set xs \<Longrightarrow> f x = Inr []) \<Longrightarrow> extend_all f xs = Inr []"
  by (induction xs) (simp_all add: extend_all_Cons)

lemma breakout_right_tail:
  "\<exists>h. generate_right_tail_trend_intents sample_log breakout_minutes (Some (RightTailTrend (base_config sample_regime_config))) =
     Inr [breakout_base h]"
proof -
  let ?c = "base_config sample_regime_config" and ?rows = "map breakout_hour [0..<28]" and ?atrs = "map breakout_atr [0..<28]"
  obtain h where h: "right_tail_intent ?c (breakout_hour 24) LONG (Num 101) fone (Num 98) (Num 1108) = Inr (breakout_base h)"
    using breakout_base_intent by blast
  have close: "c_close (breakout_hour 24) = Num 300" "c_open_time_ms (breakout_hour k) = 3600000 * int k" for k
    by (simp_all add: breakout_hour_def step_frame_def breakout_def)
  have off: "right_tail_row sample_log ?c ?rows ?atrs k = Inr []" if "k < 28" "0 < k" "k \<noteq> 24" for k
  proof -
    have "3600000 * int k mod 86400000 = 3600000 * (int k mod 24)" using mult_mod_right [of 3600000 "int k" 24] by simp
    moreover have "int k mod 24 \<noteq> 0" using that by presburger
    ultimately have "3600000 * int k mod 86400000 \<noteq> 0" by simp
    then show ?thesis using that by (simp add: right_tail_row_def close breakout_fields sleeve_hour_ms_def Let_def del: upt_rec_numeral)
  qed
  have first: "right_tail_row sample_log ?c ?rows ?atrs 0 = Inr []"
    by (simp add: right_tail_row_def breakout_fields trend_score_def right_tail_trade_def Let_def del: upt_rec_numeral)
  have last: "right_tail_row sample_log ?c ?rows ?atrs 24 = Inr [breakout_base h]"
    using h by (simp add: right_tail_row_def breakout_fields breakout_score right_tail_trade_def close sleeve_hour_ms_def
      breakout_atr_def breakout_arithmetic2 breakout_usable Let_def del: upt_rec_numeral)
  have days: "[0..<28] = 0 # [1..<24] @ 24 # [25..<28]" by code_simp
  define step where "step = right_tail_row sample_log ?c ?rows ?atrs"
  have "extend_all step [1..<24] = Inr []" "extend_all step [25..<28] = Inr []"
    unfolding step_def by (rule extend_all_nothing; rule off; auto)+
  moreover have "step 0 = Inr []" "step 24 = Inr [breakout_base h]" unfolding step_def by (fact first, fact last)
  ultimately have "extend_all step [0..<28] = Inr [breakout_base h]"
    unfolding days by (simp only: extend_all_Cons extend_all_append rbind_simps rmap_simps append_Nil append_Nil2)
  then have "right_tail_segment sample_log ?c ?rows = Inr [breakout_base h]"
    by (simp add: right_tail_segment_def breakout_fields breakout_average step_def del: upt_rec_numeral)
  moreover have "segments sleeve_hour_ms ?rows = [?rows]"
    using step_segments [of 60 28 "''1h''" "\<lambda>h. breakout (h div 4)" 1 0] by (simp add: sleeve_hour_ms_def breakout_hour_def del: upt_rec_numeral)
  ultimately show ?thesis
    using breakout_hours step_canonical [of 240 breakout 1 0 1680]
    by (auto simp: right_tail_run right_tail_settings_def extend_all_Cons simp del: upt_rec_numeral)
qed

lemma breakout_states:
  "\<exists>states. regime_states (map breakout_frame [0..<7]) 2 = Inr states \<and> current_regime states 89999999 = Some (86399999, Num 200, Num 150)"
proof -
  let ?rows = "map breakout_frame [0..<7]"
  have "segments regime_ms ?rows = [?rows]"
    using step_segments [of 240 7 "''4h''" breakout 1 0] by (simp add: regime_ms_def breakout_frame_def del: upt_rec_numeral)
  then have run: "regime_states ?rows 2 = regime_segment 2 ?rows"
    by (cases "regime_segment 2 ?rows") (simp_all add: regime_states_def extend_all_Cons del: upt_rec_numeral)
  have mean: "close_mean (window ?rows k 2) 2 = rbind (fsum [c_close (breakout_frame (k - 1)), c_close (breakout_frame k)]) (\<lambda>t. py_div t (float_of_int 2))"
    if "1 \<le> k" "k < 7" for k
  proof -
    have "[Suc k - 2..<Suc k] = [k - 1, k]" using that by (auto simp: upt_rec)
    then show ?thesis using that by (simp add: window_of_upt close_mean_def del: upt_rec_numeral)
  qed
  have sums: "rbind (fsum [Num 100, Num 100]) (\<lambda>t. py_div t (float_of_int 2)) = Inr (Num 100)"
    "rbind (fsum [Num 100, Num 200]) (\<lambda>t. py_div t (float_of_int 2)) = Inr (Num 150)"
    "rbind (fsum [Num 200, Num 300]) (\<lambda>t. py_div t (float_of_int 2)) = Inr (Num 250)" by code_simp+
  have close: "c_close (breakout_frame k) = Num (breakout k)" "c_close_time_ms (breakout_frame k) = 14400000 * int k + 14399999" for k
    by (simp_all add: breakout_frame_def step_frame_def)
  have "regime_segment 2 ?rows = Inr
    [(28799999, Num 100, Num 100), (43199999, Num 100, Num 100), (57599999, Num 100, Num 100), (71999999, Num 100, Num 100),
     (86399999, Num 200, Num 150), (100799999, Num 300, Num 250)]"
  proof -
    have "[nat (2 - 1)..<length ?rows] = [1, 2, 3, 4, 5, 6]" by code_simp
    then show ?thesis
      by (simp only: regime_segment_def extend_all_Cons extend_all_Nil regime_state_def mean) (simp add: close breakout_def sums)
  qed
  moreover have "current_regime [(28799999, Num 100, Num 100), (43199999, Num 100, Num 100), (57599999, Num 100, Num 100),
      (71999999, Num 100, Num 100), (86399999, Num 200, Num 150), (100799999, Num 300, Num 250)] 89999999 = Some (86399999, Num 200, Num 150)"
    by code_simp
  ultimately show ?thesis using run by simp
qed

lemma breakout_run:
  "\<exists>s. generate_regime_aligned_right_tail_intents sample_log breakout_minutes (Some (RegimeAlignedRightTail sample_regime_config)) = Inr [s] \<and>
     i_decision_ts_ms s = 89999999"
proof -
  obtain h where base: "generate_right_tail_trend_intents sample_log breakout_minutes (Some (RightTailTrend (base_config sample_regime_config))) =
     Inr [breakout_base h]" using breakout_right_tail by blast
  obtain states where states: "regime_states (map breakout_frame [0..<7]) 2 = Inr states" "current_regime states 89999999 = Some (86399999, Num 200, Num 150)"
    using breakout_states by blast
  obtain s where s: "regime_intent sample_regime_config (86399999, Num 200, Num 150) (breakout_base h) = Inr s" using breakout_filtered by blast
  have "fless (Num 150) (Num 200)" by (simp add: fless_def)
  then have "extend_all (regime_accept sample_regime_config states) [breakout_base h] = Inr [s]"
    by (simp add: extend_all_Cons regime_accept_def breakout_base_fields states(2) s)
  moreover have "make_right_tail (base_config sample_regime_config) = Inr (base_config sample_regime_config)" by code_simp
  moreover have "canonical_candles breakout_minutes (Some ''1m'') = Inr breakout_minutes" by (rule step_canonical)
  ultimately have "generate_regime_aligned_right_tail_intents sample_log breakout_minutes (Some (RegimeAlignedRightTail sample_regime_config)) = Inr [s]"
    using base breakout_frames states(1) unfolding regime_aligned_run by (auto simp: regime_settings_def breakout_fields)
  moreover have "i_decision_ts_ms s = 89999999"
    using s by (auto simp: regime_intent_def normalized_intent_def rbind_Inr_iff breakout_base_fields dest!: make_sleeve_intent_Inr(1))
  ultimately show ?thesis by blast
qed

subsection \<open>Properties\<close>

lemma frame_position: "(seg, i) \<in> set (positions start (segments sz rows)) \<Longrightarrow> int start + 1 \<le> int (length rows)"
  using position_aligned [of seg i start sz rows] by (auto simp: positions_mem)

text \<open>
  Property C28: the regime-aligned sleeve is exactly a filter of the right-tail sleeve. It keeps the intents
  that the specification supports, in their order, trades them unchanged under its own name, and adds none.
\<close>

theorem regime_filter_exact:
  assumes "generate_regime_aligned_right_tail_intents c_log candles (Some (RegimeAlignedRightTail c)) = Inr zs"
  shows "\<exists>ordered base_intents four_hour. canonical_candles candles (Some ''1m'') = Inr ordered \<and>
    generate_right_tail_trend_intents c_log ordered (Some (RightTailTrend (base_config c))) = Inr base_intents \<and>
    aggregate ordered ''4h'' = Inr four_hour \<and>
    list_all2 (\<lambda>base s. same_trade base s \<and> i_sleeve_id s = ''regime_aligned_right_tail_v1'' \<and> sleeve_intent_wf s)
      (filter (regime_supports c four_hour) base_intents) zs"
  using assms by (rule regime_filter_run)

theorem regime_filter_exact_witness:
  "\<exists>base s. generate_right_tail_trend_intents sample_log breakout_minutes (Some (RightTailTrend (base_config sample_regime_config))) = Inr [base] \<and>
     generate_regime_aligned_right_tail_intents sample_log breakout_minutes (Some (RegimeAlignedRightTail sample_regime_config)) = Inr [s] \<and>
     regime_supports sample_regime_config (map breakout_frame [0..<7]) base \<and> same_trade base s"
proof -
  obtain s where run: "generate_regime_aligned_right_tail_intents sample_log breakout_minutes (Some (RegimeAlignedRightTail sample_regime_config)) = Inr [s]"
    using breakout_run by blast
  obtain h where base: "generate_right_tail_trend_intents sample_log breakout_minutes (Some (RightTailTrend (base_config sample_regime_config))) =
     Inr [breakout_base h]" using breakout_right_tail by blast
  have "list_all2 (\<lambda>base s. same_trade base s \<and> i_sleeve_id s = ''regime_aligned_right_tail_v1'' \<and> sleeve_intent_wf s)
      (filter (regime_supports sample_regime_config (map breakout_frame [0..<7])) [breakout_base h]) [s]"
    using regime_filter_exact [OF run] base breakout_frames step_canonical [of 240 breakout 1 0 1680]
    by (auto simp del: filter.simps upt_rec_numeral)
  then have "regime_supports sample_regime_config (map breakout_frame [0..<7]) (breakout_base h) \<and> same_trade (breakout_base h) s"
    by (auto split: if_splits simp del: upt_rec_numeral)
  with base run show ?thesis by blast
qed

text \<open>
  The daily clock and the history requirement that the runtime assigns to this strategy never
  hide one of its intents under a configuration that decides once a day, as the registered one does.
\<close>

theorem regime_clock_hides_nothing:
  assumes "generate_regime_aligned_right_tail_intents c_log candles (Some (RegimeAlignedRightTail c)) = Inr zs"
    and "s \<in> set zs" and "b_close_time_ms bar = i_decision_ts_ms s" and "ra_decision_interval_hours c = 24"
    and "complete_frame_requirements ''regime_aligned_right_tail_v1'' (RegimeAlignedRightTail c) = Inr frames"
  shows "scheduled ''regime_aligned_right_tail_v1'' (RegimeAlignedRightTail c) bar
      (get_runtime_requirements ''regime_aligned_right_tail_v1'') (Some frames) = Inr True \<and>
    frames_ready ''regime_aligned_right_tail_v1'' candles frames = Inr True"
proof -
  from regime_filter_run [OF assms(1)] obtain ordered base_intents four_hour where ordered: "canonical_candles candles (Some ''1m'') = Inr ordered"
    and base_run: "generate_right_tail_trend_intents c_log ordered (Some (RightTailTrend (base_config c))) = Inr base_intents"
    and four_hour: "aggregate ordered ''4h'' = Inr four_hour"
    and filtered: "list_all2 (\<lambda>base s. same_trade base s \<and> i_sleeve_id s = ''regime_aligned_right_tail_v1'' \<and> sleeve_intent_wf s)
      (filter (regime_supports c four_hour) base_intents) zs" by blast
  obtain base where base: "base \<in> set base_intents" "regime_supports c four_hour base" and same: "same_trade base s"
    using output_source [OF filtered list_emb_refl assms(2)] by auto
  obtain seg i where "(seg, i) \<in> set (positions (nat (ra_regime_sma_bars c - 1)) (segments regime_ms four_hour))"
    using base(2) unfolding regime_supports_def list_ex_iff by auto
  from frame_position [OF this] have frames: "ra_regime_sma_bars c \<le> int (length four_hour)" by linarith
  from base_run base(1) show ?thesis
  proof (rule right_tail_hours)
    fix hourly opened
    assume "aggregate ordered ''1h'' = Inr hourly"
      and "max (rt_trend_lookback_hours (base_config c) + 1) (rt_atr_period_hours (base_config c)) \<le> int (length hourly)"
      and "i_decision_ts_ms base = opened + sleeve_hour_ms - 1" "0 \<le> opened"
      and "opened mod (rt_decision_interval_hours (base_config c) * sleeve_hour_ms) = 0"
    moreover have "i_decision_ts_ms s = i_decision_ts_ms base" using same by (simp add: same_trade_def)
    moreover have "aggregate candles ''4h'' = Inr four_hour" "aggregate candles ''1h'' = Inr hourly"
      using aggregate_canonical [OF ordered] four_hour \<open>aggregate ordered ''1h'' = Inr hourly\<close> by simp_all
    ultimately show ?thesis using assms(3-5) frames
      by (auto simp: scheduled_def on_decision_minute_def get_runtime_requirements_def requirements_table_def frame_clock_def
          timeframe_ms_def timeframe_table_def available_frames_def base_config_def sleeve_hour_ms_def)
  qed
qed

definition breakout_bar :: closed_bar where
  "breakout_bar = bar_of_candle (step_minute 240 breakout 1 0 1499) ''h''"

theorem regime_clock_hides_nothing_witness:
  "scheduled ''regime_aligned_right_tail_v1'' (RegimeAlignedRightTail sample_regime_config) breakout_bar
     (get_runtime_requirements ''regime_aligned_right_tail_v1'') (Some [(''1h'', 2), (''4h'', 2)]) = Inr True \<and>
   frames_ready ''regime_aligned_right_tail_v1'' breakout_minutes [(''1h'', 2), (''4h'', 2)] = Inr True"
proof -
  obtain s where run: "generate_regime_aligned_right_tail_intents sample_log breakout_minutes (Some (RegimeAlignedRightTail sample_regime_config)) = Inr [s]"
    and ts: "i_decision_ts_ms s = 89999999" using breakout_run by blast
  have "complete_frame_requirements ''regime_aligned_right_tail_v1'' (RegimeAlignedRightTail sample_regime_config) = Inr [(''1h'', 2), (''4h'', 2)]"
    by (simp add: sample_regime_config_def)
  moreover have "b_close_time_ms breakout_bar = i_decision_ts_ms s"
    by (simp add: ts breakout_bar_def bar_of_candle_def step_minute_def)
  ultimately show ?thesis
    using regime_clock_hides_nothing [OF run, of s breakout_bar "[(''1h'', 2), (''4h'', 2)]"] by (simp add: breakout_fields)
qed

end
