(* ===== verification/Donchian.thy ===== *)
theory Donchian
  imports StepMarket
begin

section \<open>The Donchian ensemble (sleeves/donchian\_ensemble.py)\<close>

text \<open>
  A long-only allocation from several daily price channels. Each horizon is a small state machine with a trailing
  stop; the weight follows the number of active horizons and the volatility of the closes, and is only changed when a
  horizon changed or the wanted weight left a band around the executed one.
\<close>

subsection \<open>The volatility\<close>

text \<open>
  \<open>statistics.stdev\<close> of Python 3.11: the variance is exact, its root is rounded once. A non-finite value has no
  exact ratio, and the attribute of the exact sum that is read then does not exist.
\<close>

definition exact_variance :: "rat list \<Rightarrow> rat" where
  "exact_variance qs =
     (let n = of_int (int (length qs)); sx = sum_list qs; sxx = sum_list (map (\<lambda>q. q * q) qs)
      in (n * sxx - sx * sx) / n / (n - 1))"

definition py_stdev :: "pyfloat list \<Rightarrow> pyfloat result" where
  "py_stdev xs =
     (if length xs < 2 then Inl (ValueError ''stdev requires at least two data points'')
      else if \<not> list_all is_finite xs then Inl (ExternalError ''AttributeError'')
      else let variance = exact_variance (map to_rat xs) in
        if variance = 0 then Inr fzero
        else if is_inf (sqrt_pos variance) then Inl (OverflowError ''integer division result too large for a float'')
        else Inr (sqrt_pos variance))"

definition simple_returns :: "candle list \<Rightarrow> nat \<Rightarrow> int \<Rightarrow> pyfloat list result" where
  "simple_returns rows index lookback =
     traverse (\<lambda>position. rmap (\<lambda>q. fsub q fone) (py_div (c_close (rows ! position)) (c_close (rows ! (position - 1)))))
       [Suc index - nat lookback..<Suc index]"

definition annualized_volatility :: "donchian_config \<Rightarrow> candle list \<Rightarrow> nat \<Rightarrow> pyfloat option result" where
  "annualized_volatility c rows index =
     (if int index < de_volatility_lookback_days c then Inr None
      else rbind (simple_returns rows index (de_volatility_lookback_days c)) (\<lambda>returns.
           rbind (py_stdev returns) (\<lambda>deviation.
           rbind (py_sqrt (float_of_int (de_annualization_days c))) (\<lambda>root.
             let value = fmul deviation root in Inr (if usable value then Some value else None)))))"

subsection \<open>One horizon\<close>

text \<open>The highest close of a channel and the middle between its extreme closes.\<close>

definition channel :: "candle list \<Rightarrow> nat \<Rightarrow> int \<Rightarrow> (pyfloat \<times> pyfloat) result" where
  "channel rows index horizon =
     (let closes = map c_close (window rows index horizon) in
      rbind (fmax_list closes) (\<lambda>highest.
      rbind (fmin_list closes) (\<lambda>lowest. Inr (highest, fmul (lit (1 / 2)) (fadd highest lowest)))))"

text \<open>Whether the horizon is active, and its trailing stop; \<open>trailing[horizon]\<close> raises when there is none.\<close>

definition horizon_update ::
  "int \<Rightarrow> pyfloat \<Rightarrow> pyfloat \<Rightarrow> pyfloat \<Rightarrow> bool \<times> pyfloat option \<Rightarrow> (bool \<times> pyfloat option) result" where
  "horizon_update horizon close highest midpoint = (\<lambda>(was_active, stop).
     if feq close highest
     then Inr (True, Some (fmax (case stop of None \<Rightarrow> midpoint | Some s \<Rightarrow> s) [midpoint]))
     else if \<not> was_active then Inr (False, stop)
     else case stop of
         None \<Rightarrow> Inl (KeyError (str_int horizon))
       | Some s \<Rightarrow> if fle close s then Inr (False, None) else Inr (True, Some (fmax s [midpoint])))"

record ensemble_state =
  en_active :: "int \<Rightarrow> bool"
  en_trailing :: "int \<Rightarrow> pyfloat option"
  en_executed :: "pyfloat option"

text \<open>The loop over the horizons; the flag says whether one of them changed.\<close>

fun horizon_pass ::
  "candle list \<Rightarrow> nat \<Rightarrow> int list \<Rightarrow> ensemble_state \<Rightarrow> bool \<Rightarrow> (ensemble_state \<times> bool) result" where
  "horizon_pass rows index [] st changed = Inr (st, changed)"
| "horizon_pass rows index (h # horizons) st changed =
     (if int index < h - 1 then horizon_pass rows index horizons st changed
      else rbind (channel rows index h) (\<lambda>(highest, midpoint).
           rbind (horizon_update h (c_close (rows ! index)) highest midpoint (en_active st h, en_trailing st h))
             (\<lambda>(active, stop).
               horizon_pass rows index horizons
                 (st\<lparr>en_active := (en_active st)(h := active), en_trailing := (en_trailing st)(h := stop)\<rparr>)
                 (changed \<or> active \<noteq> en_active st h))))"

subsection \<open>One day\<close>

fun int_max :: "int list \<Rightarrow> int result" where
  "int_max [] = Inl (ValueError ''max() arg is an empty sequence'')"
| "int_max (x # xs) = Inr (fold max xs x)"

definition full_warmup :: "donchian_config \<Rightarrow> int result" where
  "full_warmup c = rmap (\<lambda>longest. max longest (de_volatility_lookback_days c + 1)) (int_max (de_horizons_days c))"

text \<open>The weight to hold, and why.\<close>

definition weight_decision ::
  "donchian_config \<Rightarrow> pyfloat option \<Rightarrow> bool \<Rightarrow> pyfloat \<Rightarrow> (pyfloat \<times> allocation_reason) result" where
  "weight_decision c executed changed desired =
     (case executed of
        None \<Rightarrow> Inr (desired, SIGNAL)
      | Some held \<Rightarrow>
          if changed then Inr (desired, SIGNAL)
          else rbind (if fless fzero held then py_div (fabs (fsub desired held)) held
                      else Inr (if feq desired fzero then fzero else PosInf)) (\<lambda>difference.
            Inr (if fless (de_volatility_rebalance_threshold c) difference then (desired, VOLATILITY)
                 else (held, DEADBAND_HOLD))))"

definition desired_weight :: "donchian_config \<Rightarrow> pyfloat \<Rightarrow> int list \<Rightarrow> pyfloat result" where
  "desired_weight c volatility active =
     rbind (py_div (de_target_annualized_volatility c) volatility) (\<lambda>ratio.
       py_div (fmul (fmin ratio [de_maximum_weight c]) (float_of_int (int (length active))))
         (float_of_int (int (length (de_horizons_days c)))))"

definition donchian_metadata :: "donchian_config \<Rightarrow> (string \<times> string) list" where
  "donchian_metadata c =
    [(''annualization'', ''simple_returns_sqrt_365''),
     (''config_sha256'', config_fingerprint (DonchianEnsemble c)),
     (''source'', ''zarattini_pagani_barbon_2025''),
     (''volatility_deadband'', ''relative_to_last_executed_weight'')]"

definition donchian_allocation ::
  "donchian_config \<Rightarrow> candle \<Rightarrow> pyfloat \<Rightarrow> pyfloat \<Rightarrow> (int \<times> pyfloat) list \<Rightarrow> allocation_reason \<Rightarrow> allocation_fields" where
  "donchian_allocation c row weight volatility stops reason =
    \<lparr>a_strategy_id = ''donchian_ensemble_long_v1'', a_symbol = c_symbol row, a_decision_ts_ms = c_close_time_ms row,
     a_effective_ts_ms = c_close_time_ms row + 1, a_target_weight = weight, a_annualized_volatility = Some volatility,
     a_active_horizons = map fst stops, a_trailing_stops = stops, a_reason = reason,
     a_metadata = donchian_metadata c\<rparr>"

definition stop_of :: "ensemble_state \<Rightarrow> int \<Rightarrow> (int \<times> pyfloat) result" where
  "stop_of st h = (case en_trailing st h of None \<Rightarrow> Inl (KeyError (str_int h)) | Some s \<Rightarrow> Inr (h, s))"

definition ensemble_row ::
  "donchian_config \<Rightarrow> int \<Rightarrow> candle list \<Rightarrow> nat \<Rightarrow> ensemble_state \<Rightarrow> (ensemble_state \<times> target_allocation list) result" where
  "ensemble_row c warmup rows index st =
     rbind (horizon_pass rows index (de_horizons_days c) st False) (\<lambda>(st, changed).
     rbind (annualized_volatility c rows index) (\<lambda>found.
       if int index < warmup - 1 then Inr (st, [])
       else case found of
           None \<Rightarrow> Inr (st, [])
         | Some volatility \<Rightarrow>
             let active = filter (en_active st) (de_horizons_days c) in
             rbind (desired_weight c volatility active) (\<lambda>desired.
             rbind (weight_decision c (en_executed st) changed desired) (\<lambda>(weight, reason).
             rbind (traverse (stop_of st) active) (\<lambda>stops.
               rmap (\<lambda>a. (st\<lparr>en_executed := Some weight\<rparr>, [a]))
                 (make_target_allocation (donchian_allocation c (rows ! index) weight volatility stops reason)))))))"

fun ensemble_rows ::
  "donchian_config \<Rightarrow> int \<Rightarrow> candle list \<Rightarrow> ensemble_state \<Rightarrow> nat list \<Rightarrow> target_allocation list result" where
  "ensemble_rows c warmup rows st [] = Inr []"
| "ensemble_rows c warmup rows st (index # indices) =
     rbind (ensemble_row c warmup rows index st) (\<lambda>(st, out).
       rmap (\<lambda>rest. out @ rest) (ensemble_rows c warmup rows st indices))"

definition ensemble_start :: ensemble_state where
  "ensemble_start = \<lparr>en_active = \<lambda>_. False, en_trailing = \<lambda>_. None, en_executed = None\<rparr>"

definition donchian_segment :: "donchian_config \<Rightarrow> candle list \<Rightarrow> target_allocation list result" where
  "donchian_segment c rows =
     rbind (full_warmup c) (\<lambda>warmup. ensemble_rows c warmup rows ensemble_start [0..<length rows])"

definition day_ms :: int where
  "day_ms = 86400000"

definition donchian_settings :: "strategy_config option \<Rightarrow> donchian_config result" where
  "donchian_settings config =
     (case config of
        None \<Rightarrow> make_donchian donchian_default
      | Some (DonchianEnsemble c) \<Rightarrow> Inr c
      | Some _ \<Rightarrow> Inl (ValueError ''config must be a DonchianEnsembleConfig or None''))"

definition generate_donchian_ensemble_allocations ::
  "candle list \<Rightarrow> strategy_config option \<Rightarrow> target_allocation list result" where
  "generate_donchian_ensemble_allocations candles config =
     rbind (donchian_settings config) (\<lambda>c.
     rbind (canonical_candles candles (Some ''1m'')) (\<lambda>ordered.
     rbind (aggregate ordered ''1d'') (\<lambda>daily.
       extend_all (donchian_segment c) (segments day_ms daily))))"

subsection \<open>Reachable states\<close>

text \<open>The states of a segment after its first days, with what has been allocated.\<close>

inductive ensemble_reaches ::
  "donchian_config \<Rightarrow> int \<Rightarrow> candle list \<Rightarrow> nat \<Rightarrow> ensemble_state \<Rightarrow> target_allocation list \<Rightarrow> bool"
  for c warmup rows where
  start: "ensemble_reaches c warmup rows 0 ensemble_start []"
| day: "ensemble_reaches c warmup rows i st as \<Longrightarrow> i < length rows \<Longrightarrow> ensemble_row c warmup rows i st = Inr (st', out) \<Longrightarrow>
    ensemble_reaches c warmup rows (Suc i) st' (as @ out)"

lemma ensemble_rows_reach:
  assumes "ensemble_reaches c warmup rows i st as" "ensemble_rows c warmup rows st [i..<length rows] = Inr zs" "i \<le> length rows"
  shows "\<exists>st'. ensemble_reaches c warmup rows (length rows) st' (as @ zs)"
  using assms
proof (induction "length rows - i" arbitrary: i st as zs)
  case 0
  then show ?case by auto
next
  case (Suc n)
  then have i: "i < length rows" by simp
  then have "[i..<length rows] = i # [Suc i..<length rows]" by (rule upt_conv_Cons)
  with Suc.prems obtain st' out rest where run: "ensemble_row c warmup rows i st = Inr (st', out)"
    "ensemble_rows c warmup rows st' [Suc i..<length rows] = Inr rest" "zs = out @ rest"
    by (auto simp: rbind_Inr_iff rmap_Inr_iff)
  have "ensemble_reaches c warmup rows (Suc i) st' (as @ out)" by (rule day [OF Suc.prems(1) i run(1)])
  from Suc.hyps(1) [OF _ this run(2)] Suc.hyps(2) i run(3) show ?case by simp
qed

lemma donchian_segment_reach:
  "donchian_segment c rows = Inr zs \<Longrightarrow>
     \<exists>warmup st. full_warmup c = Inr warmup \<and> ensemble_reaches c warmup rows (length rows) st zs"
  using ensemble_rows_reach [OF start, of c _ rows zs] by (auto simp: donchian_segment_def rbind_Inr_iff)

text \<open>What holds of the start and is kept by every day holds of every allocation with the day that made it.\<close>

lemma ensemble_reaches_emitted:
  assumes "ensemble_reaches c warmup rows n st as" "a \<in> set as"
  shows "\<exists>i before later st' out. i < n \<and> i < length rows \<and> ensemble_reaches c warmup rows i before later \<and>
    ensemble_row c warmup rows i before = Inr (st', out) \<and> ensemble_reaches c warmup rows (Suc i) st' (later @ out) \<and> a \<in> set out"
  using assms
proof (induction rule: ensemble_reaches.induct)
  case (day i st as st' out)
  show ?case
  proof (cases "a \<in> set as")
    case True
    with day.IH show ?thesis by (meson less_Suc_eq)
  next
    case False
    with day.prems have "a \<in> set out" by simp
    moreover have "ensemble_reaches c warmup rows (Suc i) st' (as @ out)" by (rule ensemble_reaches.day [OF day.hyps])
    ultimately show ?thesis using day.hyps by blast
  qed
qed simp

subsection \<open>Stops and where they come from\<close>

text \<open>A day whose close is the highest of its channel, and the middle of the channel.\<close>

definition new_high :: "candle list \<Rightarrow> int \<Rightarrow> nat \<Rightarrow> bool" where
  "new_high rows h i \<longleftrightarrow> h - 1 \<le> int i \<and>
     (case channel rows i h of Inr (highest, _) \<Rightarrow> feq (c_close (rows ! i)) highest | Inl _ \<Rightarrow> False)"

definition middle :: "candle list \<Rightarrow> int \<Rightarrow> nat \<Rightarrow> pyfloat" where
  "middle rows h i = (case channel rows i h of Inr (_, midpoint) \<Rightarrow> midpoint | Inl _ \<Rightarrow> NaN)"

text \<open>The highest middle of the days from \<open>j\<close> to \<open>i\<close>.\<close>

definition ratchet :: "candle list \<Rightarrow> int \<Rightarrow> nat \<Rightarrow> nat \<Rightarrow> pyfloat" where
  "ratchet rows h j i = fmax (middle rows h j) (map (middle rows h) [Suc j..<Suc i])"

text \<open>The stop of a position entered at a new high on day \<open>j\<close> and never stopped out until day \<open>i\<close>.\<close>

definition stop_since :: "candle list \<Rightarrow> int \<Rightarrow> nat \<Rightarrow> nat \<Rightarrow> pyfloat \<Rightarrow> bool" where
  "stop_since rows h j i stop \<longleftrightarrow> j \<le> i \<and> new_high rows h j \<and> stop = ratchet rows h j i \<and>
     list_all (\<lambda>k. new_high rows h k \<or> \<not> fle (c_close (rows ! k)) (ratchet rows h j (k - 1))) [Suc j..<Suc i]"

lemma fmax_snoc: "fmax x (xs @ [y]) = fmax (fmax x xs) [y]"
  by (induction xs arbitrary: x) (simp_all add: fmax_Cons)

lemma fmax_self [simp]: "fmax x [x] = x"
  by (simp add: fmax_Cons)

lemma ratchet_simps:
  "ratchet rows h j j = middle rows h j" "j \<le> i \<Longrightarrow> ratchet rows h j (Suc i) = fmax (ratchet rows h j i) [middle rows h (Suc i)]"
  unfolding ratchet_def by (simp_all add: fmax_snoc [symmetric] del: upt_Suc) (simp add: upt_Suc_append)

lemma stop_since_entry: "new_high rows h i \<Longrightarrow> stop_since rows h i i (middle rows h i)"
  by (simp add: stop_since_def ratchet_simps)

lemma stop_since_next:
  assumes "stop_since rows h j i stop" "new_high rows h (Suc i) \<or> \<not> fle (c_close (rows ! Suc i)) stop"
  shows "stop_since rows h j (Suc i) (fmax stop [middle rows h (Suc i)])"
proof -
  have "[Suc j..<Suc (Suc i)] = [Suc j..<Suc i] @ [Suc i]" using assms(1) by (simp add: stop_since_def)
  with assms show ?thesis by (simp add: stop_since_def ratchet_simps del: upt_Suc)
qed

text \<open>One horizon, given what is known of its stop on the day before.\<close>

definition stop_known :: "candle list \<Rightarrow> nat \<Rightarrow> int \<Rightarrow> bool \<times> pyfloat option \<Rightarrow> bool" where
  "stop_known rows n h = (\<lambda>(active, stop). (active \<longleftrightarrow> stop \<noteq> None) \<and>
     (\<forall>s. stop = Some s \<longrightarrow> (\<exists>j i. n = Suc i \<and> stop_since rows h j i s)))"

lemma horizon_update_known:
  assumes known: "stop_known rows i h before" and channel: "channel rows i h = Inr (highest, midpoint)" and index: "h - 1 \<le> int i"
    and run: "horizon_update h (c_close (rows ! i)) highest midpoint before = Inr after"
  shows "stop_known rows (Suc i) h after"
proof -
  obtain active stop where b: "before = (active, stop)" by fastforce
  have high: "new_high rows h i \<longleftrightarrow> feq (c_close (rows ! i)) highest" and mid: "middle rows h i = midpoint"
    using channel index by (simp_all add: new_high_def middle_def)
  show ?thesis
  proof (cases stop)
    case None
    then have "\<not> active" using known by (simp add: b stop_known_def)
    with run None b high mid stop_since_entry [of rows h i] show ?thesis
      by (auto simp: horizon_update_def stop_known_def split: if_splits)
  next
    case (Some s)
    with known b obtain j k where s: "active" "i = Suc k" "stop_since rows h j k s" by (auto simp: stop_known_def)
    have "stop_since rows h j i (fmax s [midpoint])" if "feq (c_close (rows ! i)) highest \<or> \<not> fle (c_close (rows ! i)) s"
      using stop_since_next [OF s(3)] that high mid s(2) by simp
    with run Some b s(1) show ?thesis
      by (auto simp: horizon_update_def stop_known_def split: if_splits)
  qed
qed

lemma horizon_update_total: "stop_known rows n h before \<Longrightarrow> \<exists>after. horizon_update h close highest midpoint before = Inr after"
  by (cases before) (auto simp: horizon_update_def stop_known_def split: option.splits)

lemma stop_known_early:
  assumes "stop_known rows i h before" "int i < h - 1"
  shows "stop_known rows (Suc i) h before"
proof -
  have "h - 1 \<le> int i'" if "stop_since rows h j i' s" for j i' s
    using that by (auto simp: stop_since_def new_high_def)
  with assms show ?thesis by (fastforce simp: stop_known_def)
qed

lemma horizon_pass_known:
  assumes "horizon_pass rows i hs st changed = Inr (st', changed')" "distinct hs"
    and "\<forall>h \<in> set hs. stop_known rows i h (en_active st h, en_trailing st h)"
  shows "en_executed st' = en_executed st \<and>
    (\<forall>h. (h \<in> set hs \<longrightarrow> stop_known rows (Suc i) h (en_active st' h, en_trailing st' h)) \<and>
       (h \<notin> set hs \<longrightarrow> en_active st' h = en_active st h \<and> en_trailing st' h = en_trailing st h)) \<and>
    (changed' \<longleftrightarrow> changed \<or> (\<exists>h \<in> set hs. en_active st' h \<noteq> en_active st h))"
  using assms
proof (induction hs arbitrary: st changed)
  case (Cons h hs)
  have known: "stop_known rows i h (en_active st h, en_trailing st h)" using Cons.prems(3) by simp
  show ?case
  proof (cases "int i < h - 1")
    case True
    with Cons.prems have "horizon_pass rows i hs st changed = Inr (st', changed')" by simp
    from Cons.IH [OF this] Cons.prems stop_known_early [OF known True] show ?thesis by auto
  next
    case False
    with Cons.prems obtain highest midpoint active stop where ch: "channel rows i h = Inr (highest, midpoint)"
      and up: "horizon_update h (c_close (rows ! i)) highest midpoint (en_active st h, en_trailing st h) = Inr (active, stop)"
      and rest: "horizon_pass rows i hs
        (st\<lparr>en_active := (en_active st)(h := active), en_trailing := (en_trailing st)(h := stop)\<rparr>)
        (changed \<or> active \<noteq> en_active st h) = Inr (st', changed')"
      by (auto simp: rbind_Inr_iff)
    have "stop_known rows (Suc i) h (active, stop)" using horizon_update_known [OF known ch _ up] False by simp
    with Cons.IH [OF rest] Cons.prems(2,3) show ?thesis by auto
  qed
qed simp

text \<open>An invariant of the reachable states.\<close>

definition ensemble_known :: "donchian_config \<Rightarrow> candle list \<Rightarrow> nat \<Rightarrow> ensemble_state \<Rightarrow> bool" where
  "ensemble_known c rows n st \<longleftrightarrow> (\<forall>h. stop_known rows n h (en_active st h, en_trailing st h) \<and>
     (h \<notin> set (de_horizons_days c) \<longrightarrow> en_trailing st h = None))"

text \<open>One day, with the horizons after it and the figures of what it allocated.\<close>

lemma ensemble_row_InrE:
  assumes "ensemble_row c warmup rows i st = Inr (st', out)"
  obtains mid changed found where "horizon_pass rows i (de_horizons_days c) st False = Inr (mid, changed)"
    "annualized_volatility c rows i = Inr found" "en_active st' = en_active mid" "en_trailing st' = en_trailing mid"
    "out = [] \<and> st' = mid \<or> (\<exists>volatility desired weight reason stops a. warmup \<le> int i + 1 \<and> found = Some volatility \<and>
       desired_weight c volatility (filter (en_active mid) (de_horizons_days c)) = Inr desired \<and>
       weight_decision c (en_executed mid) changed desired = Inr (weight, reason) \<and>
       traverse (stop_of mid) (filter (en_active mid) (de_horizons_days c)) = Inr stops \<and>
       make_target_allocation (donchian_allocation c (rows ! i) weight volatility stops reason) = Inr a \<and>
       st' = mid\<lparr>en_executed := Some weight\<rparr> \<and> out = [a])"
  using assms
  by (auto simp: ensemble_row_def rbind_Inr_iff rmap_Inr_iff Let_def split: if_splits option.splits)

lemma ensemble_row_known:
  assumes run: "ensemble_row c warmup rows i st = Inr (st', out)" and known: "ensemble_known c rows i st"
    and d: "distinct (de_horizons_days c)"
  shows "ensemble_known c rows (Suc i) st'"
  using run
proof (rule ensemble_row_InrE)
  fix mid changed found
  assume "horizon_pass rows i (de_horizons_days c) st False = Inr (mid, changed)" "en_active st' = en_active mid" "en_trailing st' = en_trailing mid"
  note mid = this
  from known have before: "stop_known rows i h (en_active st h, en_trailing st h)" "h \<notin> set (de_horizons_days c) \<Longrightarrow> en_trailing st h = None" for h
    by (simp_all add: ensemble_known_def)
  then have after: "h \<in> set (de_horizons_days c) \<Longrightarrow> stop_known rows (Suc i) h (en_active mid h, en_trailing mid h)"
    "h \<notin> set (de_horizons_days c) \<Longrightarrow> en_active mid h = en_active st h \<and> en_trailing mid h = en_trailing st h" for h
    using horizon_pass_known [OF mid(1) d] by auto
  show ?thesis unfolding ensemble_known_def mid(2,3)
  proof
    fix h
    show "stop_known rows (Suc i) h (en_active mid h, en_trailing mid h) \<and> (h \<notin> set (de_horizons_days c) \<longrightarrow> en_trailing mid h = None)"
      using before [of h] after [of h] by (cases "h \<in> set (de_horizons_days c)") (auto simp: stop_known_def)
  qed
qed

lemma ensemble_reaches_known:
  "ensemble_reaches c warmup rows n st as \<Longrightarrow> distinct (de_horizons_days c) \<Longrightarrow> ensemble_known c rows n st"
  by (induction rule: ensemble_reaches.induct)
    (auto simp: ensemble_known_def ensemble_start_def stop_known_def dest: ensemble_row_known)

subsection \<open>What a day allocates\<close>

text \<open>What is emitted for the \<open>i\<close>-th day of a segment.\<close>

definition donchian_decides :: "donchian_config \<Rightarrow> candle list \<Rightarrow> nat \<Rightarrow> target_allocation \<Rightarrow> bool" where
  "donchian_decides c rows i a \<longleftrightarrow>
     annualized_volatility c rows i = Inr (a_annualized_volatility a) \<and> a_annualized_volatility a \<noteq> None \<and>
     a_symbol a = c_symbol (rows ! i) \<and> a_decision_ts_ms a = c_close_time_ms (rows ! i) \<and>
     a_effective_ts_ms a = c_close_time_ms (rows ! i) + 1 \<and> allocation_wf a \<and>
     list_all (\<lambda>(h, s). h \<in> set (de_horizons_days c) \<and> (\<exists>j. stop_since rows h j i s)) (a_trailing_stops a)"

text \<open>Why a weight is held: an earlier one is kept only inside the band.\<close>

definition within_band :: "donchian_config \<Rightarrow> pyfloat \<Rightarrow> pyfloat \<Rightarrow> bool" where
  "within_band c held desired \<longleftrightarrow>
     (if fless fzero held
      then (case py_div (fabs (fsub desired held)) held of Inl _ \<Rightarrow> False
            | Inr difference \<Rightarrow> \<not> fless (de_volatility_rebalance_threshold c) difference)
      else \<not> fless (de_volatility_rebalance_threshold c) (if feq desired fzero then fzero else PosInf))"

definition wanted :: "donchian_config \<Rightarrow> target_allocation \<Rightarrow> pyfloat \<Rightarrow> bool" where
  "wanted c a desired \<longleftrightarrow> (\<exists>volatility. a_annualized_volatility a = Some volatility \<and>
     desired_weight c volatility (a_active_horizons a) = Inr desired)"

lemma weight_decision_Inr:
  assumes "weight_decision c executed changed desired = Inr (weight, reason)"
  shows "(reason \<noteq> DEADBAND_HOLD \<longrightarrow> weight = desired) \<and> (executed = None \<longrightarrow> reason = SIGNAL) \<and>
    (reason = DEADBAND_HOLD \<longrightarrow> \<not> changed \<and> executed = Some weight \<and> within_band c weight desired) \<and>
    (reason = VOLATILITY \<longrightarrow> \<not> changed \<and> (\<exists>held. executed = Some held \<and> \<not> within_band c held desired))"
  using assms
  by (cases executed) (auto simp: weight_decision_def within_band_def rbind_Inr_iff split: if_splits)

lemma stops_of: "traverse (stop_of st) hs = Inr stops \<Longrightarrow>
    map fst stops = hs \<and> (\<forall>h s. (h, s) \<in> set stops \<longrightarrow> h \<in> set hs \<and> en_trailing st h = Some s)"
  by (induction hs arbitrary: stops) (auto simp: rbind_Inr_iff rmap_Inr_iff stop_of_def split: option.splits)

lemma donchian_allocation_made:
  assumes "make_target_allocation (donchian_allocation c row weight volatility stops reason) = Inr a"
  shows "a_symbol a = c_symbol row \<and> a_decision_ts_ms a = c_close_time_ms row \<and> a_effective_ts_ms a = c_close_time_ms row + 1 \<and>
    a_target_weight a = weight \<and> a_annualized_volatility a = Some volatility \<and> a_active_horizons a = map fst stops \<and>
    a_trailing_stops a = stops \<and> a_reason a = reason \<and> allocation_wf a"
proof -
  from assms have "a = with_allocation_id (donchian_allocation c row weight volatility stops reason\<lparr>a_metadata := sort (donchian_metadata c)\<rparr>)"
    by (simp add: make_target_allocation_def validate_Inr_iff donchian_allocation_def)
  moreover have "allocation_wf a" using assms by (rule make_target_allocation_wf)
  ultimately show ?thesis by (simp add: with_allocation_id_def allocation_fields.extend_def donchian_allocation_def)
qed

lemma ensemble_row_decides:
  assumes run: "ensemble_row c warmup rows i st = Inr (st', out)" and known: "ensemble_known c rows (Suc i) st'" and a: "a \<in> set out"
  shows "donchian_decides c rows i a \<and> warmup \<le> int i + 1"
  using run
proof (rule ensemble_row_InrE)
  fix mid changed found
  assume mid: "annualized_volatility c rows i = Inr found" "en_active st' = en_active mid" "en_trailing st' = en_trailing mid"
    "out = [] \<and> st' = mid \<or> (\<exists>volatility desired weight reason stops a. warmup \<le> int i + 1 \<and> found = Some volatility \<and>
       desired_weight c volatility (filter (en_active mid) (de_horizons_days c)) = Inr desired \<and>
       weight_decision c (en_executed mid) changed desired = Inr (weight, reason) \<and>
       traverse (stop_of mid) (filter (en_active mid) (de_horizons_days c)) = Inr stops \<and>
       make_target_allocation (donchian_allocation c (rows ! i) weight volatility stops reason) = Inr a \<and>
       st' = mid\<lparr>en_executed := Some weight\<rparr> \<and> out = [a])"
  from mid(4) a obtain volatility weight reason stops where made: "warmup \<le> int i + 1" "found = Some volatility"
    "traverse (stop_of mid) (filter (en_active mid) (de_horizons_days c)) = Inr stops"
    "make_target_allocation (donchian_allocation c (rows ! i) weight volatility stops reason) = Inr a" by auto
  have "\<exists>j. stop_since rows h j i s" if "en_trailing st' h = Some s" for h s
    using known that by (auto simp: ensemble_known_def stop_known_def)
  with stops_of [OF made(3)] donchian_allocation_made [OF made(4)] made(1,2) mid(1,3) show ?thesis
    by (auto simp: donchian_decides_def list_all_iff)
qed

lemma horizon_pass_executed: "horizon_pass rows i hs st changed = Inr (st', changed') \<Longrightarrow> en_executed st' = en_executed st"
  by (induction rows i hs st changed rule: horizon_pass.induct) (auto simp: rbind_Inr_iff split: if_splits)

text \<open>The sequence of allocations of a segment: the first is a signal, a held weight is the weight before it.\<close>

definition rebalances :: "donchian_config \<Rightarrow> target_allocation list \<Rightarrow> bool" where
  "rebalances c as \<longleftrightarrow> (as \<noteq> [] \<longrightarrow> a_reason (hd as) = SIGNAL) \<and>
     list_all (\<lambda>a. \<exists>desired. wanted c a desired \<and> (a_reason a \<noteq> DEADBAND_HOLD \<longrightarrow> a_target_weight a = desired)) as \<and>
     successively (\<lambda>a b. a_reason b = DEADBAND_HOLD \<longrightarrow> a_target_weight b = a_target_weight a \<and>
       (\<exists>desired. wanted c b desired \<and> within_band c (a_target_weight a) desired)) as"

lemma ensemble_reaches_rebalances:
  assumes "ensemble_reaches c warmup rows n st as"
  shows "en_executed st = (if as = [] then None else Some (a_target_weight (last as))) \<and> rebalances c as"
  using assms
proof (induction rule: ensemble_reaches.induct)
  case (day i st as st' out)
  from day.hyps(3) show ?case
  proof (rule ensemble_row_InrE)
    fix mid changed found
    assume pass: "horizon_pass rows i (de_horizons_days c) st False = Inr (mid, changed)"
      and out: "out = [] \<and> st' = mid \<or> (\<exists>volatility desired weight reason stops a. warmup \<le> int i + 1 \<and> found = Some volatility \<and>
       desired_weight c volatility (filter (en_active mid) (de_horizons_days c)) = Inr desired \<and>
       weight_decision c (en_executed mid) changed desired = Inr (weight, reason) \<and>
       traverse (stop_of mid) (filter (en_active mid) (de_horizons_days c)) = Inr stops \<and>
       make_target_allocation (donchian_allocation c (rows ! i) weight volatility stops reason) = Inr a \<and>
       st' = mid\<lparr>en_executed := Some weight\<rparr> \<and> out = [a])"
    have kept: "en_executed mid = en_executed st" by (rule horizon_pass_executed [OF pass])
    from out show ?thesis
    proof (elim disjE exE conjE)
      assume "out = []" "st' = mid"
      then show ?thesis using day.IH kept by simp
    next
      fix volatility desired weight reason stops a
      assume v: "desired_weight c volatility (filter (en_active mid) (de_horizons_days c)) = Inr desired"
        and w: "weight_decision c (en_executed mid) changed desired = Inr (weight, reason)"
        and s: "traverse (stop_of mid) (filter (en_active mid) (de_horizons_days c)) = Inr stops"
        and a: "make_target_allocation (donchian_allocation c (rows ! i) weight volatility stops reason) = Inr a"
        and final: "st' = mid\<lparr>en_executed := Some weight\<rparr>" "out = [a]"
      note made = donchian_allocation_made [OF a]
      have "wanted c a desired" using v made stops_of [OF s] by (simp add: wanted_def)
      with weight_decision_Inr [OF w] kept day.IH made final show ?thesis
        by (auto simp: rebalances_def successively_append_iff hd_append)
    qed
  qed
qed (simp add: ensemble_start_def rebalances_def)

subsection \<open>No stop is missing\<close>

definition no_key_error :: "'a result \<Rightarrow> bool" where
  "no_key_error m \<longleftrightarrow> (case m of Inl (KeyError _) \<Rightarrow> False | _ \<Rightarrow> True)"

lemma no_key_error_Inr [simp]: "no_key_error (Inr x)"
  by (simp add: no_key_error_def)

lemma no_key_error_rbind: "no_key_error m \<Longrightarrow> (\<And>x. m = Inr x \<Longrightarrow> no_key_error (f x)) \<Longrightarrow> no_key_error (rbind m f)"
  by (cases m) (auto simp: no_key_error_def)

lemma no_key_error_rmap [simp]: "no_key_error (rmap f m) \<longleftrightarrow> no_key_error m"
  by (cases m) (auto simp: no_key_error_def rmap_def)

lemma no_key_error_traverse: "(\<And>x. x \<in> set xs \<Longrightarrow> no_key_error (f x)) \<Longrightarrow> no_key_error (traverse f xs)"
  by (induction xs) (auto intro!: no_key_error_rbind)

lemma no_key_error_figures [simp]:
  "no_key_error (py_div x y)" "no_key_error (py_sqrt x)" "no_key_error (py_stdev xs)" "no_key_error (int_max hs)"
  "no_key_error (fmax_list xs)" "no_key_error (fmin_list xs)"
  by (auto simp: no_key_error_def py_div_def py_stdev_def Let_def split: if_splits, cases x, auto, (cases hs, auto)?, (cases xs, auto)?, (cases xs, auto)?)

lemma no_key_error_allocation: "no_key_error (make_target_allocation f)"
proof (cases "make_target_allocation f")
  case (Inl e)
  then have "find fst (allocation_checks f) = Some (True, e)" by (simp add: make_target_allocation_def validate_Inl_iff)
  then have "(True, e) \<in> set (allocation_checks f)" by (metis find_Some_iff nth_mem)
  then show ?thesis using Inl by (auto simp: allocation_checks_def no_key_error_def)
qed simp

lemma no_key_error_pass:
  assumes "distinct hs" "\<forall>h \<in> set hs. stop_known rows i h (en_active st h, en_trailing st h)"
  shows "no_key_error (horizon_pass rows i hs st changed)"
  using assms
proof (induction hs arbitrary: st changed)
  case (Cons h hs)
  have "no_key_error (horizon_update h close highest midpoint (en_active st h, en_trailing st h))" for close highest midpoint
    using horizon_update_total [of rows i h "(en_active st h, en_trailing st h)" close highest midpoint] Cons.prems(2) by auto
  moreover have "no_key_error (channel rows i h)" by (simp add: channel_def Let_def no_key_error_rbind)
  ultimately show ?case using Cons by (auto intro!: no_key_error_rbind split: prod.splits)
qed simp

lemma no_key_error_volatility: "no_key_error (annualized_volatility c rows i)"
  by (auto simp: annualized_volatility_def simple_returns_def Let_def intro!: no_key_error_rbind no_key_error_traverse)

lemma no_key_error_row:
  assumes "ensemble_known c rows i st" "distinct (de_horizons_days c)"
  shows "no_key_error (ensemble_row c warmup rows i st)"
proof -
  let ?hs = "de_horizons_days c"
  have known: "\<forall>h \<in> set ?hs. stop_known rows i h (en_active st h, en_trailing st h)" using assms(1) by (simp add: ensemble_known_def)
  have stops: "no_key_error (traverse (stop_of mid) (filter (en_active mid) ?hs))" if "horizon_pass rows i ?hs st False = Inr (mid, changed)" for mid changed
    using horizon_pass_known [OF that assms(2) known]
    by (auto simp: stop_of_def stop_known_def intro!: no_key_error_traverse split: option.splits)
  have "no_key_error (desired_weight c v active)" for v active by (simp add: desired_weight_def no_key_error_rbind)
  moreover have "no_key_error (weight_decision c e ch d)" for e ch d
    by (auto simp: weight_decision_def intro!: no_key_error_rbind split: option.splits)
  ultimately show ?thesis unfolding ensemble_row_def
    using no_key_error_pass [OF assms(2) known] stops
    by (auto simp: Let_def no_key_error_volatility no_key_error_allocation intro!: no_key_error_rbind split: prod.splits option.splits)
qed

lemma no_key_error_rows:
  assumes "ensemble_known c rows i st" "distinct (de_horizons_days c)" "i \<le> n"
  shows "no_key_error (ensemble_rows c warmup rows st [i..<n])"
  using assms(1,3)
proof (induction "n - i" arbitrary: i st)
  case (Suc k)
  then have "[i..<n] = i # [Suc i..<n]" by (simp add: upt_conv_Cons)
  then show ?case using Suc no_key_error_row [OF Suc.prems(1) assms(2)] ensemble_row_known [OF _ Suc.prems(1) assms(2)]
    by (auto intro!: no_key_error_rbind)
qed simp

subsection \<open>The generator is causal\<close>

lemma channel_prefix: "i < length rows \<Longrightarrow> channel (rows @ later) i h = channel rows i h"
  by (simp add: channel_def window_prefix)

lemma simple_returns_prefix: "i < length rows \<Longrightarrow> simple_returns (rows @ later) i lookback = simple_returns rows i lookback"
  unfolding simple_returns_def by (rule traverse_cong [OF refl]) (auto simp: nth_append simp del: upt_Suc)

lemma horizon_pass_prefix: "i < length rows \<Longrightarrow> horizon_pass (rows @ later) i hs st changed = horizon_pass rows i hs st changed"
  by (induction hs arbitrary: st changed) (simp_all add: channel_prefix nth_append split_def)

lemma annualized_volatility_prefix: "i < length rows \<Longrightarrow> annualized_volatility c (rows @ later) i = annualized_volatility c rows i"
  by (simp add: annualized_volatility_def simple_returns_prefix)

lemma ensemble_row_prefix: "i < length rows \<Longrightarrow> ensemble_row c warmup (rows @ later) i st = ensemble_row c warmup rows i st"
proof -
  assume i: "i < length rows"
  then have row: "(rows @ later) ! i = rows ! i" by (simp add: nth_append)
  show ?thesis unfolding ensemble_row_def row horizon_pass_prefix [OF i] annualized_volatility_prefix [OF i] by (rule refl)
qed

lemma ensemble_rows_prefix:
  assumes "ensemble_rows c warmup (rows @ later) st (is @ js) = Inr zs" "\<forall>i \<in> set is. i < length rows"
  shows "\<exists>as bs. ensemble_rows c warmup rows st is = Inr as \<and> zs = as @ bs"
  using assms
proof (induction "is" arbitrary: st zs)
  case (Cons i "is")
  then obtain st' out rest where "ensemble_row c warmup rows i st = Inr (st', out)"
    "ensemble_rows c warmup (rows @ later) st' (is @ js) = Inr rest" "zs = out @ rest"
    by (auto simp: rbind_Inr_iff rmap_Inr_iff ensemble_row_prefix)
  with Cons.IH [of st' rest] Cons.prems(2) show ?case by auto
qed simp

interpretation donchian: causal_segment day_ms "\<lambda>rows. ensemble_rows c warmup rows ensemble_start [0..<length rows]" for c warmup
proof
  fix rows later zs assume "ensemble_rows c warmup (rows @ later) ensemble_start [0..<length (rows @ later)] = Inr zs"
  moreover have "[0..<length (rows @ later)] = [0..<length rows] @ [length rows..<length (rows @ later)]"
    using upt_add_eq_append [of 0 "length rows" "length later"] by simp
  ultimately show "\<exists>as bs. ensemble_rows c warmup rows ensemble_start [0..<length rows] = Inr as \<and> zs = as @ bs"
    using ensemble_rows_prefix [of c warmup rows later ensemble_start "[0..<length rows]" "[length rows..<length (rows @ later)]" zs]
    by (simp del: length_append upt_Suc)
qed simp

lemma donchian_run:
  "generate_donchian_ensemble_allocations candles config = Inr zs \<longleftrightarrow>
     (\<exists>c ordered daily. donchian_settings config = Inr c \<and> canonical_candles candles (Some ''1m'') = Inr ordered \<and>
        aggregate ordered ''1d'' = Inr daily \<and> extend_all (donchian_segment c) (segments day_ms daily) = Inr zs)"
  by (auto simp: generate_donchian_ensemble_allocations_def rbind_Inr_iff)

text \<open>A configuration that passed its checks has horizons, all different.\<close>

lemma donchian_configured:
  assumes "make_donchian c = Inr c'"
  shows "distinct (de_horizons_days c') \<and> (\<exists>warmup. full_warmup c' = Inr warmup)"
proof -
  from assms have "c' = c" "de_horizons_days c \<noteq> []" "sort (remdups (de_horizons_days c)) = de_horizons_days c"
    by (auto simp: make_donchian_def validate_Inr_iff donchian_checks_def)
  then have "distinct (de_horizons_days c')" by (metis distinct_remdups distinct_sort)
  moreover obtain h hs where "de_horizons_days c' = h # hs" using \<open>c' = c\<close> \<open>de_horizons_days c \<noteq> []\<close> by (cases "de_horizons_days c") auto
  ultimately show ?thesis by (simp add: full_warmup_def)
qed

lemma donchian_causal:
  assumes order: "canonical_candles (xs @ ys) (Some ''1m'') = Inr (xs @ ys)" and c: "make_donchian c = Inr c"
    and run: "generate_donchian_ensemble_allocations (xs @ ys) (Some (DonchianEnsemble c)) = Inr zs"
  shows "\<exists>as bs. generate_donchian_ensemble_allocations xs (Some (DonchianEnsemble c)) = Inr as \<and> zs = as @ bs"
proof -
  obtain warmup where "full_warmup c = Inr warmup" using donchian_configured [OF c] by blast
  then have "donchian_segment c = (\<lambda>rows. ensemble_rows c warmup rows ensemble_start [0..<length rows])"
    by (simp add: donchian_segment_def fun_eq_iff)
  with run donchian.minutes_prefix [OF order, of "''1d''" c warmup zs] show ?thesis
    by (simp add: generate_donchian_ensemble_allocations_def donchian_settings_def)
qed

lemma donchian_emitted:
  assumes "distinct (de_horizons_days c)" "extend_all (donchian_segment c) segs = Inr zs" "a \<in> set zs"
  shows "\<exists>seg i. seg \<in> set segs \<and> i < length seg \<and> donchian_decides c seg i a"
proof -
  from assms(2,3) obtain seg as where seg: "seg \<in> set segs" "donchian_segment c seg = Inr as" "a \<in> set as"
    unfolding extend_all_def rmap_Inr_iff by (metis traverse_mem UN_E set_concat)
  from donchian_segment_reach [OF seg(2)] obtain warmup st where "ensemble_reaches c warmup seg (length seg) st as" by blast
  from ensemble_reaches_emitted [OF this seg(3)] obtain i before later st' out where day: "i < length seg"
    "ensemble_row c warmup seg i before = Inr (st', out)" "ensemble_reaches c warmup seg (Suc i) st' (later @ out)" "a \<in> set out" by blast
  from ensemble_row_decides [OF day(2) ensemble_reaches_known [OF day(3) assms(1)] day(4)] seg(1) day(1) show ?thesis by blast
qed

subsection \<open>A fall and a recovery\<close>

definition sample_donchian :: donchian_config where
  "sample_donchian =
    \<lparr>de_horizons_days = [2], de_volatility_lookback_days = 3, de_annualization_days = 4,
     de_target_annualized_volatility = Num (1 / 4), de_maximum_weight = Num 2, de_volatility_rebalance_threshold = Num (1 / 2)\<rparr>"

definition fall_and_recovery :: "nat \<Rightarrow> rat" where
  "fall_and_recovery k = (if k = 0 then 128 else if k = 3 then 96 else 64)"

abbreviation sample_days :: "candle list" where
  "sample_days \<equiv> map (step_frame ''1d'' 1440 fall_and_recovery 1 0) [0..<4]"

lemma sample_channels:
  "channel sample_days 1 2 = Inr (Num 128, Num 96)" "channel sample_days 2 2 = Inr (Num 64, Num 64)" "channel sample_days 3 2 = Inr (Num 96, Num 80)"
  "annualized_volatility sample_donchian sample_days 3 = Inr (Some (Num 1))" "desired_weight sample_donchian (Num 1) [2] = Inr (Num (1 / 4))"
  by code_simp+

lemma donchian_accepted:
  assumes "c_symbol row = ''BTCUSDT''" "0 \<le> c_close_time_ms row" "fle fzero weight" "fle weight (Num 2)" "is_finite weight"
    "is_finite volatility" "fless fzero volatility" "is_finite stop" "fless fzero stop"
  shows "\<exists>a. make_target_allocation (donchian_allocation c row weight volatility [(h, stop)] reason) = Inr a"
proof -
  have "sort (donchian_metadata c) = donchian_metadata c"
    by (rule sorted_sort_id) (simp add: donchian_metadata_def less_eq_prod_def)
  moreover have "\<not> fle volatility fzero" "\<not> fle stop fzero" using assms(7,9) by (simp_all add: fless_def)
  ultimately show ?thesis using assms
    by (simp add: make_target_allocation_def validate_Inr_iff allocation_checks_def donchian_allocation_def
        strip_def is_space_def upper_def upper_char_def donchian_metadata_def)
qed

lemma sample_donchian_segment: "\<exists>a. donchian_segment sample_donchian sample_days = Inr [a]"
proof -
  define days where "days = sample_days"
  have closes: "c_close (days ! 1) = Num 64" "c_close (days ! 2) = Num 64" "c_close (days ! 3) = Num 96" "length days = 4"
    and row: "c_symbol (days ! 3) = ''BTCUSDT''" "0 \<le> c_close_time_ms (days ! 3)"
    by (simp_all add: days_def step_frame_def fall_and_recovery_def)
  note figures = sample_channels [folded days_def]
  let ?s2 = "ensemble_start\<lparr>en_active := (\<lambda>_. False)(2 := True), en_trailing := (\<lambda>_. None)(2 := Some (Num 64))\<rparr>"
  let ?s3 = "ensemble_start\<lparr>en_active := (\<lambda>_. False)(2 := True), en_trailing := (\<lambda>_. None)(2 := Some (Num 80)), en_executed := Some (Num (1 / 4))\<rparr>"
  have cfg: "de_horizons_days sample_donchian = [2]" "de_volatility_lookback_days sample_donchian = 3" by (simp_all add: sample_donchian_def)
  have early: "annualized_volatility sample_donchian days i = Inr None" if "i < 3" for i
    using that by (simp add: annualized_volatility_def cfg)
  have passes: "horizon_pass days 0 [2] ensemble_start False = Inr (ensemble_start, False)"
    "horizon_pass days 1 [2] ensemble_start False = Inr (ensemble_start, False)"
    "horizon_pass days 2 [2] ensemble_start False = Inr (?s2, True)"
    "horizon_pass days 3 [2] ?s2 False = Inr (?s3\<lparr>en_executed := None\<rparr>, False)"
    using figures(1-3) closes by (simp_all add: horizon_update_def ensemble_start_def fmax_Cons fun_upd_idem)
  have "\<exists>a. make_target_allocation (donchian_allocation sample_donchian (days ! 3) (Num (1 / 4)) (Num 1) [(2, Num 80)] SIGNAL) = Inr a"
    by (rule donchian_accepted) (simp_all add: row)
  then obtain a where a: "make_target_allocation (donchian_allocation sample_donchian (days ! 3) (Num (1 / 4)) (Num 1) [(2, Num 80)] SIGNAL) = Inr a" ..
  have "ensemble_row sample_donchian 4 days 3 ?s2 = Inr (?s3, [a])"
    unfolding ensemble_row_def cfg(1) passes figures(4)
    using a figures(5) by (simp add: weight_decision_def stop_of_def ensemble_start_def rmap_def Let_def)
  moreover have "ensemble_row sample_donchian 4 days 0 ensemble_start = Inr (ensemble_start, [])"
    "ensemble_row sample_donchian 4 days 1 ensemble_start = Inr (ensemble_start, [])"
    "ensemble_row sample_donchian 4 days 2 ensemble_start = Inr (?s2, [])"
    unfolding ensemble_row_def cfg(1) passes by (simp_all add: early)
  moreover have "full_warmup sample_donchian = Inr 4" by (simp add: full_warmup_def sample_donchian_def)
  moreover have "[0..<length days] = [0, 1, 2, 3]" by (simp add: closes upt_rec)
  ultimately have "donchian_segment sample_donchian days = Inr [a]" by (simp add: donchian_segment_def rmap_def del: upt_rec_numeral)
  then show ?thesis by (auto simp: days_def)
qed

abbreviation sample_donchian_minutes :: "candle list" where
  "sample_donchian_minutes \<equiv> step_minutes 1440 fall_and_recovery 1 0 (1440 * 4)"

lemma sample_donchian_days:
  "aggregate sample_donchian_minutes ''1d'' = Inr sample_days" "segments day_ms sample_days = [sample_days]"
proof -
  show "aggregate sample_donchian_minutes ''1d'' = Inr sample_days"
    by (rule step_aggregate) (auto simp: timeframe_ms_def timeframe_table_def step_market_def fall_and_recovery_def)
  show "segments day_ms sample_days = [sample_days]"
    using step_segments [of 1440 4 "''1d''" fall_and_recovery 1 0] by (simp add: day_ms_def del: upt_rec_numeral)
qed

lemma sample_donchian_run:
  "\<exists>a. generate_donchian_ensemble_allocations sample_donchian_minutes (Some (DonchianEnsemble sample_donchian)) = Inr [a]"
proof -
  obtain a where "donchian_segment sample_donchian sample_days = Inr [a]" using sample_donchian_segment by blast
  then have "extend_all (donchian_segment sample_donchian) [sample_days] = Inr [a]" by (simp only: extend_all_Cons extend_all_Nil) (simp add: rmap_def)
  then show ?thesis
    unfolding generate_donchian_ensemble_allocations_def donchian_settings_def option.case strategy_config.case rbind_simps
      step_canonical sample_donchian_days by blast
qed

lemma sample_donchian_config: "make_donchian sample_donchian = Inr sample_donchian"
proof -
  have "list_all (\<lambda>k. \<not> fst k) (donchian_checks sample_donchian)" by code_simp
  then show ?thesis by (simp add: make_donchian_def validate_Inr_iff)
qed

subsection \<open>Properties\<close>

text \<open>
  Property C19: every allocation of the ensemble is explained by one closed day of one gap-free run of days: it takes
  effect after that day, its volatility is that of the days before, and each of its trailing stops is the highest
  middle of the channel since a day of a new high, after which no close fell to the stop of the day before it without
  being a new high itself.
\<close>

theorem donchian_stops_justified:
  assumes "make_donchian c = Inr c" "generate_donchian_ensemble_allocations candles (Some (DonchianEnsemble c)) = Inr zs" "a \<in> set zs"
  shows "\<exists>ordered daily seg i. canonical_candles candles (Some ''1m'') = Inr ordered \<and> aggregate ordered ''1d'' = Inr daily \<and>
    seg \<in> set (segments day_ms daily) \<and> i < length seg \<and> donchian_decides c seg i a"
proof -
  from assms(2) obtain ordered daily where run: "canonical_candles candles (Some ''1m'') = Inr ordered" "aggregate ordered ''1d'' = Inr daily"
    "extend_all (donchian_segment c) (segments day_ms daily) = Inr zs" by (auto simp: donchian_run donchian_settings_def)
  from donchian_configured [OF assms(1)] have "distinct (de_horizons_days c)" by blast
  from donchian_emitted [OF this run(3) assms(3)] run(1,2) show ?thesis by blast
qed

theorem donchian_stops_justified_witness:
  "\<exists>a seg i. generate_donchian_ensemble_allocations sample_donchian_minutes (Some (DonchianEnsemble sample_donchian)) = Inr [a] \<and>
     i < length seg \<and> donchian_decides sample_donchian seg i a"
proof -
  obtain a where a: "generate_donchian_ensemble_allocations sample_donchian_minutes (Some (DonchianEnsemble sample_donchian)) = Inr [a]"
    using sample_donchian_run by blast
  from donchian_stops_justified [OF sample_donchian_config a] a show ?thesis by auto
qed



text \<open>
  Property C24: whatever the days, the state machine of a horizon never reads a stop that is not there: a run over
  days ends with allocations or with another error, never with a missing key.
\<close>

theorem donchian_stop_never_missing:
  assumes "make_donchian c = Inr c"
  shows "donchian_segment c rows \<noteq> Inl (KeyError k)"
proof -
  from donchian_configured [OF assms] obtain warmup where w: "full_warmup c = Inr warmup" and d: "distinct (de_horizons_days c)" by blast
  have "ensemble_known c rows 0 ensemble_start" by (simp add: ensemble_known_def ensemble_start_def stop_known_def)
  then have "no_key_error (ensemble_rows c warmup rows ensemble_start [0..<length rows])" using d by (rule no_key_error_rows) simp
  then show ?thesis by (auto simp: donchian_segment_def w no_key_error_def split: sum.splits)
qed

theorem donchian_stop_never_missing_witness: "donchian_segment sample_donchian sample_days \<noteq> Inl (KeyError ''2'')"
  by (rule donchian_stop_never_missing) (rule sample_donchian_config)

end
