(* ===== verification/Crowded.thy ===== *)
theory Crowded
  imports RightTail Factors
begin

section \<open>Crowded trend continuation (sleeves/crowded\_trend\_continuation.py)\<close>

text \<open>
  An hourly trend is followed only when the derivatives market is crowding into it: open interest has grown over the
  lookback and the premium or the funding rate points the same way. The observations are an explicit input.
\<close>

definition crowded_number :: "pyfloat \<Rightarrow> string result" where
  "crowded_number = evidence_number ''crowded-trend evidence must be finite''"

text \<open>The first range uses the close of its own row as the previous close.\<close>

definition crowded_range :: "candle list \<Rightarrow> nat \<Rightarrow> pyfloat" where
  "crowded_range rows index =
     (let row = rows ! index; previous_close = (if index = 0 then c_close row else c_close (rows ! (index - 1))) in
      fmax (fsub (c_high row) (c_low row))
        [fabs (fsub (c_high row) previous_close), fabs (fsub (c_low row) previous_close)])"

text \<open>\<open>factors_by_hour.get(t)\<close>: a later observation of the same hour would replace an earlier one.\<close>

definition factor_at :: "observation list \<Rightarrow> int \<Rightarrow> observation option" where
  "factor_at factors t = map_of (rev (map (\<lambda>f. (o_open_time_ms f, f)) factors)) t"

definition crowded_side :: "crowded_config \<Rightarrow> pyfloat \<Rightarrow> (side \<times> pyfloat) option" where
  "crowded_side c score =
     (if fle (ct_minimum_trend_score c) score then Some (LONG, Num 1)
      else if fle score (fneg (ct_minimum_trend_score c)) then Some (SHORT, Num (- 1)) else None)"

text \<open>The change of open interest over the lookback, and premium and funding in the direction of the trade.\<close>

record crowd =
  w_oi_change :: pyfloat
  w_aligned_premium :: pyfloat
  w_aligned_funding :: pyfloat

definition crowd_figures :: "pyfloat \<Rightarrow> observation \<Rightarrow> observation \<Rightarrow> crowd result" where
  "crowd_figures direction factor prior =
     rmap (\<lambda>ratio. \<lparr>w_oi_change = fsub ratio fone, w_aligned_premium = fmul direction (o_premium_close factor),
             w_aligned_funding = fmul direction (o_funding_rate factor)\<rparr>)
       (py_div (o_open_interest_value factor) (o_open_interest_value prior))"

definition crowding :: "crowded_config \<Rightarrow> crowd \<Rightarrow> bool" where
  "crowding c w \<longleftrightarrow>
     \<not> fless (w_oi_change w) (ct_minimum_open_interest_change c) \<and>
     (fle (ct_minimum_aligned_premium c) (w_aligned_premium w) \<or> fle (ct_minimum_aligned_funding c) (w_aligned_funding w))"

definition crowded_risk :: "crowded_config \<Rightarrow> pyfloat \<Rightarrow> pyfloat" where
  "crowded_risk c atr = fmul (ct_stop_atr_multiple c) atr"

definition crowded_reward :: "crowded_config \<Rightarrow> pyfloat \<Rightarrow> pyfloat" where
  "crowded_reward c atr = fmul (ct_target_reward_to_risk c) (crowded_risk c atr)"

definition crowded_feature_hash ::
  "crowded_config \<Rightarrow> candle \<Rightarrow> observation \<Rightarrow> side \<Rightarrow> pyfloat \<Rightarrow> pyfloat \<Rightarrow> crowd \<Rightarrow> string result" where
  "crowded_feature_hash c row factor sd atr score w =
     rbind (crowded_number (w_aligned_funding w)) (\<lambda>funding_text.
     rbind (crowded_number (w_aligned_premium w)) (\<lambda>premium_text.
     rbind (crowded_number atr) (\<lambda>atr_text.
     rbind (crowded_number (w_oi_change w)) (\<lambda>oi_text.
     rbind (crowded_number (c_close row)) (\<lambda>reference_text.
     rbind (crowded_number score) (\<lambda>score_text.
       Inr (json_sha256 (JObj
         [(''aligned_funding'', JStr funding_text),
          (''aligned_premium'', JStr premium_text),
          (''atr'', JStr atr_text),
          (''config_sha256'', JStr (config_fingerprint (CrowdedTrend c))),
          (''decision_ts_ms'', JInt (c_close_time_ms row)),
          (''funding_timestamp_ms'', JInt (o_funding_timestamp_ms factor)),
          (''oi_change'', JStr oi_text),
          (''open_interest_timestamp_ms'', JInt (o_open_interest_timestamp_ms factor)),
          (''reference_price'', JStr reference_text),
          (''side'', JStr (side_value sd)),
          (''strategy_version'', JStr ''crowded_trend_continuation_v1''),
          (''symbol'', JStr (c_symbol row)),
          (''trend_score'', JStr score_text)]))))))))"

definition crowded_intent ::
  "crowded_config \<Rightarrow> candle \<Rightarrow> observation \<Rightarrow> side \<Rightarrow> pyfloat \<Rightarrow> pyfloat \<Rightarrow> crowd \<Rightarrow> pyfloat \<Rightarrow> pyfloat \<Rightarrow> sleeve_intent result" where
  "crowded_intent c row factor sd atr score w stop target =
     rbind (crowded_feature_hash c row factor sd atr score w) (\<lambda>feature_hash.
     rbind (py_div (fabs score) (fmul (Num 2) (ct_minimum_trend_score c))) (\<lambda>strength.
     rbind (py_div (crowded_reward c atr) (c_close row)) (\<lambda>reward.
     rbind (make_exit_plan \<lparr>stop_price = stop, target_price = target, max_holding_ms = ct_max_hold_hours c * sleeve_hour_ms,
              trailing_activation_price = None, trailing_distance = None\<rparr>) (\<lambda>plan.
     rbind (crowded_number (w_aligned_funding w)) (\<lambda>funding_text.
     rbind (crowded_number (w_aligned_premium w)) (\<lambda>premium_text.
     rbind (crowded_number atr) (\<lambda>atr_text.
     rbind (crowded_number (w_oi_change w)) (\<lambda>oi_text.
     rbind (crowded_number score) (\<lambda>score_text.
       make_sleeve_intent
         \<lparr>i_sleeve_id = ''crowded_trend_continuation_v1'', i_symbol = c_symbol row, i_side = sd,
          i_decision_ts_ms = c_close_time_ms row, i_entry_eligible_ts_ms = c_close_time_ms row + 1,
          i_entry_expires_ts_ms = c_close_time_ms row + ct_intent_valid_hours c * sleeve_hour_ms,
          i_reference_price = c_close row, i_signal_strength = fmin fone [strength],
          i_gross_reward_bps = fmul reward (Num 10000), i_exit_plan = plan,
          i_metadata =
            [(''aligned_funding'', funding_text),
             (''aligned_premium'', premium_text),
             (''atr'', atr_text),
             (''config_sha256'', config_fingerprint (CrowdedTrend c)),
             (''feature_hash'', feature_hash),
             (''oi_change'', oi_text),
             (''strategy_version'', ''crowded_trend_continuation_v1''),
             (''trend_score'', score_text)]\<rparr>)))))))))"

text \<open>The decision on the measurements of one hour.\<close>

definition crowded_trade ::
  "crowded_config \<Rightarrow> candle \<Rightarrow> observation \<Rightarrow> observation \<Rightarrow> pyfloat option \<Rightarrow> pyfloat \<Rightarrow> sleeve_intent list result" where
  "crowded_trade c row factor prior measured atr =
     (case measured of
        None \<Rightarrow> Inr []
      | Some score \<Rightarrow>
          if \<not> usable atr then Inr []
          else case crowded_side c score of
              None \<Rightarrow> Inr []
            | Some (sd, direction) \<Rightarrow>
                rbind (crowd_figures direction factor prior) (\<lambda>w.
                  if \<not> crowding c w then Inr []
                  else let reference = c_close row;
                           stop = fsub reference (fmul direction (crowded_risk c atr));
                           target = fadd reference (fmul direction (crowded_reward c atr)) in
                    if \<not> list_all usable [reference, stop, target] then Inr []
                    else rmap (\<lambda>i. [i]) (crowded_intent c row factor sd atr score w stop target)))"

definition crowded_row ::
  "(pyfloat \<Rightarrow> pyfloat) \<Rightarrow> crowded_config \<Rightarrow> observation list \<Rightarrow> candle list \<Rightarrow> pyfloat list \<Rightarrow> nat \<Rightarrow> sleeve_intent list result" where
  "crowded_row c_log c factors rows atr_values index =
     (let row = rows ! index in
      if int index < ct_trend_lookback_hours c then Inr []
      else case (factor_at factors (c_open_time_ms row),
                 factor_at factors (c_open_time_ms row - ct_trend_lookback_hours c * sleeve_hour_ms)) of
          (Some factor, Some prior) \<Rightarrow>
            rbind (trend_score c_log rows index (ct_trend_lookback_hours c)) (\<lambda>measured.
              crowded_trade c row factor prior measured (atr_values ! index))
        | _ \<Rightarrow> Inr [])"

definition crowded_segment ::
  "(pyfloat \<Rightarrow> pyfloat) \<Rightarrow> crowded_config \<Rightarrow> observation list \<Rightarrow> candle list \<Rightarrow> sleeve_intent list result" where
  "crowded_segment c_log c factors rows =
     rbind (wilder_atr fsum crowded_range rows (ct_atr_period_hours c)) (\<lambda>atr_values.
       extend_all (crowded_row c_log c factors rows atr_values) [0..<length rows])"

definition crowded_settings :: "strategy_config option \<Rightarrow> crowded_config result" where
  "crowded_settings config =
     (case config of
        None \<Rightarrow> make_crowded crowded_default
      | Some (CrowdedTrend c) \<Rightarrow> Inr c
      | Some _ \<Rightarrow> Inl (ValueError ''config must be a CrowdedTrendContinuationConfig or None''))"

definition generate_crowded_trend_continuation_intents ::
  "(pyfloat \<Rightarrow> pyfloat) \<Rightarrow> candle list \<Rightarrow> observation list \<Rightarrow> strategy_config option \<Rightarrow> sleeve_intent list result" where
  "generate_crowded_trend_continuation_intents c_log candles observations config =
     rbind (crowded_settings config) (\<lambda>c.
     rbind (canonical_candles candles (Some ''1m'')) (\<lambda>ordered.
     rbind (canonical_derivative_observations observations) (\<lambda>factors.
       if ordered = [] \<or> factors = [] then Inr []
       else if c_symbol (hd ordered) \<noteq> o_symbol (hd factors)
       then Inl (ValueError ''price and factor symbols must match'')
       else rbind (aggregate ordered ''1h'') (\<lambda>hourly.
         extend_all (crowded_segment c_log c factors) (segments sleeve_hour_ms hourly)))))"

subsection \<open>Causality\<close>

lemma crowded_range_append: "index < length rows \<Longrightarrow> crowded_range (rows @ later) index = crowded_range rows index"
  by (cases index) (simp_all add: crowded_range_def nth_append Let_def)

lemma crowded_row_local:
  "index < length rows \<Longrightarrow> length as = length rows \<Longrightarrow>
     crowded_row c_log c factors (rows @ later) (as @ bs) index = crowded_row c_log c factors rows as index"
  by (simp add: crowded_row_def nth_append trend_score_prefix Let_def split: option.split)

interpretation crowded: row_generator sleeve_hour_ms "\<lambda>rows. wilder_atr fsum crowded_range rows (ct_atr_period_hours c)"
  "crowded_row c_log c factors" 0 for c_log c factors
proof unfold_locales
  show "wilder_atr fsum crowded_range (rows @ later) (ct_atr_period_hours c) = Inr fs \<Longrightarrow>
      \<exists>as bs. wilder_atr fsum crowded_range rows (ct_atr_period_hours c) = Inr as \<and> fs = as @ bs \<and> length as = length rows"
    for rows later fs by (rule wilder_atr_prefix) (rule crowded_range_append)
qed (simp_all add: crowded_row_local)

lemmas crowded_minutes_prefix = crowded.minutes_prefix [folded crowded_segment_def]

text \<open>Observations of hours that have not opened yet are not read.\<close>

lemma factor_at_append:
  "\<forall>f \<in> set late. t < o_open_time_ms f \<Longrightarrow> factor_at (known @ late) t = factor_at known t"
  by (induction late rule: rev_induct) (auto simp: factor_at_def)

lemma factor_at_Some: "factor_at factors t = Some f \<Longrightarrow> f \<in> set factors \<and> o_open_time_ms f = t"
  by (auto simp: factor_at_def dest!: map_of_SomeD)

lemma crowded_segment_late:
  assumes "0 < ct_trend_lookback_hours c" "\<forall>row \<in> set rows. \<forall>f \<in> set late. c_open_time_ms row < o_open_time_ms f"
  shows "crowded_segment c_log c (known @ late) rows = crowded_segment c_log c known rows"
proof -
  have "crowded_row c_log c (known @ late) rows atr_values i = crowded_row c_log c known rows atr_values i"
    if "i < length rows" for atr_values i
  proof -
    from assms(2) that have now: "\<forall>f \<in> set late. c_open_time_ms (rows ! i) < o_open_time_ms f" by simp
    have "0 < ct_trend_lookback_hours c * sleeve_hour_ms" using assms(1) by (simp add: sleeve_hour_ms_def)
    with now have "\<forall>f \<in> set late. c_open_time_ms (rows ! i) - ct_trend_lookback_hours c * sleeve_hour_ms < o_open_time_ms f" by fastforce
    with now show ?thesis by (simp add: crowded_row_def Let_def factor_at_append)
  qed
  then show ?thesis unfolding crowded_segment_def
    by (intro arg_cong [where f = "rbind _"] ext extend_all_cong) simp
qed

subsection \<open>What an intent says\<close>

text \<open>The justification of an intent emitted at the \<open>i\<close>-th hour of a segment.\<close>

definition crowded_justifies ::
  "(pyfloat \<Rightarrow> pyfloat) \<Rightarrow> crowded_config \<Rightarrow> observation list \<Rightarrow> candle list \<times> nat \<Rightarrow> sleeve_intent \<Rightarrow> bool" where
  "crowded_justifies c_log c factors p s \<longleftrightarrow>
     (let (seg, i) = p; row = seg ! i in
      case (factor_at factors (c_open_time_ms row),
            factor_at factors (c_open_time_ms row - ct_trend_lookback_hours c * sleeve_hour_ms),
            trend_score c_log seg i (ct_trend_lookback_hours c), wilder_atr fsum crowded_range seg (ct_atr_period_hours c)) of
        (Some factor, Some prior, Inr (Some score), Inr atr_values) \<Rightarrow>
          (case crowded_side c score of
             None \<Rightarrow> False
           | Some (sd, direction) \<Rightarrow>
               i_side s = sd \<and> usable (atr_values ! i) \<and>
               (case crowd_figures direction factor prior of Inl _ \<Rightarrow> False | Inr w \<Rightarrow> crowding c w) \<and>
               stop_price (i_exit_plan s) = fsub (c_close row) (fmul direction (crowded_risk c (atr_values ! i))) \<and>
               target_price (i_exit_plan s) = fadd (c_close row) (fmul direction (crowded_reward c (atr_values ! i))) \<and>
               max_holding_ms (i_exit_plan s) = ct_max_hold_hours c * sleeve_hour_ms \<and>
               i_sleeve_id s = ''crowded_trend_continuation_v1'' \<and> i_symbol s = c_symbol row \<and>
               i_reference_price s = c_close row \<and> i_decision_ts_ms s = c_close_time_ms row \<and>
               i_entry_eligible_ts_ms s = c_close_time_ms row + 1 \<and>
               i_entry_expires_ts_ms s = c_close_time_ms row + ct_intent_valid_hours c * sleeve_hour_ms)
      | _ \<Rightarrow> False)"

lemma crowded_intent_fields:
  assumes "crowded_intent c row factor sd atr score w stop target = Inr s" "list_all usable [c_close row, stop, target]"
  shows "stop_price (i_exit_plan s) = stop \<and> target_price (i_exit_plan s) = target \<and>
    max_holding_ms (i_exit_plan s) = ct_max_hold_hours c * sleeve_hour_ms \<and>
    i_sleeve_id s = ''crowded_trend_continuation_v1'' \<and> i_symbol s = c_symbol row \<and> i_reference_price s = c_close row \<and>
    i_side s = sd \<and> i_decision_ts_ms s = c_close_time_ms row \<and> i_entry_eligible_ts_ms s = c_close_time_ms row + 1 \<and>
    i_entry_expires_ts_ms s = c_close_time_ms row + ct_intent_valid_hours c * sleeve_hour_ms \<and> sleeve_intent_wf s"
proof -
  from assms(1) have "sleeve_intent_wf s" unfolding crowded_intent_def rbind_Inr_iff by (blast intro: make_sleeve_intent_wf)
  with assms show ?thesis
    by (auto simp: crowded_intent_def rbind_Inr_iff make_exit_plan_def make_sleeve_intent_def validate_Inr_iff with_intent_id_def
        normalized_intent_def intent_fields.extend_def)
qed

lemma crowded_trade_cases:
  assumes "crowded_trade c row factor prior measured atr = Inr out" "out \<noteq> []"
  obtains score sd direction w s where "measured = Some score" "usable atr" "crowded_side c score = Some (sd, direction)"
    "crowd_figures direction factor prior = Inr w" "crowding c w"
    "list_all usable [c_close row, fsub (c_close row) (fmul direction (crowded_risk c atr)),
       fadd (c_close row) (fmul direction (crowded_reward c atr))]"
    "crowded_intent c row factor sd atr score w (fsub (c_close row) (fmul direction (crowded_risk c atr)))
       (fadd (c_close row) (fmul direction (crowded_reward c atr))) = Inr s" "out = [s]"
proof (cases measured)
  case (Some score)
  obtain sd direction where sd: "crowded_side c score = Some (sd, direction)" "usable atr"
    using assms Some by (cases "crowded_side c score") (auto simp: crowded_trade_def split: if_splits)
  with assms Some obtain w where w: "crowd_figures direction factor prior = Inr w"
    by (cases "crowd_figures direction factor prior") (auto simp: crowded_trade_def)
  show thesis using assms Some sd w that by (auto simp: crowded_trade_def Let_def rmap_Inr_iff split: if_splits)
qed (use assms in \<open>simp add: crowded_trade_def\<close>)

lemma crowded_row_output:
  assumes run: "crowded_row c_log c factors seg atr_values i = Inr out"
    and atr: "wilder_atr fsum crowded_range seg (ct_atr_period_hours c) = Inr atr_values"
  shows "out = [] \<or> (\<exists>s. out = [s] \<and> crowded_justifies c_log c factors (seg, i) s \<and> sleeve_intent_wf s)"
proof (cases "out = []")
  case False
  from run False obtain factor prior where f: "factor_at factors (c_open_time_ms (seg ! i)) = Some factor"
    "factor_at factors (c_open_time_ms (seg ! i) - ct_trend_lookback_hours c * sleeve_hour_ms) = Some prior"
    by (auto simp: crowded_row_def Let_def split: if_splits option.splits)
  with run False obtain measured where m: "trend_score c_log seg i (ct_trend_lookback_hours c) = Inr measured"
    "crowded_trade c (seg ! i) factor prior measured (atr_values ! i) = Inr out"
    by (auto simp: crowded_row_def Let_def rbind_Inr_iff split: if_splits)
  from m(2) False show ?thesis
    by (rule crowded_trade_cases) (use m(1) f atr in \<open>simp add: crowded_justifies_def Let_def crowded_intent_fields\<close>)
qed simp

lemma crowded_segment_output:
  assumes run: "crowded_segment c_log c factors seg = Inr out"
  shows "\<exists>ps. subseq ps (map (Pair seg) [0..<length seg]) \<and>
    list_all2 (\<lambda>p s. crowded_justifies c_log c factors p s \<and> sleeve_intent_wf s) ps out"
proof -
  from run obtain atr_values where atr: "wilder_atr fsum crowded_range seg (ct_atr_period_hours c) = Inr atr_values"
    and run: "extend_all (crowded_row c_log c factors seg atr_values) [0..<length seg] = Inr out"
    by (auto simp: crowded_segment_def rbind_Inr_iff)
  from run have "extend_all (\<lambda>(seg, i). crowded_row c_log c factors seg atr_values i) (map (Pair seg) [0..<length seg]) = Inr out"
    by (simp add: extend_all_map comp_def)
  then show ?thesis by (rule extend_all_optional) (use atr in \<open>auto dest: crowded_row_output\<close>)
qed

lemma crowded_run:
  "generate_crowded_trend_continuation_intents c_log candles observations config = Inr zs \<longleftrightarrow>
     (\<exists>c ordered factors. crowded_settings config = Inr c \<and> canonical_candles candles (Some ''1m'') = Inr ordered \<and>
        canonical_derivative_observations observations = Inr factors \<and>
        (if ordered = [] \<or> factors = [] then zs = []
         else c_symbol (hd ordered) = o_symbol (hd factors) \<and>
           (\<exists>hourly. aggregate ordered ''1h'' = Inr hourly \<and>
              extend_all (crowded_segment c_log c factors) (segments sleeve_hour_ms hourly) = Inr zs)))"
  by (auto simp: generate_crowded_trend_continuation_intents_def rbind_Inr_iff)

lemma crowded_justifiesE:
  assumes "crowded_justifies c_log c factors (seg, i) s"
  obtains factor prior where "factor_at factors (c_open_time_ms (seg ! i)) = Some factor"
    "factor_at factors (c_open_time_ms (seg ! i) - ct_trend_lookback_hours c * sleeve_hour_ms) = Some prior"
    "i_decision_ts_ms s = c_close_time_ms (seg ! i)"
proof -
  from assms obtain factor prior score atr_values where f: "factor_at factors (c_open_time_ms (seg ! i)) = Some factor"
    "factor_at factors (c_open_time_ms (seg ! i) - ct_trend_lookback_hours c * sleeve_hour_ms) = Some prior"
    "trend_score c_log seg i (ct_trend_lookback_hours c) = Inr (Some score)"
    "wilder_atr fsum crowded_range seg (ct_atr_period_hours c) = Inr atr_values"
    by (simp add: crowded_justifies_def Let_def split: option.splits sum.splits)
  show thesis
  proof (cases "crowded_side c score")
    case (Some a)
    then show thesis using assms f that by (cases a) (simp add: crowded_justifies_def Let_def)
  qed (use assms f in \<open>simp add: crowded_justifies_def\<close>)
qed

text \<open>The evidence of a justified intent was published when the intent is decided.\<close>

definition published :: "observation \<Rightarrow> int \<Rightarrow> bool" where
  "published f t \<longleftrightarrow> o_close_time_ms f \<le> t \<and> o_open_interest_timestamp_ms f \<le> t \<and> o_funding_timestamp_ms f \<le> t"

lemma crowded_evidence_published:
  assumes j: "crowded_justifies c_log c factors p s" and row: "row_aligned sleeve_hour_ms (row_at p)"
    and valid: "list_all valid_observation factors" and lookback: "0 < ct_trend_lookback_hours c"
  shows "\<exists>factor prior. factor_at factors (c_open_time_ms (row_at p)) = Some factor \<and>
    factor_at factors (c_open_time_ms (row_at p) - ct_trend_lookback_hours c * sleeve_hour_ms) = Some prior \<and>
    published factor (i_decision_ts_ms s) \<and> published prior (i_decision_ts_ms s)"
proof -
  obtain seg i where p: "p = (seg, i)" by fastforce
  from j [unfolded p] obtain factor prior where f: "factor_at factors (c_open_time_ms (seg ! i)) = Some factor"
    "factor_at factors (c_open_time_ms (seg ! i) - ct_trend_lookback_hours c * sleeve_hour_ms) = Some prior"
    and ts: "i_decision_ts_ms s = c_close_time_ms (seg ! i)" by (rule crowded_justifiesE)
  have bounded: "published f t" if "f \<in> set factors" "o_open_time_ms f + sleeve_hour_ms - 1 \<le> t" for f t
  proof -
    from valid that(1) have "make_observation f = Inr f" by (simp add: list_all_iff valid_observation_def)
    from observation_causal [OF this] that(2) show ?thesis by (simp add: published_def sleeve_hour_ms_def hour_ms_def)
  qed
  have "0 < ct_trend_lookback_hours c * sleeve_hour_ms" using lookback by (simp add: sleeve_hour_ms_def)
  then show ?thesis using f ts row factor_at_Some [OF f(1)] factor_at_Some [OF f(2)] bounded
    by (simp add: p row_aligned_def)
qed

subsection \<open>A crowded hour\<close>

definition sample_crowded_config :: crowded_config where
  "sample_crowded_config =
    \<lparr>ct_trend_lookback_hours = 1, ct_minimum_trend_score = Num (1 / 2), ct_minimum_open_interest_change = Num (1 / 16),
     ct_minimum_aligned_premium = Num (1 / 4), ct_minimum_aligned_funding = Num (1 / 8), ct_atr_period_hours = 1,
     ct_stop_atr_multiple = Num 2, ct_target_reward_to_risk = Num 4, ct_max_hold_hours = 2, ct_intent_valid_hours = 1\<rparr>"

text \<open>Open interest doubles over the rising hour and the premium points up.\<close>

definition crowd_hour :: "int \<Rightarrow> observation" where
  "crowd_hour i = (sample_observation i)\<lparr>o_open_interest_value := Num (if i = 0 then 4 else 8), o_premium_close := Num (1 / 2)\<rparr>"

lemma crowd_hours:
  "canonical_derivative_observations [crowd_hour 0, crowd_hour 1] = Inr [crowd_hour 0, crowd_hour 1]"
  "list_all valid_observation [crowd_hour 0, crowd_hour 1]"
  by code_simp+

lemma sample_crowded_fields:
  "ct_trend_lookback_hours sample_crowded_config = 1" "ct_atr_period_hours sample_crowded_config = 1"
  "ct_max_hold_hours sample_crowded_config = 2" "ct_intent_valid_hours sample_crowded_config = 1"
  "ct_minimum_trend_score sample_crowded_config = Num (1 / 2)"
  by (simp_all add: sample_crowded_config_def)

abbreviation sample_crowd :: crowd where
  "sample_crowd \<equiv> \<lparr>w_oi_change = fone, w_aligned_premium = Num (1 / 2), w_aligned_funding = Num 0\<rparr>"

lemma sample_crowded_arithmetic:
  "crowd_figures (Num 1) (crowd_hour 1) (crowd_hour 0) = Inr sample_crowd" "crowding sample_crowded_config sample_crowd"
  "crowded_side sample_crowded_config fone = Some (LONG, Num 1)"
  "crowded_risk sample_crowded_config (Num 51) = Num 102" "crowded_reward sample_crowded_config (Num 51) = Num 408"
  "fsub (Num 150) (fmul (Num 1) (Num 102)) = Num 48" "fadd (Num 150) (fmul (Num 1) (Num 408)) = Num 558"
  "crowded_number (Num 0) = Inr (format_17g (Num 0))" "crowded_number (Num (1 / 2)) = Inr (format_17g (Num (1 / 2)))"
  "make_exit_plan \<lparr>stop_price = Num 48, target_price = Num 558, max_holding_ms = 7200000,
     trailing_activation_price = None, trailing_distance = None\<rparr> =
   Inr \<lparr>stop_price = Num 48, target_price = Num 558, max_holding_ms = 7200000,
     trailing_activation_price = None, trailing_distance = None\<rparr>"
  by code_simp+

lemma sample_crowded_checks:
  "list_all (\<lambda>k. \<not> fst k) (intent_checks
     \<lparr>i_sleeve_id = ''crowded_trend_continuation_v1'', i_symbol = ''BTCUSDT'', i_side = LONG,
      i_decision_ts_ms = 7199999, i_entry_eligible_ts_ms = 7200000, i_entry_expires_ts_ms = 10799999,
      i_reference_price = Num 150, i_signal_strength = fone,
      i_gross_reward_bps = fmul (fdiv (Num 408) (Num 150)) (Num 10000),
      i_exit_plan = \<lparr>stop_price = Num 48, target_price = Num 558, max_holding_ms = 7200000,
        trailing_activation_price = None, trailing_distance = None\<rparr>,
      i_metadata = [(''aligned_funding'', a), (''aligned_premium'', b), (''atr'', d), (''config_sha256'', e),
        (''feature_hash'', f), (''oi_change'', g), (''strategy_version'', h), (''trend_score'', i)]\<rparr>)"
  by code_simp

lemma sample_crowded_intent:
  "\<exists>s. crowded_intent sample_crowded_config (step_frame ''1h'' 60 rising 1 0 1) (crowd_hour 1) LONG (Num 51) fone sample_crowd
     (Num 48) (Num 558) = Inr s"
proof -
  let ?h = "crowded_feature_hash sample_crowded_config (step_frame ''1h'' 60 rising 1 0 1) (crowd_hour 1) LONG (Num 51) fone sample_crowd"
  have u: "usable (Num 51)" "usable (Num 150)" "usable fone" by (simp_all add: usable_def)
  then have n: "crowded_number (Num 51) = Inr (format_17g (Num 51))" "crowded_number (Num 150) = Inr (format_17g (Num 150))"
    "crowded_number fone = Inr (format_17g fone)" by (simp_all add: crowded_number_def)
  have "?h \<noteq> Inl e" for e
    by (simp add: crowded_feature_hash_def step_frame_def rising_def n sample_crowded_arithmetic)
  then obtain h where "?h = Inr h" by (meson sum.exhaust)
  then show ?thesis
    using sample_crowded_checks [of "format_17g (Num 0)" "format_17g (Num (1 / 2))" "format_17g (Num 51)"
      "config_fingerprint (CrowdedTrend sample_crowded_config)" h "format_17g fone" "''crowded_trend_continuation_v1''"
      "format_17g fone"]
    by (simp add: crowded_intent_def step_frame_def rising_def sample_crowded_arithmetic sample_right_tail_arithmetic n
      make_sleeve_intent_def validate_Inr_iff sample_crowded_fields sleeve_hour_ms_def)
qed

lemma sample_crowded_atr: "wilder_atr fsum crowded_range (sample_hours 2) 1 = Inr [Num 2, Num 51]"
proof -
  have "fmax (Num 2) [fabs (fsub (Num 101) (Num 100)), fabs (fsub (Num 99) (Num 100))] = Num 2" by code_simp
  then show ?thesis
    by (simp add: wilder_atr_def crowded_range_def step_frame_def rising_def Let_def numeral_2_eq_2 sample_ranges [unfolded One_nat_def])
qed

lemma sample_crowded_rows:
  "crowded_row sample_log sample_crowded_config [crowd_hour 0, crowd_hour 1] (sample_hours 2) [Num 2, Num 51] 0 = Inr []"
  "\<exists>s. crowded_row sample_log sample_crowded_config [crowd_hour 0, crowd_hour 1] (sample_hours 2) [Num 2, Num 51] 1 = Inr [s]"
proof -
  show "crowded_row sample_log sample_crowded_config [crowd_hour 0, crowd_hour 1] (sample_hours 2) [Num 2, Num 51] 0 = Inr []"
    by (simp add: crowded_row_def sample_crowded_fields Let_def)
  have at: "sample_hours 2 ! 1 = step_frame ''1h'' 60 rising 1 0 1" by simp
  have t: "c_open_time_ms (step_frame ''1h'' 60 rising 1 0 1) = 3600000" "c_close (step_frame ''1h'' 60 rising 1 0 1) = Num 150"
    by (simp_all add: step_frame_def rising_def)
  have f: "factor_at [crowd_hour 0, crowd_hour 1] 3600000 = Some (crowd_hour 1)" "factor_at [crowd_hour 0, crowd_hour 1] 0 = Some (crowd_hour 0)"
    by (simp_all add: factor_at_def crowd_hour_def sample_observation_def)
  have u: "usable (Num 51)" "usable (Num 150)" "usable (Num 48)" "usable (Num 558)" by (simp_all add: usable_def)
  obtain s where "crowded_intent sample_crowded_config (step_frame ''1h'' 60 rising 1 0 1) (crowd_hour 1) LONG (Num 51) fone sample_crowd
     (Num 48) (Num 558) = Inr s" using sample_crowded_intent by blast
  then have "crowded_trade sample_crowded_config (step_frame ''1h'' 60 rising 1 0 1) (crowd_hour 1) (crowd_hour 0) (Some fone) (Num 51) = Inr [s]"
    by (simp add: crowded_trade_def Let_def sample_crowded_arithmetic u t [unfolded One_nat_def])
  then show "\<exists>s. crowded_row sample_log sample_crowded_config [crowd_hour 0, crowd_hour 1] (sample_hours 2) [Num 2, Num 51] 1 = Inr [s]"
    unfolding crowded_row_def at Let_def sample_crowded_fields sample_hour_features t
    by (simp add: sleeve_hour_ms_def f)
qed

lemma sample_crowded_run:
  "\<exists>s. generate_crowded_trend_continuation_intents sample_log sample_hour_minutes [crowd_hour 0, crowd_hour 1]
     (Some (CrowdedTrend sample_crowded_config)) = Inr [s]"
proof -
  obtain s where s: "crowded_row sample_log sample_crowded_config [crowd_hour 0, crowd_hour 1] (sample_hours 2) [Num 2, Num 51] 1 = Inr [s]"
    using sample_crowded_rows(2) by blast
  have "[0..<length (sample_hours 2)] = [0, 1]" by (simp add: upt_rec)
  then have "crowded_segment sample_log sample_crowded_config [crowd_hour 0, crowd_hour 1] (sample_hours 2) = Inr [s]"
    unfolding crowded_segment_def sample_crowded_fields sample_crowded_atr
    by (simp only: rbind_simps extend_all_Cons extend_all_Nil sample_crowded_rows(1) s rmap_simps) simp
  moreover have "segments sleeve_hour_ms (sample_hours 2) = [sample_hours 2]"
    using step_segments [of 60 2] by (simp add: sleeve_hour_ms_def)
  moreover have "sample_hour_minutes \<noteq> [] \<and> c_symbol (hd sample_hour_minutes) = o_symbol (crowd_hour 0)"
    by (simp add: step_minutes_def hd_map step_minute_def crowd_hour_def sample_observation_def del: upt_rec_numeral)
  ultimately show ?thesis
    using sample_hour_frames step_canonical [of 60 rising 1 0 120] crowd_hours(1)
    by (simp add: crowded_run crowded_settings_def extend_all_Cons)
qed

subsection \<open>Properties\<close>

text \<open>
  Property C20: every crowded-trend intent is justified by one hour of one gap-free run. Its trend score
  passes the threshold on its side, open interest has grown by the required share since the lookback, the premium or
  the funding rate points the same way, the bracket is the configured multiple of the average true range, and all
  evidence was published when the intent is decided. Decisions are in order of time.
\<close>

theorem crowded_intents_justified:
  assumes "generate_crowded_trend_continuation_intents c_log candles observations (Some (CrowdedTrend c)) = Inr zs"
    and "make_crowded c = Inr c" and "list_all valid_observation observations" and "zs \<noteq> []"
  shows "\<exists>ordered factors hourly ps. canonical_candles candles (Some ''1m'') = Inr ordered \<and>
    canonical_derivative_observations observations = Inr factors \<and> aggregate ordered ''1h'' = Inr hourly \<and>
    subseq ps (positions 0 (segments sleeve_hour_ms hourly)) \<and>
    list_all2 (\<lambda>p s. crowded_justifies c_log c factors p s \<and> sleeve_intent_wf s \<and>
      (\<exists>factor prior. factor_at factors (c_open_time_ms (row_at p)) = Some factor \<and>
        factor_at factors (c_open_time_ms (row_at p) - ct_trend_lookback_hours c * sleeve_hour_ms) = Some prior \<and>
        published factor (i_decision_ts_ms s) \<and> published prior (i_decision_ts_ms s))) ps zs"
proof -
  from assms(1,4) obtain ordered factors hourly where o: "canonical_candles candles (Some ''1m'') = Inr ordered"
    "canonical_derivative_observations observations = Inr factors" "aggregate ordered ''1h'' = Inr hourly"
    and g: "extend_all (crowded_segment c_log c factors) (segments sleeve_hour_ms hourly) = Inr zs"
    by (auto simp: crowded_run crowded_settings_def split: if_splits)
  have "mset factors = mset observations" using o(2) by (rule observations.canon_mset)
  then have valid: "list_all valid_observation factors" using assms(3) by (simp add: list_all_iff flip: set_mset_mset)
  have lookback: "0 < ct_trend_lookback_hours c" using assms(2) by (simp add: make_crowded_def validate_Inr_iff crowded_checks_def positive_int_def)
  have "\<exists>ps. subseq ps (positions 0 (segments sleeve_hour_ms hourly)) \<and>
      list_all2 (\<lambda>p s. crowded_justifies c_log c factors p s \<and> sleeve_intent_wf s) ps zs"
    by (rule extend_all_segments [OF g]) (rule crowded_segment_output)
  then obtain ps where sub: "subseq ps (positions 0 (segments sleeve_hour_ms hourly))"
    and out: "list_all2 (\<lambda>p s. crowded_justifies c_log c factors p s \<and> sleeve_intent_wf s) ps zs" by blast
  have "row_aligned sleeve_hour_ms (row_at p)" if "p \<in> set ps" for p
    using subseq_subset [OF sub] that position_aligned by (cases p) auto
  then have "list_all2 (\<lambda>p s. (crowded_justifies c_log c factors p s \<and> sleeve_intent_wf s) \<and> row_aligned sleeve_hour_ms (row_at p)) ps zs"
    using out by (simp add: list_all2_conv_all_nth)
  then show ?thesis using o sub crowded_evidence_published [OF _ _ valid lookback]
    by (intro exI [of _ ordered] exI [of _ factors] exI [of _ hourly] exI [of _ ps])
      (auto elim!: list_all2_mono)
qed

theorem crowded_intents_justified_witness:
  "\<exists>s factors p. generate_crowded_trend_continuation_intents sample_log sample_hour_minutes [crowd_hour 0, crowd_hour 1]
     (Some (CrowdedTrend sample_crowded_config)) = Inr [s] \<and> crowded_justifies sample_log sample_crowded_config factors p s"
proof -
  obtain s where run: "generate_crowded_trend_continuation_intents sample_log sample_hour_minutes [crowd_hour 0, crowd_hour 1]
     (Some (CrowdedTrend sample_crowded_config)) = Inr [s]" using sample_crowded_run by blast
  have "make_crowded sample_crowded_config = Inr sample_crowded_config" by code_simp
  from crowded_intents_justified [OF run this crowd_hours(2)] show ?thesis using run by (auto simp: list_all2_Cons2)
qed

text \<open>
  Property C27: the crowded-trend sleeve does not look ahead: minutes that arrive later and observations of
  hours that open later leave every intent in place and only append new ones.
\<close>

theorem crowded_no_lookahead:
  assumes "canonical_candles (past @ future) (Some ''1m'') = Inr (past @ future)"
    and "canonical_derivative_observations (known @ late) = Inr (known @ late)"
    and "\<forall>k \<in> set past. \<forall>f \<in> set late. c_open_time_ms k < o_open_time_ms f"
    and "make_crowded c = Inr c"
    and "generate_crowded_trend_continuation_intents c_log (past @ future) (known @ late) (Some (CrowdedTrend c)) = Inr zs"
  shows "\<exists>as bs. generate_crowded_trend_continuation_intents c_log past known (Some (CrowdedTrend c)) = Inr as \<and> zs = as @ bs"
proof -
  have known: "canonical_derivative_observations known = Inr known" using assms(2) by (rule canonical_observations_prefix)
  note past = canonical_prefix [OF assms(1)]
  show ?thesis
  proof (cases "past = [] \<or> known = []")
    case True
    then show ?thesis using past known by (auto simp: crowded_run crowded_settings_def)
  next
    case False
    with assms(1,2,5) obtain hourly where h: "aggregate (past @ future) ''1h'' = Inr hourly"
      "extend_all (crowded_segment c_log c (known @ late)) (segments sleeve_hour_ms hourly) = Inr zs"
      and same: "c_symbol (hd past) = o_symbol (hd known)"
      by (auto simp: crowded_run crowded_settings_def)
    then have "rbind (aggregate (past @ future) ''1h'')
        (\<lambda>rows. extend_all (crowded_segment c_log c (known @ late)) (segments sleeve_hour_ms rows)) = Inr zs" by simp
    from crowded.no_lookahead [folded crowded_segment_def, OF assms(1) this] obtain as bs early where
      e: "aggregate past ''1h'' = Inr early" "zs = as @ bs"
      "extend_all (crowded_segment c_log c (known @ late)) (segments sleeve_hour_ms early) = Inr as"
      by (auto simp: rbind_Inr_iff)
    have "\<forall>row \<in> set early. \<forall>f \<in> set late. c_open_time_ms row < o_open_time_ms f"
      using frame_opens_with_a_minute [OF e(1) past] assms(3) by metis
    moreover have "0 < ct_trend_lookback_hours c"
      using assms(4) by (simp add: make_crowded_def validate_Inr_iff crowded_checks_def positive_int_def)
    ultimately have "extend_all (crowded_segment c_log c known) (segments sleeve_hour_ms early) = Inr as"
      using e(3) segments_facts(2) extend_all_cong [of "segments sleeve_hour_ms early" "crowded_segment c_log c known"]
      by (subst extend_all_cong [where g = "crowded_segment c_log c (known @ late)"]) (auto simp: crowded_segment_late subset_iff)
    then show ?thesis using e(1,2) False past known same by (auto simp: crowded_run crowded_settings_def)
  qed
qed

theorem crowded_no_lookahead_witness:
  "\<exists>s as bs. generate_crowded_trend_continuation_intents sample_log (step_minutes 60 rising 1 0 60) [crowd_hour 0]
       (Some (CrowdedTrend sample_crowded_config)) = Inr as \<and>
     generate_crowded_trend_continuation_intents sample_log sample_hour_minutes [crowd_hour 0, crowd_hour 1]
       (Some (CrowdedTrend sample_crowded_config)) = Inr [s] \<and> [s] = as @ bs"
proof -
  let ?later = "drop 60 sample_hour_minutes"
  have split: "step_minutes 60 rising 1 0 60 @ ?later = sample_hour_minutes" by (rule step_minutes_split) simp
  have "canonical_candles sample_hour_minutes (Some ''1m'') = Inr sample_hour_minutes" by (rule step_canonical)
  moreover have "\<forall>k \<in> set (step_minutes 60 rising 1 0 60). \<forall>f \<in> set [crowd_hour 1]. c_open_time_ms k < o_open_time_ms f"
    by (auto simp: step_minutes_def step_minute_def crowd_hour_def sample_observation_def)
  moreover have "make_crowded sample_crowded_config = Inr sample_crowded_config" by code_simp
  ultimately show ?thesis
    using sample_crowded_run crowd_hours(1) crowded_no_lookahead [of "step_minutes 60 rising 1 0 60" ?later "[crowd_hour 0]" "[crowd_hour 1]"
      sample_crowded_config sample_log] unfolding split by auto
qed

end
