(* ===== verification/QuarterHour.thy ===== *)
theory QuarterHour
  imports StepMarket Decisions
begin

section \<open>Quarter-hour order flow (sleeves/quarter\_hour\_flow.py)\<close>

text \<open>
  The first minute of a quarter of an hour is traded in the direction in which the first minutes of the quarters
  before it were bought or sold, when it agrees with them. The volatility is that of the quarters that had closed
  before the minute opened.
\<close>

definition minute_ms :: int where
  "minute_ms = 60000"

definition quarter_ms :: int where
  "quarter_ms = 15 * minute_ms"

definition quarter_number :: "pyfloat \<Rightarrow> string result" where
  "quarter_number = evidence_number ''quarter-hour intent evidence must be finite''"

subsection \<open>Statistics\<close>

text \<open>The share of the volume that was bought less the share that was sold.\<close>

definition imbalance :: "candle \<Rightarrow> pyfloat" where
  "imbalance row =
     (if \<not> usable (c_quote_volume row) then NaN
      else let value = fdiv (fsub (fmul (Num 2) (c_taker_buy_quote_volume row)) (c_quote_volume row)) (c_quote_volume row)
           in if is_finite value \<and> fle (Num (- 1)) value \<and> fle value fone then value else NaN)"

text \<open>\<open>statistics.median\<close>, of finite values.\<close>

definition median :: "pyfloat list \<Rightarrow> pyfloat result" where
  "median xs =
     (let data = sort_key to_rat xs; n = length data in
      if n = 0 then Inl (ExternalError ''StatisticsError'')
      else if n mod 2 = 1 then Inr (data ! (n div 2))
      else py_div (fadd (data ! (n div 2 - 1)) (data ! (n div 2))) (Num 2))"

text \<open>\<open>bisect_left(keys, x)\<close>: on an ascending list, the number of keys below \<open>x\<close>.\<close>

function bisect_left_loop :: "int list \<Rightarrow> int \<Rightarrow> nat \<Rightarrow> nat \<Rightarrow> nat" where
  "bisect_left_loop keys x lo hi =
     (if lo < hi then
        (if keys ! ((lo + hi) div 2) < x then bisect_left_loop keys x ((lo + hi) div 2 + 1) hi
         else bisect_left_loop keys x lo ((lo + hi) div 2))
      else lo)"
  by pat_completeness auto
termination
  by (relation "measure (\<lambda>(_, _, lo, hi). hi - lo)") auto

declare bisect_left_loop.simps [simp del]

definition bisect_left :: "int list \<Rightarrow> int \<Rightarrow> nat" where
  "bisect_left keys x = bisect_left_loop keys x 0 (length keys)"

subsection \<open>The decision at a boundary\<close>

text \<open>What the boundary minutes before the current one say.\<close>

record flow =
  q_current :: pyfloat
  q_predictable :: pyfloat
  q_direction :: pyfloat
  q_agreeing :: int
  q_ratio :: pyfloat

definition prior_flow_usable :: "candle list \<Rightarrow> candle \<Rightarrow> bool" where
  "prior_flow_usable prior current \<longleftrightarrow>
     list_all is_finite (map imbalance prior @ [imbalance current]) \<and> list_all usable (map c_quote_volume prior)"

definition flow_direction :: "pyfloat \<Rightarrow> pyfloat" where
  "flow_direction predictable = (if fless fzero predictable then Num 1 else Num (- 1))"

definition predictable_flow :: "quarter_hour_config \<Rightarrow> candle list \<Rightarrow> pyfloat result" where
  "predictable_flow c prior = py_div (fsum_builtin (map imbalance prior)) (float_of_int (qh_phase_lags c))"

definition agreeing_lags :: "pyfloat \<Rightarrow> candle list \<Rightarrow> int" where
  "agreeing_lags direction prior =
     int (length (filter (\<lambda>row. fless fzero (fmul direction (imbalance row))) prior))"

definition boundary_flow :: "candle list \<Rightarrow> candle \<Rightarrow> pyfloat \<Rightarrow> flow result" where
  "boundary_flow prior current predictable =
     rbind (median (map c_quote_volume prior)) (\<lambda>middle.
       rmap (\<lambda>ratio. \<lparr>q_current = imbalance current, q_predictable = predictable, q_direction = flow_direction predictable,
            q_agreeing = agreeing_lags (flow_direction predictable) prior, q_ratio = ratio\<rparr>)
         (py_div (c_quote_volume current) middle))"

definition flow_confirmed :: "quarter_hour_config \<Rightarrow> flow \<Rightarrow> bool" where
  "flow_confirmed c f \<longleftrightarrow>
     qh_minimum_agreeing_lags c \<le> q_agreeing f \<and>
     fle (qh_minimum_current_imbalance c) (fmul (q_direction f) (q_current f)) \<and>
     is_finite (q_ratio f) \<and> fle (qh_minimum_boundary_volume_ratio c) (q_ratio f)"

text \<open>The average range of the last quarter that closed before the minute opened.\<close>

definition previous_atr :: "candle list \<Rightarrow> pyfloat list \<Rightarrow> candle \<Rightarrow> pyfloat option" where
  "previous_atr quarters atr_values current =
     (let k = bisect_left (map c_close_time_ms quarters) (c_open_time_ms current) in
      if k = 0 then None
      else if usable (atr_values ! (k - 1)) then Some (atr_values ! (k - 1)) else None)"

definition quarter_side :: "flow \<Rightarrow> side" where
  "quarter_side f = (if fless fzero (q_direction f) then LONG else SHORT)"

definition quarter_bracket :: "quarter_hour_config \<Rightarrow> side \<Rightarrow> pyfloat \<Rightarrow> pyfloat \<Rightarrow> pyfloat \<times> pyfloat" where
  "quarter_bracket c sd reference atr =
     (let risk = fmul (qh_stop_atr_multiple c) atr in
      if sd = LONG then (fsub reference risk, fadd reference (fmul (qh_target_reward_to_risk c) risk))
      else (fadd reference risk, fsub reference (fmul (qh_target_reward_to_risk c) risk)))"

definition agreement_ratio :: "quarter_hour_config \<Rightarrow> flow \<Rightarrow> pyfloat result" where
  "agreement_ratio c f = py_div (float_of_int (q_agreeing f)) (float_of_int (qh_phase_lags c))"

definition flow_strength :: "quarter_hour_config \<Rightarrow> flow \<Rightarrow> pyfloat \<Rightarrow> pyfloat result" where
  "flow_strength c f agreement =
     rbind (py_div (fabs (q_predictable f)) (fmul (Num 2) (qh_minimum_predictable_imbalance c))) (\<lambda>persistent.
     rbind (py_div (fabs (q_current f)) (fmul (Num 2) (qh_minimum_current_imbalance c))) (\<lambda>now.
     rbind (py_div (q_ratio f) (fmul (Num 2) (qh_minimum_boundary_volume_ratio c))) (\<lambda>volume.
       py_div (fsum_builtin [fmin fone [persistent], fmin fone [now], agreement, fmin fone [volume]]) (float_of_int 4))))"

definition quarter_feature_hash ::
  "quarter_hour_config \<Rightarrow> candle \<Rightarrow> flow \<Rightarrow> pyfloat \<Rightarrow> pyfloat \<Rightarrow> pyfloat \<times> pyfloat \<Rightarrow> string result" where
  "quarter_feature_hash c current f agreement atr = (\<lambda>(stop, target).
     rbind (traverse quarter_number [agreement, atr, q_ratio f, q_current f, q_predictable f, c_close current, stop, target]) (\<lambda>texts.
       Inr (json_sha256 (JObj
         [(''agreeing_lags'', JInt (q_agreeing f)),
          (''agreement_ratio'', JStr (texts ! 0)),
          (''atr'', JStr (texts ! 1)),
          (''boundary_volume_ratio'', JStr (texts ! 2)),
          (''config_sha256'', JStr (config_fingerprint (QuarterHourFlow c))),
          (''current_imbalance'', JStr (texts ! 3)),
          (''decision_ts_ms'', JInt (c_close_time_ms current)),
          (''predictable_imbalance'', JStr (texts ! 4)),
          (''reference_price'', JStr (texts ! 5)),
          (''side'', JStr (side_value (quarter_side f))),
          (''stop_price'', JStr (texts ! 6)),
          (''strategy_version'', JStr ''quarter_hour_flow_v1''),
          (''symbol'', JStr (c_symbol current)),
          (''target_price'', JStr (texts ! 7))]))))"

definition quarter_metadata ::
  "quarter_hour_config \<Rightarrow> flow \<Rightarrow> pyfloat \<Rightarrow> pyfloat \<Rightarrow> string \<Rightarrow> (string \<times> string) list result" where
  "quarter_metadata c f agreement atr feature_hash =
     rbind (traverse quarter_number [agreement, atr, q_ratio f, q_current f, q_predictable f]) (\<lambda>texts.
       Inr [(''agreeing_lags'', str_int (q_agreeing f)),
            (''agreement_ratio'', texts ! 0),
            (''atr'', texts ! 1),
            (''boundary_proxy'', ''closed_first_1m''),
            (''boundary_volume_ratio'', texts ! 2),
            (''config_sha256'', config_fingerprint (QuarterHourFlow c)),
            (''current_imbalance'', texts ! 3),
            (''feature_hash'', feature_hash),
            (''predictable_imbalance'', texts ! 4),
            (''strategy_version'', ''quarter_hour_flow_v1'')])"

definition quarter_intent ::
  "quarter_hour_config \<Rightarrow> candle \<Rightarrow> flow \<Rightarrow> pyfloat \<Rightarrow> pyfloat \<times> pyfloat \<Rightarrow> sleeve_intent result" where
  "quarter_intent c current f atr = (\<lambda>(stop, target).
     rbind (agreement_ratio c f) (\<lambda>agreement.
     rbind (quarter_feature_hash c current f agreement atr (stop, target)) (\<lambda>feature_hash.
     rbind (flow_strength c f agreement) (\<lambda>strength.
     rbind (py_div (fabs (fsub target (c_close current))) (c_close current)) (\<lambda>reward.
     rbind (make_exit_plan \<lparr>stop_price = stop, target_price = target, max_holding_ms = qh_max_hold_quarters c * quarter_ms,
              trailing_activation_price = None, trailing_distance = None\<rparr>) (\<lambda>plan.
     rbind (quarter_metadata c f agreement atr feature_hash) (\<lambda>metadata.
       make_sleeve_intent
         \<lparr>i_sleeve_id = ''quarter_hour_flow_v1'', i_symbol = c_symbol current, i_side = quarter_side f,
          i_decision_ts_ms = c_close_time_ms current, i_entry_eligible_ts_ms = c_close_time_ms current + 1,
          i_entry_expires_ts_ms = c_close_time_ms current + qh_intent_valid_minutes c * minute_ms,
          i_reference_price = c_close current, i_signal_strength = strength,
          i_gross_reward_bps = fmul reward (Num 10000), i_exit_plan = plan, i_metadata = metadata\<rparr>)))))))"

definition quarter_trade ::
  "quarter_hour_config \<Rightarrow> candle list \<Rightarrow> pyfloat list \<Rightarrow> candle \<Rightarrow> flow \<Rightarrow> sleeve_intent list result" where
  "quarter_trade c quarters atr_values current f =
     (if \<not> flow_confirmed c f then Inr []
      else case previous_atr quarters atr_values current of
          None \<Rightarrow> Inr []
        | Some atr \<Rightarrow>
            let (stop, target) = quarter_bracket c (quarter_side f) (c_close current) atr in
            if \<not> list_all usable [c_close current, stop, target] then Inr []
            else rmap (\<lambda>i. [i]) (quarter_intent c current f atr (stop, target)))"

definition quarter_boundary ::
  "quarter_hour_config \<Rightarrow> candle list \<Rightarrow> candle list \<Rightarrow> pyfloat list \<Rightarrow> nat \<Rightarrow> sleeve_intent list result" where
  "quarter_boundary c boundary_rows quarters atr_values k =
     (let current = boundary_rows ! k; prior = Prelude.slice (k - nat (qh_phase_lags c)) k boundary_rows in
      if \<not> prior_flow_usable prior current then Inr []
      else rbind (predictable_flow c prior) (\<lambda>predictable.
        if fless (fabs predictable) (qh_minimum_predictable_imbalance c) then Inr []
        else rbind (boundary_flow prior current predictable) (quarter_trade c quarters atr_values current)))"

definition quarter_starts :: "candle list \<Rightarrow> candle list" where
  "quarter_starts rows = filter (\<lambda>row. c_open_time_ms row mod quarter_ms = 0) rows"

definition quarter_segment :: "quarter_hour_config \<Rightarrow> candle list \<Rightarrow> sleeve_intent list result" where
  "quarter_segment c rows =
     (let boundary_rows = quarter_starts rows in
      if int (length boundary_rows) \<le> qh_phase_lags c then Inr []
      else rbind (aggregate rows ''15m'') (\<lambda>quarters.
           rbind (wilder_atr (\<lambda>ranges. Inr (fsum_builtin ranges)) true_range quarters (qh_atr_period c)) (\<lambda>atr_values.
             extend_all (quarter_boundary c boundary_rows quarters atr_values)
               [nat (qh_phase_lags c)..<length boundary_rows])))"

definition quarter_settings :: "strategy_config option \<Rightarrow> quarter_hour_config result" where
  "quarter_settings config =
     (case config of
        None \<Rightarrow> make_quarter_hour quarter_hour_default
      | Some (QuarterHourFlow c) \<Rightarrow> Inr c
      | Some _ \<Rightarrow> Inl (ValueError ''config must be a QuarterHourFlowConfig or None''))"

definition generate_quarter_hour_flow_intents ::
  "candle list \<Rightarrow> strategy_config option \<Rightarrow> sleeve_intent list result" where
  "generate_quarter_hour_flow_intents candles config =
     rbind (quarter_settings config) (\<lambda>c.
     rbind (canonical_candles candles (Some ''1m'')) (\<lambda>ordered.
       extend_all (quarter_segment c) (segments minute_ms ordered)))"

subsection \<open>Causality\<close>

lemma bisect_left_right: "bisect_left keys x = bisect_right keys (x - 1)"
proof -
  have "bisect_left_loop keys x lo hi = bisect_right_loop keys (x - 1) lo hi" for lo hi
  proof (induction keys x lo hi rule: bisect_left_loop.induct)
    case (1 keys x lo hi)
    have "keys ! ((lo + hi) div 2) < x \<longleftrightarrow> \<not> x - 1 < keys ! ((lo + hi) div 2)" by linarith
    with 1 show ?case by (subst bisect_left_loop.simps, subst bisect_right_loop.simps) simp
  qed
  then show ?thesis by (simp add: bisect_left_def bisect_right_def)
qed

lemma take_bisect_left:
  "sorted (map f xs) \<Longrightarrow> take (bisect_left (map f xs) x) xs = filter (\<lambda>y. f y < x) xs"
  by (simp add: bisect_left_right take_bisect_right zle_diff1_eq)

lemma bisect_left_filter: "sorted (map f xs) \<Longrightarrow> bisect_left (map f xs) x = length (filter (\<lambda>y. f y < x) xs)"
  using take_bisect_left [of f xs x] bisect_right_le_length [of "map f xs" "x - 1"]
  by (metis bisect_left_right length_map length_take min.absorb2)

lemma previous_atr_local:
  assumes "sorted (map c_close_time_ms (quarters @ later))" "\<forall>q \<in> set later. c_open_time_ms current \<le> c_close_time_ms q"
    and "length as = length quarters"
  shows "previous_atr (quarters @ later) (as @ bs) current = previous_atr quarters as current"
proof -
  have s: "sorted (map c_close_time_ms quarters)" using assms(1) by (simp add: sorted_append)
  have "filter (\<lambda>q. c_close_time_ms q < c_open_time_ms current) later = []" using assms(2) by (auto simp: filter_empty_conv not_less)
  then have "bisect_left (map c_close_time_ms (quarters @ later)) (c_open_time_ms current) =
      bisect_left (map c_close_time_ms quarters) (c_open_time_ms current)"
    unfolding bisect_left_filter [OF assms(1)] bisect_left_filter [OF s] by simp
  moreover define n where "n = bisect_left (map c_close_time_ms quarters) (c_open_time_ms current)"
  moreover have "n \<le> length as"
    using assms(3) bisect_right_le_length [of "map c_close_time_ms quarters"] by (simp add: n_def bisect_left_right)
  then have "n = 0 \<or> (as @ bs) ! (n - 1) = as ! (n - 1)" by (auto simp: nth_append)
  ultimately show ?thesis by (auto simp: previous_atr_def Let_def simp del: map_append)
qed

lemma quarter_boundary_local:
  assumes "k < length starts" "sorted (map c_close_time_ms (quarters @ later))" "length as = length quarters"
    and "\<forall>q \<in> set later. c_open_time_ms (starts ! k) \<le> c_close_time_ms q"
  shows "quarter_boundary c (starts @ extra) (quarters @ later) (as @ bs) k = quarter_boundary c starts quarters as k"
proof -
  have at: "(starts @ extra) ! k = starts ! k" "Prelude.slice (k - nat (qh_phase_lags c)) k (starts @ extra) =
      Prelude.slice (k - nat (qh_phase_lags c)) k starts" using assms(1) by (simp_all add: nth_append Prelude.slice_def)
  have "quarter_trade c (quarters @ later) (as @ bs) (starts ! k) = quarter_trade c quarters as (starts ! k)"
    by (simp add: quarter_trade_def fun_eq_iff previous_atr_local [OF assms(2,4,3)])
  then have same: "quarter_trade c (quarters @ later) (as @ bs) (starts ! k) = quarter_trade c quarters as (starts ! k)" .
  show ?thesis unfolding quarter_boundary_def at Let_def same by (rule refl)
qed


lemma quarter_starts_append [simp]: "quarter_starts (rows @ later) = quarter_starts rows @ quarter_starts later"
  by (simp add: quarter_starts_def)

lemma quarter_segment_prefix:
  assumes rows: "gap_free minute_ms (rows @ later)" and run: "quarter_segment c (rows @ later) = Inr zs"
  shows "\<exists>as bs. quarter_segment c rows = Inr as \<and> zs = as @ bs"
proof (cases "int (length (quarter_starts rows)) \<le> qh_phase_lags c")
  case False
  let ?s = "quarter_starts rows" and ?n = "nat (qh_phase_lags c)"
  from run False obtain quarters atrs where q: "aggregate (rows @ later) ''15m'' = Inr quarters"
    and a: "wilder_atr (\<lambda>ranges. Inr (fsum_builtin ranges)) true_range quarters (qh_atr_period c) = Inr atrs"
    and e: "extend_all (quarter_boundary c (?s @ quarter_starts later) quarters atrs) [?n..<length (?s @ quarter_starts later)] = Inr zs"
    by (auto simp: quarter_segment_def Let_def rbind_Inr_iff split: if_splits)
  have canon: "canonical_candles (rows @ later) (Some ''1m'') = Inr (rows @ later)"
    using q gap_free_canonical [OF rows] by (elim aggregate_InrE) (simp add: minute_ms_def)
  from aggregate_prefix [OF canon q] obtain early new where p: "aggregate rows ''15m'' = Inr early" "quarters = early @ new" by blast
  from wilder_atr_prefix [OF true_range_append a [unfolded p(2)]] obtain as bs where
    w: "wilder_atr (\<lambda>ranges. Inr (fsum_builtin ranges)) true_range early (qh_atr_period c) = Inr as" "atrs = as @ bs" "length as = length early"
    by blast
  have sorted: "sorted (map c_close_time_ms (early @ new))" using closes_sorted_frames [OF q] by (simp add: p(2))
  have same: "quarter_boundary c (?s @ quarter_starts later) quarters atrs k = quarter_boundary c ?s early as k" if "k < length ?s" for k
  proof -
    have "?s ! k \<in> set rows" using nth_mem [OF that] by (simp add: quarter_starts_def)
    then have "\<forall>q \<in> set new. c_open_time_ms (?s ! k) \<le> c_close_time_ms q"
      using aggregate_prefix_late [OF canon _ p(1)] q p(2) by blast
    from quarter_boundary_local [OF that sorted w(3) this] show ?thesis by (simp add: p(2) w(2))
  qed
  have "[?n..<length (?s @ quarter_starts later)] = [?n..<length ?s] @ [length ?s..<length (?s @ quarter_starts later)]"
    using upt_add_eq_append [of ?n "length ?s" "length (quarter_starts later)"] False by simp
  with e obtain xs ys where "extend_all (quarter_boundary c (?s @ quarter_starts later) quarters atrs) [?n..<length ?s] = Inr xs"
    "zs = xs @ ys" by (auto simp: extend_all_append rbind_Inr_iff rmap_Inr_iff)
  moreover from this have "extend_all (quarter_boundary c ?s early as) [?n..<length ?s] = Inr xs"
    using same by (subst (asm) extend_all_cong) simp_all
  ultimately show ?thesis using False p(1) w(1) by (simp add: quarter_segment_def Let_def)
qed (simp add: quarter_segment_def Let_def)

subsection \<open>The quarter before\<close>

lemma quarter_starts_facts:
  assumes "gap_free minute_ms seg" "k < length (quarter_starts seg)"
  shows "quarter_starts seg ! k \<in> set seg" "c_open_time_ms (quarter_starts seg ! k) mod quarter_ms = 0"
    "c_close_time_ms (quarter_starts seg ! k) = c_open_time_ms (quarter_starts seg ! k) + minute_ms - 1"
proof -
  from nth_mem [OF assms(2)] show "quarter_starts seg ! k \<in> set seg" "c_open_time_ms (quarter_starts seg ! k) mod quarter_ms = 0"
    by (auto simp: quarter_starts_def)
  with assms(1) show "c_close_time_ms (quarter_starts seg ! k) = c_open_time_ms (quarter_starts seg ! k) + minute_ms - 1"
    by (simp add: gap_free_def list_all_iff row_aligned_def)
qed

lemma quarter_starts_step:
  assumes seg: "gap_free minute_ms seg" and k: "Suc k < length (quarter_starts seg)"
  shows "c_open_time_ms (quarter_starts seg ! Suc k) = c_open_time_ms (quarter_starts seg ! k) + quarter_ms"
proof -
  let ?s = "quarter_starts seg" and ?o = "\<lambda>j. c_open_time_ms (quarter_starts seg ! j)"
  have k': "k < length ?s" using k by simp
  have sorted: "sorted_wrt (\<lambda>a b. c_open_time_ms a < c_open_time_ms b) ?s"
    using gap_free_strict [OF seg] by (simp add: quarter_starts_def sorted_wrt_filter minute_ms_def)
  then have less: "?o i < ?o j" if "i < j" "j < length ?s" for i j using that by (simp add: sorted_wrt_iff_nth_less)
  note f = quarter_starts_facts [OF seg k] and g = quarter_starts_facts [OF seg k']
  have "?o k + quarter_ms \<le> ?o (Suc k)"
    using less [of k "Suc k"] k f(2) g(2) grid_step [of quarter_ms "?o k" "?o (Suc k)"] by (simp add: quarter_ms_def minute_ms_def)
  moreover have "?o (Suc k) \<le> ?o k + quarter_ms"
  proof (rule ccontr)
    assume early: "\<not> ?o (Suc k) \<le> ?o k + quarter_ms"
    have grid: "(?o k + quarter_ms) mod quarter_ms = 0" using g(2) by simp
    have "minute_ms dvd ?o k + quarter_ms"
      using grid dvd_trans [of minute_ms quarter_ms] by (simp add: mod_eq_0_iff_dvd quarter_ms_def)
    then obtain i where i: "i < length seg" "c_open_time_ms (seg ! i) = ?o k + quarter_ms"
      using gap_free_row [OF seg _ g(1) f(1), of "?o k + quarter_ms"] early by (auto simp: quarter_ms_def minute_ms_def mod_eq_0_iff_dvd)
    then have "seg ! i \<in> set ?s" using grid by (simp add: quarter_starts_def)
    then obtain j where j: "j < length ?s" "?s ! j = seg ! i" by (metis in_set_conv_nth)
    have jo: "?o j = ?o k + quarter_ms" by (simp add: j(2) i(2))
    consider "j \<le> k" | "Suc k \<le> j" by linarith
    then show False
    proof cases
      case 1
      then have "?o j \<le> ?o k" using less [of j k] k' by (cases "j = k") auto
      then show False using jo by (simp add: quarter_ms_def minute_ms_def)
    next
      case 2
      then have "?o (Suc k) \<le> ?o j" using less [of "Suc k" j] j(1) by (cases "j = Suc k") auto
      then show False using jo early by simp
    qed
  qed
  ultimately show ?thesis by simp
qed

lemma quarter_starts_back:
  assumes "gap_free minute_ms seg" "k < length (quarter_starts seg)" "j \<le> k"
  shows "c_open_time_ms (quarter_starts seg ! (k - j)) = c_open_time_ms (quarter_starts seg ! k) - int j * quarter_ms"
  using assms(3)
proof (induction j)
  case (Suc j)
  then have "c_open_time_ms (quarter_starts seg ! Suc (k - Suc j)) = c_open_time_ms (quarter_starts seg ! (k - Suc j)) + quarter_ms"
    using assms(2) by (intro quarter_starts_step [OF assms(1)]) simp
  moreover have "Suc (k - Suc j) = k - j" using Suc.prems by simp
  ultimately show ?case using Suc by (simp add: algebra_simps)
qed simp

text \<open>The quarter that closed when the boundary minute opened is the last one closed by then.\<close>

lemma quarter_before:
  assumes seg: "gap_free minute_ms seg" and k: "0 < k" "k < length (quarter_starts seg)"
    and agg: "aggregate seg ''15m'' = Inr quarters"
  shows "\<exists>n. bisect_left (map c_close_time_ms quarters) (c_open_time_ms (quarter_starts seg ! k)) = Suc n \<and>
    n < length quarters \<and> c_close_time_ms (quarters ! n) + 1 = c_open_time_ms (quarter_starts seg ! k)"
proof -
  let ?t = "c_open_time_ms (quarter_starts seg ! k)" and ?closes = "map c_close_time_ms quarters"
  have before: "c_open_time_ms (quarter_starts seg ! (k - 1)) = ?t - quarter_ms"
    using quarter_starts_back [OF seg k(2), of 1] k(1) by simp
  have k': "k - 1 < length (quarter_starts seg)" using k by simp
  note f = quarter_starts_facts [OF seg k(2)] and g = quarter_starts_facts [OF seg k']
  from f(1) g(1) obtain i a where i: "i < length seg" "seg ! i = quarter_starts seg ! k"
    and a: "a < length seg" "seg ! a = quarter_starts seg ! (k - 1)" by (metis in_set_conv_nth)
  have "(int i - int a) * minute_ms = quarter_ms"
    using gap_free_open [OF seg i(1)] gap_free_open [OF seg a(1)] before unfolding i(2) a(2) by (simp add: algebra_simps)
  then have "a + 15 \<le> length seg" using i(1) by (simp add: quarter_ms_def minute_ms_def)
  moreover have "timeframe_ms ''15m'' = Some (60000 * int 15)" by code_simp
  ultimately obtain q where q: "q \<in> set quarters" "c_close_time_ms q + 1 = ?t"
    using complete_frame_emitted [OF agg, of 15 a] seg g(2) before a(2) by (auto simp: minute_ms_def quarter_ms_def)
  have s: "sorted ?closes" using agg by (rule closes_sorted_frames)
  define n where "n = bisect_left ?closes ?t"
  have take: "take n quarters = filter (\<lambda>q. c_close_time_ms q < ?t) quarters"
    unfolding n_def using s by (rule take_bisect_left)
  have n: "n \<le> length quarters" using bisect_right_le_length [of ?closes] by (simp add: n_def bisect_left_right)
  have "q \<in> set (take n quarters)" using q by (simp add: take)
  then obtain j where j: "j < n" "quarters ! j = q" using n by (auto simp: in_set_conv_nth)
  have "c_close_time_ms q \<le> c_close_time_ms (quarters ! (n - 1))"
    using sorted_nth_mono [OF s, of j "n - 1"] j n by simp
  moreover have "quarters ! (n - 1) \<in> set (take n quarters)" using j(1) n by (auto simp: in_set_conv_nth intro: exI [of _ "n - 1"])
  then have "c_close_time_ms (quarters ! (n - 1)) < ?t" by (simp add: take)
  ultimately have "c_close_time_ms (quarters ! (n - 1)) + 1 = ?t" using q(2) by simp
  then show ?thesis using j(1) n by (intro exI [of _ "n - 1"]) (auto simp: n_def)
qed

subsection \<open>What an intent says\<close>

text \<open>
  The justification of an intent emitted at the \<open>k\<close>-th boundary minute of a gap-free run. The earlier flow is that of
  the first minutes of the quarters right before it, and the range is that of the quarter that had just closed.
\<close>

definition quarter_justifies :: "quarter_hour_config \<Rightarrow> candle list \<Rightarrow> nat \<Rightarrow> sleeve_intent \<Rightarrow> bool" where
  "quarter_justifies c seg k s \<longleftrightarrow>
     (let current = quarter_starts seg ! k; lags = nat (qh_phase_lags c); prior = map (\<lambda>j. quarter_starts seg ! (k - j)) (rev [1..<Suc lags])
      in k < length (quarter_starts seg) \<and> lags \<le> k \<and> c_open_time_ms current mod quarter_ms = 0 \<and>
        map c_open_time_ms prior = map (\<lambda>j. c_open_time_ms current - int j * quarter_ms) (rev [1..<Suc lags]) \<and>
        prior_flow_usable prior current \<and>
        (\<exists>predictable f quarters atrs n. predictable_flow c prior = Inr predictable \<and>
           \<not> fless (fabs predictable) (qh_minimum_predictable_imbalance c) \<and>
           boundary_flow prior current predictable = Inr f \<and> flow_confirmed c f \<and> aggregate seg ''15m'' = Inr quarters \<and>
           wilder_atr (\<lambda>ranges. Inr (fsum_builtin ranges)) true_range quarters (qh_atr_period c) = Inr atrs \<and>
           n < length quarters \<and> c_close_time_ms (quarters ! n) + 1 = c_open_time_ms current \<and> usable (atrs ! n) \<and>
           i_side s = quarter_side f \<and>
           (stop_price (i_exit_plan s), target_price (i_exit_plan s)) = quarter_bracket c (i_side s) (c_close current) (atrs ! n)) \<and>
        max_holding_ms (i_exit_plan s) = qh_max_hold_quarters c * quarter_ms \<and>
        i_sleeve_id s = ''quarter_hour_flow_v1'' \<and> i_symbol s = c_symbol current \<and> i_reference_price s = c_close current \<and>
        i_decision_ts_ms s = c_open_time_ms current + minute_ms - 1 \<and> i_entry_eligible_ts_ms s = i_decision_ts_ms s + 1 \<and>
        i_entry_expires_ts_ms s = i_decision_ts_ms s + qh_intent_valid_minutes c * minute_ms)"

lemma quarter_intent_fields:
  assumes "quarter_intent c current f atr (stop, target) = Inr s" "list_all usable [c_close current, stop, target]"
  shows "stop_price (i_exit_plan s) = stop \<and> target_price (i_exit_plan s) = target \<and>
    max_holding_ms (i_exit_plan s) = qh_max_hold_quarters c * quarter_ms \<and>
    i_sleeve_id s = ''quarter_hour_flow_v1'' \<and> i_symbol s = c_symbol current \<and> i_reference_price s = c_close current \<and>
    i_side s = quarter_side f \<and> i_decision_ts_ms s = c_close_time_ms current \<and>
    i_entry_eligible_ts_ms s = c_close_time_ms current + 1 \<and>
    i_entry_expires_ts_ms s = c_close_time_ms current + qh_intent_valid_minutes c * minute_ms \<and> sleeve_intent_wf s"
proof -
  from assms(1) have "sleeve_intent_wf s" unfolding quarter_intent_def prod.case rbind_Inr_iff by (blast intro: make_sleeve_intent_wf)
  with assms show ?thesis
    by (auto simp: quarter_intent_def rbind_Inr_iff make_exit_plan_def make_sleeve_intent_def validate_Inr_iff with_intent_id_def
        normalized_intent_def intent_fields.extend_def)
qed

lemma quarter_trade_cases:
  assumes "quarter_trade c quarters atrs current f = Inr out" "out \<noteq> []"
  obtains atr stop target s where "flow_confirmed c f" "previous_atr quarters atrs current = Some atr"
    "quarter_bracket c (quarter_side f) (c_close current) atr = (stop, target)"
    "list_all usable [c_close current, stop, target]" "quarter_intent c current f atr (stop, target) = Inr s" "out = [s]"
proof (cases "previous_atr quarters atrs current")
  case (Some atr)
  obtain stop target where b: "quarter_bracket c (quarter_side f) (c_close current) atr = (stop, target)" by fastforce
  show thesis using assms Some b that by (auto simp: quarter_trade_def rmap_Inr_iff split: if_splits)
qed (use assms in \<open>auto simp: quarter_trade_def split: if_splits\<close>)

lemma slice_before:
  assumes "n \<le> k" "k \<le> length xs"
  shows "Prelude.slice (k - n) k xs = map (\<lambda>j. xs ! (k - j)) (rev [1..<Suc n])"
  using assms by (intro nth_equalityI) (simp_all add: Prelude.slice_def rev_nth del: upt_Suc)

lemma quarter_boundary_output:
  assumes run: "quarter_boundary c (quarter_starts seg) quarters atrs k = Inr out"
    and seg: "gap_free minute_ms seg" and k: "k < length (quarter_starts seg)" "nat (qh_phase_lags c) \<le> k" "0 < qh_phase_lags c"
    and agg: "aggregate seg ''15m'' = Inr quarters"
    and atr: "wilder_atr (\<lambda>ranges. Inr (fsum_builtin ranges)) true_range quarters (qh_atr_period c) = Inr atrs"
  shows "out = [] \<or> (\<exists>s. out = [s] \<and> quarter_justifies c seg k s \<and> sleeve_intent_wf s)"
proof (cases "out = []")
  case False
  let ?current = "quarter_starts seg ! k" and ?lags = "nat (qh_phase_lags c)"
  define prior where "prior = map (\<lambda>j. quarter_starts seg ! (k - j)) (rev [1..<Suc ?lags])"
  have slice: "Prelude.slice (k - ?lags) k (quarter_starts seg) = prior" unfolding prior_def using k by (intro slice_before) simp_all
  from run False obtain predictable f where p: "prior_flow_usable prior ?current" "predictable_flow c prior = Inr predictable"
    "\<not> fless (fabs predictable) (qh_minimum_predictable_imbalance c)" "boundary_flow prior ?current predictable = Inr f"
    and t: "quarter_trade c quarters atrs ?current f = Inr out"
    by (auto simp: quarter_boundary_def slice Let_def rbind_Inr_iff split: if_splits)
  have opens: "map c_open_time_ms prior = map (\<lambda>j. c_open_time_ms ?current - int j * quarter_ms) (rev [1..<Suc ?lags])"
    using k(2) by (auto simp: prior_def quarter_starts_back [OF seg k(1)] simp del: upt_Suc)
  have "0 < k" using k by simp
  from quarter_before [OF seg this k(1) agg] obtain n where
    n: "bisect_left (map c_close_time_ms quarters) (c_open_time_ms ?current) = Suc n" "n < length quarters"
    "c_close_time_ms (quarters ! n) + 1 = c_open_time_ms ?current" by blast
  from t False show ?thesis
  proof (rule quarter_trade_cases)
    fix a stop target s
    assume r: "flow_confirmed c f" "previous_atr quarters atrs ?current = Some a"
      "quarter_bracket c (quarter_side f) (c_close ?current) a = (stop, target)" "list_all usable [c_close ?current, stop, target]"
      and s: "quarter_intent c ?current f a (stop, target) = Inr s" "out = [s]"
    have a: "a = atrs ! n" "usable (atrs ! n)" using r(2) n(1) by (auto simp: previous_atr_def split: if_splits)
    note field = quarter_intent_fields [OF s(1) r(4)]
    have "quarter_justifies c seg k s"
      unfolding quarter_justifies_def Let_def prior_def [symmetric]
      using k quarter_starts_facts [OF seg k(1)] opens p r n field a agg atr by (simp add: field) metis
    then show ?thesis using field s(2) by simp
  qed
qed simp

subsection \<open>The generator\<close>

interpretation quarter: causal_run minute_ms "quarter_segment c" for c
proof
  have "aggregate [] ''15m'' = Inr []" by code_simp
  then show "quarter_segment c [] = Inr []" for c by (simp add: quarter_segment_def quarter_starts_def)
qed (rule quarter_segment_prefix)

lemma quarter_run:
  "generate_quarter_hour_flow_intents candles config = Inr zs \<longleftrightarrow>
     (\<exists>c ordered. quarter_settings config = Inr c \<and> canonical_candles candles (Some ''1m'') = Inr ordered \<and>
        extend_all (quarter_segment c) (segments minute_ms ordered) = Inr zs)"
  by (auto simp: generate_quarter_hour_flow_intents_def rbind_Inr_iff)

lemma quarter_segment_output:
  assumes run: "quarter_segment c seg = Inr out" and s: "s \<in> set out" and seg: "gap_free minute_ms seg" and c: "0 < qh_phase_lags c"
  shows "\<exists>k. quarter_justifies c seg k s \<and> sleeve_intent_wf s"
proof -
  from run s obtain quarters atrs where agg: "aggregate seg ''15m'' = Inr quarters"
    and atr: "wilder_atr (\<lambda>ranges. Inr (fsum_builtin ranges)) true_range quarters (qh_atr_period c) = Inr atrs"
    and e: "extend_all (quarter_boundary c (quarter_starts seg) quarters atrs) [nat (qh_phase_lags c)..<length (quarter_starts seg)] = Inr out"
    by (auto simp: quarter_segment_def Let_def rbind_Inr_iff split: if_splits)
  from extend_all_mem [OF e s] obtain k one where k: "nat (qh_phase_lags c) \<le> k" "k < length (quarter_starts seg)"
    and one: "quarter_boundary c (quarter_starts seg) quarters atrs k = Inr one" "s \<in> set one" by auto
  from quarter_boundary_output [OF one(1) seg k(2,1) c agg atr] one(2) show ?thesis by auto
qed

subsection \<open>Two bought quarters\<close>

definition sample_quarter_config :: quarter_hour_config where
  "sample_quarter_config =
    \<lparr>qh_phase_lags = 1, qh_minimum_agreeing_lags = 1, qh_atr_period = 1, qh_minimum_predictable_imbalance = Num (1 / 4),
     qh_minimum_current_imbalance = Num (1 / 4), qh_minimum_boundary_volume_ratio = Num 1, qh_stop_atr_multiple = Num 2,
     qh_target_reward_to_risk = Num 2, qh_max_hold_quarters = 2, qh_intent_valid_minutes = 1\<rparr>"

abbreviation bought_minutes :: "candle list" where
  "bought_minutes \<equiv> step_minutes 15 (\<lambda>_. 100) 4 3 30"

abbreviation bought_quarters :: "candle list" where
  "bought_quarters \<equiv> map (step_frame ''15m'' 15 (\<lambda>_. 100) 4 3) [0..<2]"

abbreviation bought_start :: "nat \<Rightarrow> candle" where
  "bought_start i \<equiv> step_minute 15 (\<lambda>_. 100) 4 3 i"

lemma sample_quarter_config_ok: "make_quarter_hour sample_quarter_config = Inr sample_quarter_config"
  by code_simp

lemma bought_starts: "quarter_starts bought_minutes = [bought_start 0, bought_start 15]"
proof -
  have "filter (\<lambda>i. 60000 * int i mod 900000 = 0) [0..<30] = [0, 15]" by code_simp
  then show ?thesis
    by (simp add: quarter_starts_def step_minutes_def filter_map comp_def step_minute_def quarter_ms_def minute_ms_def
        del: upt_rec_numeral)
qed

lemma bought_aggregate: "aggregate bought_minutes ''15m'' = Inr bought_quarters"
  using step_aggregate [of "''15m''" 15 "\<lambda>_. 100" 4 3 2]
  by (simp add: timeframe_ms_def timeframe_table_def step_market_def)

lemma bought_atr:
  "wilder_atr (\<lambda>ranges. Inr (fsum_builtin ranges)) true_range bought_quarters 1 = Inr [Num 2, Num 2]"
  by code_simp

lemma bought_arithmetic:
  "fdiv (fsub (fmul (Num 2) (Num 3)) (Num 4)) (Num 4) = Num (1 / 2)" "py_div (fsum_builtin [Num (1 / 2)]) (float_of_int 1) = Inr (Num (1 / 2))"
  "fmul (Num 1) (Num (1 / 2)) = Num (1 / 2)" "median [Num 4] = Inr (Num 4)" "py_div (Num 4) (Num 4) = Inr (Num 1)"
  "bisect_left [899999, 1799999] 900000 = 1"
  by code_simp+

lemma bought_fields:
  "c_open_time_ms (bought_start i) = 60000 * int i" "c_close_time_ms (bought_start i) = 60000 * int i + 59999"
  "c_close (bought_start i) = Num 100" "c_quote_volume (bought_start i) = Num 4" "c_taker_buy_quote_volume (bought_start i) = Num 3"
  "c_symbol (bought_start i) = ''BTCUSDT''"
  by (simp_all add: step_minute_def step_candle_def)

lemma bought_flow:
  "imbalance (bought_start i) = Num (1 / 2)" "prior_flow_usable [bought_start 0] (bought_start 15)"
  "predictable_flow sample_quarter_config [bought_start 0] = Inr (Num (1 / 2))"
  "boundary_flow [bought_start 0] (bought_start 15) (Num (1 / 2)) =
     Inr \<lparr>q_current = Num (1 / 2), q_predictable = Num (1 / 2), q_direction = fone, q_agreeing = 1, q_ratio = fone\<rparr>"
  "previous_atr bought_quarters [Num 2, Num 2] (bought_start 15) = Some (Num 2)"
proof -
  show b: "imbalance (bought_start i) = Num (1 / 2)" for i by (simp add: imbalance_def bought_fields bought_arithmetic usable_def)
  show "prior_flow_usable [bought_start 0] (bought_start 15)" by (simp add: prior_flow_usable_def b bought_fields usable_def)
  show "predictable_flow sample_quarter_config [bought_start 0] = Inr (Num (1 / 2))"
    by (simp add: predictable_flow_def b sample_quarter_config_def bought_arithmetic)
  show "boundary_flow [bought_start 0] (bought_start 15) (Num (1 / 2)) =
     Inr \<lparr>q_current = Num (1 / 2), q_predictable = Num (1 / 2), q_direction = fone, q_agreeing = 1, q_ratio = fone\<rparr>"
    by (simp add: boundary_flow_def bought_fields b bought_arithmetic flow_direction_def agreeing_lags_def)
  have "map c_close_time_ms bought_quarters = [899999, 1799999]" by (simp add: upt_rec step_frame_def)
  then show "previous_atr bought_quarters [Num 2, Num 2] (bought_start 15) = Some (Num 2)"
    by (simp add: previous_atr_def bought_fields bought_arithmetic usable_def)
qed


lemma bought_bracket:
  "quarter_bracket sample_quarter_config LONG (Num 100) (Num 2) = (Num 96, Num 108)" "py_div (float_of_int 1) (float_of_int 1) = Inr (Num 1)"
  "flow_confirmed sample_quarter_config
     \<lparr>q_current = Num (1 / 2), q_predictable = Num (1 / 2), q_direction = fone, q_agreeing = 1, q_ratio = fone\<rparr>"
  "\<not> fless (fabs (Num (1 / 2))) (qh_minimum_predictable_imbalance sample_quarter_config)"
  "py_div (fabs (fsub (Num 108) (Num 100))) (Num 100) = Inr (fdiv (Num 8) (Num 100))"
  "make_exit_plan \<lparr>stop_price = Num 96, target_price = Num 108, max_holding_ms = 1800000,
     trailing_activation_price = None, trailing_distance = None\<rparr> =
   Inr \<lparr>stop_price = Num 96, target_price = Num 108, max_holding_ms = 1800000,
     trailing_activation_price = None, trailing_distance = None\<rparr>"
  by code_simp+

lemma bought_strength:
  "flow_strength sample_quarter_config
     \<lparr>q_current = Num (1 / 2), q_predictable = Num (1 / 2), q_direction = fone, q_agreeing = 1, q_ratio = fone\<rparr> fone = Inr (Num (7 / 8))"
proof -
  have "py_div (Num (1 / 2)) (fmul (Num 2) (Num (1 / 4))) = Inr (Num 1)" "py_div (Num 1) (fmul (Num 2) (Num 1)) = Inr (Num (1 / 2))"
    "fmin (Num 1) [Num 1] = Num 1" "fmin (Num 1) [Num (1 / 2)] = Num (1 / 2)"
    "py_div (fsum_builtin [Num 1, Num 1, Num 1, Num (1 / 2)]) (float_of_int 4) = Inr (Num (7 / 8))" by code_simp+
  then show ?thesis by (simp add: flow_strength_def sample_quarter_config_def)
qed

lemma bought_checks:
  "list_all (\<lambda>k. \<not> fst k) (intent_checks
     \<lparr>i_sleeve_id = ''quarter_hour_flow_v1'', i_symbol = ''BTCUSDT'', i_side = LONG,
      i_decision_ts_ms = 959999, i_entry_eligible_ts_ms = 960000, i_entry_expires_ts_ms = 1019999,
      i_reference_price = Num 100, i_signal_strength = Num (7 / 8),
      i_gross_reward_bps = fmul (fdiv (Num 8) (Num 100)) (Num 10000),
      i_exit_plan = \<lparr>stop_price = Num 96, target_price = Num 108, max_holding_ms = 1800000,
        trailing_activation_price = None, trailing_distance = None\<rparr>,
      i_metadata = [(''agreeing_lags'', a), (''agreement_ratio'', b), (''atr'', d), (''boundary_proxy'', e),
        (''boundary_volume_ratio'', f), (''config_sha256'', g), (''current_imbalance'', h), (''feature_hash'', i),
        (''predictable_imbalance'', j), (''strategy_version'', k)]\<rparr>)"
  by code_simp

abbreviation bought_now :: flow where
  "bought_now \<equiv> \<lparr>q_current = Num (1 / 2), q_predictable = Num (1 / 2), q_direction = fone, q_agreeing = 1, q_ratio = fone\<rparr>"

lemma bought_intent:
  "\<exists>s. quarter_intent sample_quarter_config (bought_start 15) bought_now (Num 2) (Num 96, Num 108) = Inr s"
proof -
  have u: "usable (Num 2)" "usable (Num 100)" "usable (Num 96)" "usable (Num 108)" "usable (Num (1 / 2))" "usable fone"
    by (simp_all add: usable_def)
  have long: "quarter_side bought_now = LONG" by (simp add: quarter_side_def)
  have ratio: "agreement_ratio sample_quarter_config bought_now = Inr fone"
    by (simp add: agreement_ratio_def sample_quarter_config_def bought_bracket)
  obtain h where h: "quarter_feature_hash sample_quarter_config (bought_start 15) bought_now fone (Num 2) (Num 96, Num 108) = Inr h"
    by (simp add: quarter_feature_hash_def quarter_number_def u bought_fields)
  obtain m where m: "quarter_metadata sample_quarter_config bought_now fone (Num 2) h = Inr m"
    and shape: "\<exists>a b d f g j k. m = [(''agreeing_lags'', a), (''agreement_ratio'', b), (''atr'', d), (''boundary_proxy'', ''closed_first_1m''),
      (''boundary_volume_ratio'', f), (''config_sha256'', g), (''current_imbalance'', j), (''feature_hash'', h),
      (''predictable_imbalance'', k), (''strategy_version'', ''quarter_hour_flow_v1'')]"
    by (simp add: quarter_metadata_def quarter_number_def u)
  have fields: "qh_max_hold_quarters sample_quarter_config = 2" "qh_intent_valid_minutes sample_quarter_config = 1"
    by (simp_all add: sample_quarter_config_def)
  from shape show ?thesis
    using bought_checks by (auto simp: quarter_intent_def ratio h m long bought_bracket bought_strength bought_fields make_sleeve_intent_def
      validate_Inr_iff fields quarter_ms_def minute_ms_def)
qed

lemma bought_run:
  "\<exists>s. generate_quarter_hour_flow_intents bought_minutes (Some (QuarterHourFlow sample_quarter_config)) = Inr [s]"
proof -
  obtain s where s: "quarter_intent sample_quarter_config (bought_start 15) bought_now (Num 2) (Num 96, Num 108) = Inr s"
    using bought_intent by blast
  have u: "usable (Num 2)" "usable (Num 100)" "usable (Num 96)" "usable (Num 108)" by (simp_all add: usable_def)
  have fields: "qh_phase_lags sample_quarter_config = 1" "qh_atr_period sample_quarter_config = 1"
    by (simp_all add: sample_quarter_config_def)
  have "quarter_side bought_now = LONG" by (simp add: quarter_side_def)
  then have trade: "quarter_trade sample_quarter_config bought_quarters [Num 2, Num 2] (bought_start 15) bought_now = Inr [s]"
    using s by (simp add: quarter_trade_def bought_bracket bought_flow(5) bought_fields u del: upt_rec_numeral)
  have "quarter_boundary sample_quarter_config [bought_start 0, bought_start 15] bought_quarters [Num 2, Num 2] 1 = Inr [s]"
    using trade bought_flow bought_bracket(4)
    by (simp add: quarter_boundary_def fields Prelude.slice_def del: upt_rec_numeral)
  then have "quarter_segment sample_quarter_config bought_minutes = Inr [s]"
    by (simp add: quarter_segment_def bought_starts fields bought_aggregate bought_atr extend_all_Cons upt_rec [of 1 2]
        del: upt_rec_numeral)
  moreover have "segments minute_ms bought_minutes = [bought_minutes]"
    by (rule segments_gap_free) (auto simp: gap_free_def list_all_iff row_aligned_def step_minutes_def step_minute_def
        step_candle_def minute_ms_def successively_conv_nth)
  ultimately show ?thesis
    using step_canonical [of 15 "\<lambda>_. 100" 4 3 30] by (auto simp: quarter_run quarter_settings_def extend_all_Cons)
qed

subsection \<open>Properties\<close>

text \<open>
  Property C21: every quarter-hour intent is justified by the first minute of a quarter on a gap-free run of minutes. The
  flow it follows is that of the first minutes of exactly the configured number of quarters right before, the current
  minute agrees with it in direction, size and volume, and the bracket is the configured multiple of the average range
  of the quarter that had closed when the minute opened.
\<close>

theorem quarter_intents_justified:
  assumes "generate_quarter_hour_flow_intents candles (Some (QuarterHourFlow c)) = Inr zs"
    and "make_quarter_hour c = Inr c" and "s \<in> set zs"
  shows "\<exists>ordered seg k. canonical_candles candles (Some ''1m'') = Inr ordered \<and> seg \<in> set (segments minute_ms ordered) \<and>
    gap_free minute_ms seg \<and> quarter_justifies c seg k s \<and> sleeve_intent_wf s"
proof -
  have lags: "0 < qh_phase_lags c" using assms(2) by (simp add: make_quarter_hour_def validate_Inr_iff quarter_hour_checks_def positive_int_def)
  from assms(1) obtain ordered where o: "canonical_candles candles (Some ''1m'') = Inr ordered"
    and run: "extend_all (quarter_segment c) (segments minute_ms ordered) = Inr zs" by (auto simp: quarter_run quarter_settings_def)
  from extend_all_mem [OF run assms(3)] obtain seg out where seg: "seg \<in> set (segments minute_ms ordered)"
    "quarter_segment c seg = Inr out" "s \<in> set out" by blast
  have gap: "gap_free minute_ms seg" using segments_facts(2) [OF seg(1)] by blast
  from quarter_segment_output [OF seg(2,3) gap lags] show ?thesis using o seg(1) gap by blast
qed

theorem quarter_intents_justified_witness:
  "\<exists>s seg k. generate_quarter_hour_flow_intents bought_minutes (Some (QuarterHourFlow sample_quarter_config)) = Inr [s] \<and>
     quarter_justifies sample_quarter_config seg k s"
proof -
  obtain s where run: "generate_quarter_hour_flow_intents bought_minutes (Some (QuarterHourFlow sample_quarter_config)) = Inr [s]"
    using bought_run by blast
  from quarter_intents_justified [OF run sample_quarter_config_ok] show ?thesis using run by auto
qed

text \<open>
  Property C22: the quarter-hour sleeve does not look ahead: minutes that arrive after a history leave every intent in
  place and only append new ones, although they complete further quarters.
\<close>

theorem quarter_no_lookahead:
  assumes "canonical_candles (past @ future) (Some ''1m'') = Inr (past @ future)"
    and "generate_quarter_hour_flow_intents (past @ future) config = Inr zs"
  shows "\<exists>as bs. generate_quarter_hour_flow_intents past config = Inr as \<and> zs = as @ bs"
proof -
  from assms obtain c where c: "quarter_settings config = Inr c"
    "extend_all (quarter_segment c) (segments minute_ms (past @ future)) = Inr zs" by (auto simp: quarter_run)
  from quarter.rows_prefix [OF c(2)] show ?thesis using c(1) canonical_prefix [OF assms(1)] by (auto simp: quarter_run)
qed

theorem quarter_no_lookahead_witness:
  "\<exists>s as bs. generate_quarter_hour_flow_intents (step_minutes 15 (\<lambda>_. 100) 4 3 16) (Some (QuarterHourFlow sample_quarter_config)) = Inr as \<and>
     generate_quarter_hour_flow_intents bought_minutes (Some (QuarterHourFlow sample_quarter_config)) = Inr [s] \<and> [s] = as @ bs"
proof -
  let ?later = "drop 16 bought_minutes"
  have split: "step_minutes 15 (\<lambda>_. 100) 4 3 16 @ ?later = bought_minutes" by (rule step_minutes_split) simp
  have "canonical_candles bought_minutes (Some ''1m'') = Inr bought_minutes" by (rule step_canonical)
  then show ?thesis
    using bought_run quarter_no_lookahead [of "step_minutes 15 (\<lambda>_. 100) 4 3 16" ?later] unfolding split by blast
qed

end
