(* ===== verification/Indicators.thy ===== *)
theory Indicators
  imports Segments
begin

section \<open>Indicators (indicators.py)\<close>

text \<open>
  The exponential average that is seeded with the mean of the first full period. Arrays are lists of doubles. The mean
  of an array is numpy's: the order in which it adds is not in the repository, so it is the argument \<open>np_mean\<close>.
  Arithmetic on array elements follows IEEE 754, where a division by zero is not an exception.
\<close>

definition stable_mean :: "(pyfloat list \<Rightarrow> pyfloat) \<Rightarrow> string \<Rightarrow> pyfloat list \<Rightarrow> pyfloat result" where
  "stable_mean np_mean name values =
     (if values = [] then Inl (ValueError ''zero-size array to reduction operation maximum which has no identity'')
      else let scale = fmax (fabs (hd values)) (map fabs (tl values)) in
        if feq scale fzero then Inr fzero
        else let mean = fmul (np_mean (map (\<lambda>v. fdiv v scale) values)) scale in
          if \<not> is_finite mean then Inl (ValueError (name @ '' arithmetic exceeds the finite numeric range''))
          else Inr mean)"

fun ema_loop :: "pyfloat \<Rightarrow> pyfloat \<Rightarrow> pyfloat list \<Rightarrow> pyfloat list" where
  "ema_loop alpha previous [] = [previous]"
| "ema_loop alpha previous (x # xs) =
     previous # ema_loop alpha (fadd (fmul alpha x) (fmul (fsub fone alpha) previous)) xs"

definition ema :: "(pyfloat list \<Rightarrow> pyfloat) \<Rightarrow> pyfloat list \<Rightarrow> int \<Rightarrow> pyfloat list result" where
  "ema np_mean arr period =
     (if period \<le> 0 then Inl (ValueError ''EMA period must be a positive integer'')
      else if arr = [] then Inr []
      else if list_ex is_inf arr then Inl (ValueError ''EMA values must not contain infinite values'')
      else let start = length (takeWhile (\<lambda>v. \<not> is_finite v) arr); n = nat period in
        if start = length arr then Inr (replicate (length arr) NaN)
        else if \<not> list_all is_finite (drop start arr)
        then Inl (ValueError ''EMA values must be finite after any leading NaN warm-up prefix'')
        else if length (drop start arr) < n then Inr (replicate (length arr) NaN)
        else let alpha = fdiv (Num 2) (fadd (float_of_int period) fone) in
          rmap (\<lambda>seed. replicate (start + n - 1) NaN @ ema_loop alpha seed (drop (start + n) arr))
            (stable_mean np_mean ''EMA'' (take n (drop start arr))))"

subsection \<open>Facts\<close>

lemma length_ema_loop [simp]: "length (ema_loop alpha previous xs) = Suc (length xs)"
  by (induction xs arbitrary: previous) simp_all

lemma ema_loop_append: "\<exists>rest. ema_loop alpha previous (xs @ ys) = ema_loop alpha previous xs @ rest"
proof (induction xs arbitrary: previous)
  case Nil
  show ?case by (cases ys) auto
qed simp

lemma length_ema:
  assumes "ema np_mean arr period = Inr out"
  shows "length out = length arr"
proof -
  have "length (takeWhile (\<lambda>v. \<not> is_finite v) arr) \<le> length arr" by (rule length_takeWhile_le)
  then show ?thesis using assms by (auto simp: ema_def Let_def rmap_Inr_iff split: if_splits)
qed

lemma takeWhile_shorter: "x \<in> set xs \<Longrightarrow> \<not> P x \<Longrightarrow> length (takeWhile P xs) < length xs"
  by (induction xs) auto

lemma ema_shape:
  assumes "ema np_mean arr period = Inr out"
  shows "out = replicate (length arr) NaN \<or>
    (\<exists>tail. out = replicate (length (takeWhile (\<lambda>v. \<not> is_finite v) arr) + nat period - 1) NaN @ tail)"
  using assms unfolding ema_def Let_def rmap_Inr_iff by (auto simp: rmap_Inr_iff split: if_splits)

lemma take_shape:
  assumes "out = replicate m NaN \<or> (\<exists>tail. out = replicate l NaN @ tail)" "n \<le> m" "n \<le> l"
  shows "\<exists>bs. out = replicate n NaN @ bs"
proof -
  have "replicate m NaN = replicate n NaN @ replicate (m - n) NaN" "replicate l NaN = replicate n NaN @ replicate (l - n) NaN"
    using assms(2,3) by (simp_all add: replicate_add [symmetric])
  with assms(1) show ?thesis by (metis append_assoc)
qed

text \<open>Values that come later do not change the average of the earlier ones.\<close>

lemma ema_prefix:
  assumes "ema np_mean (xs @ ys) period = Inr out"
  shows "\<exists>as bs. ema np_mean xs period = Inr as \<and> out = as @ bs \<and> length as = length xs"
proof -
  let ?finite = "\<lambda>arr. length (takeWhile (\<lambda>v. \<not> is_finite v) arr)" and ?n = "nat period"
  have period: "0 < period" using assms by (auto simp: ema_def split: if_splits)
  show ?thesis
  proof (cases "xs @ ys = [] \<or> xs = []")
    case True
    then show ?thesis using period by (auto simp: ema_def)
  next
    case nonempty: False
    with assms period have no_inf: "\<not> list_ex is_inf (xs @ ys)" by (auto simp: ema_def split: if_splits)
    show ?thesis
    proof (cases "list_all (\<lambda>v. \<not> is_finite v) xs")
      case True
      then have start: "?finite xs = length xs" "?finite (xs @ ys) = length xs + ?finite ys"
        by (simp_all add: list_all_iff takeWhile_eq_all_conv [THEN iffD2])
      have "length xs \<le> length xs + ?finite ys + ?n - 1" using period by simp
      with take_shape [OF ema_shape [OF assms], of "length xs"] obtain bs where "out = replicate (length xs) NaN @ bs"
        by (auto simp: start)
      moreover have "ema np_mean xs period = Inr (replicate (length xs) NaN)"
        using period no_inf nonempty start(1) by (simp add: ema_def)
      ultimately show ?thesis by simp
    next
      case False
      then have start: "?finite (xs @ ys) = ?finite xs" by (auto simp: list_all_iff takeWhile_append1)
      have s: "?finite xs < length xs" using False takeWhile_shorter [of _ xs] by (auto simp: list_all_iff)
      then have rest: "drop (?finite xs) (xs @ ys) = drop (?finite xs) xs @ ys" by simp
      from assms period nonempty no_inf s have finite: "list_all is_finite (drop (?finite xs) xs @ ys)"
        by (auto simp: ema_def Let_def start rest split: if_splits)
      note def = ema_def [of np_mean _ period, unfolded Let_def]
      show ?thesis
      proof (cases "length (drop (?finite xs) xs) < ?n")
        case short: True
        then have few: "ema np_mean xs period = Inr (replicate (length xs) NaN)"
          using period nonempty no_inf s finite by (simp add: def)
        have "length xs \<le> ?finite xs + ?n - 1" using short period by simp
        with take_shape [OF ema_shape [OF assms], of "length xs"] obtain bs where "out = replicate (length xs) NaN @ bs"
          by (auto simp: start)
        with few show ?thesis by simp
      next
        case full: False
        then have enough: "take ?n (drop (?finite xs) xs @ ys) = take ?n (drop (?finite xs) xs)"
          "drop (?finite xs + ?n) (xs @ ys) = drop (?finite xs + ?n) xs @ ys" using s by simp_all
        from assms period nonempty no_inf s finite full obtain seed where
          seed: "stable_mean np_mean ''EMA'' (take ?n (drop (?finite xs) xs)) = Inr seed"
          and out: "out = replicate (?finite xs + ?n - 1) NaN @
            ema_loop (fdiv (Num 2) (fadd (float_of_int period) fone)) seed (drop (?finite xs + ?n) xs @ ys)"
          by (auto simp: def start rest enough rmap_Inr_iff split: if_splits)
        have ok: "ema np_mean xs period = Inr (replicate (?finite xs + ?n - 1) NaN @
            ema_loop (fdiv (Num 2) (fadd (float_of_int period) fone)) seed (drop (?finite xs + ?n) xs))"
          using period nonempty no_inf s finite full seed by (simp add: def)
        from ema_loop_append obtain tail where "ema_loop (fdiv (Num 2) (fadd (float_of_int period) fone)) seed (drop (?finite xs + ?n) xs @ ys) =
            ema_loop (fdiv (Num 2) (fadd (float_of_int period) fone)) seed (drop (?finite xs + ?n) xs) @ tail" by blast
        then show ?thesis using ok length_ema [OF ok] by (simp add: out)
      qed
    qed
  qed
qed

end
