(* ===== verification/Legacy.thy ===== *)
theory Legacy
  imports Indicators Decisions
begin

section \<open>The hierarchical strategy (legacy\_strategy.py)\<close>

text \<open>
  Every frame votes by its averages, its momentum and its histogram; the senior frames fix a regime, the junior frames
  set up or veto an entry, and a state machine on the five-minute clock turns the wanted position into signals: a
  change needs consecutive confirmation and a held position a minimum age.
\<close>

subsection \<open>Signals and configuration\<close>

record strategy_signal =
  g_timestamp_ms :: int
  g_side :: side
  g_confidence :: pyfloat
  g_reasons :: "string list"

definition make_strategy_signal :: "strategy_signal \<Rightarrow> strategy_signal result" where
  "make_strategy_signal s = validate
     [(g_timestamp_ms s < 0, ValueError ''signal timestamp cannot be negative''),
      (\<not> is_finite (g_confidence s) \<or> \<not> (fle fzero (g_confidence s) \<and> fle (g_confidence s) fone),
         ValueError ''signal confidence must be finite and within [0, 1]'')] s"

record legacy_config =
  lg_confirmation_bars :: int
  lg_minimum_hold_bars :: int
  lg_minimum_confidence :: pyfloat

definition legacy_default :: legacy_config where
  "legacy_default = \<lparr>lg_confirmation_bars = 12, lg_minimum_hold_bars = 48, lg_minimum_confidence = lit (67 / 100)\<rparr>"

definition make_legacy :: "legacy_config \<Rightarrow> legacy_config result" where
  "make_legacy c = validate
     [(lg_confirmation_bars c \<le> 0 \<or> lg_minimum_hold_bars c < 0,
         ValueError ''confirmation must be positive and minimum hold non-negative''),
      (\<not> is_finite (lg_minimum_confidence c) \<or> \<not> (fle fzero (lg_minimum_confidence c) \<and> fle (lg_minimum_confidence c) fone),
         ValueError ''minimum confidence must be finite and within [0, 1]'')] c"

subsection \<open>The vote of one frame\<close>

text \<open>\<open>np.maximum(x, 0)\<close>; the sign of a zero does not reach the result.\<close>

definition above_zero :: "pyfloat \<Rightarrow> pyfloat" where
  "above_zero v = (if v = NaN then NaN else if fless fzero v then v else fzero)"

fun rsi_loop :: "int \<Rightarrow> pyfloat \<Rightarrow> pyfloat \<Rightarrow> (pyfloat \<times> pyfloat) list \<Rightarrow> pyfloat list" where
  "rsi_loop period gain loss [] = []"
| "rsi_loop period gain loss ((g, l) # changes) =
     (let gain = fdiv (fadd (fmul gain (float_of_int (period - 1))) g) (float_of_int period);
          loss = fdiv (fadd (fmul loss (float_of_int (period - 1))) l) (float_of_int period)
      in (if feq loss fzero then (if feq gain fzero then Num 50 else Num 100)
          else fsub (Num 100) (fdiv (Num 100) (fadd fone (fdiv gain loss)))) # rsi_loop period gain loss changes)"

definition rsi_series :: "(pyfloat list \<Rightarrow> pyfloat) \<Rightarrow> pyfloat list \<Rightarrow> int \<Rightarrow> pyfloat list" where
  "rsi_series np_mean values period =
     (if int (length values) \<le> period then replicate (length values) (Num 50)
      else let delta = map (\<lambda>(a, b). fsub b a) (adjacent values); n = nat period;
               gains = map above_zero delta; losses = map (\<lambda>d. above_zero (fneg d)) delta
           in replicate (n + 1) (Num 50) @
              rsi_loop period (np_mean (take n gains)) (np_mean (take n losses)) (drop n (zip gains losses)))"

text \<open>The side and the confidence of one row.\<close>

definition row_bias :: "bool \<Rightarrow> pyfloat \<times> pyfloat \<times> pyfloat \<Rightarrow> pyfloat \<Rightarrow> pyfloat \<Rightarrow> int \<times> pyfloat" where
  "row_bias ready = (\<lambda>(e20, e50, e200) histogram momentum.
     let long_score = of_bool (fless e50 e20 \<and> fless e200 e50) + of_bool (fle (Num 52) momentum) + of_bool (fless fzero histogram);
         short_score = of_bool (fless e20 e50 \<and> fless e50 e200) + of_bool (fle momentum (Num 48)) + of_bool (fless histogram fzero)
     in (if ready \<and> 2 \<le> long_score \<and> short_score < long_score then 1
         else if ready \<and> 2 \<le> short_score \<and> long_score < short_score then - 1 else 0,
         if ready then fdiv (float_of_int (max long_score short_score)) (Num 3) else fzero))"

definition signal_line :: "(pyfloat list \<Rightarrow> pyfloat) \<Rightarrow> pyfloat list \<Rightarrow> pyfloat list result" where
  "signal_line np_mean macd =
     (let first = length (takeWhile (\<lambda>v. \<not> is_finite v) macd) in
      if first = length macd then Inr (replicate (length macd) NaN)
      else rmap (\<lambda>tail. replicate first NaN @ tail) (ema np_mean (drop first macd) 9))"

definition bias_series :: "(pyfloat list \<Rightarrow> pyfloat) \<Rightarrow> candle list \<Rightarrow> (int \<times> pyfloat) list result" where
  "bias_series np_mean rows =
     (let closes = map c_close rows in
      if closes = [] then Inr []
      else rbind (ema np_mean closes 20) (\<lambda>e20.
           rbind (ema np_mean closes 50) (\<lambda>e50.
           rbind (ema np_mean closes 200) (\<lambda>e200.
           rbind (ema np_mean closes 12) (\<lambda>e12.
           rbind (ema np_mean closes 26) (\<lambda>e26.
           let macd = map2 fsub e12 e26 in
           rbind (signal_line np_mean macd) (\<lambda>signal.
           let histogram = map2 fsub macd signal; momentum = rsi_series np_mean closes 14 in
           Inr (map (\<lambda>i. row_bias (199 \<le> i \<and> list_all is_finite [e20 ! i, e50 ! i, e200 ! i, histogram ! i])
                  (e20 ! i, e50 ! i, e200 ! i) (histogram ! i) (momentum ! i)) [0..<length closes]))))))))"

subsection \<open>The view at one moment\<close>

text \<open>A frame with its bias; what it says at a time is the bias of its last row closed by then.\<close>

type_synonym voted_frames = "(string \<times> candle list \<times> (int \<times> pyfloat) list) list"

definition bias_at :: "voted_frames \<Rightarrow> int \<Rightarrow> string \<Rightarrow> int \<times> pyfloat" where
  "bias_at frames timestamp tf =
     (case map_of frames tf of
        None \<Rightarrow> (0, fzero)
      | Some (rows, biases) \<Rightarrow>
          let k = bisect_right (map c_close_time_ms rows) timestamp in if k = 0 then (0, fzero) else biases ! (k - 1))"

record legacy_view =
  v_candidate :: int
  v_regime :: int
  v_score :: pyfloat
  v_reasons :: "string list"

definition view_score :: "(string \<Rightarrow> int \<times> pyfloat) \<Rightarrow> pyfloat" where
  "view_score current =
     fdiv (fsum_builtin (map (\<lambda>tf. snd (current tf)) [''4h'', ''1h'', ''30m'', ''15m'', ''5m''])) (Num 5)"

definition view_regime :: "(string \<Rightarrow> int \<times> pyfloat) \<Rightarrow> int" where
  "view_regime current = (if fst (current ''4h'') = fst (current ''1h'') then fst (current ''4h'') else 0)"

definition legacy_look :: "legacy_config \<Rightarrow> (string \<Rightarrow> int \<times> pyfloat) \<Rightarrow> legacy_view" where
  "legacy_look c current =
     (let regime = view_regime current; score = view_score current;
          setup_votes = length (filter (\<lambda>tf. fst (current tf) = regime) [''30m'', ''15m'', ''5m'']);
          entry_opposes = list_ex (\<lambda>tf. fst (current tf) \<noteq> regime \<and> fst (current tf) \<noteq> 0) [''3m'', ''1m'']
      in if regime \<noteq> 0
         then if 2 \<le> setup_votes \<and> \<not> entry_opposes \<and> fle (lg_minimum_confidence c) score
           then \<lparr>v_candidate = regime, v_regime = regime, v_score = score,
                  v_reasons = [''senior_aligned'', ''setup_votes_'' @ str_int (int setup_votes)]\<rparr>
           else \<lparr>v_candidate = 0, v_regime = regime, v_score = score,
                  v_reasons = (if entry_opposes then [''entry_veto''] else [])\<rparr>
         else \<lparr>v_candidate = 0, v_regime = 0, v_score = score, v_reasons = [''senior_conflict'']\<rparr>)"

subsection \<open>The state machine\<close>

record legacy_state =
  l_position :: int
  l_pending :: int
  l_pending_count :: int
  l_held_bars :: int

definition legacy_start :: "legacy_config \<Rightarrow> legacy_state" where
  "legacy_start c = \<lparr>l_position = 0, l_pending = 0, l_pending_count = 0, l_held_bars = lg_minimum_hold_bars c\<rparr>"

definition wanted_position :: "int \<Rightarrow> legacy_view \<Rightarrow> int" where
  "wanted_position position v =
     (if position = 0 then v_candidate v
      else if v_candidate v = - position then v_candidate v
      else if v_regime v = position then position
      else 0)"

definition position_side :: "int \<Rightarrow> side" where
  "position_side p = (if p = 1 then LONG else if p = - 1 then SHORT else FLAT)"

definition transition_signal :: "int \<Rightarrow> int \<Rightarrow> legacy_view \<Rightarrow> strategy_signal" where
  "transition_signal timestamp wish v =
    \<lparr>g_timestamp_ms = timestamp, g_side = position_side wish, g_confidence = (if wish \<noteq> 0 then v_score v else fzero),
     g_reasons = (if wish \<noteq> 0 then v_reasons v else [''senior_regime_exit''])\<rparr>"

definition legacy_step ::
  "legacy_config \<Rightarrow> legacy_state \<Rightarrow> int \<times> legacy_view \<Rightarrow> (legacy_state \<times> strategy_signal list) result" where
  "legacy_step c st = (\<lambda>(timestamp, v).
     let wish = wanted_position (l_position st) v; st = st\<lparr>l_held_bars := l_held_bars st + 1\<rparr> in
     if wish = l_position st then Inr (st\<lparr>l_pending := 0, l_pending_count := 0\<rparr>, [])
     else if l_position st \<noteq> 0 \<and> l_held_bars st < lg_minimum_hold_bars c then Inr (st, [])
     else let count = (if wish \<noteq> l_pending st then 1 else l_pending_count st + 1) in
       if count < lg_confirmation_bars c then Inr (st\<lparr>l_pending := wish, l_pending_count := count\<rparr>, [])
       else rmap (\<lambda>s. (\<lparr>l_position = wish, l_pending = 0, l_pending_count = 0, l_held_bars = 0\<rparr>, [s]))
         (make_strategy_signal (transition_signal timestamp wish v)))"

fun legacy_loop :: "legacy_config \<Rightarrow> legacy_state \<Rightarrow> (int \<times> legacy_view) list \<Rightarrow> strategy_signal list result" where
  "legacy_loop c st [] = Inr []"
| "legacy_loop c st (x # xs) =
     rbind (legacy_step c st x) (\<lambda>(st, new). rmap (\<lambda>rest. new @ rest) (legacy_loop c st xs))"

definition legacy_views :: "legacy_config \<Rightarrow> voted_frames \<Rightarrow> (int \<times> legacy_view) list" where
  "legacy_views c frames =
     (case map_of frames ''5m'' of
        None \<Rightarrow> []
      | Some (rows, _) \<Rightarrow> map (\<lambda>row. (c_close_time_ms row, legacy_look c (bias_at frames (c_close_time_ms row)))) rows)"

definition voted_timeframes :: "(pyfloat list \<Rightarrow> pyfloat) \<Rightarrow> candle list \<Rightarrow> voted_frames result" where
  "voted_timeframes np_mean candles =
     rbind (build_timeframes candles) (\<lambda>frames.
       traverse (\<lambda>(tf, rows). rmap (\<lambda>biases. (tf, rows, biases)) (bias_series np_mean rows)) frames)"

definition legacy_settings :: "legacy_config option \<Rightarrow> legacy_config result" where
  "legacy_settings config = (case config of None \<Rightarrow> make_legacy legacy_default | Some c \<Rightarrow> Inr c)"

definition generate_signals ::
  "(pyfloat list \<Rightarrow> pyfloat) \<Rightarrow> candle list \<Rightarrow> legacy_config option \<Rightarrow> strategy_signal list result" where
  "generate_signals np_mean candles config =
     rbind (legacy_settings config) (\<lambda>c.
     rbind (voted_timeframes np_mean candles) (\<lambda>frames.
       legacy_loop c (legacy_start c) (legacy_views c frames)))"

subsection \<open>What a run of the state machine shows\<close>

text \<open>The states after the first bars, with the signals so far and the bars they were given on.\<close>

inductive legacy_reaches ::
  "legacy_config \<Rightarrow> (int \<times> legacy_view) list \<Rightarrow> nat \<Rightarrow> legacy_state \<Rightarrow> (nat \<times> strategy_signal) list \<Rightarrow> bool"
  for c xs where
  first_bar: "legacy_reaches c xs 0 (legacy_start c) []"
| next_bar: "legacy_reaches c xs (Suc i) st' (out @ map (Pair i) new)"
    if "legacy_reaches c xs i st out" "i < length xs" "legacy_step c st (xs ! i) = Inr (st', new)"

lemma legacy_loop_reaches:
  assumes "legacy_loop c st (drop i xs) = Inr zs" "legacy_reaches c xs i st out" "i \<le> length xs"
  shows "\<exists>st' later. legacy_reaches c xs (length xs) st' (out @ later) \<and> map snd later = zs"
  using assms
proof (induction "length xs - i" arbitrary: i st out zs)
  case 0
  then show ?case by (intro exI [of _ st] exI [of _ "[]"]) auto
next
  case (Suc n)
  then have i: "i < length xs" by simp
  with Suc.prems(1) obtain st' new rest where step: "legacy_step c st (xs ! i) = Inr (st', new)"
    and rest: "legacy_loop c st' (drop (Suc i) xs) = Inr rest" and zs: "zs = new @ rest"
    by (auto simp: Cons_nth_drop_Suc [symmetric] rbind_Inr_iff rmap_Inr_iff)
  have "n = length xs - Suc i" "Suc i \<le> length xs" using Suc.hyps(2) i by simp_all
  from Suc.hyps(1) [OF this(1) rest next_bar [OF Suc.prems(2) i step] this(2)] obtain st'' later where
    "legacy_reaches c xs (length xs) st'' ((out @ map (Pair i) new) @ later)" "map snd later = rest" by blast
  then show ?case using zs by (intro exI [of _ st''] exI [of _ "map (Pair i) new @ later"]) (simp add: comp_def)
qed

fun side_position :: "side \<Rightarrow> int" where
  "side_position LONG = 1"
| "side_position SHORT = - 1"
| "side_position FLAT = 0"

definition direction :: "int \<Rightarrow> bool" where
  "direction p \<longleftrightarrow> p \<in> {-1, 0, 1}"

definition unit_view :: "legacy_view \<Rightarrow> bool" where
  "unit_view v \<longleftrightarrow> direction (v_candidate v) \<and> direction (v_regime v)"

lemma side_position_side [simp]: "direction p \<Longrightarrow> side_position (position_side p) = p"
  by (auto simp: position_side_def direction_def)

lemma direction_simps [simp]: "direction 0" "direction (- p) \<longleftrightarrow> direction p"
  by (auto simp: direction_def)

lemma wanted_unit: "unit_view v \<Longrightarrow> direction p \<Longrightarrow> direction (wanted_position p v)"
  by (simp add: unit_view_def wanted_position_def)

text \<open>
  A change of a position that has stood since the bar \<open>since\<close>: on the bar \<open>j\<close>, after enough bars in a row that all
  wanted it, and not before the position has been held long enough.
\<close>

definition confirmed_change ::
  "legacy_config \<Rightarrow> (int \<times> legacy_view) list \<Rightarrow> int \<times> nat \<Rightarrow> nat \<times> strategy_signal \<Rightarrow> bool" where
  "confirmed_change c xs = (\<lambda>(p, since) (j, s).
     j < length xs \<and> int since + lg_confirmation_bars c \<le> int j + 1 \<and>
     (p \<noteq> 0 \<longrightarrow> int since + lg_minimum_hold_bars c \<le> int j + 1) \<and> side_position (g_side s) \<noteq> p \<and>
     (\<forall>k \<in> {nat (int j + 1 - lg_confirmation_bars c)..j}. wanted_position p (snd (xs ! k)) = side_position (g_side s)) \<and>
     s = transition_signal (fst (xs ! j)) (side_position (g_side s)) (snd (xs ! j)))"

text \<open>The position after a signal and the bar since which it stands.\<close>

definition standing_after :: "nat \<times> strategy_signal \<Rightarrow> int \<times> nat" where
  "standing_after = (\<lambda>(j, s). (side_position (g_side s), Suc j))"

fun legacy_chain ::
  "legacy_config \<Rightarrow> (int \<times> legacy_view) list \<Rightarrow> int \<times> nat \<Rightarrow> (nat \<times> strategy_signal) list \<Rightarrow> bool" where
  "legacy_chain c xs standing [] \<longleftrightarrow> True"
| "legacy_chain c xs standing (x # out) \<longleftrightarrow> confirmed_change c xs standing x \<and> legacy_chain c xs (standing_after x) out"

fun standing_at :: "int \<times> nat \<Rightarrow> (nat \<times> strategy_signal) list \<Rightarrow> int \<times> nat" where
  "standing_at standing [] = standing"
| "standing_at standing (x # out) = standing_at (standing_after x) out"

lemma legacy_chain_snoc:
  "legacy_chain c xs standing (out @ [x]) \<longleftrightarrow> legacy_chain c xs standing out \<and> confirmed_change c xs (standing_at standing out) x"
  by (induction out arbitrary: standing) auto

lemma standing_at_snoc [simp]: "standing_at standing (out @ [x]) = standing_after x"
  by (induction out arbitrary: standing) auto

text \<open>What is known of the state: the counter counts bars in a row that wanted the pending position.\<close>

definition legacy_known :: "legacy_config \<Rightarrow> (int \<times> legacy_view) list \<Rightarrow> nat \<Rightarrow> legacy_state \<Rightarrow> int \<times> nat \<Rightarrow> bool" where
  "legacy_known c xs i st = (\<lambda>(p, since).
     l_position st = p \<and> direction p \<and> since \<le> i \<and> (p \<noteq> 0 \<longrightarrow> l_held_bars st = int i - int since) \<and>
     0 \<le> l_pending_count st \<and> int since + l_pending_count st \<le> int i \<and>
     (p \<noteq> 0 \<and> l_held_bars st < lg_minimum_hold_bars c \<longrightarrow> l_pending_count st = 0) \<and>
     (\<forall>k < i. int i - l_pending_count st \<le> int k \<longrightarrow> wanted_position p (snd (xs ! k)) = l_pending st))"

lemma legacy_step_known:
  assumes known: "legacy_known c xs i st standing" and i: "i < length xs" and view: "unit_view (snd (xs ! i))"
    and step: "legacy_step c st (xs ! i) = Inr (st', new)" and c: "0 < lg_confirmation_bars c"
  shows "(new = [] \<and> legacy_known c xs (Suc i) st' standing) \<or>
    (\<exists>s. new = [s] \<and> confirmed_change c xs standing (i, s) \<and> legacy_known c xs (Suc i) st' (standing_after (i, s)))"
proof -
  obtain p since where standing: "standing = (p, since)" by fastforce
  obtain t v where x: "xs ! i = (t, v)" by fastforce
  let ?wish = "wanted_position p v" and ?held = "l_held_bars st + 1"
  let ?count = "if ?wish \<noteq> l_pending st then 1 else l_pending_count st + 1"
  note known = known [unfolded legacy_known_def standing prod.case]
  have unit: "direction ?wish" using wanted_unit view known by (simp add: x)
  have row: "wanted_position p (snd (xs ! i)) = ?wish" by (simp add: x)
  have counted: "\<forall>k < Suc i. int (Suc i) - ?count \<le> int k \<longrightarrow> wanted_position p (snd (xs ! k)) = ?wish"
    using known row by (auto simp: less_Suc_eq)
  consider (same) "?wish = p" | (early) "?wish \<noteq> p" "p \<noteq> 0" "?held < lg_minimum_hold_bars c"
    | (wait) "?wish \<noteq> p" "\<not> (p \<noteq> 0 \<and> ?held < lg_minimum_hold_bars c)" "?count < lg_confirmation_bars c"
    | (change) "?wish \<noteq> p" "\<not> (p \<noteq> 0 \<and> ?held < lg_minimum_hold_bars c)" "\<not> ?count < lg_confirmation_bars c" by linarith
  then show ?thesis
  proof cases
    case same
    then show ?thesis using step known unfolding legacy_step_def x standing by (auto simp: legacy_known_def Let_def)
  next
    case early
    then show ?thesis using step known unfolding legacy_step_def x standing by (auto simp: legacy_known_def Let_def)
  next
    case wait
    then have "new = []" "st' = st\<lparr>l_held_bars := ?held, l_pending := ?wish, l_pending_count := ?count\<rparr>"
      using step known unfolding legacy_step_def x by (auto simp: Let_def split: if_splits)
    then show ?thesis using wait known counted by (auto simp: legacy_known_def standing)
  next
    case change
    let ?s = "transition_signal t ?wish v"
    have new: "new = [?s]" "st' = \<lparr>l_position = ?wish, l_pending = 0, l_pending_count = 0, l_held_bars = 0\<rparr>"
      using change step known unfolding legacy_step_def x
      by (auto simp: Let_def rmap_Inr_iff make_strategy_signal_def validate_Inr_iff split: if_splits)
    have side: "side_position (g_side ?s) = ?wish" using unit by (simp add: transition_signal_def)
    have count: "lg_confirmation_bars c \<le> ?count" "int since + ?count \<le> int i + 1" using change(3) known by auto
    have "\<forall>k \<in> {nat (int i + 1 - lg_confirmation_bars c)..i}. wanted_position p (snd (xs ! k)) = ?wish"
    proof
      fix k assume "k \<in> {nat (int i + 1 - lg_confirmation_bars c)..i}"
      then have "k < Suc i" "int (Suc i) - ?count \<le> int k" using count(1) by auto
      then show "wanted_position p (snd (xs ! k)) = ?wish" using counted by blast
    qed
    moreover have "int since + lg_confirmation_bars c \<le> int i + 1" using count by linarith
    moreover have "p \<noteq> 0 \<longrightarrow> int since + lg_minimum_hold_bars c \<le> int i + 1" using change(2) known by linarith
    ultimately have "confirmed_change c xs standing (i, ?s)"
      using change(1) i by (simp add: confirmed_change_def standing side x)
    moreover have "legacy_known c xs (Suc i) st' (standing_after (i, ?s))"
      using unit by (simp add: legacy_known_def standing_after_def new(2) side)
    ultimately show ?thesis using new(1) by blast
  qed
qed

lemma legacy_reaches_chain:
  assumes "legacy_reaches c xs i st out" "\<forall>x \<in> set xs. unit_view (snd x)" "0 < lg_confirmation_bars c"
  shows "legacy_chain c xs (0, 0) out \<and> legacy_known c xs i st (standing_at (0, 0) out)"
  using assms
proof (induction rule: legacy_reaches.induct)
  case first_bar
  then show ?case by (simp add: legacy_known_def legacy_start_def)
next
  case (next_bar i st out st' new)
  then have "legacy_known c xs i st (standing_at (0, 0) out)" "unit_view (snd (xs ! i))" by auto
  from legacy_step_known [OF this(1) next_bar.hyps(2) this(2) next_bar.hyps(3) next_bar.prems(2)] next_bar
  show ?case by (auto simp: legacy_chain_snoc)
qed

subsection \<open>Votes are directions\<close>

lemma row_bias_unit [simp]: "direction (fst (row_bias ready es histogram momentum))"
  by (cases es) (simp add: row_bias_def Let_def direction_def)

lemma bias_series_votes:
  assumes "bias_series np_mean rows = Inr bs"
  shows "length bs = length rows \<and> list_all (\<lambda>b. direction (fst b)) bs"
  using assms by (auto simp: bias_series_def Let_def rbind_Inr_iff list_all_iff simp del: fst_conv split: if_splits)

lemma voted_frame:
  assumes "voted_timeframes np_mean candles = Inr frames" "(tf, rows, bs) \<in> set frames"
  shows "bias_series np_mean rows = Inr bs \<and> (\<exists>built. build_timeframes candles = Inr built \<and> (tf, rows) \<in> set built)"
proof -
  from assms(1) obtain built where b: "build_timeframes candles = Inr built"
    and t: "traverse (\<lambda>(tf, rows). rmap (\<lambda>biases. (tf, rows, biases)) (bias_series np_mean rows)) built = Inr frames"
    by (auto simp: voted_timeframes_def rbind_Inr_iff)
  from traverse_mem [OF t assms(2)] b show ?thesis by (auto simp: rmap_Inr_iff)
qed

lemma bias_at_unit:
  assumes "voted_timeframes np_mean candles = Inr frames"
  shows "direction (fst (bias_at frames timestamp tf))"
proof (cases "map_of frames tf")
  case (Some vote)
  obtain rows bs where v: "vote = (rows, bs)" by fastforce
  with Some have "(tf, rows, bs) \<in> set frames" by (auto dest: map_of_SomeD)
  with voted_frame [OF assms] have "bias_series np_mean rows = Inr bs" by blast
  note b = bias_series_votes [OF this]
  define k where "k = bisect_right (map c_close_time_ms rows) timestamp"
  have "k \<le> length bs" using b bisect_right_le_length [of "map c_close_time_ms rows"] by (simp add: k_def)
  then have "k = 0 \<or> direction (fst (bs ! (k - 1)))" using b by (cases k) (auto simp: list_all_length)
  then show ?thesis by (auto simp: bias_at_def Some v Let_def simp flip: k_def)
qed (simp add: bias_at_def)

lemma legacy_look_unit:
  assumes "\<And>tf. direction (fst (current tf))"
  shows "unit_view (legacy_look c current)"
proof -
  have "direction (view_regime current)" using assms by (simp add: view_regime_def)
  then show ?thesis by (simp add: unit_view_def legacy_look_def Let_def)
qed

lemma legacy_views_unit:
  "voted_timeframes np_mean candles = Inr frames \<Longrightarrow> \<forall>x \<in> set (legacy_views c frames). unit_view (snd x)"
  by (auto simp: legacy_views_def legacy_look_unit [OF bias_at_unit] split: option.splits)

subsection \<open>The five-minute clock\<close>

lemma built_frame:
  assumes "build_timeframes candles = Inr built" "(tf, rows) \<in> set built"
  shows "\<exists>ordered. canonical_candles candles (Some ''1m'') = Inr ordered \<and>
    (if tf = ''1m'' then rows = ordered else aggregate ordered tf = Inr rows)"
proof -
  from assms(1) obtain ordered where o: "canonical_candles candles (Some ''1m'') = Inr ordered"
    and t: "traverse (\<lambda>tf. rmap (\<lambda>rows. (tf, rows)) (if tf = ''1m'' then Inr ordered else aggregate ordered tf)) (map fst timeframe_table) = Inr built"
    by (auto simp: build_timeframes_def rbind_Inr_iff)
  from traverse_mem [OF t assms(2)] o show ?thesis by (auto simp: rmap_Inr_iff split: if_splits)
qed

lemma legacy_views_clock:
  assumes v: "voted_timeframes np_mean candles = Inr frames" and ij: "i \<le> j" "j < length (legacy_views c frames)"
  shows "fst (legacy_views c frames ! i) + int (j - i) * 300000 \<le> fst (legacy_views c frames ! j)"
proof (cases "map_of frames ''5m''")
  case (Some vote)
  obtain rows bs where vote: "vote = (rows, bs)" by fastforce
  with Some have "(''5m'', rows, bs) \<in> set frames" by (auto dest: map_of_SomeD)
  with voted_frame [OF v] built_frame obtain ordered where agg: "aggregate ordered ''5m'' = Inr rows" by fastforce
  have sz: "timeframe_ms ''5m'' = Some 300000" by code_simp
  show ?thesis using frame_clock_step [OF agg sz ij(1)] ij by (simp add: legacy_views_def Some vote)
qed (use ij in \<open>simp add: legacy_views_def\<close>)

text \<open>In time, on a clock whose bars are at least \<open>bar\<close> apart.\<close>

definition legacy_paced :: "legacy_config \<Rightarrow> strategy_signal list \<Rightarrow> bool" where
  "legacy_paced c zs \<longleftrightarrow>
     (zs \<noteq> [] \<longrightarrow> g_side (hd zs) \<noteq> FLAT) \<and>
     successively (\<lambda>a b. g_side a \<noteq> g_side b \<and>
       g_timestamp_ms a + 300000 * max (lg_confirmation_bars c) (if g_side a = FLAT then 0 else lg_minimum_hold_bars c) \<le> g_timestamp_ms b) zs"

lemma side_position_eq [simp]: "side_position a = side_position b \<longleftrightarrow> a = b" "side_position a = 0 \<longleftrightarrow> a = FLAT"
  by (cases a; cases b; simp)+

lemma confirmed_changeD:
  assumes "confirmed_change c xs (p, since) (j, s)"
  shows "j < length xs" "g_timestamp_ms s = fst (xs ! j)" "int since + lg_confirmation_bars c \<le> int j + 1"
    "p \<noteq> 0 \<longrightarrow> int since + lg_minimum_hold_bars c \<le> int j + 1" "side_position (g_side s) \<noteq> p"
proof -
  from assms have s: "s = transition_signal (fst (xs ! j)) (side_position (g_side s)) (snd (xs ! j))"
    by (simp add: confirmed_change_def)
  show "g_timestamp_ms s = fst (xs ! j)" by (subst s) (simp add: transition_signal_def)
qed (use assms in \<open>simp_all add: confirmed_change_def\<close>)

lemma legacy_chain_paced:
  assumes chain: "legacy_chain c xs (0, 0) out"
    and clock: "\<And>i j. i \<le> j \<Longrightarrow> j < length xs \<Longrightarrow> fst (xs ! i) + int (j - i) * 300000 \<le> fst (xs ! j)"
    and c: "0 < lg_confirmation_bars c"
  shows "legacy_paced c (map snd out)"
proof -
  let ?next = "\<lambda>a b. g_side a \<noteq> g_side b \<and>
    g_timestamp_ms a + 300000 * max (lg_confirmation_bars c) (if g_side a = FLAT then 0 else lg_minimum_hold_bars c) \<le> g_timestamp_ms b"
  have pace: "?next s u" if "confirmed_change c xs standing (i, s)" "confirmed_change c xs (standing_after (i, s)) (j, u)" for standing i s j u
  proof -
    obtain p since where "standing = (p, since)" by fastforce
    with that have a: "confirmed_change c xs (p, since) (i, s)" by simp
    have b: "confirmed_change c xs (side_position (g_side s), Suc i) (j, u)" using that(2) by (simp add: standing_after_def)
    note t = confirmed_changeD(2) [OF a] confirmed_changeD(2) [OF b] confirmed_changeD(1) [OF b]
      and far = confirmed_changeD(3) [OF b] and held = confirmed_changeD(4) [OF b, simplified]
    have sides: "g_side u \<noteq> g_side s" using confirmed_changeD(5) [OF b] by auto
    have "i \<le> j" using far c by simp
    from clock [OF this t(3)] have "fst (xs ! i) + (int j - int i) * 300000 \<le> fst (xs ! j)" using \<open>i \<le> j\<close> by (simp add: of_nat_diff)
    moreover have "max (lg_confirmation_bars c) (if g_side s = FLAT then 0 else lg_minimum_hold_bars c) \<le> int j - int i"
      using far held c by auto
    ultimately show ?thesis using t sides by auto
  qed
  have "successively ?next (map snd out)" if "legacy_chain c xs standing out" for standing
    using that
  proof (induction out arbitrary: standing rule: induct_list012)
    case (3 x y out)
    obtain i s j u where xy: "x = (i, s)" "y = (j, u)" by fastforce
    have here: "confirmed_change c xs standing (i, s)" "confirmed_change c xs (standing_after (i, s)) (j, u)"
      and rest: "legacy_chain c xs (standing_after (i, s)) (y # out)" using "3.prems" by (simp_all add: xy)
    from "3.IH"(2) [OF rest] pace [OF here] show ?case by (simp add: xy)
  qed auto
  moreover have "out \<noteq> [] \<longrightarrow> g_side (snd (hd out)) \<noteq> FLAT"
    using chain by (cases out) (auto simp: confirmed_change_def)
  ultimately show ?thesis using chain by (auto simp: legacy_paced_def hd_map)
qed

lemma legacy_run_confirmed:
  assumes run: "legacy_loop c (legacy_start c) xs = Inr zs" and c: "make_legacy c = Inr c"
    and units: "\<forall>x \<in> set xs. unit_view (snd x)"
    and clock: "\<And>i j. i \<le> j \<Longrightarrow> j < length xs \<Longrightarrow> fst (xs ! i) + int (j - i) * 300000 \<le> fst (xs ! j)"
  shows "\<exists>out. zs = map snd out \<and> legacy_chain c xs (0, 0) out \<and> legacy_paced c zs"
proof -
  have bars: "0 < lg_confirmation_bars c" using c by (simp add: make_legacy_def validate_Inr_iff)
  from legacy_loop_reaches [of c "legacy_start c" 0 xs zs "[]"] run first_bar obtain st out where
    "legacy_reaches c xs (length xs) st out" "map snd out = zs" by auto
  then show ?thesis using legacy_reaches_chain [OF _ units bars] legacy_chain_paced [OF _ clock bars] by blast
qed

subsection \<open>Properties\<close>

text \<open>
  The same for the whole strategy: its views are directions on the five-minute clock.
\<close>

theorem generated_signals_confirmed:
  assumes "generate_signals np_mean candles (Some c) = Inr zs" and "make_legacy c = Inr c"
  shows "\<exists>frames out. voted_timeframes np_mean candles = Inr frames \<and> zs = map snd out \<and>
    legacy_chain c (legacy_views c frames) (0, 0) out \<and> legacy_paced c zs"
proof -
  from assms(1) obtain frames where v: "voted_timeframes np_mean candles = Inr frames"
    and run: "legacy_loop c (legacy_start c) (legacy_views c frames) = Inr zs"
    by (auto simp: generate_signals_def legacy_settings_def rbind_Inr_iff)
  from legacy_run_confirmed [OF run assms(2) legacy_views_unit [OF v] legacy_views_clock [OF v]] v show ?thesis by blast
qed

text \<open>
  Property C25: the state machine changes its position only when it is confirmed: every signal ends a run of the
  configured number of bars that all wanted exactly this change, no position is given up before its minimum age, no
  signal repeats the side before it, the first one opens a position, and in time the signals are as far apart.
\<close>

theorem legacy_signals_confirmed:
  assumes "legacy_loop c (legacy_start c) xs = Inr zs" and "make_legacy c = Inr c"
    and "list_all (\<lambda>x. unit_view (snd x)) xs" and "successively (\<lambda>a b. fst a + 300000 \<le> fst b) xs"
  shows "\<exists>out. zs = map snd out \<and> legacy_chain c xs (0, 0) out \<and> legacy_paced c zs"
proof (rule legacy_run_confirmed [OF assms(1,2)])
  show "\<forall>x \<in> set xs. unit_view (snd x)" using assms(3) by (simp add: list_all_iff)
  fix i j assume "i \<le> j" "j < length xs"
  then show "fst (xs ! i) + int (j - i) * 300000 \<le> fst (xs ! j)"
  proof (induction "j - i" arbitrary: i)
    case (Suc n)
    then have i: "Suc i \<le> j" "Suc i < length xs" by simp_all
    have "fst (xs ! i) + 300000 \<le> fst (xs ! Suc i)" using assms(4) i by (simp add: successively_conv_nth)
    moreover have "fst (xs ! Suc i) + int (j - Suc i) * 300000 \<le> fst (xs ! j)" using Suc.hyps(1) [of "Suc i"] Suc i by simp
    ultimately show ?case using i(1) by (simp add: of_nat_diff)
  qed simp
qed

definition sample_legacy :: legacy_config where
  "sample_legacy = \<lparr>lg_confirmation_bars = 2, lg_minimum_hold_bars = 3, lg_minimum_confidence = Num (1 / 2)\<rparr>"

definition sample_view :: "int \<Rightarrow> int \<times> legacy_view" where
  "sample_view i = (300000 * i, \<lparr>v_candidate = (if i < 2 then 1 else 0), v_regime = (if i < 2 then 1 else 0), v_score = fone, v_reasons = []\<rparr>)"

theorem legacy_signals_confirmed_witness:
  "\<exists>a b. legacy_loop sample_legacy (legacy_start sample_legacy) (map sample_view [0, 1, 2, 3, 4, 5, 6]) = Inr [a, b] \<and>
     g_side a = LONG \<and> g_side b = FLAT \<and> g_timestamp_ms a + 900000 \<le> g_timestamp_ms b \<and> legacy_paced sample_legacy [a, b]"
proof -
  let ?xs = "map sample_view [0, 1, 2, 3, 4, 5, 6]"
  let ?a = "\<lparr>g_timestamp_ms = 300000, g_side = LONG, g_confidence = fone, g_reasons = []\<rparr>"
  let ?b = "\<lparr>g_timestamp_ms = 1500000, g_side = FLAT, g_confidence = fzero, g_reasons = [''senior_regime_exit'']\<rparr>"
  have run: "legacy_loop sample_legacy (legacy_start sample_legacy) ?xs = Inr [?a, ?b]" by code_simp
  have "make_legacy sample_legacy = Inr sample_legacy" "list_all (\<lambda>x. unit_view (snd x)) ?xs"
    "successively (\<lambda>a b. fst a + 300000 \<le> fst b) ?xs"
    by (code_simp, simp_all add: sample_view_def unit_view_def direction_def)
  from legacy_signals_confirmed [OF run this] have "legacy_paced sample_legacy [?a, ?b]" by blast
  with run show ?thesis by (intro exI [of _ ?a] exI [of _ ?b] conjI) simp_all
qed

end
