(* ===== verification/LegacyCausal.thy ===== *)
theory LegacyCausal
  imports Legacy StepMarket
begin

section \<open>The hierarchical strategy does not look ahead\<close>

text \<open>
  Averages, momentum and votes of a frame on a longer history extend those on a shorter one, and a frame that later
  minutes complete closes after everything known. So the views and the signals on a history are a prefix of those on
  its continuation. A quiet quarter of an hour is the witness.
\<close>

subsection \<open>Causality\<close>

lemma adjacent_append: "\<exists>rest. adjacent (xs @ ys) = adjacent xs @ rest"
  by (induction xs rule: induct_list012) auto

lemma rsi_loop_append: "\<exists>rest. rsi_loop period gain loss (xs @ ys) = rsi_loop period gain loss xs @ rest"
  by (induction period gain loss xs rule: rsi_loop.induct) (auto simp: Let_def)

lemma length_rsi_loop [simp]: "length (rsi_loop period gain loss xs) = length xs"
  by (induction period gain loss xs rule: rsi_loop.induct) (auto simp: Let_def)

lemma rsi_series_prefix:
  assumes "0 < period"
  shows "\<exists>rest. rsi_series np_mean (xs @ ys) period = rsi_series np_mean xs period @ rest \<and>
    length (rsi_series np_mean xs period) = length xs"
proof (cases "int (length xs) \<le> period")
  case True
  show ?thesis
  proof (cases "int (length (xs @ ys)) \<le> period")
    case False
    have "replicate (nat period + 1) (Num 50) = replicate (length xs) (Num 50) @ replicate (nat period + 1 - length xs) (Num 50)"
      using True assms by (simp add: replicate_add [symmetric])
    moreover have "\<exists>tail. rsi_series np_mean (xs @ ys) period = replicate (nat period + 1) (Num 50) @ tail"
      using False unfolding rsi_series_def Let_def by (simp only: if_False) blast
    moreover have "rsi_series np_mean xs period = replicate (length xs) (Num 50)" using True by (simp add: rsi_series_def)
    ultimately show ?thesis by auto
  qed (use True in \<open>simp add: rsi_series_def replicate_add\<close>)
next
  case False
  obtain rest where a: "adjacent (xs @ ys) = adjacent xs @ rest" using adjacent_append by blast
  define d where "d = map (\<lambda>(a, b). fsub b a) (adjacent xs)"
  define e where "e = map (\<lambda>(a, b). fsub b a) rest"
  have n: "nat period \<le> length d" using False assms by (simp add: d_def)
  let ?run = "\<lambda>ds. rsi_loop period (np_mean (take (nat period) (map above_zero ds)))
      (np_mean (take (nat period) (map (\<lambda>x. above_zero (fneg x)) ds)))
      (drop (nat period) (zip (map above_zero ds) (map (\<lambda>x. above_zero (fneg x)) ds)))"
  have deltas: "map (\<lambda>(a, b). fsub b a) (adjacent (xs @ ys)) = d @ e" by (simp add: a d_def e_def)
  have runs: "rsi_series np_mean (xs @ ys) period = replicate (nat period + 1) (Num 50) @ ?run (d @ e)"
    "rsi_series np_mean xs period = replicate (nat period + 1) (Num 50) @ ?run d"
    using False unfolding rsi_series_def Let_def deltas d_def [symmetric] by simp_all
  have "zip (map above_zero (d @ e)) (map (\<lambda>x. above_zero (fneg x)) (d @ e)) =
      zip (map above_zero d) (map (\<lambda>x. above_zero (fneg x)) d) @ zip (map above_zero e) (map (\<lambda>x. above_zero (fneg x)) e)" by simp
  then have "\<exists>tail. ?run (d @ e) = ?run d @ tail" using n by (simp add: rsi_loop_append)
  then obtain tail where "?run (d @ e) = ?run d @ tail" by blast
  moreover have "length (?run d) = length xs - 1 - nat period" by (simp add: d_def)
  ultimately show ?thesis using False n assms by (simp add: runs d_def)
qed

lemma signal_line_prefix:
  assumes "signal_line np_mean (xs @ ys) = Inr out"
  shows "\<exists>as bs. signal_line np_mean xs = Inr as \<and> out = as @ bs \<and> length as = length xs"
proof (cases "list_all (\<lambda>v. \<not> is_finite v) xs")
  case True
  then have start: "length (takeWhile (\<lambda>v. \<not> is_finite v) xs) = length xs"
    "length (takeWhile (\<lambda>v. \<not> is_finite v) (xs @ ys)) = length xs + length (takeWhile (\<lambda>v. \<not> is_finite v) ys)"
    by (simp_all add: list_all_iff takeWhile_eq_all_conv [THEN iffD2])
  have "\<exists>bs. out = replicate (length xs) NaN @ bs"
    using assms by (auto simp: signal_line_def Let_def start rmap_Inr_iff replicate_add split: if_splits)
  then show ?thesis using start(1) by (auto simp: signal_line_def)
next
  case False
  then have start: "length (takeWhile (\<lambda>v. \<not> is_finite v) (xs @ ys)) = length (takeWhile (\<lambda>v. \<not> is_finite v) xs)"
    by (auto simp: list_all_iff takeWhile_append1)
  have s: "length (takeWhile (\<lambda>v. \<not> is_finite v) xs) < length xs"
    using False takeWhile_shorter [of _ xs] by (auto simp: list_all_iff)
  let ?n = "length (takeWhile (\<lambda>v. \<not> is_finite v) xs)"
  from assms s obtain tail where t: "ema np_mean (drop ?n xs @ ys) 9 = Inr tail" "out = replicate ?n NaN @ tail"
    by (auto simp: signal_line_def Let_def start rmap_Inr_iff split: if_splits)
  from ema_prefix [OF t(1)] obtain as bs where "ema np_mean (drop ?n xs) 9 = Inr as" "tail = as @ bs" "length as = length xs - ?n" by auto
  then show ?thesis using t(2) s by (simp add: signal_line_def)
qed

lemma bias_series_prefix:
  assumes run: "bias_series np_mean (rows @ later) = Inr out"
  shows "\<exists>as bs. bias_series np_mean rows = Inr as \<and> out = as @ bs"
proof (cases "rows = []")
  case False
  let ?c = "map c_close rows" and ?d = "map c_close later"
  from run False obtain e20 e50 e200 e12 e26 s where
    e: "ema np_mean (?c @ ?d) 20 = Inr e20" "ema np_mean (?c @ ?d) 50 = Inr e50" "ema np_mean (?c @ ?d) 200 = Inr e200"
      "ema np_mean (?c @ ?d) 12 = Inr e12" "ema np_mean (?c @ ?d) 26 = Inr e26"
    and s: "signal_line np_mean (map2 fsub e12 e26) = Inr s"
    and out: "out = map (\<lambda>i. row_bias (199 \<le> i \<and> list_all is_finite [e20 ! i, e50 ! i, e200 ! i, map2 fsub (map2 fsub e12 e26) s ! i])
        (e20 ! i, e50 ! i, e200 ! i) (map2 fsub (map2 fsub e12 e26) s ! i) (rsi_series np_mean (?c @ ?d) 14 ! i)) [0..<length (?c @ ?d)]"
    by (auto simp: bias_series_def Let_def rbind_Inr_iff split: if_splits)
  from ema_prefix [OF e(1)] obtain a20 b20 where a20: "ema np_mean ?c 20 = Inr a20" "e20 = a20 @ b20" "length a20 = length rows" by auto
  from ema_prefix [OF e(2)] obtain a50 b50 where a50: "ema np_mean ?c 50 = Inr a50" "e50 = a50 @ b50" "length a50 = length rows" by auto
  from ema_prefix [OF e(3)] obtain a200 b200 where a200: "ema np_mean ?c 200 = Inr a200" "e200 = a200 @ b200" "length a200 = length rows" by auto
  from ema_prefix [OF e(4)] obtain a12 b12 where a12: "ema np_mean ?c 12 = Inr a12" "e12 = a12 @ b12" "length a12 = length rows" by auto
  from ema_prefix [OF e(5)] obtain a26 b26 where a26: "ema np_mean ?c 26 = Inr a26" "e26 = a26 @ b26" "length a26 = length rows" by auto
  have macd: "map2 fsub e12 e26 = map2 fsub a12 a26 @ map2 fsub b12 b26" by (simp add: a12 a26)
  from signal_line_prefix [OF s [unfolded macd]] obtain sa sb where sa: "signal_line np_mean (map2 fsub a12 a26) = Inr sa"
    "s = sa @ sb" "length sa = length rows" using a12(3) a26(3) by auto
  have hist: "map2 fsub (map2 fsub e12 e26) s = map2 fsub (map2 fsub a12 a26) sa @ map2 fsub (map2 fsub b12 b26) sb"
    unfolding macd sa(2) using sa(3) a12(3) a26(3) by simp
  have len: "length (map2 fsub (map2 fsub a12 a26) sa) = length rows" using sa(3) a12(3) a26(3) by simp
  from rsi_series_prefix [of 14 np_mean ?c ?d] obtain m where m: "rsi_series np_mean (?c @ ?d) 14 = rsi_series np_mean ?c 14 @ m"
    "length (rsi_series np_mean ?c 14) = length rows" by auto
  define as where "as = map (\<lambda>i. row_bias (199 \<le> i \<and> list_all is_finite [a20 ! i, a50 ! i, a200 ! i, map2 fsub (map2 fsub a12 a26) sa ! i])
        (a20 ! i, a50 ! i, a200 ! i) (map2 fsub (map2 fsub a12 a26) sa ! i) (rsi_series np_mean ?c 14 ! i)) [0..<length rows]"
  have "bias_series np_mean rows = Inr as"
    using False a20(1) a50(1) a200(1) a12(1) a26(1) sa(1) by (simp add: bias_series_def Let_def as_def)
  moreover have "take (length rows) out = as"
    unfolding out as_def hist m(1) a20(2) a50(2) a200(2) take_map
    using a20(3) a50(3) a200(3) len m(2) by (auto simp: nth_append take_upt simp del: upt_Suc)
  ultimately show ?thesis by (metis append_take_drop_id)
qed (simp add: bias_series_def)

text \<open>Of a frame, later minutes append rows that close after every earlier minute.\<close>

definition frame_of :: "candle list \<Rightarrow> string \<Rightarrow> candle list result" where
  "frame_of ordered tf = (if tf = ''1m'' then Inr ordered else aggregate ordered tf)"

lemma frame_of_prefix:
  assumes canon: "canonical_candles (xs @ ys) (Some ''1m'') = Inr (xs @ ys)"
    and run: "frame_of (xs @ ys) tf = Inr rows" and min: "list_all is_minute_bar (xs @ ys)"
  shows "\<exists>early later. frame_of xs tf = Inr early \<and> rows = early @ later \<and> sorted (map c_close_time_ms rows) \<and>
    (\<forall>e \<in> set later. \<forall>k \<in> set xs. c_close_time_ms k < c_close_time_ms e) \<and>
    (\<forall>row \<in> set early. \<exists>k \<in> set xs. c_close_time_ms k = c_close_time_ms row)"
proof (cases "tf = ''1m''")
  case True
  have "\<forall>c \<in> set (xs @ ys). c_close_time_ms c = c_open_time_ms c + 59999" using min by (auto simp: list_all_iff is_minute_bar_def)
  then have closes: "sorted_wrt (\<lambda>a b. c_close_time_ms a < c_close_time_ms b) (xs @ ys)"
    using canonical_candles_strict [OF canon] by (elim sorted_wrt_mono_rel [rotated]) simp
  then have "sorted_wrt (\<lambda>a b. c_close_time_ms a \<le> c_close_time_ms b) (xs @ ys)"
    by (rule sorted_wrt_mono_rel [rotated]) simp
  then have "sorted (map c_close_time_ms (xs @ ys))" by (simp only: sorted_map)
  then show ?thesis using run True closes by (intro exI [of _ xs] exI [of _ ys]) (auto simp: frame_of_def sorted_wrt_append)
next
  case False
  with run have agg: "aggregate (xs @ ys) tf = Inr rows" by (simp add: frame_of_def)
  from aggregate_prefix [OF canon agg] obtain early later where p: "aggregate xs tf = Inr early" "rows = early @ later" by blast
  show ?thesis
    using p False closes_sorted_frames [OF agg] aggregate_prefix_later [OF canon agg [unfolded p(2)] p(1)]
      frame_closes_with_a_minute [OF p(1) canonical_prefix [OF canon]]
    by (intro exI [of _ early] exI [of _ later]) (auto simp: frame_of_def)
qed

lemma voted_timeframes_iff:
  "voted_timeframes np_mean candles = Inr frames \<longleftrightarrow>
     (\<exists>ordered. canonical_candles candles (Some ''1m'') = Inr ordered \<and>
        list_all2 (\<lambda>tf (tf', rows, bs). tf' = tf \<and> frame_of ordered tf = Inr rows \<and> bias_series np_mean rows = Inr bs)
          (map fst timeframe_table) frames)"
proof -
  have two: "(\<exists>built. list_all2 P tfs built \<and> list_all2 Q built fs) \<longleftrightarrow> list_all2 (P OO Q) tfs fs"
    for P :: "string \<Rightarrow> string \<times> candle list \<Rightarrow> bool" and Q :: "string \<times> candle list \<Rightarrow> string \<times> candle list \<times> (int \<times> pyfloat) list \<Rightarrow> bool"
      and tfs fs by (simp add: list.rel_compp relcompp_apply)
  have "((\<lambda>tf b. rmap (\<lambda>rows. (tf, rows)) (frame_of ordered tf) = Inr b) OO
      (\<lambda>(tf, rows) v. rmap (\<lambda>biases. (tf, rows, biases)) (bias_series np_mean rows) = Inr v)) =
      (\<lambda>tf (tf', rows, bs). tf' = tf \<and> frame_of ordered tf = Inr rows \<and> bias_series np_mean rows = Inr bs)" for ordered
    by (auto simp: fun_eq_iff relcompp_apply rmap_Inr_iff)
  note one = this
  have "voted_timeframes np_mean candles = Inr frames \<longleftrightarrow> (\<exists>ordered. canonical_candles candles (Some ''1m'') = Inr ordered \<and>
      (\<exists>built. list_all2 (\<lambda>tf b. rmap (\<lambda>rows. (tf, rows)) (frame_of ordered tf) = Inr b) (map fst timeframe_table) built \<and>
        list_all2 (\<lambda>x v. (case x of (tf, rows) \<Rightarrow> rmap (\<lambda>biases. (tf, rows, biases)) (bias_series np_mean rows)) = Inr v) built frames))"
    by (auto simp: voted_timeframes_def build_timeframes_def rbind_Inr_iff traverse_Inr_iff frame_of_def)
  also have "(\<lambda>x v. (case x of (tf, rows) \<Rightarrow> rmap (\<lambda>biases. (tf, rows, biases)) (bias_series np_mean rows)) = Inr v) =
      (\<lambda>(tf, rows) v. rmap (\<lambda>biases. (tf, rows, biases)) (bias_series np_mean rows) = Inr v)" by (auto simp: fun_eq_iff)
  finally show ?thesis unfolding two one .
qed

text \<open>A voted frame, and what further minutes make of it.\<close>

definition vote_extends ::
  "candle list \<Rightarrow> string \<times> candle list \<times> (int \<times> pyfloat) list \<Rightarrow> string \<times> candle list \<times> (int \<times> pyfloat) list \<Rightarrow> bool" where
  "vote_extends xs = (\<lambda>(tf0, rows0, bs0) (tf, rows, bs). tf0 = tf \<and> (\<exists>new nbs. rows = rows0 @ new \<and> bs = bs0 @ nbs \<and>
     length bs0 = length rows0 \<and> sorted (map c_close_time_ms rows) \<and>
     (\<forall>e \<in> set new. \<forall>k \<in> set xs. c_close_time_ms k < c_close_time_ms e) \<and>
     (\<forall>row \<in> set rows0. \<exists>k \<in> set xs. c_close_time_ms k = c_close_time_ms row)))"

definition voted_row ::
  "(pyfloat list \<Rightarrow> pyfloat) \<Rightarrow> candle list \<Rightarrow> string \<Rightarrow> string \<times> candle list \<times> (int \<times> pyfloat) list \<Rightarrow> bool" where
  "voted_row np_mean ordered = (\<lambda>tf (tf', rows, bs). tf' = tf \<and> frame_of ordered tf = Inr rows \<and> bias_series np_mean rows = Inr bs)"

lemma voted_row_prefix:
  assumes canon: "canonical_candles (xs @ ys) (Some ''1m'') = Inr (xs @ ys)" and min: "list_all is_minute_bar (xs @ ys)"
    and row: "voted_row np_mean (xs @ ys) tf v"
  shows "\<exists>v0. voted_row np_mean xs tf v0 \<and> vote_extends xs v0 v"
proof -
  from row obtain rows bs where v: "v = (tf, rows, bs)" "frame_of (xs @ ys) tf = Inr rows" "bias_series np_mean rows = Inr bs"
    by (cases v) (auto simp: voted_row_def)
  from frame_of_prefix [OF canon v(2) min] obtain r0 new where r: "frame_of xs tf = Inr r0" "rows = r0 @ new"
    "sorted (map c_close_time_ms rows)" "\<forall>e \<in> set new. \<forall>k \<in> set xs. c_close_time_ms k < c_close_time_ms e"
    "\<forall>row \<in> set r0. \<exists>k \<in> set xs. c_close_time_ms k = c_close_time_ms row" by blast
  from bias_series_prefix [OF v(3) [unfolded r(2)]] obtain b0 nbs where b: "bias_series np_mean r0 = Inr b0" "bs = b0 @ nbs" by blast
  have "length b0 = length r0" using bias_series_votes [OF b(1)] by simp
  then show ?thesis using v(1) r b by (intro exI [of _ "(tf, r0, b0)"]) (auto simp: voted_row_def vote_extends_def)
qed

lemma voted_prefix:
  assumes canon: "canonical_candles (xs @ ys) (Some ''1m'') = Inr (xs @ ys)" and run: "voted_timeframes np_mean (xs @ ys) = Inr frames"
  shows "\<exists>early. voted_timeframes np_mean xs = Inr early \<and> list_all2 (vote_extends xs) early frames"
proof -
  note iff = voted_timeframes_iff [folded voted_row_def]
  from run canon have all: "list_all2 (voted_row np_mean (xs @ ys)) (map fst timeframe_table) frames" by (auto simp: iff)
  then have "\<exists>rows. frame_of (xs @ ys) ''3m'' = Inr rows" by (auto simp: timeframe_table_def list_all2_Cons1 voted_row_def)
  then have min: "list_all is_minute_bar (xs @ ys)" using canon by (auto simp: frame_of_def elim!: aggregate_InrE)
  have "\<exists>early. list_all2 (voted_row np_mean xs) tfs early \<and> list_all2 (vote_extends xs) early vs"
    if "list_all2 (voted_row np_mean (xs @ ys)) tfs vs" for tfs vs
    using that
  proof (induction tfs vs rule: list_all2_induct)
    case (Cons tf tfs v vs)
    from voted_row_prefix [OF canon min Cons.hyps(1)] obtain v0 where "voted_row np_mean xs tf v0" "vote_extends xs v0 v" by blast
    moreover from Cons.IH obtain early where "list_all2 (voted_row np_mean xs) tfs early" "list_all2 (vote_extends xs) early vs" by blast
    ultimately show ?case by (intro exI [of _ "v0 # early"]) simp
  qed simp
  from this [OF all] canonical_prefix [OF canon] show ?thesis unfolding iff by blast
qed

lemma map_of_related:
  "list_all2 (vote_extends xs) as bs \<Longrightarrow> rel_option (\<lambda>v0 v. vote_extends xs (tf, v0) (tf, v)) (map_of as tf) (map_of bs tf)"
  by (induction as bs rule: list_all2_induct) (auto simp: vote_extends_def)

text \<open>At a time no later than a known close, the later rows say nothing.\<close>

lemma bias_at_prefix:
  assumes ext: "list_all2 (vote_extends xs) early frames" and t: "k \<in> set xs" "t \<le> c_close_time_ms k"
  shows "bias_at frames t tf = bias_at early t tf"
  using map_of_related [OF ext, of tf]
proof (cases rule: option.rel_cases)
  case (Some v0 v)
  obtain rows0 bs0 rows bs where v: "v0 = (rows0, bs0)" "v = (rows, bs)" by fastforce
  with Some(3) obtain new nbs where r: "rows = rows0 @ new" "bs = bs0 @ nbs" "length bs0 = length rows0"
    and sorted: "sorted (map c_close_time_ms rows)" and late: "\<forall>e \<in> set new. \<forall>k \<in> set xs. c_close_time_ms k < c_close_time_ms e"
    by (auto simp: vote_extends_def)
  have "filter (\<lambda>e. c_close_time_ms e \<le> t) new = []" using late t by (fastforce simp: filter_empty_conv)
  then have "take (bisect_right (map c_close_time_ms rows) t) rows = filter (\<lambda>e. c_close_time_ms e \<le> t) rows0"
    using take_bisect_right [OF sorted, of t] by (simp add: r(1))
  moreover have "take (bisect_right (map c_close_time_ms rows0) t) rows0 = filter (\<lambda>e. c_close_time_ms e \<le> t) rows0"
    using sorted by (intro take_bisect_right) (simp add: r(1) sorted_append)
  moreover have "bisect_right (map c_close_time_ms rows) t \<le> length rows" "bisect_right (map c_close_time_ms rows0) t \<le> length rows0"
    using bisect_right_le_length [of "map c_close_time_ms rows"] bisect_right_le_length [of "map c_close_time_ms rows0"] by simp_all
  ultimately have same: "bisect_right (map c_close_time_ms rows) t = bisect_right (map c_close_time_ms rows0) t"
    by (metis length_take min.absorb2)
  define n where "n = bisect_right (map c_close_time_ms rows0) t"
  have "n \<le> length bs0" using bisect_right_le_length [of "map c_close_time_ms rows0" t] r(3) by (simp add: n_def)
  then have "n = 0 \<or> bs ! (n - 1) = bs0 ! (n - 1)" by (cases n) (simp_all add: r(2) nth_append)
  then show ?thesis using Some(1,2) same by (auto simp: bias_at_def v Let_def simp flip: n_def)
qed (simp add: bias_at_def)

lemma legacy_loop_append:
  "legacy_loop c st (xs @ ys) = Inr zs \<Longrightarrow> \<exists>as bs. legacy_loop c st xs = Inr as \<and> zs = as @ bs"
  by (induction xs arbitrary: st zs) (fastforce simp: rbind_Inr_iff rmap_Inr_iff)+

lemma legacy_views_prefix:
  assumes ext: "list_all2 (vote_extends xs) early frames"
  shows "\<exists>later. legacy_views c frames = legacy_views c early @ later"
  using map_of_related [OF ext, of "''5m''"]
proof (cases rule: option.rel_cases)
  case (Some v0 v)
  obtain rows0 bs0 rows bs where v: "v0 = (rows0, bs0)" "v = (rows, bs)" by fastforce
  with Some(3) obtain new where r: "rows = rows0 @ new"
    and known: "\<forall>row \<in> set rows0. \<exists>k \<in> set xs. c_close_time_ms k = c_close_time_ms row" by (auto simp: vote_extends_def)
  have "bias_at frames (c_close_time_ms row) = bias_at early (c_close_time_ms row)" if "row \<in> set rows0" for row
    using known that bias_at_prefix [OF ext] by (fastforce simp: fun_eq_iff)
  then show ?thesis using Some(1,2) by (simp add: legacy_views_def v r)
qed (simp add: legacy_views_def)

subsection \<open>A quiet quarter\<close>

text \<open>Fifteen minutes at one price: no frame is long enough to vote.\<close>

abbreviation quiet_minutes :: "candle list" where
  "quiet_minutes \<equiv> step_minutes 15 (\<lambda>_. 100) 1 1 15"

lemma short_ema: "0 < n \<Longrightarrow> int n < period \<Longrightarrow> ema np_mean (replicate n (Num q)) period = Inr (replicate n NaN)"
proof -
  assume n: "0 < n" "int n < period"
  then have "n < nat period" by linarith
  with n show ?thesis by (simp add: ema_def Let_def list_ex_iff list_all_iff is_inf_def)
qed

lemma quiet_ema: "0 < n \<Longrightarrow> \<exists>es. ema (\<lambda>_. fone) (replicate n (Num 100)) 12 = Inr es \<and> length es = n"
proof -
  assume n: "0 < n"
  have mean: "stable_mean (\<lambda>_. fone) ''EMA'' (replicate 12 (Num 100)) = Inr (Num 100)" by code_simp
  have "\<exists>es. ema (\<lambda>_. fone) (replicate n (Num 100)) 12 = Inr es"
    using n mean by (cases "n < 12") (simp_all add: ema_def Let_def list_ex_iff list_all_iff is_inf_def min_def)
  then show ?thesis using length_ema by fastforce
qed

lemma quiet_bias:
  assumes closes: "map c_close rows = replicate n (Num 100)" and n: "n \<le> 15"
  shows "bias_series (\<lambda>_. fone) rows = Inr (replicate n (0, fzero))"
proof (cases "n = 0")
  case False
  then obtain es where es: "ema (\<lambda>_. fone) (replicate n (Num 100)) 12 = Inr es" "length es = n" using quiet_ema by blast
  have nan: "fsub x NaN = NaN" for x by (cases x) (simp_all add: fsub_def fadd_def)
  have macd: "map2 fsub es (replicate n NaN) = replicate n NaN"
    using es(2) by (intro nth_equalityI) (simp_all add: nan)
  have line: "signal_line (\<lambda>_. fone) (replicate n NaN) = Inr (replicate n NaN)"
    by (simp add: signal_line_def)
  have quiet: "row_bias False e h m = (0, fzero)" for e h m by (cases e) (simp add: row_bias_def)
  have "map (\<lambda>i. row_bias (199 \<le> i \<and> P i) (e i) (h i) (m i)) [0..<n] = replicate n (0, fzero)" for P e h m
    using n by (intro nth_equalityI) (simp_all add: quiet)
  then show ?thesis using False n closes
    by (simp add: bias_series_def short_ema es(1) macd line)
qed (use closes in \<open>simp add: bias_series_def\<close>)

lemma quiet_frame:
  assumes "tf \<in> set (map fst timeframe_table)"
  shows "\<exists>rows n. frame_of quiet_minutes tf = Inr rows \<and> map c_close rows = replicate n (Num 100) \<and> n \<le> 15"
proof -
  have closes: "map c_close (map (step_frame tf m (\<lambda>_. 100) 1 1) [0..<n]) = replicate n (Num 100)" for tf m n
    by (intro nth_equalityI) (simp_all add: step_frame_def)
  have minutes: "map c_close quiet_minutes = replicate 15 (Num 100)"
    by (intro nth_equalityI) (simp_all add: step_minutes_def step_minute_def del: upt_rec_numeral)
  have same: "quiet_minutes = step_minutes m (\<lambda>_. 100) 1 1 15" for m by (simp add: step_minutes_def step_minute_def)
  have frames: "aggregate quiet_minutes tf = Inr (map (step_frame tf m (\<lambda>_. 100) 1 1) [0..<n])"
    if "timeframe_ms tf = Some (60000 * int m)" "tf \<noteq> ''1m''" "0 < m" "m * n = 15" "m \<le> 15" for tf m n
  proof -
    have "step_market m (\<lambda>_. 100) 1 1" using that(3,5) by (simp add: step_market_def)
    from step_aggregate [OF that(1,2) this, of n] show ?thesis unfolding that(4) same [of m] .
  qed
  have bars: "list_all is_minute_bar quiet_minutes"
    by (auto simp: list_all_iff step_minutes_def step_minute_def is_minute_bar_def simp del: upt_rec_numeral)
  have long: "aggregate quiet_minutes tf = Inr []" if "timeframe_ms tf = Some sz" "tf \<noteq> ''1m''" "15 < sz div 60000" for tf sz
  proof -
    have "length quiet_minutes = 15" by (simp add: step_minutes_def del: upt_rec_numeral)
    then show ?thesis using that(3) by (intro short_aggregate [OF that(1,2) step_canonical bars]) simp
  qed
  let ?Q = "\<lambda>tf. \<exists>rows n. frame_of quiet_minutes tf = Inr rows \<and> map c_close rows = replicate n (Num 100) \<and> n \<le> 15"
  have sizes: "timeframe_ms ''3m'' = Some (60000 * int 3)" "timeframe_ms ''5m'' = Some (60000 * int 5)" "timeframe_ms ''15m'' = Some (60000 * int 15)"
    "timeframe_ms ''30m'' = Some 1800000" "timeframe_ms ''1h'' = Some 3600000" "timeframe_ms ''2h'' = Some 7200000"
    "timeframe_ms ''4h'' = Some 14400000" "timeframe_ms ''1d'' = Some 86400000" by code_simp+
  have whole: "?Q tf" if "aggregate quiet_minutes tf = Inr (map (step_frame tf m (\<lambda>_. 100) 1 1) [0..<n])" "tf \<noteq> ''1m''" "n \<le> 15" for tf m n
    using that closes [of tf m n] unfolding frame_of_def by (intro exI [of _ "map (step_frame tf m (\<lambda>_. 100) 1 1) [0..<n]"] exI [of _ n]) simp
  have none: "?Q tf" if "aggregate quiet_minutes tf = Inr []" "tf \<noteq> ''1m''" for tf
    using that unfolding frame_of_def by (intro exI [of _ "[]"] exI [of _ 0]) simp
  have q1: "?Q ''1m''" using minutes by (intro exI [of _ quiet_minutes] exI [of _ 15]) (simp add: frame_of_def)
  have q2: "?Q ''3m''" by (rule whole [OF frames [of "''3m''" 3 5, OF sizes(1)]]) simp_all
  have q3: "?Q ''5m''" by (rule whole [OF frames [of "''5m''" 5 3, OF sizes(2)]]) simp_all
  have q4: "?Q ''15m''" by (rule whole [OF frames [of "''15m''" 15 1, OF sizes(3)]]) simp_all
  have q5: "?Q ''30m''" by (rule none [OF long [OF sizes(4)]]) simp_all
  have q6: "?Q ''1h''" by (rule none [OF long [OF sizes(5)]]) simp_all
  have q7: "?Q ''2h''" by (rule none [OF long [OF sizes(6)]]) simp_all
  have q8: "?Q ''4h''" by (rule none [OF long [OF sizes(7)]]) simp_all
  have q9: "?Q ''1d''" by (rule none [OF long [OF sizes(8)]]) simp_all
  have "list_all ?Q (map fst timeframe_table)"
    unfolding timeframe_table_def list.map fst_conv list.pred_inject
    by (intro conjI q1 q2 q3 q4 q5 q6 q7 q8 q9) simp
  with assms show ?thesis unfolding list_all_iff by blast
qed

lemma quiet_votes:
  "\<exists>frames. voted_timeframes (\<lambda>_. fone) quiet_minutes = Inr frames \<and> (\<forall>t tf. bias_at frames t tf = (0, fzero))"
proof -
  have one: "\<exists>v. (case v of (tf', rows, bs) \<Rightarrow> tf' = tf \<and> frame_of quiet_minutes tf = Inr rows \<and> bias_series (\<lambda>_. fone) rows = Inr bs \<and>
      (\<exists>n. length rows = n \<and> bs = replicate n (0, fzero)))" if "tf \<in> set (map fst timeframe_table)" for tf
  proof -
    from quiet_frame [OF that] obtain rows n where r: "frame_of quiet_minutes tf = Inr rows" "map c_close rows = replicate n (Num 100)" "n \<le> 15" by blast
    have "length rows = n" using arg_cong [OF r(2), of length] by simp
    then show ?thesis using r(1) quiet_bias [OF r(2,3)] by (intro exI [of _ "(tf, rows, replicate n (0, fzero))"]) simp
  qed
  have "\<exists>fs. list_all2 (\<lambda>tf (tf', rows, bs). tf' = tf \<and> frame_of quiet_minutes tf = Inr rows \<and> bias_series (\<lambda>_. fone) rows = Inr bs) tfs fs \<and>
      list_all (\<lambda>(tf, rows, bs). \<exists>n. length rows = n \<and> bs = replicate n (0, fzero)) fs" if "set tfs \<subseteq> set (map fst timeframe_table)" for tfs
    using that
  proof (induction tfs)
    case (Cons tf tfs)
    then obtain fs where "list_all2 (\<lambda>tf (tf', rows, bs). tf' = tf \<and> frame_of quiet_minutes tf = Inr rows \<and> bias_series (\<lambda>_. fone) rows = Inr bs) tfs fs"
      "list_all (\<lambda>(tf, rows, bs). \<exists>n. length rows = n \<and> bs = replicate n (0, fzero)) fs" by auto
    moreover obtain v where "case v of (tf', rows, bs) \<Rightarrow> tf' = tf \<and> frame_of quiet_minutes tf = Inr rows \<and> bias_series (\<lambda>_. fone) rows = Inr bs \<and>
      (\<exists>n. length rows = n \<and> bs = replicate n (0, fzero))" using one [of tf] Cons.prems by auto
    ultimately show ?case by (intro exI [of _ "v # fs"]) auto
  qed simp
  from this [OF order_refl] obtain frames where f: "voted_timeframes (\<lambda>_. fone) quiet_minutes = Inr frames"
    and quiet: "list_all (\<lambda>(tf, rows, bs). \<exists>n. length rows = n \<and> bs = replicate n (0, fzero)) frames"
    using step_canonical by (auto simp: voted_timeframes_iff)
  have "bias_at frames t tf = (0, fzero)" for t tf
  proof (cases "map_of frames tf")
    case (Some vote)
    then obtain rows where "vote = (rows, replicate (length rows) (0, fzero))"
      using quiet by (auto simp: list_all_iff dest!: map_of_SomeD)
    moreover define k where "k = bisect_right (map c_close_time_ms rows) t"
    moreover have "k \<le> length rows" using bisect_right_le_length [of "map c_close_time_ms rows"] by (simp add: k_def)
    then have "k = 0 \<or> replicate (length rows) (0 :: int, fzero) ! (k - 1) = (0, fzero)" by (cases k) simp_all
    ultimately show ?thesis using Some by (auto simp: bias_at_def Let_def simp flip: k_def)
  qed (simp add: bias_at_def)
  with f show ?thesis by blast
qed

lemma quiet_run: "generate_signals (\<lambda>_. fone) quiet_minutes (Some sample_legacy) = Inr []"
proof -
  obtain frames where f: "voted_timeframes (\<lambda>_. fone) quiet_minutes = Inr frames"
    and quiet: "\<And>t tf. bias_at frames t tf = (0, fzero)" using quiet_votes by blast
  have idle: "legacy_loop c st xs = Inr []" if "\<forall>x \<in> set xs. v_candidate (snd x) = 0" "l_position st = 0" for c st xs
    using that
  proof (induction xs arbitrary: st)
    case (Cons x xs)
    then show ?case by (cases x) (auto simp: legacy_step_def Let_def wanted_position_def)
  qed simp
  have "\<forall>x \<in> set (legacy_views sample_legacy frames). v_candidate (snd x) = 0"
    by (auto simp: legacy_views_def legacy_look_def view_regime_def quiet split: option.splits)
  then show ?thesis using f idle by (simp add: generate_signals_def legacy_settings_def legacy_start_def)
qed

subsection \<open>Properties\<close>

text \<open>
  Property C26: the strategy does not look ahead: minutes that arrive after a history leave every signal in place and
  only append new ones, whatever the mean of the array library is.
\<close>

theorem legacy_no_lookahead:
  assumes "canonical_candles (past @ future) (Some ''1m'') = Inr (past @ future)"
    and "generate_signals np_mean (past @ future) config = Inr zs"
  shows "\<exists>as bs. generate_signals np_mean past config = Inr as \<and> zs = as @ bs"
proof -
  from assms(2) obtain c frames where c: "legacy_settings config = Inr c" and v: "voted_timeframes np_mean (past @ future) = Inr frames"
    and run: "legacy_loop c (legacy_start c) (legacy_views c frames) = Inr zs" by (auto simp: generate_signals_def rbind_Inr_iff)
  from voted_prefix [OF assms(1) v] obtain early where e: "voted_timeframes np_mean past = Inr early"
    "list_all2 (vote_extends past) early frames" by blast
  from legacy_views_prefix [OF e(2)] obtain later where "legacy_views c frames = legacy_views c early @ later" by blast
  with run legacy_loop_append [of c "legacy_start c" "legacy_views c early" later zs] c e(1) show ?thesis
    by (auto simp: generate_signals_def)
qed


theorem legacy_no_lookahead_witness:
  "\<exists>as bs. generate_signals (\<lambda>_. fone) (step_minutes 15 (\<lambda>_. 100) 1 1 7) (Some sample_legacy) = Inr as \<and> [] = as @ bs"
proof -
  let ?later = "drop 7 quiet_minutes"
  have split: "step_minutes 15 (\<lambda>_. 100) 1 1 7 @ ?later = quiet_minutes" by (rule step_minutes_split) simp
  have "canonical_candles quiet_minutes (Some ''1m'') = Inr quiet_minutes" by (rule step_canonical)
  then show ?thesis
    using quiet_run legacy_no_lookahead [of "step_minutes 15 (\<lambda>_. 100) 1 1 7" ?later "\<lambda>_. fone"] unfolding split by blast
qed

end
