(* ===== verification/Adaptive.thy ===== *)
theory Adaptive
  imports Provenance Timeframes Models
begin

section \<open>The adaptive engine (adaptive/logic.py, adaptive/config.py)\<close>

text \<open>
  One fixed hypothesis, evaluated on the last 54 hours of minutes: the market regime of the hourly closes, overridden
  by recent shocks, selects one of three five-minute setups; the setup must then pass structural and cost bounds. The
  regime names are an enumeration of the core package: their texts are an argument.
\<close>

subsection \<open>The fixed configuration\<close>

record adaptive_config =
  ac_policy_version :: string
  ac_history_bars :: int
  ac_decision_minutes :: int
  ac_fast_hours :: int
  ac_slow_hours :: int
  ac_efficiency_hours :: int
  ac_slope_hours :: int
  ac_atr_period :: int
  ac_setup_mean_bars :: int
  ac_range_bars :: int
  ac_trend_efficiency :: pyfloat
  ac_range_efficiency :: pyfloat
  ac_trend_slope_atr :: pyfloat
  ac_range_slope_atr :: pyfloat
  ac_range_ma_gap_atr :: pyfloat
  ac_shock_atr :: pyfloat
  ac_crash_bars :: int
  ac_minimum_stop_atr :: pyfloat
  ac_maximum_stop_atr :: pyfloat
  ac_maximum_stop_bps :: pyfloat
  ac_target_r :: pyfloat
  ac_minimum_net_reward_risk :: pyfloat
  ac_maximum_cost_stop_fraction :: pyfloat
  ac_fee_bps_per_side :: pyfloat
  ac_spread_bps :: pyfloat
  ac_slippage_bps_per_side :: pyfloat
  ac_uncertainty_buffer_bps :: pyfloat
  ac_adverse_carry_bps :: pyfloat
  ac_latency_bps :: pyfloat
  ac_entry_lifetime_ms :: int
  ac_trend_holding_ms :: int
  ac_range_holding_ms :: int
  ac_crash_holding_ms :: int

definition adaptive_default :: adaptive_config where
  "adaptive_default =
    \<lparr>ac_policy_version = ''adaptive-pullback-range.v1'', ac_history_bars = 3240, ac_decision_minutes = 5,
     ac_fast_hours = 20, ac_slow_hours = 50, ac_efficiency_hours = 24, ac_slope_hours = 3, ac_atr_period = 14,
     ac_setup_mean_bars = 20, ac_range_bars = 16, ac_trend_efficiency = lit (3 / 10),
     ac_range_efficiency = lit (1 / 5), ac_trend_slope_atr = lit (1 / 4), ac_range_slope_atr = lit (1 / 10),
     ac_range_ma_gap_atr = lit (1 / 2), ac_shock_atr = Num 2, ac_crash_bars = 12, ac_minimum_stop_atr = lit (1 / 2),
     ac_maximum_stop_atr = Num 2, ac_maximum_stop_bps = Num 300, ac_target_r = Num 2,
     ac_minimum_net_reward_risk = lit (5 / 4), ac_maximum_cost_stop_fraction = lit (1 / 2),
     ac_fee_bps_per_side = lit (9 / 2), ac_spread_bps = Num 2, ac_slippage_bps_per_side = Num 1,
     ac_uncertainty_buffer_bps = Num 2, ac_adverse_carry_bps = Num 3, ac_latency_bps = Num 2,
     ac_entry_lifetime_ms = 60000, ac_trend_holding_ms = 7200000, ac_range_holding_ms = 3600000,
     ac_crash_holding_ms = 3600000\<rparr>"

definition adaptive_id :: string where
  "adaptive_id = ''adaptive_pullback_range_v1''"

definition adaptive_universe :: "string list" where
  "adaptive_universe = [''BTCUSDT'', ''ETHUSDT'', ''SOLUSDT'', ''BNBUSDT'', ''XRPUSDT'']"

definition require_fixed_config :: "adaptive_config \<Rightarrow> unit result" where
  "require_fixed_config c =
     (if c \<noteq> adaptive_default
      then Inl (ValueError ''adaptive v1 requires its exact fixed configuration; no implicit tuning'') else Inr ())"

subsection \<open>Finite indicators\<close>

datatype capability_regime = BULL | BEAR | RANGE | CRASH | UNCERTAIN

definition scaled_mean :: "pyfloat list \<Rightarrow> pyfloat result" where
  "scaled_mean xs =
     (if xs = [] then Inl (ValueError ''a finite indicator requires a complete window'')
      else rbind (fmax_list (map fabs xs)) (\<lambda>scale.
        if feq scale fzero then Inr fzero
        else rbind (traverse (\<lambda>x. py_div x scale) xs) (\<lambda>parts.
             rbind (fsum parts) (\<lambda>total.
             rmap (\<lambda>m. fmul m scale) (py_div total (float_of_int (int (length xs))))))))"

definition closing_range :: "candle \<Rightarrow> candle \<Rightarrow> pyfloat" where
  "closing_range prior row =
     fmax (fsub (c_high row) (c_low row)) [fabs (fsub (c_high row) (c_close prior)), fabs (fsub (c_low row) (c_close prior))]"

definition adaptive_atr :: "candle list \<Rightarrow> int \<Rightarrow> pyfloat result" where
  "adaptive_atr rows period =
     (if int (length rows) < period + 1 then Inl (ValueError ''ATR requires prior closes and its complete finite window'')
      else scaled_mean (map (\<lambda>(prior, row). closing_range prior row) (adjacent (last_n (nat (period + 1)) rows))))"

text \<open>\<open>_through\<close>: the rows that had closed by a time.\<close>

definition through :: "candle list \<Rightarrow> int \<Rightarrow> candle list" where
  "through rows timestamp = take (bisect_right (map c_close_time_ms rows) timestamp) rows"

subsection \<open>The regime\<close>

definition efficiency_ratio :: "pyfloat list \<Rightarrow> pyfloat result" where
  "efficiency_ratio er_closes =
     rbind (fmax_list er_closes) (\<lambda>scale.
     rbind (traverse (\<lambda>x. py_div x scale) er_closes) (\<lambda>scaled.
     rbind (fsum (map (\<lambda>(left, right). fabs (fsub right left)) (adjacent scaled))) (\<lambda>variation.
       if feq variation fzero then Inr fzero
       else py_div (fabs (fsub (last scaled) (hd scaled))) variation)))"

text \<open>The decision on the measured figures.\<close>

definition classify_regime ::
  "adaptive_config \<Rightarrow> pyfloat \<Rightarrow> pyfloat \<Rightarrow> pyfloat \<Rightarrow> pyfloat \<Rightarrow> pyfloat \<Rightarrow> pyfloat \<Rightarrow> capability_regime" where
  "classify_regime c close fast slow efficiency slope gap =
     (if fless fast close \<and> fless slow fast \<and> fle (ac_trend_efficiency c) efficiency \<and> fle (ac_trend_slope_atr c) slope
      then BULL
      else if fless close fast \<and> fless fast slow \<and> fle (ac_trend_efficiency c) efficiency \<and> fle slope (fneg (ac_trend_slope_atr c))
      then BEAR
      else if fle efficiency (ac_range_efficiency c) \<and> fle gap (ac_range_ma_gap_atr c) \<and> fle (fabs slope) (ac_range_slope_atr c)
      then RANGE
      else UNCERTAIN)"

definition raw_regime :: "candle list \<Rightarrow> adaptive_config \<Rightarrow> capability_regime result" where
  "raw_regime hours c =
     (if int (length hours) < max (ac_slow_hours c) (ac_fast_hours c + ac_slope_hours c) then Inr UNCERTAIN
      else let closes = map c_close hours in
        rbind (scaled_mean (last_n (nat (ac_fast_hours c)) closes)) (\<lambda>fast.
        rbind (scaled_mean (last_n (nat (ac_slow_hours c)) closes)) (\<lambda>slow.
        rbind (scaled_mean (last_n (nat (ac_fast_hours c)) (but_last_n (nat (ac_slope_hours c)) closes))) (\<lambda>prior_fast.
        rbind (adaptive_atr hours (ac_atr_period c)) (\<lambda>atr.
          if fle atr fzero then Inr UNCERTAIN
          else rbind (efficiency_ratio (last_n (nat (ac_efficiency_hours c + 1)) closes)) (\<lambda>efficiency.
               rbind (py_div (fsub fast prior_fast) atr) (\<lambda>slope.
               rbind (py_div (fabs (fsub fast slow)) atr) (\<lambda>gap.
                 if \<not> list_all is_finite [efficiency, slope, gap]
                 then Inl (ValueError ''regime arithmetic is outside the finite numeric range'')
                 else Inr (classify_regime c (last closes) fast slow efficiency slope gap)))))))))"

definition base_regime :: "candle list \<Rightarrow> int \<Rightarrow> adaptive_config \<Rightarrow> capability_regime result" where
  "base_regime hours timestamp c =
     (let prefix = through hours timestamp in
      if int (length prefix) < ac_slow_hours c + 1 then Inr UNCERTAIN
      else rbind (raw_regime prefix c) (\<lambda>current.
           rbind (raw_regime (butlast prefix) c) (\<lambda>previous.
             Inr (if current = previous then current else UNCERTAIN))))"

text \<open>The five-minute bars among the last 36 that fell by a multiple of the average range before them.\<close>

definition is_shock :: "candle list \<Rightarrow> adaptive_config \<Rightarrow> nat \<Rightarrow> bool result" where
  "is_shock rows c index =
     rmap (\<lambda>prior_atr. fless fzero prior_atr \<and>
         fle (fsub (c_close (rows ! index)) (c_close (rows ! (index - 1)))) (fmul (fneg (ac_shock_atr c)) prior_atr))
       (adaptive_atr (take index rows) (ac_atr_period c))"

definition shocks :: "candle list \<Rightarrow> adaptive_config \<Rightarrow> nat list result" where
  "shocks rows c =
     extend_all (\<lambda>index. rmap (\<lambda>hit. if hit then [index] else []) (is_shock rows c index))
       [nat (max (ac_atr_period c + 1) (int (length rows) - 36))..<length rows]"

definition last_shock :: "nat list \<Rightarrow> nat option" where
  "last_shock indices = (if indices = [] then None else Some (last indices))"

definition shock_override ::
  "adaptive_config \<Rightarrow> candle list \<Rightarrow> candle list \<Rightarrow> capability_regime \<Rightarrow> nat option \<Rightarrow> capability_regime result" where
  "shock_override c prefix5 prefix_hours regime shock =
     (case shock of
        None \<Rightarrow> Inr regime
      | Some index \<Rightarrow>
          if int (length prefix5) - 1 - int index < ac_crash_bars c then Inr CRASH
          else if length prefix_hours < 2 then Inl (IndexError ''list index out of range'')
          else Inr (if c_close_time_ms (prefix_hours ! (length prefix_hours - 2)) \<le> c_close_time_ms (prefix5 ! index)
                    then UNCERTAIN else regime))"

definition regime_at ::
  "candle list \<Rightarrow> candle list \<Rightarrow> int \<Rightarrow> adaptive_config \<Rightarrow> (capability_regime \<times> nat option) result" where
  "regime_at rows5 hours timestamp c =
     (let prefix5 = through rows5 timestamp; prefix_hours = through hours timestamp in
      rbind (base_regime prefix_hours timestamp c) (\<lambda>regime.
      rbind (shocks prefix5 c) (\<lambda>indices.
      rmap (\<lambda>final. (final, last_shock indices)) (shock_override c prefix5 prefix_hours regime (last_shock indices)))))"

subsection \<open>Setups\<close>

text \<open>A setup: side, stop, target, the frozen average range, and the name of the pattern.\<close>

record adaptive_setup =
  u_side :: side
  u_stop :: pyfloat
  u_target :: pyfloat
  u_atr15 :: pyfloat
  u_pattern :: string

text \<open>\<open>level + factor * width\<close> and \<open>level - factor * width\<close> of the price levels.\<close>

definition above :: "pyfloat \<Rightarrow> rat \<Rightarrow> pyfloat \<Rightarrow> pyfloat" where
  "above level factor width = fadd level (fmul (lit factor) width)"

definition below :: "pyfloat \<Rightarrow> rat \<Rightarrow> pyfloat \<Rightarrow> pyfloat" where
  "below level factor width = fsub level (fmul (lit factor) width)"

definition between :: "pyfloat \<Rightarrow> pyfloat \<Rightarrow> pyfloat \<Rightarrow> bool" where
  "between lo v hi \<longleftrightarrow> fle lo v \<and> fle v hi"

definition frozen_range :: "candle list \<Rightarrow> int \<Rightarrow> adaptive_config \<Rightarrow> (pyfloat \<times> pyfloat \<times> pyfloat) result" where
  "frozen_range rows15 before_ms c =
     (let prefix = through rows15 (before_ms - 1);
          range_rows = last_n (nat (ac_range_bars c)) prefix in
      rbind (adaptive_atr (but_last_n (nat (ac_range_bars c)) prefix) (ac_atr_period c)) (\<lambda>atr.
      rbind (fmin_list (map c_low range_rows)) (\<lambda>floor_level.
      rbind (fmax_list (map c_high range_rows)) (\<lambda>ceiling_level. Inr (floor_level, ceiling_level, atr)))))"

definition separated_touches :: "(candle \<Rightarrow> bool) \<Rightarrow> candle list \<Rightarrow> bool" where
  "separated_touches touch rows \<longleftrightarrow>
     (let touches = filter (\<lambda>i. touch (rows ! i)) [0..<length rows] in touches \<noteq> [] \<and> 4 \<le> last touches - hd touches)"

text \<open>The pattern of a pullback that returns to the trend, on either side of the mean.\<close>

definition trend_matched :: "bool \<Rightarrow> pyfloat \<Rightarrow> pyfloat \<Rightarrow> candle \<Rightarrow> candle \<Rightarrow> candle \<Rightarrow> bool" where
  "trend_matched bull m atr15 first pullback reclaim =
     (if bull then
        fle (above m (1 / 4) atr15) (c_close first) \<and>
        between (below m (1 / 4) atr15) (c_close pullback) (above m (1 / 10) atr15) \<and>
        fle (c_low pullback) (above m (1 / 10) atr15) \<and>
        between (above m (1 / 4) atr15) (c_close reclaim) (above m (3 / 4) atr15) \<and>
        fle (below m (1 / 2) atr15) (fmin (c_low pullback) [c_low reclaim])
      else
        fle (c_close first) (below m (1 / 4) atr15) \<and>
        between (below m (1 / 10) atr15) (c_close pullback) (above m (1 / 4) atr15) \<and>
        fle (below m (1 / 10) atr15) (c_high pullback) \<and>
        between (below m (3 / 4) atr15) (c_close reclaim) (below m (1 / 4) atr15) \<and>
        fle (fmax (c_high pullback) [c_high reclaim]) (above m (1 / 2) atr15))"

definition trend_levels :: "bool \<Rightarrow> adaptive_config \<Rightarrow> candle \<Rightarrow> candle \<Rightarrow> pyfloat \<Rightarrow> pyfloat \<Rightarrow> adaptive_setup" where
  "trend_levels bull c pullback reclaim atr15 atr5 =
     (let stop = (if bull then below (fmin (c_low pullback) [c_low reclaim]) (1 / 4) atr5
                  else above (fmax (c_high pullback) [c_high reclaim]) (1 / 4) atr5);
          risk = fabs (fsub (c_close reclaim) stop);
          direction = (if bull then Num 1 else Num (- 1)) in
      \<lparr>u_side = (if bull then LONG else SHORT), u_stop = stop,
       u_target = fadd (c_close reclaim) (fmul (fmul direction (ac_target_r c)) risk),
       u_atr15 = atr15, u_pattern = ''TREND_PULLBACK_RECLAIM''\<rparr>)"

definition trend_setup ::
  "candle list \<Rightarrow> candle list \<Rightarrow> candle list \<Rightarrow> capability_regime \<Rightarrow> adaptive_config \<Rightarrow> adaptive_setup option result" where
  "trend_setup rows5 rows15 hours regime c =
     (case last_n 3 rows5 of
        [first, pullback, reclaim] \<Rightarrow>
          (let prefix15 = through rows15 (c_close_time_ms first); bull = (regime = BULL) in
           rbind (scaled_mean (map c_close (last_n (nat (ac_setup_mean_bars c)) prefix15))) (\<lambda>m.
           rbind (adaptive_atr prefix15 (ac_atr_period c)) (\<lambda>atr15.
           rbind (adaptive_atr (but_last_n 2 rows5) (ac_atr_period c)) (\<lambda>atr5.
             if fle atr15 fzero \<or> fle atr5 fzero then Inr None
             else rbind (regime_at rows5 hours (c_close_time_ms first) c) (\<lambda>(before, _).
               if before \<noteq> regime then Inr None
               else if \<not> trend_matched bull m atr15 first pullback reclaim then Inr None
               else Inr (Some (trend_levels bull c pullback reclaim atr15 atr5)))))))
      | got \<Rightarrow> Inl (ValueError (''not enough values to unpack (expected 3, got '' @ str_int (int (length got)) @ '')'')))"

definition range_context ::
  "candle \<Rightarrow> candle list \<Rightarrow> pyfloat \<Rightarrow> pyfloat \<Rightarrow> pyfloat \<Rightarrow> bool" where
  "range_context previous range_rows floor_level ceiling_level atr15 \<longleftrightarrow>
     (let width = fsub ceiling_level floor_level in
      \<not> fle atr15 fzero \<and> between (fmul (Num 2) atr15) width (fmul (Num 6) atr15) \<and>
      between (above floor_level (1 / 4) width) (c_close previous) (below ceiling_level (1 / 4) width) \<and>
      separated_touches (\<lambda>r. fle (c_low r) (fadd floor_level (fmul (lit (1 / 4)) atr15))) range_rows \<and>
      separated_touches (\<lambda>r. fle (fsub ceiling_level (fmul (lit (1 / 4)) atr15)) (c_high r)) range_rows)"

definition range_edge :: "candle \<Rightarrow> pyfloat \<Rightarrow> pyfloat \<Rightarrow> pyfloat \<Rightarrow> pyfloat \<Rightarrow> adaptive_setup option result" where
  "range_edge current floor_level ceiling_level atr15 atr5 =
     (if between (below floor_level (1 / 4) atr15) (c_low current) floor_level \<and>
         between (above floor_level (1 / 10) atr15) (c_close current) (above floor_level (1 / 2) atr15)
      then rmap (\<lambda>mid. Some \<lparr>u_side = LONG, u_stop = below (c_low current) (1 / 4) atr5, u_target = mid, u_atr15 = atr15,
             u_pattern = ''RANGE_EDGE_RECLAIM''\<rparr>) (py_div (fadd floor_level ceiling_level) (Num 2))
      else if between ceiling_level (c_high current) (above ceiling_level (1 / 4) atr15) \<and>
         between (below ceiling_level (1 / 2) atr15) (c_close current) (below ceiling_level (1 / 10) atr15)
      then rmap (\<lambda>mid. Some \<lparr>u_side = SHORT, u_stop = above (c_high current) (1 / 4) atr5, u_target = mid, u_atr15 = atr15,
             u_pattern = ''RANGE_EDGE_RECLAIM''\<rparr>) (py_div (fadd floor_level ceiling_level) (Num 2))
      else Inr None)"

definition range_setup :: "candle list \<Rightarrow> candle list \<Rightarrow> adaptive_config \<Rightarrow> adaptive_setup option result" where
  "range_setup rows5 rows15 c =
     (case last_n 2 rows5 of
        [previous, current] \<Rightarrow>
          rbind (frozen_range rows15 (c_open_time_ms current) c) (\<lambda>(floor_level, ceiling_level, atr15).
            let prefix15 = through rows15 (c_open_time_ms current - 1);
                range_rows = last_n (nat (ac_range_bars c)) prefix15 in
            if \<not> range_context previous range_rows floor_level ceiling_level atr15 then Inr None
            else rbind (adaptive_atr (butlast rows5) (ac_atr_period c)) (\<lambda>atr5. range_edge current floor_level ceiling_level atr15 atr5))
      | got \<Rightarrow> Inl (ValueError (''not enough values to unpack (expected 2, got '' @ str_int (int (length got)) @ '')'')))"

text \<open>The loop over the bars after a shock; the first completed retest consumes the shock.\<close>

definition retest_matched :: "pyfloat \<Rightarrow> pyfloat \<Rightarrow> candle \<Rightarrow> candle \<Rightarrow> bool" where
  "retest_matched floor_level atr15 retest rejection \<longleftrightarrow>
     between (below floor_level (1 / 10) atr15) (c_high retest) (above floor_level (1 / 4) atr15) \<and>
     between (below floor_level (1 / 10) atr15) (c_close retest) (above floor_level (1 / 10) atr15) \<and>
     fle (below floor_level (1 / 2) atr15) (c_close rejection) \<and> fless (c_close rejection) (below floor_level (1 / 10) atr15)"

fun crash_scan ::
  "adaptive_config \<Rightarrow> candle list \<Rightarrow> nat \<Rightarrow> pyfloat \<Rightarrow> pyfloat \<Rightarrow> nat list \<Rightarrow> (adaptive_setup option \<times> string) result" where
  "crash_scan c rows5 shock floor_level atr15 [] = Inr (None, ''CRASH_WAITING_FOR_CONTROLLED_RETEST'')"
| "crash_scan c rows5 shock floor_level atr15 (stop_at # ends) =
     (let retest = rows5 ! (stop_at - 1); rejection = rows5 ! stop_at in
      if list_ex (\<lambda>row. fless (above floor_level (1 / 4) atr15) (c_close row)) (Prelude.slice (shock + 1) (stop_at + 1) rows5)
      then Inr (None, ''CRASH_LEVEL_INVALIDATED'')
      else if \<not> retest_matched floor_level atr15 retest rejection then crash_scan c rows5 shock floor_level atr15 ends
      else if stop_at \<noteq> length rows5 - 1 then Inr (None, ''CRASH_SETUP_ALREADY_CONSUMED'')
      else rbind (adaptive_atr (take (stop_at - 1) rows5) (ac_atr_period c)) (\<lambda>atr5.
        let stop = above (fmax (c_high retest) [c_high rejection]) (1 / 4) atr5;
            target = fsub (c_close rejection) (fmul (ac_target_r c) (fsub stop (c_close rejection))) in
        Inr (Some \<lparr>u_side = SHORT, u_stop = stop, u_target = target, u_atr15 = atr15,
               u_pattern = ''CRASH_SUPPORT_RETEST''\<rparr>, ''PATTERN_READY'')))"

definition crash_setup :: "candle list \<Rightarrow> candle list \<Rightarrow> nat \<Rightarrow> adaptive_config \<Rightarrow> (adaptive_setup option \<times> string) result" where
  "crash_setup rows5 rows15 shock c =
     rbind (frozen_range rows15 (c_open_time_ms (rows5 ! shock)) c) (\<lambda>(floor_level, _, atr15).
       if fle atr15 fzero \<or> fle (below floor_level (1 / 10) atr15) (c_close (rows5 ! shock))
       then Inr (None, ''CRASH_PROTECTION_ONLY'')
       else crash_scan c rows5 shock floor_level atr15 [shock + 3..<min (shock + 6) (length rows5 - 1) + 1])"

subsection \<open>Planning economics\<close>

definition planning_cost_bps :: "adaptive_config \<Rightarrow> pyfloat" where
  "planning_cost_bps c =
     fadd (fadd (fadd (fadd (fadd (fmul (Num 2) (ac_fee_bps_per_side c)) (ac_spread_bps c))
       (fmul (Num 2) (ac_slippage_bps_per_side c))) (ac_uncertainty_buffer_bps c)) (ac_adverse_carry_bps c)) (ac_latency_bps c)"

record economics =
  y_risk_bps :: pyfloat
  y_reward_bps :: pyfloat
  y_cost :: pyfloat
  y_net_rr :: pyfloat

definition planning_economics :: "pyfloat \<Rightarrow> pyfloat \<Rightarrow> pyfloat \<Rightarrow> adaptive_config \<Rightarrow> economics result" where
  "planning_economics reference stop target c =
     rbind (py_div (fabs (fsub reference stop)) reference) (\<lambda>risk_ratio.
     rbind (py_div (fabs (fsub target reference)) reference) (\<lambda>reward_ratio.
       let risk_bps = fmul risk_ratio (Num 10000); reward_bps = fmul reward_ratio (Num 10000); cost = planning_cost_bps c in
       rbind (py_div stop reference) (\<lambda>stop_ratio.
       rbind (py_div target reference) (\<lambda>target_ratio.
         let stop_cost_bps = fmul cost (fmax fone [stop_ratio]); reward_cost_bps = fmul cost (fmax fone [target_ratio]) in
         rmap (\<lambda>net_rr. \<lparr>y_risk_bps = risk_bps, y_reward_bps = reward_bps, y_cost = cost, y_net_rr = net_rr\<rparr>)
           (py_div (fmax fzero [fsub reward_bps reward_cost_bps]) (fadd risk_bps stop_cost_bps))))))"

subsection \<open>The scaled mean never overflows\<close>

definition within_rat :: "rat \<Rightarrow> pyfloat \<Rightarrow> bool" where
  "within_rat r x \<longleftrightarrow> is_finite x \<and> \<bar>to_rat x\<bar> \<le> r"

lemma rnd_within: "\<bar>q\<bar> \<le> r \<Longrightarrow> rnd r = Num r \<Longrightarrow> within_rat r (rnd q)"
proof -
  assume q: "\<bar>q\<bar> \<le> r" and r: "rnd r = Num r"
  have "rnd (- r) = Num (- r)" using r q by (cases "r = 0") (auto simp: rnd_def)
  moreover have "fle (rnd (- r)) (rnd q)" "fle (rnd q) (rnd r)" using q by (auto intro: rnd_mono)
  ultimately show ?thesis using r by (cases "rnd q") (auto simp: within_rat_def)
qed

lemma fdiv_within:
  assumes "within_rat s x" "0 < s"
  shows "within_rat 1 (fdiv x (Num s))" and "nonneg x \<Longrightarrow> nonneg (fdiv x (Num s))"
proof -
  have "\<bar>to_rat x / s\<bar> \<le> 1" using assms by (simp add: within_rat_def)
  then have "within_rat 1 (rnd (to_rat x / s))" by (rule rnd_within) simp
  then show "within_rat 1 (fdiv x (Num s))" using assms
    by (cases x) (auto simp: within_rat_def fdiv_def is_inf_def is_zero_def signed_zero_def Let_def)
  show "nonneg (fdiv x (Num s))" if "nonneg x"
    using that assms by (intro fdiv_nonneg) (auto simp: within_rat_def)
qed

lemma fmul_within:
  assumes "within_rat 1 x" "rnd s = Num s" "0 < s"
  shows "within_rat s (fmul x (Num s))"
proof -
  have "\<bar>to_rat x\<bar> * s \<le> 1 * s" using assms by (intro mult_right_mono) (auto simp: within_rat_def)
  then have "within_rat s (rnd (to_rat x * s))" using assms by (intro rnd_within) (auto simp: abs_mult)
  then show ?thesis using assms
    by (cases x) (auto simp: within_rat_def fmul_def is_inf_def is_zero_def signed_zero_def Let_def)
qed

lemma sum_list_within: "list_all (within_rat 1) xs \<Longrightarrow> \<bar>sum_list (map to_rat xs)\<bar> \<le> of_int (int (length xs))"
  by (induction xs) (auto simp: within_rat_def)

lemma fsum_within:
  assumes "list_all (within_rat 1) xs" "int (length xs) \<le> 2 ^ 53"
  shows "fsum xs = Inr (rnd (sum_list (map to_rat xs)))" and "within_rat (of_int (int (length xs))) (rnd (sum_list (map to_rat xs)))"
proof -
  have take: "within_rat (of_int (int (length xs))) (rnd (sum_list (map to_rat (take k xs))))" for k
  proof (rule rnd_within)
    have "list_all (within_rat 1) (take k xs)" using assms(1) by (auto simp: list_all_iff dest: in_set_takeD)
    from sum_list_within [OF this] have "\<bar>sum_list (map to_rat (take k xs))\<bar> \<le> of_int (int (length (take k xs)))" .
    also have "\<dots> \<le> of_int (int (length xs))" by simp
    finally show "\<bar>sum_list (map to_rat (take k xs))\<bar> \<le> of_int (int (length xs))" .
    show "rnd (of_int (int (length xs))) = Num (of_int (int (length xs)))" using assms(2) by (intro rnd_of_int) simp
  qed
  moreover have "is_finite y \<Longrightarrow> \<not> is_inf y" for y by (cases y) (auto simp: is_inf_def)
  ultimately have "\<not> is_inf (rnd (sum_list (map to_rat (take k xs))))" for k by (simp add: within_rat_def)
  then have "\<not> list_ex (\<lambda>k. is_inf (rnd (sum_list (map to_rat (take k xs))))) [0..<Suc (length xs)]"
    by (simp add: list_ex_iff)
  moreover have "NaN \<notin> set xs" "PosInf \<notin> set xs" "NegInf \<notin> set xs" using assms(1) by (auto simp: list_all_iff within_rat_def)
  ultimately show "fsum xs = Inr (rnd (sum_list (map to_rat xs)))" by (simp add: fsum_def)
  show "within_rat (of_int (int (length xs))) (rnd (sum_list (map to_rat xs)))" using take [of "length xs"] by simp
qed

lemma mean_of_parts:
  assumes "list_all (within_rat 1) parts" "parts \<noteq> []" "int (length parts) \<le> 2 ^ 53"
  shows "\<exists>t m. fsum parts = Inr t \<and> py_div t (float_of_int (int (length parts))) = Inr m \<and> within_rat 1 m \<and>
    (list_all nonneg parts \<longrightarrow> nonneg m)"
proof -
  let ?n = "of_int (int (length parts)) :: rat" and ?t = "rnd (sum_list (map to_rat parts))"
  have n: "float_of_int (int (length parts)) = Num ?n" "0 < ?n" using assms(2,3)
    using rnd_of_int [of "int (length parts)"] by (simp_all add: float_of_int_def)
  have t: "within_rat ?n ?t" by (rule fsum_within(2) [OF assms(1,3)])
  have "within_rat 1 (fdiv ?t (Num ?n))" using t n(2) by (rule fdiv_within(1))
  moreover have "nonneg (fdiv ?t (Num ?n))" if "list_all nonneg parts"
  proof -
    have "nonneg x \<Longrightarrow> 0 \<le> to_rat x" for x by (cases x) auto
    then have "0 \<le> sum_list (map to_rat parts)"
      using that by (intro sum_list_nonneg) (auto simp: list_all_iff)
    then show ?thesis using fdiv_within(2) [OF t n(2)] rnd_nonneg by blast
  qed
  moreover have "py_div ?t (Num ?n) = Inr (fdiv ?t (Num ?n))" using n(2) by (simp add: py_div_def is_zero_def)
  ultimately show ?thesis using fsum_within(1) [OF assms(1,3)] n(1) by auto
qed

lemma largest_abs:
  assumes "list_all (\<lambda>x. is_finite x \<and> is_double x) xs" "fmax_list (map fabs xs) = Inr s"
  shows "is_finite s \<and> is_double s \<and> 0 \<le> to_rat s \<and> list_all (within_rat (to_rat s)) xs"
proof -
  from assms(2) obtain y ys where ys: "map fabs xs = y # ys" "s = fmax y ys" by (cases "map fabs xs") auto
  have abs_ok: "is_finite z \<and> is_double z \<and> 0 \<le> to_rat z" if "z \<in> set (y # ys)" for z
  proof -
    from that ys(1) obtain x where x: "x \<in> set xs" "z = fabs x" by (metis imageE list.set_map)
    with assms(1) have fin: "is_finite x" "is_double x" by (auto simp: list_all_iff)
    show ?thesis
    proof (cases x)
      case (Num q)
      have "rnd \<bar>q\<bar> = Num \<bar>q\<bar>"
      proof (cases "q < 0")
        case True
        then have "fneg (rnd_pos (- q)) = Num q" using fin Num by (simp add: rnd_def)
        then have "rnd_pos (- q) = Num (- q)" using True by (cases "rnd_pos (- q)") (auto split: if_splits)
        with True show ?thesis by (simp add: rnd_def)
      qed (use fin Num in simp)
      with Num x show ?thesis by simp
    qed (use x fin in auto)
  qed
  have s: "s \<in> set (y # ys)" unfolding ys(2) by (rule fmax_mem)
  have "within_rat (to_rat s) x" if "x \<in> set xs" for x
  proof -
    have x: "fabs x \<in> set (y # ys)" using that ys(1) by (metis image_eqI list.set_map)
    have "NaN \<notin> set (y # ys)" using abs_ok by fastforce
    then have "fle (fabs x) s" unfolding ys(2) using x by (rule fmax_ge)
    moreover have "is_finite (fabs x)" "is_finite s" using abs_ok x s by blast+
    ultimately have "to_rat (fabs x) \<le> to_rat s" by (simp add: finite_fle_iff)
    with \<open>is_finite (fabs x)\<close> show ?thesis by (cases x) (auto simp: within_rat_def)
  qed
  with abs_ok [OF s] show ?thesis by (simp add: list_all_iff)
qed

lemma scaled_mean_bounded:
  assumes xs: "xs \<noteq> []" "list_all (\<lambda>x. is_finite x \<and> is_double x) xs" "int (length xs) \<le> 2 ^ 53"
  shows "\<exists>m s. scaled_mean xs = Inr m \<and> fmax_list (map fabs xs) = Inr s \<and> is_finite s \<and> within_rat (to_rat s) m \<and>
    (list_all nonneg xs \<longrightarrow> nonneg m)"
proof -
  obtain s where s: "fmax_list (map fabs xs) = Inr s" using xs(1) by (cases xs) auto
  note l = largest_abs [OF xs(2) s]
  show ?thesis
  proof (cases "feq s fzero")
    case True
    with l have "to_rat s = 0" by (cases s) auto
    with True s xs(1) l show ?thesis by (auto simp: scaled_mean_def within_rat_def)
  next
    case False
    with l obtain r where r: "s = Num r" "0 < r" "rnd r = Num r" by (cases s) (auto simp: feq_def)
    let ?parts = "map (\<lambda>x. fdiv x (Num r)) xs"
    have w: "list_all (within_rat r) xs" using l r by simp
    have parts: "list_all (within_rat 1) ?parts" using w fdiv_within(1) r(2) by (auto simp: list_all_iff)
    obtain t m where tm: "fsum ?parts = Inr t" "py_div t (float_of_int (int (length ?parts))) = Inr m" "within_rat 1 m"
      "list_all nonneg ?parts \<longrightarrow> nonneg m" using mean_of_parts [OF parts] xs by auto
    have "traverse (\<lambda>x. py_div x s) xs = Inr ?parts" using r by (intro traverse_total) (simp add: py_div_def is_zero_def)
    then have "scaled_mean xs = Inr (fmul m s)" using False s xs(1) tm by (simp add: scaled_mean_def)
    moreover have "within_rat (to_rat s) (fmul m s)" using fmul_within [OF tm(3) r(3,2)] r by simp
    moreover have "nonneg (fmul m s)" if "list_all nonneg xs"
    proof -
      have "list_all nonneg ?parts" using that w fdiv_within(2) r(2) by (auto simp: list_all_iff)
      with tm(4) r show ?thesis by (intro fmul_nonneg) (use tm(3) in \<open>auto simp: within_rat_def\<close>)
    qed
    ultimately show ?thesis using s l by blast
  qed
qed

subsection \<open>Average ranges\<close>

definition exact_prices :: "candle \<Rightarrow> bool" where
  "exact_prices row \<longleftrightarrow> list_all is_double (candle_prices row)"

lemma fsub_of_positive:
  assumes "is_finite x" "is_finite y" "is_double x" "is_double y" "fless fzero x" "fless fzero y"
  shows "is_finite (fsub x y)"
proof -
  from assms obtain p q where x: "x = Num p" "0 < p" "rnd p = Num p" and y: "y = Num q" "0 < q" "rnd q = Num q"
    by (cases x; cases y) (auto simp: fless_def)
  have "\<bar>p - q\<bar> \<le> max p q" "rnd (max p q) = Num (max p q)" using x y by (auto simp: max_def)
  then have "within_rat (max p q) (rnd (p - q))" by (rule rnd_within)
  with x y show ?thesis by (simp add: fsub_def fadd_def within_rat_def)
qed

lemma is_double_fabs: "is_double x \<Longrightarrow> is_finite x \<Longrightarrow> is_double (fabs x)"
  using largest_abs [of "[x]" "fabs x"] by simp

lemma NaN_fabs: "NaN = fabs x \<longleftrightarrow> x = NaN"
  by (cases x) auto

lemma closing_range_ok:
  assumes "candle_wf prior" "candle_wf row" "exact_prices prior" "exact_prices row"
  shows "is_finite (closing_range prior row) \<and> is_double (closing_range prior row) \<and> nonneg (closing_range prior row)"
proof -
  let ?a = "fsub (c_high row) (c_low row)" and ?b = "fsub (c_high row) (c_close prior)" and ?c = "fsub (c_low row) (c_close prior)"
  have ok: "is_finite ?a" "is_finite ?b" "is_finite ?c" using assms
    by (auto intro!: fsub_of_positive simp: candle_wf_def candle_prices_def exact_prices_def)
  have dbl: "is_double ?a" "is_double ?b" "is_double ?c" by (simp_all add: fsub_def is_double_fadd)
  have "closing_range prior row \<in> set [?a, fabs ?b, fabs ?c]" unfolding closing_range_def by (rule fmax_mem)
  then have "is_finite (closing_range prior row)" "is_double (closing_range prior row)"
    using ok dbl is_double_fabs [OF dbl(2) ok(2)] is_double_fabs [OF dbl(3) ok(3)] by auto
  moreover have "fle (fabs ?b) (closing_range prior row)" unfolding closing_range_def
    using ok by (intro fmax_ge) (auto simp: NaN_fabs)
  moreover have "nonneg (fabs ?b)" using ok by (intro fabs_nonneg) auto
  ultimately show ?thesis using fle_trans by blast
qed

lemma set_adjacent: "p \<in> set (adjacent xs) \<Longrightarrow> fst p \<in> set xs \<and> snd p \<in> set xs"
  by (cases p; cases xs) (auto dest: set_zip_leftD set_zip_rightD)

lemma adaptive_atr_total:
  assumes wf: "list_all candle_wf rows" "list_all exact_prices rows" and n: "1 \<le> period" "period < 2 ^ 53" "period + 1 \<le> int (length rows)"
  shows "\<exists>atr. adaptive_atr rows period = Inr atr \<and> is_finite atr \<and> nonneg atr \<and>
    (\<exists>p \<in> set (adjacent (last_n (nat (period + 1)) rows)). fle atr (closing_range (fst p) (snd p)))"
proof -
  let ?pairs = "adjacent (last_n (nat (period + 1)) rows)"
  let ?ranges = "map (\<lambda>p. closing_range (fst p) (snd p)) ?pairs"
  have len: "length ?pairs = nat period" using n by simp
  have range: "is_finite r \<and> is_double r \<and> nonneg r" if "r \<in> set ?ranges" for r
  proof -
    from that obtain p where p: "p \<in> set ?pairs" "r = closing_range (fst p) (snd p)" by auto
    from set_adjacent [OF p(1)] have "fst p \<in> set rows" "snd p \<in> set rows"
      using set_last_n_subset [THEN subsetD] by (metis, metis)
    with wf have "candle_wf (fst p)" "candle_wf (snd p)" "exact_prices (fst p)" "exact_prices (snd p)" by (simp_all add: list_all_iff)
    then show ?thesis unfolding p(2) by (rule closing_range_ok)
  qed
  then have "list_all (\<lambda>x. is_finite x \<and> is_double x) ?ranges" "list_all nonneg ?ranges" by (auto simp: list_all_iff)
  moreover have "?ranges \<noteq> []" "int (length ?ranges) \<le> 2 ^ 53" using n len by (auto simp flip: length_greater_0_conv)
  ultimately obtain m s where m: "scaled_mean ?ranges = Inr m" "fmax_list (map fabs ?ranges) = Inr s" "is_finite s"
    "within_rat (to_rat s) m" "nonneg m" using scaled_mean_bounded [of ?ranges] by blast
  from m(2) have "s \<in> set (map fabs ?ranges)" by (cases "map fabs ?ranges") (auto simp only: fmax_list.simps sum.inject fmax_mem)
  then obtain p where p: "p \<in> set ?pairs" "s = fabs (closing_range (fst p) (snd p))" by auto
  have "nonneg (closing_range (fst p) (snd p))" "is_finite (closing_range (fst p) (snd p))" using range p(1) by force+
  then have "fle s (closing_range (fst p) (snd p))" by (cases "closing_range (fst p) (snd p)") (simp_all add: p(2))
  moreover have "fle m s" using m(3,4) by (auto simp: within_rat_def finite_fle_iff)
  ultimately have "fle m (closing_range (fst p) (snd p))" using fle_trans by blast
  moreover have "adaptive_atr rows period = Inr m" using n m(1) by (simp add: adaptive_atr_def split_def)
  ultimately show ?thesis using m(4,5) p(1) by (auto simp: within_rat_def)
qed

subsection \<open>Properties\<close>

text \<open>
  Property C31: the average range that every rule of the adaptive engine measures distances in is always defined on
  a complete window of valid candles: no input makes it overflow, it is finite, not negative, and at most the largest
  range of the window.
\<close>

theorem adaptive_atr_bounded:
  assumes "list_all candle_wf rows" "list_all exact_prices rows"
    and "1 \<le> period" "period < 2 ^ 53" "period + 1 \<le> int (length rows)"
  shows "\<exists>atr. adaptive_atr rows period = Inr atr \<and> is_finite atr \<and> nonneg atr \<and>
    (\<exists>p \<in> set (adjacent (last_n (nat (period + 1)) rows)). fle atr (closing_range (fst p) (snd p)))"
  using assms by (rule adaptive_atr_total)

definition huge_candle :: "int \<Rightarrow> candle" where
  "huge_candle opened =
    \<lparr>c_symbol = ''BTCUSDT'', c_timeframe = ''1m'', c_open_time_ms = opened, c_close_time_ms = opened + 59999,
     c_open = Num 1, c_high = Num (2 ^ 1023), c_low = Num 1, c_close = Num 1, c_volume = Num 0,
     c_quote_volume = Num 0, c_taker_buy_volume = Num 0, c_taker_buy_quote_volume = Num 0\<rparr>"

lemma huge_candle_ok: "0 \<le> opened \<Longrightarrow> candle_wf (huge_candle opened) \<and> exact_prices (huge_candle opened)"
proof -
  have "(2 ^ 1023 :: rat) = of_int (2 ^ 53) * 2 powi 970" by simp
  then have "rnd (2 ^ 1023) = Num (2 ^ 1023)" by (rule rnd_fixed) simp_all
  then show "0 \<le> opened \<Longrightarrow> ?thesis"
    by (simp add: huge_candle_def candle_wf_def exact_prices_def candle_prices_def candle_volumes_def strip_def is_space_def)
qed

theorem adaptive_atr_bounded_witness:
  "\<exists>atr. adaptive_atr [huge_candle 0, huge_candle 60000, huge_candle 120000] 2 = Inr atr \<and> is_finite atr \<and> nonneg atr"
proof -
  let ?rows = "[huge_candle 0, huge_candle 60000, huge_candle 120000]"
  have "list_all candle_wf ?rows" "list_all exact_prices ?rows" using huge_candle_ok by simp_all
  from adaptive_atr_bounded [OF this, of 2] show ?thesis by auto
qed

end
