(* ===== verification/SpanMarket.thy ===== *)
theory SpanMarket
  imports StepMarket
begin

section \<open>Windows that cut frames\<close>

text \<open>
  A window of minutes that need not begin or end on a frame boundary: the frames cut by its ends are not emitted, the
  frames inside are. The price may move inside a frame at the ends; each frame inside trades at one price.
\<close>

definition span_minutes :: "nat \<Rightarrow> (nat \<Rightarrow> rat) \<Rightarrow> int \<Rightarrow> int \<Rightarrow> nat \<Rightarrow> nat \<Rightarrow> candle list" where
  "span_minutes n g v t first stop_at = map (step_minute n g v t) [first..<stop_at]"

lemma canonical_suffix:
  assumes "canonical_candles xs (Some ''1m'') = Inr xs"
  shows "canonical_candles (drop k xs) (Some ''1m'') = Inr (drop k xs)"
proof -
  have split: "xs = take k xs @ drop k xs" by simp
  have "sorted_wrt (\<lambda>a b. candle_key a < candle_key b) xs" by (rule candles.canon_strict [OF assms])
  then have "sorted_wrt (\<lambda>a b. candle_key a < candle_key b) (drop k xs)" by (rule sorted_wrt_drop)
  then have "sort_key candle_key (drop k xs) = drop k xs" by (rule sort_key_eqI [OF refl])
  moreover have "successively candle_before (take k xs @ drop k xs)" using assms by (simp add: canonical_candles_Inr_iff)
  then have "successively candle_before (drop k xs)" unfolding successively_append_iff by blast
  moreover have "list_all (row_ok (c_symbol (hd (drop k xs))) (resolve_timeframe (Some ''1m'') (hd (drop k xs)))) (drop k xs)"
    if "drop k xs \<noteq> []"
  proof -
    have ok: "list_all (row_ok (c_symbol (hd xs)) ''1m'') xs"
      using assms that by (auto simp: canonical_candles_Inr_iff resolve_timeframe_def)
    moreover have "hd (drop k xs) \<in> set xs" using that by (meson hd_in_set in_set_dropD)
    ultimately have "c_symbol (hd (drop k xs)) = c_symbol (hd xs)" by (auto simp: list_all_iff row_ok_def)
    with ok show ?thesis by (auto simp: list_all_iff resolve_timeframe_def dest: in_set_dropD)
  qed
  ultimately show ?thesis by (simp add: canonical_candles_Inr_iff)
qed

lemma filter_sorted_list_of_set: "finite S \<Longrightarrow> filter P (sorted_list_of_set S) = sorted_list_of_set {x \<in> S. P x}"
  by (rule sorted_distinct_set_unique) (simp_all add: sorted_wrt_filter)

lemma extend_all_only: "(\<And>x. x \<in> set xs \<Longrightarrow> \<not> P x \<Longrightarrow> f x = Inr []) \<Longrightarrow> extend_all f xs = extend_all f (filter P xs)"
  by (induction xs) (simp_all add: extend_all_Cons rmap_def rbind_Inr_right)

lemma span_canonical:
  assumes "first \<le> stop_at"
  shows "canonical_candles (span_minutes n g v t first stop_at) (Some ''1m'') = Inr (span_minutes n g v t first stop_at)"
proof -
  have "step_minutes n g v t first @ span_minutes n g v t first stop_at = step_minutes n g v t stop_at"
    using assms upt_add_eq_append [of 0 first "stop_at - first"] by (simp add: step_minutes_def span_minutes_def flip: map_append)
  moreover have "length (step_minutes n g v t first) = first" by (simp add: step_minutes_def)
  ultimately have "span_minutes n g v t first stop_at = drop first (step_minutes n g v t stop_at)" by (metis append_eq_conv_conj)
  then show ?thesis using canonical_suffix [OF step_canonical] by simp
qed

lemma span_bucket_key: "0 < m \<Longrightarrow> bucket_key (60000 * int m) (step_minute n g v t i) = 60000 * int m * int (i div m)"
  using step_bucket_key [of m g v t i] by (simp add: bucket_key_def step_minute_def)

lemma span_bucket_rows:
  assumes "0 < m"
  shows "bucket_rows (60000 * int m) (span_minutes n g v t first stop_at) (60000 * int m * int k) =
    map (step_minute n g v t) (filter (\<lambda>i. i div m = k) [first..<stop_at])"
  using assms by (simp add: bucket_rows_def span_minutes_def filter_map comp_def span_bucket_key)

lemma frame_minutes: "0 < m \<Longrightarrow> i div m = k \<longleftrightarrow> m * k \<le> i \<and> i < m * k + (m::nat)"
  using div_nat_eqI [of m k i] dividend_less_times_div [of m i] times_div_less_eq_dividend [of m i]
  by (auto simp: mult.commute add.commute)

lemma cut_frame_short:
  assumes m: "0 < m" and cut: "m * k < first \<or> stop_at < m * k + m"
  shows "length (filter (\<lambda>i. i div m = k) [first..<stop_at]) < m"
proof -
  let ?xs = "filter (\<lambda>i. i div m = k) [first..<stop_at]"
  have sub: "set ?xs \<subseteq> {m * k..<m * k + m}" using frame_minutes [OF m] by auto
  moreover have "(if m * k < first then m * k else m * k + m - 1) \<notin> set ?xs"
    and "(if m * k < first then m * k else m * k + m - 1) \<in> {m * k..<m * k + m}" using m cut by auto
  ultimately have "set ?xs \<subset> {m * k..<m * k + m}" by blast
  then have "card (set ?xs) < card {m * k..<m * k + m}" by (rule psubset_card_mono [rotated]) simp
  moreover have "card (set ?xs) = length ?xs" by (rule distinct_card) simp
  ultimately show ?thesis by simp
qed

lemma whole_frame:
  assumes "0 < m" "first \<le> m * k" "m * k + m \<le> stop_at"
  shows "filter (\<lambda>i. i div m = k) [first..<stop_at] = [m * k..<m * k + m]"
proof -
  have "[first..<stop_at] = [first..<m * k] @ [m * k..<m * k + m] @ [m * k + m..<stop_at]"
    using assms upt_add_eq_append [of first "m * k" "stop_at - m * k"] upt_add_eq_append [of "m * k" "m * k + m" "stop_at - (m * k + m)"] by simp
  then show ?thesis using frame_minutes [OF assms(1)] by (simp add: filter_empty_conv filter_id_conv)
qed

lemma span_aggregate:
  assumes tf: "timeframe_ms tf = Some (60000 * int m)" "tf \<noteq> ''1m''" and ok: "step_market m f v t"
    and ends: "first \<le> m * lo" "m * lo < first + m" "m * hi \<le> stop_at" "stop_at < m * hi + m" "lo \<le> hi"
    and same: "\<And>i. m * lo \<le> i \<Longrightarrow> i < m * hi \<Longrightarrow> g (i div n) = f (i div m)"
  shows "aggregate (span_minutes n g v t first stop_at) tf = Inr (map (step_frame tf m f v t) [lo..<hi])"
proof -
  let ?xs = "span_minutes n g v t first stop_at" and ?sz = "60000 * int m" and ?key = "\<lambda>k. 60000 * int m * int k"
  have m: "0 < m" using ok by (simp add: step_market_def)
  have le: "m * lo \<le> m * hi" using ends(5) by simp
  then have "first \<le> stop_at" using ends by linarith
  note canon = span_canonical [OF this, of n g v t]
  have named: "strip tf \<noteq> []"
    using tf by (auto simp: timeframe_ms_def timeframe_table_def strip_def is_space_def split: if_splits)
  have inside: "first \<le> m * k \<and> m * k + m \<le> stop_at" if "lo \<le> k" "k < hi" for k
  proof -
    have "m * lo \<le> m * k" "m * Suc k \<le> m * hi" by (rule mult_le_mono2, use that in simp)+
    with ends(1,3) show ?thesis unfolding mult_Suc_right by linarith
  qed
  have whole: "emitted tf ?sz ?xs (?key k) = Inr [step_frame tf m f v t k]" if k: "lo \<le> k" "k < hi" for k
  proof -
    have "g (i div n) = f (i div m)" if "m * k \<le> i" "i < m * k + m" for i
    proof -
      have "m * lo \<le> m * k" "m * Suc k \<le> m * hi" by (rule mult_le_mono2, use k in simp)+
      with that show ?thesis unfolding mult_Suc_right by (intro same) linarith+
    qed
    then have "bucket_rows ?sz ?xs (?key k) = map (step_minute m f v t) [m * k..<m * k + m]"
      using inside [OF k] by (simp add: span_bucket_rows [OF m] whole_frame [OF m] step_minute_def)
    then show ?thesis using step_merge [OF ok named, of k] m
      by (simp add: emitted_def emit_bucket_def bucket_skipped_iff successively_conv_nth step_minute_def)
  qed
  have cut: "emitted tf ?sz ?xs (?key k) = Inr []" if k: "\<not> (lo \<le> k \<and> k < hi)" for k
  proof -
    have "m * k < first \<or> stop_at < m * k + m"
    proof (cases "k < lo")
      case True
      then have "m * Suc k \<le> m * lo" by (intro mult_le_mono2) simp
      with ends(2) show ?thesis unfolding mult_Suc_right by linarith
    next
      case False
      then have "m * hi \<le> m * k" using k by (intro mult_le_mono2) simp
      with ends(4) show ?thesis by linarith
    qed
    then show ?thesis using cut_frame_short [OF m] m
      by (simp add: emitted_def emit_bucket_def bucket_skipped_def span_bucket_rows [OF m] less_imp_neq)
  qed
  let ?good = "\<lambda>x. x \<in> ?key ` {lo..<hi}"
  have keys: "bucket_key ?sz ` set ?xs = ?key ` (\<lambda>i. i div m) ` {first..<stop_at}"
    by (simp add: span_minutes_def image_image span_bucket_key [OF m])
  have "extend_all (emitted tf ?sz ?xs) (bucket_keys ?sz ?xs) = extend_all (emitted tf ?sz ?xs) (filter ?good (bucket_keys ?sz ?xs))"
    by (rule extend_all_only) (auto simp: bucket_keys_def keys intro!: cut)
  also have "filter ?good (bucket_keys ?sz ?xs) = map ?key [lo..<hi]"
  proof -
    have "lo \<le> k \<Longrightarrow> k < hi \<Longrightarrow> k \<in> (\<lambda>i. i div m) ` {first..<stop_at}" for k
      using inside [of k] m by (intro image_eqI [of _ _ "m * k"]) auto
    then have "{x \<in> bucket_key ?sz ` set ?xs. ?good x} = set (map ?key [lo..<hi])" unfolding keys by auto
    moreover have "sorted (map ?key [lo..<hi])" "distinct (map ?key [lo..<hi])"
      using m by (auto simp: sorted_iff_nth_mono distinct_map inj_on_def)
    ultimately show ?thesis
      unfolding bucket_keys_def by (simp only: filter_sorted_list_of_set finite_imageI finite_set sorted_list_of_set.idem_if_sorted_distinct)
  qed
  also have "extend_all (emitted tf ?sz ?xs) (map ?key [lo..<hi]) = Inr (map (step_frame tf m f v t) [lo..<hi])"
  proof -
    have "traverse (\<lambda>k. emitted tf ?sz ?xs (?key k)) [lo..<hi] = Inr (map (\<lambda>k. [step_frame tf m f v t k]) [lo..<hi])"
      by (rule traverse_total) (simp add: whole)
    then show ?thesis by (simp add: extend_all_def traverse_map comp_def)
  qed
  finally show ?thesis using aggregate_eq [OF tf canon]
    by (simp add: span_minutes_def step_minute_def list_all_iff is_minute_bar_def)
qed

end
