(* ===== verification/AdaptiveEngine.thy ===== *)
theory AdaptiveEngine
  imports Adaptive Contracts SpanMarket
begin

section \<open>One adaptive decision, and the replay over a history (adaptive/logic.py, adaptive/provenance.py)\<close>

text \<open>
  The decision looks at the last 3240 minutes only. A history that is short, has a gap or ends off the five-minute
  clock yields a decision without an intent whose status says so; the rest is an explicit sequence of steps, each
  with its own reason.
\<close>

subsection \<open>The window\<close>

definition adaptive_bar :: "candle \<Rightarrow> py_value" where
  "adaptive_bar row = str_dict
    [(''base_volume'', PFloat (c_volume row)),
     (''close'', PFloat (c_close row)),
     (''close_time_ms'', PInt (c_close_time_ms row)),
     (''contract_version'', PStr ''closed-bar.v1''),
     (''high'', PFloat (c_high row)),
     (''is_closed'', PBool True),
     (''low'', PFloat (c_low row)),
     (''open'', PFloat (c_open row)),
     (''open_time_ms'', PInt (c_open_time_ms row)),
     (''quote_volume'', PFloat (c_quote_volume row)),
     (''symbol'', PStr (c_symbol row)),
     (''taker_buy_base_volume'', PFloat (c_taker_buy_volume row)),
     (''taker_buy_quote_volume'', PFloat (c_taker_buy_quote_volume row)),
     (''timeframe'', PStr ''1m''),
     (''venue'', PStr ''BINANCE_UM'')]"

definition adaptive_window_sha256 :: "candle list \<Rightarrow> string result" where
  "adaptive_window_sha256 candles = canonical_sha256 (str_dict [(''bars'', PList (map adaptive_bar candles))])"

subsection \<open>Decisions\<close>

record adaptive_decision =
  de_status :: evaluation_status
  de_reason :: string
  de_regime :: capability_regime
  de_decision_ts_ms :: "int option"
  de_input_window_sha256 :: "string option"
  de_features :: "(string \<times> string) list"
  de_intent :: "sleeve_intent option"

text \<open>The returns before the regime is known.\<close>

definition undecided :: "evaluation_status \<Rightarrow> string \<Rightarrow> int option \<Rightarrow> string option \<Rightarrow> adaptive_decision" where
  "undecided status reason ts window_hash =
    \<lparr>de_status = status, de_reason = reason, de_regime = UNCERTAIN, de_decision_ts_ms = ts,
     de_input_window_sha256 = window_hash, de_features = [], de_intent = None\<rparr>"

text \<open>The returns \<open>NO_INTENT\<close> and \<open>INTENT\<close>: features are sorted by name.\<close>

definition decided ::
  "string \<Rightarrow> capability_regime \<Rightarrow> int \<Rightarrow> string \<Rightarrow> (string \<times> string) list \<Rightarrow> sleeve_intent option \<Rightarrow> adaptive_decision" where
  "decided reason regime ts window_hash features found =
    \<lparr>de_status = (case found of None \<Rightarrow> NO_INTENT | Some _ \<Rightarrow> INTENT), de_reason = reason, de_regime = regime,
     de_decision_ts_ms = Some ts, de_input_window_sha256 = Some window_hash, de_features = sort features, de_intent = found\<rparr>"

definition closed_minute :: "candle \<Rightarrow> bool" where
  "closed_minute row \<longleftrightarrow>
     c_open_time_ms row mod 60000 = 0 \<and> c_close_time_ms row = c_open_time_ms row + 59999"

definition minute_gap :: "candle list \<Rightarrow> bool" where
  "minute_gap minutes \<longleftrightarrow> list_ex (\<lambda>(left, right). c_open_time_ms right \<noteq> c_open_time_ms left + 60000) (adjacent minutes)"

definition frame_gap :: "candle list \<Rightarrow> int \<Rightarrow> bool" where
  "frame_gap rows interval \<longleftrightarrow>
     list_ex (\<lambda>(left, right). c_open_time_ms right - c_open_time_ms left \<noteq> interval) (adjacent rows)"

text \<open>\<open>any(_atr(rows, period) <= 0 for rows in frames)\<close>, which stops at the first.\<close>

fun any_flat :: "int \<Rightarrow> candle list list \<Rightarrow> bool result" where
  "any_flat period [] = Inr False"
| "any_flat period (rows # frames) =
     rbind (adaptive_atr rows period) (\<lambda>atr. if fle atr fzero then Inr True else any_flat period frames)"

subsection \<open>From a setup to an intent\<close>

definition executable :: "side \<Rightarrow> pyfloat \<Rightarrow> pyfloat \<Rightarrow> pyfloat \<Rightarrow> bool" where
  "executable sd reference stop target \<longleftrightarrow>
     (if sd = LONG then fless stop reference \<and> fless reference target
      else fless target reference \<and> fless reference stop)"

definition setup_executable :: "adaptive_setup \<Rightarrow> pyfloat \<Rightarrow> pyfloat \<Rightarrow> bool" where
  "setup_executable u reference risk \<longleftrightarrow>
     list_all is_finite [u_stop u, u_target u, risk, u_atr15 u] \<and>
     \<not> fle (fmin (u_stop u) [u_target u, risk, u_atr15 u]) fzero \<and>
     executable (u_side u) reference (u_stop u) (u_target u)"

text \<open>The reason why the figures refuse the setup, if they do.\<close>

definition refusal :: "adaptive_config \<Rightarrow> adaptive_setup \<Rightarrow> pyfloat \<Rightarrow> economics \<Rightarrow> string option" where
  "refusal c u risk y =
     (if \<not> list_all is_finite [u_stop u, u_target u, risk, y_risk_bps y, y_reward_bps y, y_cost y, y_net_rr y] \<or>
         fle (fmin (u_stop u) [u_target u, risk]) fzero
      then Some ''NON_EXECUTABLE_BARRIERS''
      else if \<not> between (fmul (ac_minimum_stop_atr c) (u_atr15 u)) risk (fmul (ac_maximum_stop_atr c) (u_atr15 u))
      then Some ''STOP_OUTSIDE_STRUCTURAL_ATR_BOUNDS''
      else if fless (ac_maximum_stop_bps c) (y_risk_bps y) then Some ''STOP_DISTANCE_TOO_WIDE''
      else if fless (fmul (ac_maximum_cost_stop_fraction c) (y_risk_bps y)) (y_cost y) \<or>
              fless (y_net_rr y) (ac_minimum_net_reward_risk c)
      then Some ''INSUFFICIENT_PLANNING_COST_HEADROOM''
      else None)"

definition holding_ms :: "adaptive_config \<Rightarrow> capability_regime \<Rightarrow> int" where
  "holding_ms c regime =
     (if regime = CRASH then ac_crash_holding_ms c else if regime = RANGE then ac_range_holding_ms c
      else ac_trend_holding_ms c)"

definition adaptive_intent ::
  "adaptive_config \<Rightarrow> candle \<Rightarrow> capability_regime \<Rightarrow> adaptive_setup \<Rightarrow> economics \<Rightarrow> (string \<times> string) list \<Rightarrow>
   sleeve_intent result" where
  "adaptive_intent c latest regime u y features =
     rbind (make_exit_plan \<lparr>stop_price = u_stop u, target_price = u_target u, max_holding_ms = holding_ms c regime,
              trailing_activation_price = None, trailing_distance = None\<rparr>) (\<lambda>plan.
       make_sleeve_intent
         \<lparr>i_sleeve_id = adaptive_id, i_symbol = c_symbol latest, i_side = u_side u,
          i_decision_ts_ms = c_close_time_ms latest, i_entry_eligible_ts_ms = c_close_time_ms latest + 1,
          i_entry_expires_ts_ms = c_close_time_ms latest + ac_entry_lifetime_ms c,
          i_reference_price = c_close latest, i_signal_strength = fone, i_gross_reward_bps = y_reward_bps y,
          i_exit_plan = plan, i_metadata = sort features\<rparr>)"

definition economic_features :: "adaptive_setup \<Rightarrow> economics \<Rightarrow> (string \<times> string) list" where
  "economic_features u y =
    [(''pattern'', u_pattern u),
     (''frozen_atr15'', format_17g (u_atr15 u)),
     (''planning_round_trip_bps'', format_17g (y_cost y)),
     (''planning_net_reward_risk'', format_17g (y_net_rr y)),
     (''planning_cost_authority'', ''ASSUMPTION_NOT_VENUE_MEASUREMENT'')]"

text \<open>Everything after a setup was found.\<close>

definition settle_setup ::
  "adaptive_config \<Rightarrow> candle \<Rightarrow> string \<Rightarrow> capability_regime \<Rightarrow> (string \<times> string) list \<Rightarrow> adaptive_setup \<Rightarrow>
   adaptive_decision result" where
  "settle_setup c latest window_hash regime features u =
     (let reference = c_close latest; risk = fabs (fsub reference (u_stop u)); ts = c_close_time_ms latest in
      if \<not> setup_executable u reference risk
      then Inr (decided ''NON_EXECUTABLE_BARRIERS'' regime ts window_hash features None)
      else rbind (planning_economics reference (u_stop u) (u_target u) c) (\<lambda>y.
        let features = features @ economic_features u y in
        case refusal c u risk y of
          Some reason \<Rightarrow> Inr (decided reason regime ts window_hash features None)
        | None \<Rightarrow> rmap (\<lambda>i. decided ''COMPLETE_CAUSAL_PATTERN'' regime ts window_hash features (Some i))
                    (adaptive_intent c latest regime u y features)))"

subsection \<open>The decision\<close>

definition find_setup ::
  "candle list \<Rightarrow> candle list \<Rightarrow> candle list \<Rightarrow> capability_regime \<Rightarrow> nat option \<Rightarrow> adaptive_config \<Rightarrow>
   (adaptive_setup option \<times> string) result" where
  "find_setup rows5 rows15 hours regime shock c =
     (if regime = BULL \<or> regime = BEAR
      then rmap (\<lambda>u. (u, ''NO_COMPLETED_SETUP'')) (trend_setup rows5 rows15 hours regime c)
      else if regime = RANGE then rmap (\<lambda>u. (u, ''NO_COMPLETED_SETUP'')) (range_setup rows5 rows15 c)
      else case shock of
          Some index \<Rightarrow>
            if regime = CRASH then crash_setup rows5 rows15 index c
            else Inr (None, ''REGIME_UNCERTAIN_OR_POST_SHOCK_COOLDOWN'')
        | None \<Rightarrow> Inr (None, ''REGIME_UNCERTAIN_OR_POST_SHOCK_COOLDOWN''))"

definition base_features ::
  "(capability_regime \<Rightarrow> string) \<Rightarrow> adaptive_config \<Rightarrow> candle list \<Rightarrow> candle list \<Rightarrow> capability_regime \<Rightarrow> nat option \<Rightarrow>
   string \<Rightarrow> (string \<times> string) list" where
  "base_features text c rows5 hours regime shock setup_hash =
    [(''policy_version'', ac_policy_version c),
     (''regime'', text regime),
     (''last_complete_hour_ms'', str_int (c_close_time_ms (last hours))),
     (''last_shock_ms'', case shock of None \<Rightarrow> ''NONE'' | Some index \<Rightarrow> str_int (c_close_time_ms (rows5 ! index))),
     (''setup_bars_sha256'', setup_hash)]"

definition decide_frames ::
  "(capability_regime \<Rightarrow> string) \<Rightarrow> adaptive_config \<Rightarrow> candle \<Rightarrow> string \<Rightarrow> candle list \<Rightarrow> candle list \<Rightarrow> candle list \<Rightarrow>
   adaptive_decision result" where
  "decide_frames text c latest window_hash rows5 rows15 hours =
     rbind (regime_at rows5 hours (c_close_time_ms latest) c) (\<lambda>(regime, shock).
     rbind (if hours = [] then Inl (IndexError ''list index out of range'')
            else canonical_sha256 (PList (map candle_payload (last_n 3 rows5)))) (\<lambda>setup_hash.
     rbind (find_setup rows5 rows15 hours regime shock c) (\<lambda>(found, reason).
       let features = base_features text c rows5 hours regime shock setup_hash in
       case found of
         None \<Rightarrow> Inr (decided reason regime (c_close_time_ms latest) window_hash features None)
       | Some u \<Rightarrow> settle_setup c latest window_hash regime features u)))"

definition decide_window ::
  "(capability_regime \<Rightarrow> string) \<Rightarrow> adaptive_config \<Rightarrow> candle list \<Rightarrow> candle \<Rightarrow> string \<Rightarrow> adaptive_decision result" where
  "decide_window text c minutes latest sha =
     (let ts = Some (c_close_time_ms latest) in
      if int (length minutes) < ac_history_bars c
      then Inr (undecided WARMUP ''COMPLETE_54H_HISTORY_REQUIRED'' ts (Some sha))
      else if (c_close_time_ms latest + 1) mod (ac_decision_minutes c * 60000) \<noteq> 0
      then Inr (undecided NOT_SCHEDULED ''OUTSIDE_CLOSED_5M_CLOCK'' ts (Some sha))
      else rbind (aggregate minutes ''5m'') (\<lambda>rows5.
           rbind (aggregate minutes ''15m'') (\<lambda>rows15.
           rbind (aggregate minutes ''1h'') (\<lambda>hours.
             if frame_gap rows5 300000 \<or> frame_gap rows15 900000 \<or> frame_gap hours 3600000
             then Inr (undecided UNAVAILABLE ''COMPLETE_FRAME_CONTINUITY_REQUIRED'' ts (Some sha))
             else rbind (any_flat (ac_atr_period c) [rows5, rows15, hours]) (\<lambda>flat.
               if flat then Inr (undecided UNAVAILABLE ''UNDEFINED_VOLATILITY_CONTEXT'' ts (Some sha))
               else decide_frames text c latest sha rows5 rows15 hours)))))"

definition paper_refused :: py_error where
  "paper_refused = PaperStrategyDisabledError (adaptive_id @ '' is RESEARCH only, not PAPER-approved'')"

definition evaluate_adaptive ::
  "(capability_regime \<Rightarrow> string) \<Rightarrow> candle list \<Rightarrow> adaptive_config \<Rightarrow> bool \<Rightarrow> adaptive_decision result" where
  "evaluate_adaptive text candles c for_paper =
     (if for_paper then Inl paper_refused
      else rbind (require_fixed_config c) (\<lambda>_.
      rbind (canonical_candles candles (Some ''1m'')) (\<lambda>ordered.
        if ordered = [] then Inr (undecided WARMUP ''NO_CLOSED_HISTORY'' None None)
        else let latest = last ordered; minutes = last_n (nat (ac_history_bars c)) ordered in
          if c_symbol latest \<notin> set adaptive_universe
          then Inl (ValueError ''adaptive input is outside the fixed five-symbol universe'')
          else if \<not> list_all closed_minute minutes
          then Inl (ValueError ''adaptive requires exactly closed UTC-aligned one-minute candles'')
          else if minute_gap minutes
          then Inr (undecided UNAVAILABLE ''CLOSED_HISTORY_GAP'' (Some (c_close_time_ms latest)) None)
          else rbind (adaptive_window_sha256 minutes) (decide_window text c minutes latest))))"

text \<open>The replay: every slot of the five-minute clock with a full window behind it.\<close>

definition adaptive_slot ::
  "(capability_regime \<Rightarrow> string) \<Rightarrow> adaptive_config \<Rightarrow> candle list \<Rightarrow> nat \<Rightarrow> sleeve_intent list result" where
  "adaptive_slot text c ordered stop_at =
     (if (c_close_time_ms (ordered ! (stop_at - 1)) + 1) mod (ac_decision_minutes c * 60000) \<noteq> 0 then Inr []
      else rmap (\<lambda>d. case de_intent d of None \<Rightarrow> [] | Some i \<Rightarrow> [i])
        (evaluate_adaptive text (Prelude.slice (stop_at - nat (ac_history_bars c)) stop_at ordered) c False))"

definition generate_adaptive_intents ::
  "(capability_regime \<Rightarrow> string) \<Rightarrow> candle list \<Rightarrow> adaptive_config \<Rightarrow> bool \<Rightarrow> sleeve_intent list result" where
  "generate_adaptive_intents text candles c for_paper =
     (if for_paper then Inl paper_refused
      else rbind (require_fixed_config c) (\<lambda>_.
      rbind (canonical_candles candles (Some ''1m'')) (\<lambda>ordered.
        extend_all (adaptive_slot text c ordered) [nat (ac_history_bars c)..<length ordered + 1])))"

subsection \<open>A shock is consumed once\<close>

lemma crash_scan_consumed:
  assumes "crash_scan c rows5 shock floor_level atr15 ends = Inr (Some u, reason)"
    and "list_all (\<lambda>e. e < length rows5) ends" and "later \<noteq> []"
  shows "crash_scan c (rows5 @ later) shock floor_level atr15 (ends @ rest) = Inr (None, ''CRASH_SETUP_ALREADY_CONSUMED'')"
  using assms(1,2)
proof (induction ends)
  case (Cons e ends)
  then have e: "e < length rows5" by simp
  then have same: "Prelude.slice (shock + 1) (e + 1) (rows5 @ later) = Prelude.slice (shock + 1) (e + 1) rows5"
    "(rows5 @ later) ! e = rows5 ! e" "(rows5 @ later) ! (e - 1) = rows5 ! (e - 1)"
    by (simp_all add: Prelude.slice_def nth_append)
  have "e \<noteq> length (rows5 @ later) - 1" using e assms(3) by (cases later) auto
  with Cons same show ?case by (auto simp: Let_def split: if_splits)
qed simp

lemma through_filter: "sorted (map c_close_time_ms rows) \<Longrightarrow> through rows t = filter (\<lambda>row. c_close_time_ms row \<le> t) rows"
  unfolding through_def by (rule take_bisect_right)

lemma through_append:
  assumes "sorted (map c_close_time_ms (rows @ later))" "list_all (\<lambda>row. t < c_close_time_ms row) later"
  shows "through (rows @ later) t = through rows t"
proof -
  have "filter (\<lambda>row. c_close_time_ms row \<le> t) later = []" using assms(2) by (auto simp: filter_empty_conv list_all_iff)
  moreover have "sorted (map c_close_time_ms rows)" using assms(1) by (simp add: sorted_append)
  ultimately show ?thesis using through_filter [OF assms(1)] through_filter by simp
qed

lemma crash_setup_consumed:
  assumes run: "crash_setup rows5 rows15 shock c = Inr (Some u, reason)" and shock: "shock < length rows5"
    and later: "later5 \<noteq> []" "sorted (map c_close_time_ms (rows15 @ later15))"
      "list_all (\<lambda>row. c_open_time_ms (rows5 ! shock) \<le> c_close_time_ms row) later15"
  shows "crash_setup (rows5 @ later5) (rows15 @ later15) shock c = Inr (None, ''CRASH_SETUP_ALREADY_CONSUMED'')"
proof -
  have same: "(rows5 @ later5) ! shock = rows5 ! shock" using shock by (simp add: nth_append)
  have "list_all (\<lambda>row. c_open_time_ms (rows5 ! shock) - 1 < c_close_time_ms row) later15" using later(3) by (auto simp: list_all_iff)
  from through_append [OF later(2) this]
  have frozen: "frozen_range (rows15 @ later15) (c_open_time_ms (rows5 ! shock)) c = frozen_range rows15 (c_open_time_ms (rows5 ! shock)) c"
    by (simp add: frozen_range_def)
  from run obtain floor_level roof atr15 where range: "frozen_range rows15 (c_open_time_ms (rows5 ! shock)) c = Inr (floor_level, roof, atr15)"
    and go: "\<not> (fle atr15 fzero \<or> fle (below floor_level (1 / 10) atr15) (c_close (rows5 ! shock)))"
    and scan: "crash_scan c rows5 shock floor_level atr15 [shock + 3..<min (shock + 6) (length rows5 - 1) + 1] = Inr (Some u, reason)"
    by (auto simp: crash_setup_def rbind_Inr_iff split: if_splits)
  let ?a = "min (shock + 6) (length rows5 - 1) + 1" and ?b = "min (shock + 6) (length (rows5 @ later5) - 1) + 1"
  have start: "shock + 3 < ?a" using scan by (cases "shock + 3 < ?a") auto
  then have "[shock + 3..<?b] = [shock + 3..<?a] @ [?a..<?b]"
    using upt_add_eq_append [of "shock + 3" ?a "?b - ?a"] by simp
  moreover have "list_all (\<lambda>e. e < length rows5) [shock + 3..<?a]" using start by (auto simp: list_all_iff simp del: upt_Suc)
  ultimately have "crash_scan c (rows5 @ later5) shock floor_level atr15 [shock + 3..<?b] = Inr (None, ''CRASH_SETUP_ALREADY_CONSUMED'')"
    using crash_scan_consumed [OF scan _ later(1)] by simp
  then show ?thesis using range go by (simp add: crash_setup_def same frozen del: upt_Suc)
qed

subsection \<open>The window is all that matters\<close>

lemma last_n_last_n: "last_n n (last_n n xs) = last_n n xs"
  by (rule last_n_all) simp

lemma evaluate_adaptive_window:
  assumes "canonical_candles xs (Some ''1m'') = Inr xs" "0 < ac_history_bars c"
  shows "evaluate_adaptive text (last_n (nat (ac_history_bars c)) xs) c for_paper = evaluate_adaptive text xs c for_paper"
proof (cases "xs = []")
  case False
  then have ne: "last_n (nat (ac_history_bars c)) xs \<noteq> []" using assms(2) by (simp flip: length_greater_0_conv)
  have "canonical_candles (last_n (nat (ac_history_bars c)) xs) (Some ''1m'') = Inr (last_n (nat (ac_history_bars c)) xs)"
    unfolding last_n_def by (rule canonical_suffix [OF assms(1)])
  then show ?thesis using assms False ne by (simp add: evaluate_adaptive_def last_n_last_n last_last_n Let_def)
qed (simp add: last_n_def)

subsection \<open>The replay is the decision of every slot\<close>

definition decision_intents :: "adaptive_decision \<Rightarrow> sleeve_intent list" where
  "decision_intents d = (case de_intent d of None \<Rightarrow> [] | Some i \<Rightarrow> [i])"

definition adaptive_clock :: "candle \<Rightarrow> bool" where
  "adaptive_clock row \<longleftrightarrow> (c_close_time_ms row + 1) mod 300000 = 0"

lemma extend_all_guarded:
  "extend_all (\<lambda>x. if P x then f x else Inr []) xs = extend_all f (filter P xs)"
  by (induction xs) (auto simp: extend_all_Cons rmap_def)

lemma adaptive_fixed: "ac_history_bars adaptive_default = 3240" "ac_decision_minutes adaptive_default = 5"
  "require_fixed_config adaptive_default = Inr ()"
  by (simp_all add: adaptive_default_def require_fixed_config_def)

lemma adaptive_slot_eq:
  assumes "canonical_candles xs (Some ''1m'') = Inr xs" "3240 \<le> n" "n \<le> length xs"
  shows "adaptive_slot text adaptive_default xs n =
    (if adaptive_clock (xs ! (n - 1)) then rmap decision_intents (evaluate_adaptive text (take n xs) adaptive_default False) else Inr [])"
proof -
  have slice: "Prelude.slice (n - 3240) n xs = last_n 3240 (take n xs)"
    using assms(2,3) by (simp add: Prelude.slice_def last_n_def drop_take)
  have "canonical_candles (take n xs) (Some ''1m'') = Inr (take n xs)"
    by (rule canonical_prefix [of _ "drop n xs"]) (simp add: assms(1))
  from evaluate_adaptive_window [OF this, of adaptive_default] show ?thesis
    by (simp add: adaptive_slot_def adaptive_clock_def adaptive_fixed slice decision_intents_def [abs_def])
qed

lemma adaptive_replay:
  assumes "canonical_candles xs (Some ''1m'') = Inr xs"
  shows "extend_all (adaptive_slot text adaptive_default xs) [3240..<length xs + 1] =
    extend_all (\<lambda>n. rmap decision_intents (evaluate_adaptive text (take n xs) adaptive_default False))
      (filter (\<lambda>n. adaptive_clock (xs ! (n - 1))) [3240..<length xs + 1])"
  unfolding extend_all_guarded [symmetric]
  by (rule extend_all_cong) (auto simp: adaptive_slot_eq [OF assms] simp del: upt_Suc)

lemma adaptive_causal:
  assumes order: "canonical_candles (xs @ ys) (Some ''1m'') = Inr (xs @ ys)"
    and run: "generate_adaptive_intents text (xs @ ys) c for_paper = Inr zs"
  shows "\<exists>as bs. generate_adaptive_intents text xs c for_paper = Inr as \<and> zs = as @ bs"
proof -
  let ?n = "nat (ac_history_bars c)"
  have xs: "canonical_candles xs (Some ''1m'') = Inr xs" by (rule canonical_prefix [OF order])
  have same: "adaptive_slot text c (xs @ ys) k = adaptive_slot text c xs k" if "0 < k" "k \<le> length xs" for k
    using that by (simp add: adaptive_slot_def nth_append Prelude.slice_def)
  from run order obtain fixed: "\<not> for_paper" "require_fixed_config c = Inr ()"
    and out: "extend_all (adaptive_slot text c (xs @ ys)) [?n..<length (xs @ ys) + 1] = Inr zs"
    by (auto simp: generate_adaptive_intents_def rbind_Inr_iff split: if_splits)
  have n: "0 < ?n" using fixed(2) by (auto simp: require_fixed_config_def adaptive_default_def split: if_splits)
  show ?thesis
  proof (cases "?n \<le> length xs + 1")
    case True
    then have "[?n..<length (xs @ ys) + 1] = [?n..<length xs + 1] @ [length xs + 1..<length (xs @ ys) + 1]"
      using upt_add_eq_append [of ?n "length xs + 1" "length ys"] by simp
    with out obtain as bs where "extend_all (adaptive_slot text c (xs @ ys)) [?n..<length xs + 1] = Inr as" "zs = as @ bs"
      by (auto simp: extend_all_append rbind_Inr_iff rmap_Inr_iff simp del: upt_Suc)
    moreover have "extend_all (adaptive_slot text c (xs @ ys)) [?n..<length xs + 1] = extend_all (adaptive_slot text c xs) [?n..<length xs + 1]"
      using n by (intro extend_all_cong same) (auto simp del: upt_Suc)
    ultimately have "generate_adaptive_intents text xs c for_paper = Inr as"
      using xs fixed by (simp add: generate_adaptive_intents_def del: upt_Suc)
    with \<open>zs = as @ bs\<close> show ?thesis by blast
  qed (use xs fixed in \<open>simp add: generate_adaptive_intents_def\<close>)
qed

subsection \<open>What an intent guarantees\<close>

text \<open>The sides a regime may trade: the table of the capability policy (adaptive/adapter.py).\<close>

fun capability_sides :: "capability_regime \<Rightarrow> side list" where
  "capability_sides BULL = [LONG]"
| "capability_sides BEAR = [SHORT]"
| "capability_sides RANGE = [LONG, SHORT]"
| "capability_sides CRASH = [SHORT]"
| "capability_sides UNCERTAIN = []"

lemma crash_scan_side: "crash_scan c rows5 shock l a ends = Inr (Some u, r) \<Longrightarrow> u_side u = SHORT"
  by (induction ends) (auto simp: Let_def rbind_Inr_iff split: if_splits)

lemma trend_setup_side: "trend_setup rows5 rows15 hours regime c = Inr (Some u) \<Longrightarrow> u_side u = (if regime = BULL then LONG else SHORT)"
  by (auto simp: trend_setup_def trend_levels_def Let_def rbind_Inr_iff split: list.splits if_splits)

lemma range_setup_side: "range_setup rows5 rows15 c = Inr (Some u) \<Longrightarrow> u_side u \<noteq> FLAT"
  by (auto simp: range_setup_def range_edge_def Let_def rbind_Inr_iff rmap_Inr_iff split: list.splits if_splits)

lemma find_setup_side: "find_setup rows5 rows15 hours regime shock c = Inr (Some u, r) \<Longrightarrow> u_side u \<in> set (capability_sides regime)"
proof (cases regime)
  case RANGE
  assume "find_setup rows5 rows15 hours regime shock c = Inr (Some u, r)"
  with RANGE have "u_side u \<noteq> FLAT" by (auto simp: find_setup_def rmap_Inr_iff dest: range_setup_side)
  with RANGE show ?thesis by (cases "u_side u") auto
qed (auto simp: find_setup_def rmap_Inr_iff crash_setup_def rbind_Inr_iff dest!: trend_setup_side crash_scan_side split: option.splits if_splits)

text \<open>The bounds of the fixed configuration, on the figures of a setup.\<close>

definition setup_admitted :: "pyfloat \<Rightarrow> adaptive_setup \<Rightarrow> economics \<Rightarrow> bool" where
  "setup_admitted reference u y \<longleftrightarrow>
     (let risk = fabs (fsub reference (u_stop u)) in
      planning_economics reference (u_stop u) (u_target u) adaptive_default = Inr y \<and>
      executable (u_side u) reference (u_stop u) (u_target u) \<and> list_all usable [u_stop u, u_target u, risk, u_atr15 u] \<and>
      fle (fmul (lit (1 / 2)) (u_atr15 u)) risk \<and> fle risk (fmul (Num 2) (u_atr15 u)) \<and>
      fle (y_risk_bps y) (Num 300) \<and> fle (y_cost y) (fmul (lit (1 / 2)) (y_risk_bps y)) \<and> fle (lit (5 / 4)) (y_net_rr y))"

lemma fmin_positive:
  assumes "list_all is_finite xs" "x \<in> set xs" "xs = y # ys" "\<not> fle (fmin y ys) fzero"
  shows "usable x"
proof -
  have "NaN \<notin> set (y # ys)" using assms(1,3) by (auto simp: list_all_iff)
  from fmin_le [OF this] have "fle (fmin y ys) x" using assms(2,3) by blast
  moreover have "is_finite (fmin y ys)" using fmin_mem [of y ys] assms(1,3) by (auto simp: list_all_iff)
  then have "fless fzero (fmin y ys)" using assms(4) by (simp add: not_fle_fless is_finite_not_NaN)
  ultimately show ?thesis using fless_le_trans assms(1,2) by (auto simp: usable_def list_all_iff)
qed

lemma settle_setup_intent:
  assumes "settle_setup adaptive_default latest window_hash regime features u = Inr d" "de_intent d = Some s"
  shows "de_regime d = regime \<and> (\<exists>y. setup_admitted (c_close latest) u y \<and>
    adaptive_intent adaptive_default latest regime u y (features @ economic_features u y) = Inr s)"
proof -
  let ?risk = "fabs (fsub (c_close latest) (u_stop u))"
  from assms obtain y where ok: "setup_executable u (c_close latest) ?risk"
    and y: "planning_economics (c_close latest) (u_stop u) (u_target u) adaptive_default = Inr y"
    and go: "refusal adaptive_default u ?risk y = None"
    and s: "adaptive_intent adaptive_default latest regime u y (features @ economic_features u y) = Inr s" and d: "de_regime d = regime"
    by (auto simp: settle_setup_def decided_def Let_def rbind_Inr_iff rmap_Inr_iff split: if_splits option.splits)
  let ?xs = "[u_stop u, u_target u, ?risk, u_atr15 u]"
  have fin: "list_all is_finite ?xs" "\<not> fle (fmin (u_stop u) [u_target u, ?risk, u_atr15 u]) fzero"
    and ex: "executable (u_side u) (c_close latest) (u_stop u) (u_target u)" using ok by (simp_all add: setup_executable_def)
  have "list_all usable ?xs" unfolding list_all_iff using fmin_positive [OF fin(1) _ refl fin(2)] by blast
  moreover from go have "list_all is_finite [y_risk_bps y, y_cost y, y_net_rr y]"
    "between (fmul (lit (1 / 2)) (u_atr15 u)) ?risk (fmul (Num 2) (u_atr15 u))"
    "\<not> fless (Num 300) (y_risk_bps y)" "\<not> fless (fmul (lit (1 / 2)) (y_risk_bps y)) (y_cost y)" "\<not> fless (y_net_rr y) (lit (5 / 4))"
    by (auto simp: refusal_def adaptive_default_def split: if_splits)
  moreover have "is_finite (lit (1 / 2))" "is_finite (lit (5 / 4))" by code_simp+
  then have "fmul (lit (1 / 2)) (y_risk_bps y) \<noteq> NaN" "lit (5 / 4) \<noteq> NaN"
    using fmul_not_NaN [of "lit (1 / 2)"] \<open>list_all is_finite [y_risk_bps y, y_cost y, y_net_rr y]\<close> by auto
  ultimately show ?thesis using ex y s d
    by (auto simp: setup_admitted_def between_def not_fless_fle is_finite_not_NaN Let_def)
qed

text \<open>The complete frames of the window, and what is read off them.\<close>

definition adaptive_frames :: "candle list \<Rightarrow> candle list \<times> candle list \<times> candle list \<Rightarrow> bool" where
  "adaptive_frames minutes = (\<lambda>(rows5, rows15, hours).
     aggregate minutes ''5m'' = Inr rows5 \<and> aggregate minutes ''15m'' = Inr rows15 \<and> aggregate minutes ''1h'' = Inr hours)"

lemma decide_frames_intent:
  assumes "decide_frames text adaptive_default latest window_hash rows5 rows15 hours = Inr d" "de_intent d = Some s"
  shows "\<exists>shock u r y fs. regime_at rows5 hours (c_close_time_ms latest) adaptive_default = Inr (de_regime d, shock) \<and>
    find_setup rows5 rows15 hours (de_regime d) shock adaptive_default = Inr (Some u, r) \<and> setup_admitted (c_close latest) u y \<and>
    adaptive_intent adaptive_default latest (de_regime d) u y fs = Inr s"
proof -
  from assms obtain regime shock found r h where run: "regime_at rows5 hours (c_close_time_ms latest) adaptive_default = Inr (regime, shock)"
    "find_setup rows5 rows15 hours regime shock adaptive_default = Inr (found, r)"
    and rest: "(case found of None \<Rightarrow> Inr (decided r regime (c_close_time_ms latest) window_hash (base_features text adaptive_default rows5 hours regime shock h) None)
      | Some u \<Rightarrow> settle_setup adaptive_default latest window_hash regime (base_features text adaptive_default rows5 hours regime shock h) u) = Inr d"
    unfolding decide_frames_def rbind_Inr_iff by (auto simp: rbind_Inr_iff Let_def split: if_splits)
  from rest assms(2) obtain u where u: "found = Some u"
    and settle: "settle_setup adaptive_default latest window_hash regime (base_features text adaptive_default rows5 hours regime shock h) u = Inr d"
    by (cases found) (auto simp: decided_def)
  from settle_setup_intent [OF settle assms(2)] run u show ?thesis by blast
qed

lemma positive_normalized: "usable v \<Longrightarrow> normalized_float v = v"
  by (cases v) (auto simp: usable_def fless_def normalized_float_def)

lemma adaptive_intent_fields:
  assumes "adaptive_intent c latest regime u y fs = Inr s" "usable (u_stop u)" "usable (u_target u)"
  shows "i_sleeve_id s = adaptive_id \<and> i_symbol s = c_symbol latest \<and> i_side s = u_side u \<and>
    i_decision_ts_ms s = c_close_time_ms latest \<and> i_entry_eligible_ts_ms s = c_close_time_ms latest + 1 \<and>
    i_entry_expires_ts_ms s = c_close_time_ms latest + ac_entry_lifetime_ms c \<and>
    stop_price (i_exit_plan s) = u_stop u \<and> target_price (i_exit_plan s) = u_target u \<and>
    max_holding_ms (i_exit_plan s) = holding_ms c regime \<and> sleeve_intent_wf s"
proof -
  have "sleeve_intent_wf s" using assms(1) by (auto simp: adaptive_intent_def rbind_Inr_iff intro: make_sleeve_intent_wf)
  with assms show ?thesis
    by (auto simp: adaptive_intent_def rbind_Inr_iff make_exit_plan_def validate_Inr_iff normalized_intent_def positive_normalized
        dest!: make_sleeve_intent_Inr(1))
qed

text \<open>A run of closed minutes, and a decision slot at its end.\<close>

definition adaptive_ready :: "candle list \<Rightarrow> bool" where
  "adaptive_ready ordered \<longleftrightarrow>
     3240 \<le> length ordered \<and> list_all closed_minute (last_n 3240 ordered) \<and> \<not> minute_gap (last_n 3240 ordered) \<and>
     adaptive_clock (last ordered) \<and> c_symbol (last ordered) \<in> set adaptive_universe"

lemma adaptive_decision_run:
  assumes "evaluate_adaptive text candles c for_paper = Inr d" "de_intent d \<noteq> None \<or> de_status d \<in> {INTENT, NO_INTENT}"
  shows "\<not> for_paper \<and> c = adaptive_default \<and> (\<exists>ordered window_hash frames. canonical_candles candles (Some ''1m'') = Inr ordered \<and>
    adaptive_ready ordered \<and> adaptive_window_sha256 (last_n 3240 ordered) = Inr window_hash \<and>
    adaptive_frames (last_n 3240 ordered) frames \<and>
    (case frames of (rows5, rows15, hours) \<Rightarrow> decide_frames text adaptive_default (last ordered) window_hash rows5 rows15 hours = Inr d))"
proof -
  from assms obtain ordered h where o: "\<not> for_paper" "c = adaptive_default" "canonical_candles candles (Some ''1m'') = Inr ordered"
    "ordered \<noteq> []" "c_symbol (last ordered) \<in> set adaptive_universe" "list_all closed_minute (last_n 3240 ordered)"
    "\<not> minute_gap (last_n 3240 ordered)" "adaptive_window_sha256 (last_n 3240 ordered) = Inr h"
    and w: "decide_window text adaptive_default (last_n 3240 ordered) (last ordered) h = Inr d"
    unfolding evaluate_adaptive_def
    by (auto simp: rbind_Inr_iff require_fixed_config_def adaptive_fixed undecided_def Let_def split: if_splits)
  from w assms(2) have "3240 \<le> length ordered \<and> adaptive_clock (last ordered) \<and> (\<exists>rows5 rows15 hours.
      adaptive_frames (last_n 3240 ordered) (rows5, rows15, hours) \<and> decide_frames text adaptive_default (last ordered) h rows5 rows15 hours = Inr d)"
    unfolding decide_window_def
    by (auto simp: rbind_Inr_iff adaptive_fixed undecided_def adaptive_frames_def adaptive_clock_def Let_def simp del: any_flat.simps split: if_splits)
  with o show ?thesis unfolding adaptive_ready_def by blast
qed

lemma adaptive_intent_origin:
  assumes "evaluate_adaptive text candles c for_paper = Inr d" "de_intent d = Some s"
  shows "\<not> for_paper \<and> (\<exists>ordered rows5 rows15 hours shock u r y.
    canonical_candles candles (Some ''1m'') = Inr ordered \<and> adaptive_ready ordered \<and>
    adaptive_frames (last_n 3240 ordered) (rows5, rows15, hours) \<and>
    regime_at rows5 hours (c_close_time_ms (last ordered)) adaptive_default = Inr (de_regime d, shock) \<and>
    find_setup rows5 rows15 hours (de_regime d) shock adaptive_default = Inr (Some u, r) \<and>
    setup_admitted (c_close (last ordered)) u y \<and> i_sleeve_id s = adaptive_id \<and> i_symbol s = c_symbol (last ordered) \<and>
    i_side s = u_side u \<and> i_side s \<in> set (capability_sides (de_regime d)) \<and>
    stop_price (i_exit_plan s) = u_stop u \<and> target_price (i_exit_plan s) = u_target u \<and>
    i_decision_ts_ms s = c_close_time_ms (last ordered) \<and> i_entry_eligible_ts_ms s = c_close_time_ms (last ordered) + 1 \<and>
    i_entry_expires_ts_ms s = c_close_time_ms (last ordered) + 60000 \<and> sleeve_intent_wf s)"
proof -
  from adaptive_decision_run [OF assms(1)] assms(2) obtain ordered h rows5 rows15 hours where run: "\<not> for_paper"
    "canonical_candles candles (Some ''1m'') = Inr ordered" "adaptive_ready ordered" "adaptive_frames (last_n 3240 ordered) (rows5, rows15, hours)"
    "decide_frames text adaptive_default (last ordered) h rows5 rows15 hours = Inr d" by auto
  from decide_frames_intent [OF run(5) assms(2)] obtain shock u r y fs where found: "regime_at rows5 hours (c_close_time_ms (last ordered)) adaptive_default = Inr (de_regime d, shock)"
    "find_setup rows5 rows15 hours (de_regime d) shock adaptive_default = Inr (Some u, r)" "setup_admitted (c_close (last ordered)) u y"
    "adaptive_intent adaptive_default (last ordered) (de_regime d) u y fs = Inr s" by blast
  have "usable (u_stop u)" "usable (u_target u)" using found(3) by (simp_all add: setup_admitted_def Let_def)
  from adaptive_intent_fields [OF found(4) this] find_setup_side [OF found(2)] run found(1-3) show ?thesis
    by (simp add: adaptive_default_def) blast
qed

text \<open>The status says whether there is an intent, and is never an error: errors are raised.\<close>

lemma adaptive_status:
  assumes "evaluate_adaptive text candles c for_paper = Inr d"
  shows "(de_status d = INTENT \<longleftrightarrow> de_intent d \<noteq> None) \<and> de_status d \<noteq> ERROR"
proof -
  have "(de_status d = INTENT \<longleftrightarrow> de_intent d \<noteq> None) \<and> de_status d \<noteq> ERROR"
    if "settle_setup c latest h regime fs u = Inr d" for latest h regime fs u
    using that by (auto simp: settle_setup_def decided_def Let_def rbind_Inr_iff rmap_Inr_iff split: if_splits option.splits)
  then have frames: "(de_status d = INTENT \<longleftrightarrow> de_intent d \<noteq> None) \<and> de_status d \<noteq> ERROR"
    if "decide_frames text c latest h rows5 rows15 hours = Inr d" for latest h rows5 rows15 hours
    using that unfolding decide_frames_def rbind_Inr_iff by (auto simp: rbind_Inr_iff decided_def Let_def split: if_splits option.splits)
  have "(de_status d = INTENT \<longleftrightarrow> de_intent d \<noteq> None) \<and> de_status d \<noteq> ERROR"
    if "decide_window text c minutes latest h = Inr d" for minutes latest h
    using that frames unfolding decide_window_def
    by (auto simp: rbind_Inr_iff undecided_def Let_def simp del: any_flat.simps split: if_splits)
  then show ?thesis using assms unfolding evaluate_adaptive_def
    by (auto simp: rbind_Inr_iff undecided_def Let_def split: if_splits)
qed

text \<open>The window hash of a decision with an intent is the hash of exactly its window; its plan has no trailing stop.\<close>

lemma adaptive_intent_window:
  assumes "evaluate_adaptive text candles c for_paper = Inr d" "de_intent d = Some s"
  shows "\<exists>ordered h. canonical_candles candles (Some ''1m'') = Inr ordered \<and>
    adaptive_window_sha256 (last_n 3240 ordered) = Inr h \<and> de_input_window_sha256 d = Some h \<and>
    trailing_activation_price (i_exit_plan s) = None \<and> trailing_distance (i_exit_plan s) = None"
proof -
  from adaptive_decision_run [OF assms(1)] assms(2) obtain ordered h rows5 rows15 hours where run:
    "canonical_candles candles (Some ''1m'') = Inr ordered" "adaptive_window_sha256 (last_n 3240 ordered) = Inr h"
    "decide_frames text adaptive_default (last ordered) h rows5 rows15 hours = Inr d" by auto
  have plan: "trailing_activation_price (i_exit_plan s) = None \<and> trailing_distance (i_exit_plan s) = None"
    if "adaptive_intent c latest regime u y fs = Inr s" for c latest regime u y fs
    using that by (auto simp: adaptive_intent_def rbind_Inr_iff make_exit_plan_def validate_Inr_iff normalized_intent_def dest!: make_sleeve_intent_Inr(1))
  have "de_input_window_sha256 d = Some h \<and> trailing_activation_price (i_exit_plan s) = None \<and> trailing_distance (i_exit_plan s) = None"
    if "settle_setup adaptive_default latest h regime fs u = Inr d" for latest regime fs u
    using that assms(2) by (auto simp: settle_setup_def decided_def Let_def rbind_Inr_iff rmap_Inr_iff dest: plan split: if_splits option.splits)
  then have "de_input_window_sha256 d = Some h \<and> trailing_activation_price (i_exit_plan s) = None \<and> trailing_distance (i_exit_plan s) = None"
    using run(3) assms(2) unfolding decide_frames_def rbind_Inr_iff
    by (auto simp: rbind_Inr_iff decided_def Let_def split: if_splits option.splits)
  with run(1,2) show ?thesis by blast
qed

end
