(* ===== verification/AdaptiveMarket.thy ===== *)
theory AdaptiveMarket
  imports AdaptiveEngine
begin

section \<open>A market in which the adaptive engine trades\<close>

text \<open>
  A concrete window of 54 hours for the witnesses: prices rise by one an hour, dip and jump to a plateau, and the last
  two five-minute bars fall back to the mean and reclaim. All prices are multiples of one half, so that ranges are
  exact and the means need one rounding each.
\<close>

subsection \<open>Exact arithmetic on halves\<close>

definition half :: "int \<Rightarrow> pyfloat" where
  "half n = Num (of_int n / 2)"

lemma rnd_half: "\<bar>n\<bar> \<le> 2 ^ 52 \<Longrightarrow> rnd (of_int n / 2) = Num (of_int n / 2)"
proof -
  assume n: "\<bar>n\<bar> \<le> 2 ^ 52"
  then have "(of_int \<bar>n\<bar> :: rat) \<le> of_int (2 ^ 52)" by (simp only: of_int_le_iff)
  then show ?thesis by (intro rnd_fixed [where g = "- 1" and m = n]) (auto simp: power_int_minus)
qed

lemma half_sub: "\<bar>a\<bar> \<le> 2 ^ 51 \<Longrightarrow> \<bar>b\<bar> \<le> 2 ^ 51 \<Longrightarrow> fsub (half a) (half b) = half (a - b)"
proof -
  assume "\<bar>a\<bar> \<le> 2 ^ 51" "\<bar>b\<bar> \<le> 2 ^ 51"
  then have "\<bar>a - b\<bar> \<le> 2 ^ 52" by simp
  from rnd_half [OF this] show ?thesis by (cases "b = 0") (simp_all add: half_def fsub_def fadd_def diff_divide_distrib)
qed

text \<open>The mean of halves of which the largest is 256.\<close>

definition half_mean :: "int list \<Rightarrow> pyfloat" where
  "half_mean ns = fmul (rnd (of_int (sum_list ns) / 512 / of_int (int (length ns)))) (Num 256)"

lemma rnd_over_512: "\<bar>n\<bar> \<le> 2 ^ 53 \<Longrightarrow> rnd (of_int n / 512) = Num (of_int n / 512)"
proof -
  assume "\<bar>n\<bar> \<le> 2 ^ 53"
  then have "(of_int \<bar>n\<bar> :: rat) \<le> of_int (2 ^ 53)" by (simp only: of_int_le_iff)
  then show ?thesis by (intro rnd_fixed [where g = "- 9" and m = n]) (auto simp: power_int_minus field_simps)
qed

lemma top_of_halves:
  assumes "512 \<in> set ns" "list_all (\<lambda>n. 0 \<le> n \<and> n \<le> 512) ns"
  shows "fmax_list (map half ns) = Inr (Num 256)"
proof -
  obtain y ys where y: "map half ns = y # ys" using assms(1) by (cases ns) auto
  have nums: "\<exists>n \<in> set ns. z = half n" if "z \<in> set (y # ys)" for z
    using that unfolding y [symmetric] by auto
  then have "NaN \<notin> set (y # ys)" by (auto simp: half_def)
  moreover have "Num 256 \<in> set (y # ys)" unfolding y [symmetric] using assms(1) by (auto simp: half_def intro!: image_eqI [of _ _ 512])
  ultimately have "fle (Num 256) (fmax y ys)" by (rule fmax_ge)
  moreover obtain n where n: "n \<in> set ns" "fmax y ys = half n" using nums fmax_mem by metis
  moreover have "n \<le> 512" using assms(2) n(1) by (simp add: list_all_iff)
  then have "(of_int n :: rat) \<le> 512" by linarith
  ultimately have "fmax y ys = Num 256" by (simp add: half_def)
  then show ?thesis by (simp add: y)
qed

lemma parts_of_halves:
  assumes "list_all (\<lambda>n. 0 \<le> n \<and> n \<le> 512) ns"
  shows "traverse (\<lambda>x. py_div x (Num 256)) (map half ns) = Inr (map (\<lambda>n. Num (of_int n / 512)) ns)"
  unfolding traverse_map
proof (rule traverse_total)
  fix n assume "n \<in> set ns"
  then have "\<bar>n\<bar> \<le> 2 ^ 53" using assms by (auto simp: list_all_iff)
  from rnd_over_512 [OF this] show "py_div (half n) (Num 256) = Inr (Num (of_int n / 512))"
    by (simp add: half_def py_div_def fdiv_def is_zero_def is_inf_def signed_zero_def Let_def)
qed

lemma sum_over_512:
  assumes "list_all (\<lambda>n. 0 \<le> n \<and> n \<le> 512) ns" and len: "int (length ns) \<le> 2 ^ 43"
  shows "fsum (map (\<lambda>n. Num (of_int n / 512)) ns) = Inr (Num (of_int (sum_list ns) / 512))"
proof -
  let ?parts = "map (\<lambda>n. Num (of_int n / 512)) ns"
  have "list_all (within_rat 1) ?parts" using assms(1) by (auto simp: list_all_iff within_rat_def)
  from fsum_within [OF this] len have sum: "fsum ?parts = Inr (rnd (sum_list (map to_rat ?parts)))" by simp
  have total: "sum_list (map to_rat ?parts) = of_int (sum_list ns) / 512"
    by (induction ns) (simp_all add: add_divide_distrib)
  have "\<bar>sum_list ns\<bar> \<le> 512 * int (length ns)" using assms(1) by (induction ns) auto
  then have "rnd (of_int (sum_list ns) / 512) = Num (of_int (sum_list ns) / 512)" using len by (intro rnd_over_512) simp
  then show ?thesis unfolding sum total by simp
qed

lemma scaled_mean_halves:
  assumes top: "512 \<in> set ns" "list_all (\<lambda>n. 0 \<le> n \<and> n \<le> 512) ns" and len: "int (length ns) \<le> 2 ^ 43"
  shows "scaled_mean (map half ns) = Inr (half_mean ns)"
proof -
  have ne: "ns \<noteq> []" using top(1) by auto
  have "map fabs (map half ns) = map half ns" using top(2) by (auto simp: half_def list_all_iff)
  moreover have "float_of_int (int (length ns)) = Num (of_int (int (length ns)))" unfolding float_of_int_def using len by (intro rnd_of_int) simp
  then have "py_div (Num (of_int (sum_list ns) / 512)) (float_of_int (int (length ns))) =
      Inr (rnd (of_int (sum_list ns) / 512 / of_int (int (length ns))))"
    using ne by (auto simp: py_div_def fdiv_def is_zero_def is_inf_def signed_zero_def Let_def)
  ultimately show ?thesis using ne top_of_halves [OF top] parts_of_halves [OF top(2)] sum_over_512 [OF top(2) len]
    by (simp add: scaled_mean_def half_mean_def del: map_map)
qed

subsection \<open>Exact ranges\<close>

lemma half_fabs: "fabs (half n) = half \<bar>n\<bar>"
  by (simp add: half_def)

lemma half_order [simp]: "fle (half a) (half b) \<longleftrightarrow> a \<le> b" "fless (half a) (half b) \<longleftrightarrow> a < b"
  by (simp_all add: half_def divide_le_cancel divide_less_cancel)

lemma half_max: "fmax (half a) [half b, half c] = half (max (max a b) c)"
  by (auto simp: fmax_Cons max_def)

text \<open>A frame that trades at \<open>q / 2\<close>.\<close>

abbreviation half_frame :: "string \<Rightarrow> nat \<Rightarrow> (nat \<Rightarrow> int) \<Rightarrow> nat \<Rightarrow> candle" where
  "half_frame tf m q \<equiv> step_frame tf m (\<lambda>k. of_int (q k) / 2) 1 0"

lemma half_frame_fields:
  "c_close (half_frame tf m q k) = half (q k)" "c_high (half_frame tf m q k) = half (q k + 2)" "c_low (half_frame tf m q k) = half (q k - 2)"
  "c_open_time_ms (half_frame tf m q k) = 60000 * int m * int k" "c_close_time_ms (half_frame tf m q k) = 60000 * int m * int k + 60000 * int m - 1"
  "c_symbol (half_frame tf m q k) = ''BTCUSDT''"
  by (simp_all add: step_frame_def half_def add_divide_distrib diff_divide_distrib)

text \<open>From frame to frame the price moves by at most one, or jumps by three.\<close>

definition small_steps :: "(nat \<Rightarrow> int) \<Rightarrow> bool" where
  "small_steps q \<longleftrightarrow> (\<forall>k. 0 \<le> q k \<and> q k \<le> 512 \<and> (\<bar>q (Suc k) - q k\<bar> \<le> 2 \<or> q (Suc k) - q k = 6))"

lemma half_range:
  assumes "small_steps q"
  shows "closing_range (half_frame tf m q k) (half_frame tf m q (Suc k)) = (if \<bar>q (Suc k) - q k\<bar> \<le> 2 then Num 2 else Num 4)"
proof -
  have q: "0 \<le> q k" "q k \<le> 512" "0 \<le> q (Suc k)" "q (Suc k) \<le> 512" "\<bar>q (Suc k) - q k\<bar> \<le> 2 \<or> q (Suc k) - q k = 6"
    using assms unfolding small_steps_def by blast+
  then have "closing_range (half_frame tf m q k) (half_frame tf m q (Suc k)) =
      half (max (max 4 \<bar>q (Suc k) + 2 - q k\<bar>) \<bar>q (Suc k) - 2 - q k\<bar>)"
    by (simp add: closing_range_def half_frame_fields half_sub half_fabs half_max)
  moreover have "max (max 4 \<bar>q (Suc k) + 2 - q k\<bar>) \<bar>q (Suc k) - 2 - q k\<bar> = (if \<bar>q (Suc k) - q k\<bar> \<le> 2 then 4 else 8)"
    using q(5) by auto
  ultimately show ?thesis by (simp add: half_def)
qed

lemma adjacent_frames: "a < b \<Longrightarrow> adjacent (map F [a..<b]) = map (\<lambda>k. (F k, F (Suc k))) [a..<b - 1]"
  by (rule nth_equalityI) (simp_all add: nth_tl)

lemma last_n_frames: "a + n \<le> b \<Longrightarrow> last_n n (map F [a..<b]) = map F [b - n..<b]"
  by (simp add: last_n_def drop_map)

lemma rnd_between:
  assumes "lo \<le> q" "q \<le> hi" "rnd lo = Num lo" "rnd hi = Num hi" "0 < lo"
  obtains z where "rnd q = Num z" "lo \<le> z" "z \<le> hi"
proof -
  have "fle (rnd lo) (rnd q)" "fle (rnd q) (rnd hi)" by (rule rnd_mono, fact)+
  then show ?thesis using assms(3-5) that by (cases "rnd q") auto
qed

lemma mean_from_below:
  assumes "list_all (\<lambda>p. l \<le> p \<and> p \<le> 1) ps" "ps \<noteq> []" "int (length ps) \<le> 2 ^ 43" and l: "l = 1 / 2 \<or> l = 1"
  shows "\<exists>t m. fsum (map Num ps) = Inr t \<and> py_div t (float_of_int (int (length ps))) = Inr (Num m) \<and> l \<le> m \<and> m \<le> 1"
proof -
  let ?n = "int (length ps)"
  have "list_all (within_rat 1) (map Num ps)" using assms(1) l by (auto simp: list_all_iff within_rat_def)
  from fsum_within(1) [OF this] have sum: "fsum (map Num ps) = Inr (rnd (sum_list ps))" using assms(3) by (simp add: comp_def)
  have pos: "0 < (of_int ?n :: rat)" "0 < of_int ?n * l" using assms(2) l by auto
  have "of_int ?n * l \<le> sum_list ps \<and> sum_list ps \<le> of_int ?n" using assms(1) by (induction ps) (auto simp: algebra_simps)
  moreover have n: "rnd (of_int ?n) = Num (of_int ?n)" "rnd (of_int ?n / 2) = Num (of_int ?n / 2)"
    by (rule rnd_of_int, use assms(3) in simp, rule rnd_half, use assms(3) in simp)
  moreover have "rnd (of_int ?n * l) = Num (of_int ?n * l)" by (rule disjE [OF l]; hypsubst; use n in simp)
  ultimately obtain t where t: "rnd (sum_list ps) = Num t" "of_int ?n * l \<le> t" "t \<le> of_int ?n"
    using rnd_between [of "of_int ?n * l" "sum_list ps" "of_int ?n"] pos(2) by blast
  then have "l \<le> t / of_int ?n" "t / of_int ?n \<le> 1" using pos(1) by (simp_all add: field_simps)
  moreover have "rnd l = Num l \<and> 0 < l" by (rule disjE [OF l]; hypsubst; use rnd_half [of 1] in simp)
  ultimately obtain m where m: "rnd (t / of_int ?n) = Num m" "l \<le> m" "m \<le> 1"
    using rnd_between [of l "t / of_int ?n" 1] rnd_one by blast
  have "0 < t" using t(2) pos(2) by linarith
  then have "py_div (Num t) (float_of_int ?n) = Inr (Num m)"
    using pos(1) m(1) assms(3) rnd_of_int [of ?n] by (simp add: float_of_int_def py_div_def fdiv_def is_zero_def is_inf_def signed_zero_def Let_def)
  with sum t(1) m show ?thesis by auto
qed

lemma two_or_four:
  assumes "xs \<noteq> []" "set xs \<subseteq> {Num 2, Num 4}" "int (length xs) \<le> 2 ^ 43"
  shows "\<exists>r. scaled_mean xs = Inr r \<and> fle (Num 2) r \<and> fle r (Num 4)"
proof -
  obtain s where s: "fmax_list (map fabs xs) = Inr s" using assms(1) by (cases xs) auto
  have abs: "map fabs xs = xs" using assms(2) by (intro map_idI) auto
  from s abs obtain y ys where y: "xs = y # ys" "s = fmax y ys" using assms(1) by (cases xs) auto
  have "s \<in> set xs" using fmax_mem [of y ys] y by simp
  then have cases: "s = Num 2 \<or> s = Num 4" using assms(2) by auto
  have largest: "fle x s" if "x \<in> set xs" for x
    unfolding y(2) using that assms(2) y(1) by (intro fmax_ge) auto
  obtain c where c: "s = Num c" "c = 2 \<or> c = 4" using cases by auto
  let ?ps = "map (\<lambda>x. to_rat x / c) xs"
  have quot: "py_div x s = Inr (Num (to_rat x / c)) \<and> 1 / 2 \<le> to_rat x / c \<and> to_rat x / c \<le> 1" if "x \<in> set xs" for x
  proof -
    have "rnd (1 / 2) = Num (1 / 2)" using rnd_half [of 1] by simp
    moreover have "x = Num 2 \<or> x = Num 4" "fle x s" using that assms(2) largest by auto
    ultimately show ?thesis using c by (auto simp: py_div_def fdiv_def is_zero_def is_inf_def signed_zero_def Let_def)
  qed
  define l :: rat where "l = (if c = 2 then 1 else 1 / 2)"
  have l: "l = 1 / 2 \<or> l = 1" by (simp add: l_def)
  have "l \<le> to_rat x / c" if "x \<in> set xs" for x
    using that quot [OF that] largest [OF that] assms(2) c by (auto simp: l_def)
  then have "list_all (\<lambda>p. l \<le> p \<and> p \<le> 1) ?ps" using quot by (auto simp: list_all_iff)
  from mean_from_below [OF this _ _ l] assms obtain t m where tm: "fsum (map Num ?ps) = Inr t" "py_div t (float_of_int (int (length xs))) = Inr (Num m)"
    and m: "l \<le> m" "m \<le> 1" by (auto simp del: map_map)
  have "traverse (\<lambda>x. py_div x s) xs = Inr (map Num ?ps)" using quot by (simp add: traverse_total)
  then have mean: "scaled_mean xs = Inr (fmul (Num m) s)" using s assms(1) c tm by (auto simp: scaled_mean_def simp del: map_map)
  have "2 \<le> m * c" "m * c \<le> 4" using m c by (auto simp: l_def split: if_splits)
  moreover have "rnd 2 = Num 2" "rnd 4 = Num 4" using rnd_of_int [of 2] rnd_of_int [of 4] by simp_all
  ultimately obtain z where "rnd (m * c) = Num z" "2 \<le> z" "z \<le> 4" using rnd_between [of 2 "m * c" 4] by auto
  moreover have "fmul (Num m) s = rnd (m * c)" using m c by (auto simp: l_def fmul_def is_zero_def is_inf_def signed_zero_def Let_def split: if_splits)
  ultimately show ?thesis using mean by auto
qed

lemma all_two:
  assumes "xs \<noteq> []" "set xs \<subseteq> {Num 2}" "int (length xs) \<le> 2 ^ 43"
  shows "scaled_mean xs = Inr (Num 2)"
proof -
  obtain r where r: "scaled_mean xs = Inr r" "fle (Num 2) r" using two_or_four [of xs] assms by auto
  obtain m s where ms: "scaled_mean xs = Inr m" "fmax_list (map fabs xs) = Inr s" "is_finite s" "within_rat (to_rat s) m"
    using scaled_mean_bounded [of xs] assms rnd_of_int [of 2] unfolding list_all_iff by fastforce
  from ms(2) have "s \<in> set (map fabs xs)" by (cases "map fabs xs") (auto simp only: fmax_list.simps sum.inject fmax_mem)
  then have "s = Num 2" using assms(2) by auto
  with r ms have "r = Num 2" by (cases r) (auto simp: within_rat_def)
  with r show ?thesis by simp
qed

subsection \<open>Frames in small steps\<close>

lemma frames_atr:
  assumes "small_steps q" "a + 15 \<le> b"
  shows "\<exists>r. adaptive_atr (map (half_frame tf m q) [a..<b]) 14 = Inr r \<and> fle (Num 2) r \<and> fle r (Num 4)"
proof -
  let ?F = "half_frame tf m q"
  let ?rs = "map (\<lambda>k. closing_range (?F k) (?F (Suc k))) [b - 15..<b - 1]"
  have "set ?rs \<subseteq> {Num 2, Num 4}" using half_range [OF assms(1)] by auto
  moreover have "?rs \<noteq> []" "int (length ?rs) \<le> 2 ^ 43" using assms(2) by simp_all
  ultimately obtain r where "scaled_mean ?rs = Inr r" "fle (Num 2) r" "fle r (Num 4)" using two_or_four by blast
  moreover have "adaptive_atr (map ?F [a..<b]) 14 = scaled_mean ?rs"
    using assms(2) by (simp add: adaptive_atr_def last_n_frames adjacent_frames comp_def)
  ultimately show ?thesis by auto
qed

lemma frames_atr_even:
  assumes "small_steps q" "a + 15 \<le> b" "\<And>k. b - 15 \<le> k \<Longrightarrow> k < b - 1 \<Longrightarrow> \<bar>q (Suc k) - q k\<bar> \<le> 2"
  shows "adaptive_atr (map (half_frame tf m q) [a..<b]) 14 = Inr (Num 2)"
proof -
  let ?F = "half_frame tf m q"
  let ?rs = "map (\<lambda>k. closing_range (?F k) (?F (Suc k))) [b - 15..<b - 1]"
  have "set ?rs \<subseteq> {Num 2}" using half_range [OF assms(1)] assms(3) by auto
  moreover have "?rs \<noteq> []" "int (length ?rs) \<le> 2 ^ 43" using assms(2) by simp_all
  ultimately have "scaled_mean ?rs = Inr (Num 2)" by (intro all_two)
  then show ?thesis using assms(2) by (simp add: adaptive_atr_def last_n_frames adjacent_frames comp_def)
qed

lemma frames_through:
  assumes "a \<le> c" "c \<le> b" "0 < m" "60000 * int m * int c \<le> t + 1" "t + 1 < 60000 * int m * int (Suc c)"
  shows "through (map (half_frame tf m q) [a..<b]) t = map (half_frame tf m q) [a..<c]"
proof -
  let ?F = "half_frame tf m q"
  have "c_close_time_ms (?F x) \<le> c_close_time_ms (?F y)" if "x \<le> y" for x y
  proof -
    have "60000 * int m * int x \<le> 60000 * int m * int y" using that by (intro mult_left_mono) simp_all
    then show ?thesis by (simp add: half_frame_fields)
  qed
  then have "sorted (map c_close_time_ms (map ?F [a..<b]))" unfolding sorted_iff_nth_mono by simp
  from through_filter [OF this] have "through (map ?F [a..<b]) t = map ?F (filter (\<lambda>k. c_close_time_ms (?F k) \<le> t) [a..<b])"
    by (simp add: filter_map comp_def)
  also have "filter (\<lambda>k. c_close_time_ms (?F k) \<le> t) [a..<b] = [a..<c]"
  proof -
    have before: "c_close_time_ms (?F k) \<le> t" if "k < c" for k
    proof -
      have "60000 * int m * int (Suc k) \<le> 60000 * int m * int c" using that by (intro mult_left_mono) simp_all
      with assms(4) show ?thesis by (simp add: half_frame_fields algebra_simps)
    qed
    have after: "\<not> c_close_time_ms (?F k) \<le> t" if "c \<le> k" for k
    proof -
      have "60000 * int m * int (Suc c) \<le> 60000 * int m * int (Suc k)" using that by (intro mult_left_mono) simp_all
      with assms(5) show ?thesis by (simp add: half_frame_fields algebra_simps)
    qed
    have "[a..<b] = [a..<c] @ [c..<b]" using assms(1,2) upt_add_eq_append [of a c "b - c"] by simp
    then show ?thesis using before after by (simp add: filter_empty_conv filter_id_conv)
  qed
  finally show ?thesis .
qed

text \<open>Small falls are no shock.\<close>

lemma frames_not_shock:
  assumes "small_steps q" "15 \<le> i" "a + i < b" and fall: "\<bar>q (a + i) - q (a + i - 1)\<bar> \<le> 6"
  shows "is_shock (map (half_frame tf m q) [a..<b]) adaptive_default i = Inr False"
proof -
  let ?F = "half_frame tf m q"
  have "take i (map ?F [a..<b]) = map ?F [a..<a + i]" using assms(3) by (simp add: take_map)
  moreover obtain r where r: "adaptive_atr (map ?F [a..<a + i]) 14 = Inr r" "fle (Num 2) r" "fle r (Num 4)"
    using frames_atr [OF assms(1), of a "a + i"] assms(2) by auto
  moreover obtain z where z: "r = Num z" "2 \<le> z" "z \<le> 4" using r by (cases r) auto
  then have "\<not> fle (half n) (fmul (fneg (Num 2)) r)" if "- 6 \<le> n" for n
  proof -
    have "rnd (2 * z) \<noteq> Num 0" and "fle (Num 4) (rnd (2 * z))" using z rnd_mono [of 4 "2 * z"] rnd_of_int [of 4] by auto
    moreover have "fmul (fneg (Num 2)) r = rnd (- (2 * z))" using z by (simp add: fmul_def is_zero_def is_inf_def Let_def)
    moreover have "fle (rnd (- (2 * z))) (Num (- 4))" using z rnd_mono [of "- (2 * z)" "- 4"] rnd_of_int [of "- 4"] by simp
    ultimately have "fle (fmul (fneg (Num 2)) r) (Num (- 4))" by simp
    moreover have "(- 6 :: rat) \<le> of_int n" using that by linarith
    then have "- 4 < (of_int n :: rat) / 2" by simp
    then have "\<not> fle (half n) (Num (- 4))" by (simp add: half_def)
    ultimately show ?thesis using fle_trans by blast
  qed
  moreover have "fsub (half (q (a + i))) (half (q (a + i - 1))) = half (q (a + i) - q (a + i - 1))"
  proof (rule half_sub)
    have "0 \<le> q k \<and> q k \<le> 512" for k using assms(1) by (simp add: small_steps_def)
    then show "\<bar>q (a + i)\<bar> \<le> 2 ^ 51" "\<bar>q (a + i - 1)\<bar> \<le> 2 ^ 51" by (simp_all add: order_trans [of _ 512])
  qed
  moreover have "c_close (map ?F [a..<b] ! i) = half (q (a + i))" "c_close (map ?F [a..<b] ! (i - 1)) = half (q (a + i - 1))"
    using assms(2,3) by (simp_all add: half_frame_fields)
  moreover have "- 6 \<le> q (a + i) - q (a + i - 1)" using fall by linarith
  ultimately show ?thesis by (simp add: is_shock_def adaptive_default_def)
qed

subsection \<open>The window\<close>

text \<open>Twice the price of an hour, and of a five-minute bar.\<close>

definition hour_price :: "nat \<Rightarrow> int" where
  "hour_price h = (if h \<le> 40 then 432 + 2 * int h else if h = 41 then 510 else if h = 42 then 508 else if h \<le> 49 then 506 else 512)"

definition bar_price :: "nat \<Rightarrow> int" where
  "bar_price j = (if j = 648 then 511 else if 649 \<le> j then 512 else hour_price (j div 12))"

definition quarter_price :: "nat \<Rightarrow> int" where
  "quarter_price k = hour_price (k div 4)"

abbreviation adaptive_minutes :: "candle list" where
  "adaptive_minutes \<equiv> span_minutes 5 (\<lambda>j. of_int (bar_price j) / 2) 1 0 10 3250"

abbreviation bars5 :: "nat \<Rightarrow> candle" where
  "bars5 \<equiv> half_frame ''5m'' 5 bar_price"

abbreviation bars15 :: "nat \<Rightarrow> candle" where
  "bars15 \<equiv> half_frame ''15m'' 15 quarter_price"

abbreviation bars60 :: "nat \<Rightarrow> candle" where
  "bars60 \<equiv> half_frame ''1h'' 60 hour_price"

lemma hour_price_range: "432 \<le> hour_price h \<and> hour_price h \<le> 512"
  by (simp add: hour_price_def)

lemma hour_price_step: "\<bar>hour_price (Suc h) - hour_price h\<bar> \<le> 2 \<or> hour_price (Suc h) - hour_price h = 6"
  by (auto simp: hour_price_def)

lemma coarse_steps: "(\<And>h. \<bar>p (Suc h) - p h\<bar> \<le> 2 \<or> p (Suc h) - p h = 6) \<Longrightarrow> 0 < n \<Longrightarrow>
    \<bar>p (Suc k div n) - p (k div n)\<bar> \<le> (2::int) \<or> p (Suc k div n) - p (k div n) = 6"
  by (cases "Suc k mod n = 0") (simp_all add: div_Suc)

lemma small_prices: "small_steps hour_price" "small_steps quarter_price" "small_steps bar_price"
proof -
  have r: "0 \<le> hour_price h" "hour_price h \<le> 512" for h using hour_price_range [of h] by auto
  show "small_steps hour_price" unfolding small_steps_def using r hour_price_step by blast
  show "small_steps quarter_price" unfolding small_steps_def quarter_price_def
    using r coarse_steps [of hour_price, OF hour_price_step, of 4] by simp
  have "\<bar>bar_price (Suc j) - bar_price j\<bar> \<le> 2 \<or> bar_price (Suc j) - bar_price j = 6" for j
  proof (cases "Suc j < 648")
    case True
    then show ?thesis using coarse_steps [of hour_price, OF hour_price_step, of 12 j] by (simp add: bar_price_def)
  next
    case False
    then consider "j = 647" | "j = 648" | "649 \<le> j" by linarith
    then show ?thesis by cases (simp_all add: bar_price_def hour_price_def)
  qed
  then show "small_steps bar_price" unfolding small_steps_def using r by (simp add: bar_price_def)
qed

lemma half_market: "(\<And>k. 432 \<le> q k) \<Longrightarrow> 0 < m \<Longrightarrow> m \<le> 60 \<Longrightarrow> step_market m (\<lambda>k. of_int (q k) / 2) 1 0"
proof -
  assume q: "\<And>k. 432 \<le> q k" and m: "0 < m" "m \<le> 60"
  have "1 < (of_int (q k) :: rat) / 2" for k
  proof -
    have "(of_int 432 :: rat) \<le> of_int (q k)" using q by (simp only: of_int_le_iff)
    then show ?thesis by simp
  qed
  with m show ?thesis by (simp add: step_market_def)
qed

lemma adaptive_rows:
  "aggregate adaptive_minutes ''5m'' = Inr (map bars5 [2..<650])" "aggregate adaptive_minutes ''15m'' = Inr (map bars15 [1..<216])"
  "aggregate adaptive_minutes ''1h'' = Inr (map bars60 [1..<54])"
proof -
  have r: "432 \<le> hour_price k" "432 \<le> quarter_price k" "432 \<le> bar_price k" for k
    using hour_price_range by (auto simp: quarter_price_def bar_price_def)
  note span = span_aggregate [where first = 10 and stop_at = 3250 and v = 1 and t = 0 and g = "\<lambda>j. of_int (bar_price j) / 2" and n = 5]
  show "aggregate adaptive_minutes ''5m'' = Inr (map bars5 [2..<650])"
    by (rule span) (simp_all add: timeframe_ms_def timeframe_table_def half_market r)
  have "bar_price (i div 5) = hour_price (i div 60)" if "i < 3240" for i
  proof -
    have "i div 5 < 648" using that by (simp add: less_mult_imp_div_less)
    then show ?thesis using div_mult2_eq [of i 5 12] by (simp add: bar_price_def)
  qed
  moreover have "hour_price (i div 60) = quarter_price (i div 15)" for i using div_mult2_eq [of i 15 4] by (simp add: quarter_price_def)
  ultimately have inside: "i < 3240 \<Longrightarrow> bar_price (i div 5) = hour_price (i div 60)" "i < 3240 \<Longrightarrow> bar_price (i div 5) = quarter_price (i div 15)" for i
    by metis+
  show "aggregate adaptive_minutes ''15m'' = Inr (map bars15 [1..<216])"
    by (rule span) (simp_all add: timeframe_ms_def timeframe_table_def half_market r inside(2))
  show "aggregate adaptive_minutes ''1h'' = Inr (map bars60 [1..<54])"
    by (rule span) (simp_all add: timeframe_ms_def timeframe_table_def half_market r inside(1))
qed

subsection \<open>Its regime\<close>

lemma means_of_hours:
  assumes "a + n \<le> b" "0 < n" "n \<le> 60" "512 \<in> set (map q [b - n..<b])" "small_steps q"
  shows "scaled_mean (last_n n (map c_close (map (half_frame tf m q) [a..<b]))) = Inr (half_mean (map q [b - n..<b]))"
proof -
  have "list_all (\<lambda>x. 0 \<le> x \<and> x \<le> 512) (map q [b - n..<b])" using assms(5) by (auto simp: list_all_iff small_steps_def)
  from scaled_mean_halves [OF assms(4) this] have "scaled_mean (map half (map q [b - n..<b])) = Inr (half_mean (map q [b - n..<b]))"
    using assms(1,3) by simp
  moreover have "last_n n (map c_close (map (half_frame tf m q) [a..<b])) = map half (map q [b - n..<b])"
    using last_n_frames [OF assms(1), of "\<lambda>k. c_close (half_frame tf m q k)"] by (simp add: half_frame_fields comp_def)
  ultimately show ?thesis by simp
qed

lemma over_512_sub: "\<bar>a\<bar> \<le> 2 ^ 20 \<Longrightarrow> \<bar>b\<bar> \<le> 2 ^ 20 \<Longrightarrow> fsub (Num (of_int a / 512)) (Num (of_int b / 512)) = Num (of_int (a - b) / 512)"
proof -
  assume "\<bar>a\<bar> \<le> 2 ^ 20" "\<bar>b\<bar> \<le> 2 ^ 20"
  then have "\<bar>a - b\<bar> \<le> 2 ^ 53" by simp
  from rnd_over_512 [OF this] show ?thesis by (cases "b = 0") (simp_all add: fsub_def fadd_def diff_divide_distrib)
qed

text \<open>The efficiency ratio of closes of which the largest is 256.\<close>

lemma efficiency_of_halves:
  assumes top: "512 \<in> set ns" "list_all (\<lambda>n. 0 \<le> n \<and> n \<le> 512) ns" and len: "int (length ns) \<le> 2 ^ 43"
    and moves: "sum_list (map (\<lambda>p. \<bar>snd p - fst p\<bar>) (adjacent ns)) = v" "0 < v"
  shows "efficiency_ratio (map half ns) = Inr (rnd (of_int \<bar>last ns - hd ns\<bar> / of_int v))"
proof -
  let ?scaled = "map (\<lambda>n. Num (of_int n / 512)) ns" and ?ms = "map (\<lambda>p. \<bar>snd p - fst p\<bar>) (adjacent ns)"
  have ne: "ns \<noteq> []" using top(1) by auto
  have small: "\<bar>n\<bar> \<le> 2 ^ 20" if "n \<in> set ns" for n using that top(2) by (auto simp: list_all_iff)
  have pair: "fabs (fsub (Num (of_int (snd p) / 512)) (Num (of_int (fst p) / 512))) = Num (of_int \<bar>snd p - fst p\<bar> / 512)"
    if "fst p \<in> set ns" "snd p \<in> set ns" for p
    using over_512_sub [OF small [OF that(2)] small [OF that(1)]] by (simp add: abs_divide)
  have "adjacent ?scaled = map (\<lambda>p. (Num (of_int (fst p) / 512), Num (of_int (snd p) / 512))) (adjacent ns)"
    by (rule nth_equalityI) (simp_all add: nth_tl)
  then have "map (\<lambda>(left, right). fabs (fsub right left)) (adjacent ?scaled) = map (\<lambda>m. Num (of_int m / 512)) ?ms"
    using pair set_adjacent [of _ ns] by (simp add: comp_def)
  moreover have "\<bar>snd p - fst p\<bar> \<le> 512" if "p \<in> set (adjacent ns)" for p
  proof -
    have "0 \<le> fst p \<and> fst p \<le> 512" "0 \<le> snd p \<and> snd p \<le> 512" using set_adjacent [OF that] top(2) by (auto simp: list_all_iff)
    then show ?thesis by linarith
  qed
  then have "list_all (\<lambda>n. 0 \<le> n \<and> n \<le> 512) ?ms" by (simp add: list_all_iff)
  from sum_over_512 [OF this] len moves(1) have "fsum (map (\<lambda>m. Num (of_int m / 512)) ?ms) = Inr (Num (of_int v / 512))" by simp
  moreover have "last ?scaled = Num (of_int (last ns) / 512)" "hd ?scaled = Num (of_int (hd ns) / 512)" using ne by (simp_all add: last_map hd_map)
  then have "fabs (fsub (last ?scaled) (hd ?scaled)) = Num (of_int \<bar>last ns - hd ns\<bar> / 512)"
    using pair [of "(hd ns, last ns)"] ne by simp
  moreover have "py_div (Num (of_int \<bar>last ns - hd ns\<bar> / 512)) (Num (of_int v / 512)) = Inr (rnd (of_int \<bar>last ns - hd ns\<bar> / of_int v))"
    using moves(2) by (auto simp: py_div_def fdiv_def is_zero_def is_inf_def signed_zero_def Let_def)
  ultimately show ?thesis using top_of_halves [OF top] parts_of_halves [OF top(2)] moves(2)
    by (simp add: efficiency_ratio_def del: map_map)
qed

lemma half_mean_between:
  assumes "sum_list ns = added" "int (length ns) = n" "of_int lo / 4096 \<le> (of_int added / 512 / of_int n :: rat)"
    "of_int added / 512 / of_int n \<le> (of_int hi / 4096 :: rat)" "0 < lo" "hi \<le> 2 ^ 20"
  shows "\<exists>z. half_mean ns = Num z \<and> of_int lo / 16 \<le> z \<and> z \<le> of_int hi / 16"
proof -
  have "lo \<le> hi" using order_trans [OF assms(3,4)] by (simp add: divide_le_cancel)
  then have grid: "\<bar>lo\<bar> \<le> 2 ^ 20" "\<bar>hi\<bar> \<le> 2 ^ 20" using assms(5,6) by simp_all
  have fixed: "rnd (of_int n / 4096) = Num (of_int n / 4096) \<and> rnd (of_int n / 16) = Num (of_int n / 16)" if "\<bar>n\<bar> \<le> 2 ^ 20" for n
  proof -
    have "(of_int \<bar>n\<bar> :: rat) \<le> of_int (2 ^ 20)" using that by (simp only: of_int_le_iff)
    then show ?thesis
      by (intro conjI rnd_fixed [where g = "- 12" and m = n] rnd_fixed [where g = "- 4" and m = n]) (auto simp: power_int_minus field_simps)
  qed
  obtain y where y: "rnd (of_int added / 512 / of_int n) = Num y" "of_int lo / 4096 \<le> y" "y \<le> of_int hi / 4096"
    using rnd_between [OF assms(3,4)] fixed [OF grid(1)] fixed [OF grid(2)] assms(5) by auto
  have "of_int lo / 16 \<le> y * 256" "y * 256 \<le> of_int hi / 16" "0 < of_int lo / (16 :: rat)" using y(2,3) assms(5) by simp_all
  then obtain z where "rnd (y * 256) = Num z" "of_int lo / 16 \<le> z" "z \<le> of_int hi / 16"
    using rnd_between [of "of_int lo / 16" "y * 256" "of_int hi / 16"] fixed [OF grid(1)] fixed [OF grid(2)] by blast
  moreover have "0 < y" using y(2) assms(5) by (simp add: field_simps)
  ultimately show ?thesis using y(1) assms(1,2) by (auto simp: half_mean_def fmul_def is_zero_def is_inf_def Let_def)
qed

lemma lit_below: "q \<le> r \<Longrightarrow> rnd r = Num r \<Longrightarrow> fle (lit q) (Num r)"
  using rnd_mono [of q r] by (simp add: lit_def)

lemma trending_up:
  assumes "1 \<le> f - p" "f - p \<le> 4" "0 < s" "s < f" "f < 256" "2 \<le> r" "r \<le> 4" "fle (Num (1 / 2)) e" "fle e (Num 1)"
  shows "\<exists>slope gap. py_div (fsub (Num f) (Num p)) (Num r) = Inr slope \<and> py_div (fabs (fsub (Num f) (Num s))) (Num r) = Inr gap \<and>
    list_all is_finite [e, slope, gap] \<and> classify_regime adaptive_default (Num 256) (Num f) (Num s) e slope gap = BULL"
proof -
  have fixed: "rnd 1 = Num 1" "rnd 2 = Num 2" "rnd 4 = Num 4" "rnd 256 = Num 256" "rnd (1 / 4) = Num (1 / 4)" "rnd (1 / 2) = Num (1 / 2)"
    using rnd_of_int [of 2] rnd_of_int [of 4] rnd_of_int [of 256] rnd_half [of 1] rnd_over_512 [of 128] by simp_all
  obtain d where d: "rnd (f - p) = Num d" "1 \<le> d" "d \<le> 4" using rnd_between [of 1 "f - p" 4] assms(1,2) fixed by auto
  have "1 / 4 \<le> d / r" "d / r \<le> 2" using d assms(6,7) by (simp_all add: field_simps)
  then obtain z where z: "rnd (d / r) = Num z" "1 / 4 \<le> z" using rnd_between [of "1 / 4" "d / r" 2] fixed by auto
  have "\<bar>f - s\<bar> \<le> 256" using assms(3-5) by simp
  from rnd_within [OF this fixed(4)] obtain g where g: "fabs (rnd (f - s)) = Num g" "0 \<le> g" "g \<le> 256"
    by (cases "rnd (f - s)") (auto simp: within_rat_def)
  have "g / r \<le> g / 1" using g(2) assms(6) by (intro divide_left_mono) simp_all
  then have "\<bar>g / r\<bar> \<le> 256" using g assms(6) by simp
  from rnd_within [OF this fixed(4)] have gap: "is_finite (rnd (g / r))" by (simp add: within_rat_def)
  have "is_finite e" using assms(8,9) by (cases e) auto
  moreover have "fle (lit (3 / 10)) (Num (1 / 2))" by (rule lit_below) (simp_all add: fixed)
  note fle_trans [OF this assms(8)]
  moreover have "fle (lit (1 / 4)) (Num (1 / 4))" by (rule lit_below) (simp_all add: fixed)
  then have "fle (lit (1 / 4)) (Num z)" by (rule fle_trans) (use z(2) in simp)
  moreover have "fsub (Num f) (Num p) = Num d" "fsub (Num f) (Num s) = rnd (f - s)"
    using d(1) by (cases "p = 0"; cases "s = 0"; simp add: fsub_def fadd_def)+
  moreover have "py_div (Num d) (Num r) = Inr (Num z)" using d z assms(6) by (simp add: py_div_def fdiv_def is_zero_def is_inf_def Let_def)
  moreover have "py_div (Num g) (Num r) = Inr (rnd (g / r))" using assms(6) g(2)
    by (auto simp: py_div_def fdiv_def is_zero_def is_inf_def signed_zero_def Let_def)
  ultimately show ?thesis using gap g assms(3-5) by (simp add: classify_regime_def adaptive_default_def)
qed

text \<open>Whole hours up to the last and to the last but one are both a rising market.\<close>

lemma rising_hours:
  assumes n: "b = 53 \<or> b = 54"
  shows "raw_regime (map bars60 [1..<b]) adaptive_default = Inr BULL"
proof -
  let ?rows = "map bars60 [1..<b]" and ?q = "\<lambda>a b. map hour_price [a..<b]"
  have b: "51 \<le> b" using n by auto
  have top: "512 \<in> set (?q (b - 20) b)" "512 \<in> set (?q (b - 50) b)" "512 \<in> set (?q (b - 23) (b - 3))" "512 \<in> set (?q (b - 25) b)"
  proof -
    have "512 = hour_price 40" by (simp add: hour_price_def)
    then have at: "512 \<in> set (?q x y)" if "x \<le> 40" "40 < y" for x y using that by auto
    show "512 \<in> set (?q (b - 20) b)" "512 \<in> set (?q (b - 50) b)" "512 \<in> set (?q (b - 23) (b - 3))" "512 \<in> set (?q (b - 25) b)"
      by (rule at; use n in linarith)+
  qed
  have fast: "scaled_mean (last_n 20 (map c_close ?rows)) = Inr (half_mean (?q (b - 20) b))"
    using b top(1) by (intro means_of_hours small_prices) simp_all
  have slow: "scaled_mean (last_n 50 (map c_close ?rows)) = Inr (half_mean (?q (b - 50) b))"
    using b top(2) by (intro means_of_hours small_prices) simp_all
  have "but_last_n 3 (map c_close ?rows) = map c_close (map bars60 [1..<b - 3])"
  proof -
    have "b - 3 = 1 + (b - 4)" using b by simp
    then have "take (b - 4) [1..<b] = [1..<b - 3]" using b take_upt [of 1 "b - 4" b] by simp
    then show ?thesis by (simp add: but_last_n_def take_map del: upt_Suc)
  qed
  then have prior: "scaled_mean (last_n 20 (but_last_n 3 (map c_close ?rows))) = Inr (half_mean (?q (b - 23) (b - 3)))"
    using means_of_hours [of 1 20 "b - 3" hour_price "''1h''" 60] b top(3) small_prices(1) by simp
  have sums: "sum_list (?q (b - 20) b) = (if b = 54 then 10150 else 10136)" "sum_list (?q (b - 50) b) = (if b = 54 then 24220 else 24146)"
    "sum_list (?q (b - 23) (b - 3)) = (if b = 54 then 10102 else 10082)"
    using n by (elim disjE; simp add: hour_price_def)+
  have counts: "int (length (?q (b - 20) b)) = 20" "int (length (?q (b - 50) b)) = 50" "int (length (?q (b - 23) (b - 3))) = 20"
    using b by simp_all
  have "\<exists>f. half_mean (?q (b - 20) b) = Num f \<and> of_int (if b = 54 then 4060 else 4052) / 16 \<le> f \<and> f \<le> of_int (if b = 54 then 4060 else 4056) / 16"
    by (rule half_mean_between [OF sums(1) counts(1)]) (auto simp del: upt_rec_numeral)
  then obtain f where f: "half_mean (?q (b - 20) b) = Num f" "of_int (if b = 54 then 4060 else 4052) / 16 \<le> f" "f \<le> of_int (if b = 54 then 4060 else 4056) / 16" by blast
  have "\<exists>g. half_mean (?q (b - 50) b) = Num g \<and> of_int 3860 / 16 \<le> g \<and> g \<le> of_int 3880 / 16"
    by (rule half_mean_between [OF sums(2) counts(2)]) (auto simp del: upt_rec_numeral)
  then obtain g where g: "half_mean (?q (b - 50) b) = Num g" "of_int 3860 / 16 \<le> g" "g \<le> of_int 3880 / 16" by blast
  have "\<exists>p. half_mean (?q (b - 23) (b - 3)) = Num p \<and> of_int 4032 / 16 \<le> p \<and> p \<le> of_int (if b = 54 then 4044 else 4036) / 16"
    by (rule half_mean_between [OF sums(3) counts(3)]) (auto simp del: upt_rec_numeral)
  then obtain p where p: "half_mean (?q (b - 23) (b - 3)) = Num p" "of_int 4032 / 16 \<le> p" "p \<le> of_int (if b = 54 then 4044 else 4036) / 16" by blast
  obtain r where r: "adaptive_atr ?rows 14 = Inr (Num r)" "2 \<le> r" "r \<le> 4"
  proof -
    obtain y where "adaptive_atr ?rows 14 = Inr y" "fle (Num 2) y" "fle y (Num 4)" using frames_atr [OF small_prices(1), of 1 b] b by auto
    then show ?thesis using that by (cases y) auto
  qed
  let ?v = "if b = 54 then 34 else 36" and ?d = "if b = 54 then 22 else 24"
  have "sum_list (map (\<lambda>p. \<bar>snd p - fst p\<bar>) (adjacent (?q (b - 25) b))) = ?v" "last (?q (b - 25) b) - hd (?q (b - 25) b) = ?d"
    using n by (elim disjE; simp add: hour_price_def)+
  moreover have "list_all (\<lambda>n. 0 \<le> n \<and> n \<le> 512) (?q (b - 25) b)" using small_prices(1) by (auto simp: list_all_iff small_steps_def)
  ultimately have "efficiency_ratio (map half (?q (b - 25) b)) = Inr (rnd (of_int ?d / of_int ?v))"
    using efficiency_of_halves [OF top(4), of ?v] n by auto
  moreover have "last_n 25 (map c_close ?rows) = map half (?q (b - 25) b)"
    using last_n_frames [of 1 25 b "\<lambda>k. c_close (bars60 k)"] b by (simp add: half_frame_fields comp_def)
  ultimately have eff: "efficiency_ratio (last_n 25 (map c_close ?rows)) = Inr (rnd (of_int ?d / of_int ?v))" by simp
  have "fle (Num (1 / 2)) (rnd (of_int ?d / of_int ?v))" "fle (rnd (of_int ?d / of_int ?v)) (Num 1)"
    using rnd_mono [of "1 / 2" "of_int ?d / of_int ?v"] rnd_mono [of "of_int ?d / of_int ?v" 1] rnd_half [of 1] by auto
  from trending_up [OF _ _ _ _ _ r(2,3) this, of f p g] f p g n obtain slope gap where
    "py_div (fsub (Num f) (Num p)) (Num r) = Inr slope" "py_div (fabs (fsub (Num f) (Num g))) (Num r) = Inr gap"
    "list_all is_finite [rnd (of_int ?d / of_int ?v), slope, gap]"
    "classify_regime adaptive_default (Num 256) (Num f) (Num g) (rnd (of_int ?d / of_int ?v)) slope gap = BULL" by auto
  moreover have "last (map c_close ?rows) = half (hour_price (b - 1))" using b by (simp add: last_map half_frame_fields)
  moreover have "half (hour_price (b - 1)) = Num 256" using n by (auto simp: hour_price_def half_def)
  ultimately show ?thesis using fast slow prior f(1) g(1) p(1) r eff b
    by (simp add: raw_regime_def adaptive_default_def Let_def del: map_map)
qed

lemma default_fields:
  "ac_slow_hours adaptive_default = 50" "ac_crash_bars adaptive_default = 12" "ac_atr_period adaptive_default = 14"
  "ac_setup_mean_bars adaptive_default = 20" "ac_target_r adaptive_default = Num 2" "ac_policy_version adaptive_default = ''adaptive-pullback-range.v1''"
  by (simp_all add: adaptive_default_def)

lemma no_shock:
  assumes "51 \<le> b"
  shows "shocks (map bars5 [2..<b]) adaptive_default = Inr []"
proof -
  let ?rows = "map bars5 [2..<b]"
  have "is_shock ?rows adaptive_default i = Inr False" if "15 \<le> i" "i < length ?rows" for i
  proof (rule frames_not_shock [OF small_prices(3) that(1)])
    show "2 + i < b" using that(2) by simp
    have "\<bar>bar_price (Suc (i + 1)) - bar_price (i + 1)\<bar> \<le> 2 \<or> bar_price (Suc (i + 1)) - bar_price (i + 1) = 6"
      using small_prices(3) unfolding small_steps_def by blast
    then have "\<bar>bar_price (Suc (i + 1)) - bar_price (i + 1)\<bar> \<le> 6" by linarith
    then show "\<bar>bar_price (2 + i) - bar_price (2 + i - 1)\<bar> \<le> 6" by simp
  qed
  then have "extend_all (\<lambda>i. rmap (\<lambda>hit. if hit then [i] else []) (is_shock ?rows adaptive_default i))
      [nat (max 15 (int (length ?rows) - 36))..<length ?rows] = extend_all (\<lambda>_. Inr []) [nat (max 15 (int (length ?rows) - 36))..<length ?rows]"
    by (intro extend_all_cong) auto
  also have "\<dots> = Inr []" using extend_all_only [of _ "\<lambda>_. False" "\<lambda>_. Inr []"] by simp
  finally show ?thesis by (simp add: shocks_def adaptive_default_def)
qed

lemma rising_regime:
  assumes "b = 648 \<or> b = 650" "t = 300000 * int b - 1"
  shows "regime_at (map bars5 [2..<650]) (map bars60 [1..<54]) t adaptive_default = Inr (BULL, None)"
proof -
  have bars: "through (map bars5 [2..<650]) t = map bars5 [2..<b]"
    by (rule frames_through) (use assms in auto)
  have hours: "through (map bars60 [1..<54]) t = map bars60 [1..<54]"
    by (rule frames_through) (use assms in auto)
  have "[1..<54] = [1..<53] @ [53]" using upt_Suc_append [of 1 53] by simp
  then have "butlast (map bars60 [1..<54]) = map bars60 [1..<53]" by (simp del: upt_rec_numeral)
  then have "base_regime (map bars60 [1..<54]) t adaptive_default = Inr BULL"
    using rising_hours [of 54] rising_hours [of 53] unfolding base_regime_def hours Let_def by (simp add: default_fields del: upt_rec_numeral)
  then show ?thesis using no_shock [of b] assms(1) unfolding regime_at_def bars hours Let_def
    by (auto simp: last_shock_def shock_override_def simp del: upt_rec_numeral)
qed

subsection \<open>Its setup\<close>

lemma rnd_sixteenth: "\<bar>n\<bar> \<le> 2 ^ 20 \<Longrightarrow> rnd (of_int n / 16) = Num (of_int n / 16)"
proof -
  assume "\<bar>n\<bar> \<le> 2 ^ 20"
  then have "(of_int \<bar>n\<bar> :: rat) \<le> of_int (2 ^ 20)" by (simp only: of_int_le_iff)
  then show ?thesis by (intro rnd_fixed [where g = "- 4" and m = n]) (auto simp: power_int_minus field_simps)
qed

lemma rnd_le_sixteenth: "q \<le> of_int n / 16 \<Longrightarrow> \<bar>n\<bar> \<le> 2 ^ 20 \<Longrightarrow> fle (rnd q) (Num (of_int n / 16))"
  using rnd_mono [of q "of_int n / 16"] by (simp add: rnd_sixteenth)

lemma rnd_ge_sixteenth: "of_int n / 16 \<le> q \<Longrightarrow> \<bar>n\<bar> \<le> 2 ^ 20 \<Longrightarrow> fle (Num (of_int n / 16)) (rnd q)"
  using rnd_mono [of "of_int n / 16" q] by (simp add: rnd_sixteenth)

lemma two_ranges:
  "fmul (lit (1 / 4)) (Num 2) = Num (1 / 2)" "fmul (lit (1 / 2)) (Num 2) = Num 1" "fmul (lit (3 / 4)) (Num 2) = Num (3 / 2)"
  "fmul (lit (1 / 10)) (Num 2) = lit (1 / 5)" "fle (Num (1 / 8)) (lit (1 / 5))" "is_finite (lit (1 / 5))"
  by code_simp+

lemma sample_pattern:
  assumes "of_int 4086 / 16 \<le> m" "m \<le> of_int 4087 / 16"
  shows "trend_matched True (Num m) (Num 2) (bars5 647) (bars5 648) (bars5 649)"
proof -
  obtain w where w: "lit (1 / 5) = Num w" "1 / 8 \<le> w" using two_ranges(5,6) by (cases "lit (1 / 5)") auto
  have add: "fadd (Num m) (Num v) = rnd (m + v)" "fsub (Num m) (Num v) = rnd (m - v)" for v
    by (cases "v = 0"; simp add: fadd_def fsub_def)+
  have levels: "above (Num m) (1 / 4) (Num 2) = rnd (m + 1 / 2)" "below (Num m) (1 / 4) (Num 2) = rnd (m - 1 / 2)"
    "above (Num m) (1 / 10) (Num 2) = rnd (m + w)" "above (Num m) (3 / 4) (Num 2) = rnd (m + 3 / 2)" "below (Num m) (1 / 2) (Num 2) = rnd (m - 1)"
    by (simp_all add: above_def below_def two_ranges w(1) add)
  have rows: "c_close (bars5 647) = Num (of_int 4096 / 16)" "c_close (bars5 648) = Num (of_int 4088 / 16)" "c_close (bars5 649) = Num (of_int 4096 / 16)"
    "c_low (bars5 648) = Num (of_int 4072 / 16)" "c_low (bars5 649) = Num (of_int 4080 / 16)"
    by (simp_all add: half_frame_fields bar_price_def hour_price_def half_def)
  have low: "fmin (Num (of_int 4072 / 16)) [Num (of_int 4080 / 16)] = Num (of_int 4072 / 16)" by (simp add: fmin_Cons)
  have bounds: "fle (rnd (m + 1 / 2)) (Num (of_int 4096 / 16))" "fle (rnd (m - 1 / 2)) (Num (of_int 4088 / 16))"
    "fle (Num (of_int 4088 / 16)) (rnd (m + w))" "fle (Num (of_int 4096 / 16)) (rnd (m + 3 / 2))" "fle (rnd (m - 1)) (Num (of_int 4072 / 16))"
    by (rule rnd_le_sixteenth rnd_ge_sixteenth; use assms w(2) in simp)+
  have "fle (Num (of_int 4072 / 16)) (rnd (m + w))" by (rule rnd_ge_sixteenth; use assms w(2) in simp)
  with bounds show ?thesis unfolding trend_matched_def between_def levels rows low if_True by blast
qed

lemma sample_levels: "trend_levels True adaptive_default (bars5 648) (bars5 649) (Num 2) (Num 2) =
    \<lparr>u_side = LONG, u_stop = Num 254, u_target = Num 260, u_atr15 = Num 2, u_pattern = ''TREND_PULLBACK_RECLAIM''\<rparr>"
proof -
  have rows: "c_close (bars5 649) = Num 256" "c_low (bars5 648) = Num (509 / 2)" "c_low (bars5 649) = Num 255"
    by (simp_all add: half_frame_fields bar_price_def half_def)
  have "below (Num (509 / 2)) (1 / 4) (Num 2) = Num 254" "fabs (fsub (Num 256) (Num 254)) = Num 2"
    "fadd (Num 256) (fmul (fmul (Num 1) (Num 2)) (Num 2)) = Num 260" by code_simp+
  then show ?thesis by (simp add: trend_levels_def rows fmin_Cons default_fields Let_def)
qed

lemma sample_trend_setup:
  "trend_setup (map bars5 [2..<650]) (map bars15 [1..<216]) (map bars60 [1..<54]) BULL adaptive_default =
     Inr (Some \<lparr>u_side = LONG, u_stop = Num 254, u_target = Num 260, u_atr15 = Num 2, u_pattern = ''TREND_PULLBACK_RECLAIM''\<rparr>)"
proof -
  have last3: "last_n 3 (map bars5 [2..<650]) = [bars5 647, bars5 648, bars5 649]"
    using last_n_frames [of 2 3 650 bars5] by simp
  have close: "c_close_time_ms (bars5 647) = 194399999" by (simp add: half_frame_fields)
  have quarters: "through (map bars15 [1..<216]) 194399999 = map bars15 [1..<216]" by (rule frames_through) auto
  have regime: "regime_at (map bars5 [2..<650]) (map bars60 [1..<54]) 194399999 adaptive_default = Inr (BULL, None)"
    by (rule rising_regime [of 648]) simp_all
  have q: "quarter_price k = 512" if "200 \<le> k" for k
    using that div_le_mono [of 200 k 4] by (simp add: quarter_price_def hour_price_def)
  have "512 \<in> set (map quarter_price [196..<216])" by (simp add: q)
  from means_of_hours [of 1 20 216 quarter_price "''15m''" 15, OF _ _ _ _ small_prices(2)] this
  have mean: "scaled_mean (map c_close (last_n 20 (map bars15 [1..<216]))) = Inr (half_mean (map quarter_price [196..<216]))"
    by (simp add: last_n_frames del: upt_rec_numeral)
  have "sum_list (map quarter_price [196..<216]) = 10216" by (simp add: quarter_price_def hour_price_def)
  then have "\<exists>m. half_mean (map quarter_price [196..<216]) = Num m \<and> of_int 4086 / 16 \<le> m \<and> m \<le> of_int 4087 / 16"
    by (rule half_mean_between [where n = 20]) (simp_all del: upt_rec_numeral)
  then obtain m where m: "half_mean (map quarter_price [196..<216]) = Num m" "of_int 4086 / 16 \<le> m" "m \<le> of_int 4087 / 16" by blast
  have atr15: "adaptive_atr (map bars15 [1..<216]) 14 = Inr (Num 2)"
    by (rule frames_atr_even [OF small_prices(2)]) (simp_all add: q)
  have flat: "bar_price k = 512" if "624 \<le> k" "k < 648" for k
    using that div_le_mono [of 624 k 12] by (simp add: bar_price_def hour_price_def)
  have "but_last_n 2 (map bars5 [2..<650]) = map bars5 [2..<648]" using take_upt [of 2 646 650] by (simp add: but_last_n_def take_map)
  moreover have "adaptive_atr (map bars5 [2..<648]) 14 = Inr (Num 2)"
    by (rule frames_atr_even [OF small_prices(3)]) (simp_all add: flat)
  ultimately show ?thesis unfolding trend_setup_def last3 list.case Let_def close quarters default_fields
    using mean m sample_pattern [OF m(2,3)] sample_levels atr15 regime by (simp del: upt_rec_numeral)
qed

end
