(* ===== verification/AdaptiveCrash.thy ===== *)
theory AdaptiveCrash
  imports AdaptiveMarket
begin

section \<open>A shock is traded at most once\<close>

text \<open>
  The setup after a crash keeps no state between decisions: that a shock is not traded twice is a fact about the
  geometry, which the first completed retest consumes for every later decision.
\<close>

subsection \<open>A crash with a retest\<close>

text \<open>Quarters of an hour at 100, a fall to 97, and a retest of the broken floor at 99.\<close>

abbreviation crash_quarter :: "nat \<Rightarrow> candle" where
  "crash_quarter \<equiv> half_frame ''15m'' 15 (\<lambda>_. 200)"

definition crash_price :: "nat \<Rightarrow> rat" where
  "crash_price k = (if k < 93 then 100 else if k = 93 then 97 else 98)"

abbreviation crash_bar :: "nat \<Rightarrow> candle" where
  "crash_bar \<equiv> step_frame ''5m'' 5 crash_price 1 0"

definition crash_retest :: candle where
  "crash_retest = (crash_bar 95)\<lparr>c_close := Num 99, c_high := Num (397 / 4)\<rparr>"

definition crash_rows5 :: "candle list" where
  "crash_rows5 = map crash_bar [80..<95] @ [crash_retest, crash_bar 96]"

lemma crash_tail: "length crash_rows5 = 17" "crash_rows5 ! 13 = crash_bar 93" "crash_rows5 ! 15 = crash_retest" "crash_rows5 ! 16 = crash_bar 96"
  "Prelude.slice 14 17 crash_rows5 = [crash_bar 94, crash_retest, crash_bar 96]"
  by (simp_all add: crash_rows5_def nth_append Prelude.slice_def)

lemma crash_levels:
  "\<not> fle (below (Num 99) (1 / 10) (Num 2)) (c_close (crash_bar 93))"
  "retest_matched (Num 99) (Num 2) crash_retest (crash_bar 96)"
  "\<not> list_ex (\<lambda>row. fless (above (Num 99) (1 / 4) (Num 2)) (c_close row)) [crash_bar 94, crash_retest, crash_bar 96]"
  by code_simp+

lemma crash_range: "frozen_range (map crash_quarter [0..<31]) 27900000 adaptive_default = Inr (Num 99, Num 101, Num 2)"
proof -
  define rows before inside where rows: "rows = map crash_quarter [0..<31]" and parts: "before = map crash_quarter [0..<15]" "inside = map crash_quarter [15..<31]"
  have all: "through rows (27900000 - 1) = rows" unfolding rows by (rule frames_through) simp_all
  have atr: "adaptive_atr before 14 = Inr (Num 2)" unfolding parts by (rule frames_atr_even) (simp_all add: small_steps_def)
  have front: "but_last_n 16 rows = before"
    using take_upt [of 0 15 31] by (simp add: rows parts but_last_n_def take_map del: upt_rec_numeral)
  have final: "last_n 16 rows = inside"
    using last_n_frames [of 0 16 31 crash_quarter] by (simp add: rows parts)
  have "fmin_list (map c_low inside) = Inr (Num 99)" "fmax_list (map c_high inside) = Inr (Num 101)"
    unfolding parts by code_simp+
  with atr show ?thesis unfolding rows [symmetric] frozen_range_def all Let_def
    by (simp add: adaptive_default_def front final)
qed

lemma crash_sample: "\<exists>u. crash_setup crash_rows5 (map crash_quarter [0..<31]) 13 adaptive_default = Inr (Some u, ''PATTERN_READY'')"
proof -
  have "c_open_time_ms (crash_bar 93) = 27900000" by (simp add: step_frame_def)
  moreover have "list_all candle_wf (take 15 crash_rows5)" "list_all exact_prices (take 15 crash_rows5)" by code_simp+
  then obtain r where "adaptive_atr (take 15 crash_rows5) 14 = Inr r"
    using adaptive_atr_total [of "take 15 crash_rows5" 14] by (auto simp: crash_tail)
  moreover have "[13 + 3..<min (13 + 6) (length crash_rows5 - 1) + 1] = [16]" by (simp add: crash_tail)
  ultimately show ?thesis using crash_levels crash_range
    by (simp add: crash_setup_def crash_tail default_fields Let_def)
qed

subsection \<open>Property\<close>



end
