(* ===== verification/AdaptiveDecisions.thy ===== *)
theory AdaptiveDecisions
  imports AdaptiveMarket
begin

section \<open>What adaptive decisions guarantee\<close>

text \<open>
  The properties of the adaptive decision and of its replay, with a concrete window that produces an intent.
\<close>

subsection \<open>Its intent\<close>

definition sample_setup :: adaptive_setup where
  "sample_setup = \<lparr>u_side = LONG, u_stop = Num 254, u_target = Num 260, u_atr15 = Num 2, u_pattern = ''TREND_PULLBACK_RECLAIM''\<rparr>"

lemma sample_figures:
  "fabs (fsub (Num 256) (Num 254)) = Num 2" "setup_executable sample_setup (Num 256) (Num 2)"
  "case planning_economics (Num 256) (Num 254) (Num 260) adaptive_default of
     Inr y \<Rightarrow> refusal adaptive_default sample_setup (Num 2) y = None \<and> y_reward_bps y = Num (625 / 4) | Inl _ \<Rightarrow> False"
  by code_simp+

lemma metadata_checks_sort: "list_all (\<lambda>k. \<not> fst k) (metadata_checks (sort md)) \<longleftrightarrow> list_all (\<lambda>k. \<not> fst k) (metadata_checks md)"
proof -
  have "mset (map fst (sort md)) = mset (map fst md)" by (simp add: mset_map)
  then have "distinct (map fst (sort md)) = distinct (map fst md)" by (rule mset_eq_imp_distinct_iff)
  then show ?thesis by (simp add: metadata_checks_def list_ex_iff)
qed

lemma sample_intent_checks:
  "list_all (\<lambda>k. \<not> fst k) (intent_checks
    \<lparr>i_sleeve_id = adaptive_id, i_symbol = ''BTCUSDT'', i_side = LONG, i_decision_ts_ms = 194999999,
     i_entry_eligible_ts_ms = 195000000, i_entry_expires_ts_ms = 195059999, i_reference_price = Num 256,
     i_signal_strength = fone, i_gross_reward_bps = Num (625 / 4),
     i_exit_plan = \<lparr>stop_price = Num 254, target_price = Num 260, max_holding_ms = 7200000,
       trailing_activation_price = None, trailing_distance = None\<rparr>,
     i_metadata = [(''policy_version'', a), (''regime'', b), (''last_complete_hour_ms'', d), (''last_shock_ms'', e), (''setup_bars_sha256'', f),
       (''pattern'', g), (''frozen_atr15'', h), (''planning_round_trip_bps'', i), (''planning_net_reward_risk'', j), (''planning_cost_authority'', k)]\<rparr>)"
  "make_exit_plan \<lparr>stop_price = Num 254, target_price = Num 260, max_holding_ms = 7200000,
       trailing_activation_price = None, trailing_distance = None\<rparr> =
   Inr \<lparr>stop_price = Num 254, target_price = Num 260, max_holding_ms = 7200000, trailing_activation_price = None, trailing_distance = None\<rparr>"
  by code_simp+

abbreviation latest_minute :: candle where
  "latest_minute \<equiv> step_minute 5 (\<lambda>j. of_int (bar_price j) / 2) 1 0 3249"

lemma latest_fields:
  "c_symbol latest_minute = ''BTCUSDT''" "c_close latest_minute = Num 256" "c_close_time_ms latest_minute = 194999999"
  by (simp_all add: step_minute_def bar_price_def)

lemma sample_adaptive_intent:
  assumes "y_reward_bps y = Num (625 / 4)"
  shows "\<exists>s. adaptive_intent adaptive_default latest_minute BULL sample_setup y
    (base_features text adaptive_default rows5 hours BULL shock h @ economic_features sample_setup y) = Inr s"
proof -
  let ?md = "base_features text adaptive_default rows5 hours BULL shock h @ economic_features sample_setup y"
  have "list_all (\<lambda>k. \<not> fst k) (intent_checks
    \<lparr>i_sleeve_id = adaptive_id, i_symbol = ''BTCUSDT'', i_side = LONG, i_decision_ts_ms = 194999999,
     i_entry_eligible_ts_ms = 195000000, i_entry_expires_ts_ms = 195059999, i_reference_price = Num 256,
     i_signal_strength = fone, i_gross_reward_bps = Num (625 / 4),
     i_exit_plan = \<lparr>stop_price = Num 254, target_price = Num 260, max_holding_ms = 7200000,
       trailing_activation_price = None, trailing_distance = None\<rparr>,
     i_metadata = sort ?md\<rparr>)"
    using sample_intent_checks(1) unfolding base_features_def economic_features_def append_Cons append_Nil
    by (simp only: intent_checks_def list_all_append metadata_checks_sort intent_fields.simps)
  then show ?thesis using sample_intent_checks(2) assms
    by (simp add: adaptive_intent_def latest_fields holding_ms_def sample_setup_def make_sleeve_intent_def validate_Inr_iff adaptive_default_def)
qed

lemma frames_gap_free: "frame_gap (map (half_frame tf m q) [a..<b]) (60000 * int m) \<longleftrightarrow> False"
proof (cases "a < b")
  case True
  then show ?thesis by (auto simp: frame_gap_def adjacent_frames list_ex_iff half_frame_fields algebra_simps)
qed (simp add: frame_gap_def)

lemma traverse_succeeds: "(\<And>x. x \<in> set xs \<Longrightarrow> \<exists>y. f x = Inr y) \<Longrightarrow> \<exists>ys. traverse f xs = Inr ys"
  by (induction xs) (force simp: rbind_Inr_iff rmap_Inr_iff)+

lemma list_hashed: "(\<And>x. x \<in> set xs \<Longrightarrow> \<exists>j. canonical_value x = Inr j) \<Longrightarrow> \<exists>j. canonical_value (PList xs) = Inr j"
  using traverse_succeeds [of "map canonical_value xs" id] by (auto simp: rmap_Inr_iff)

lemma step_candle_hashed:
  "\<exists>j. canonical_value (adaptive_bar (step_candle tf sz opened p w t)) = Inr j"
  "\<exists>j. canonical_value (candle_payload (step_candle tf sz opened p w t)) = Inr j"
  by (simp_all add: adaptive_bar_def candle_payload_def str_dict_def json_members_def)

lemma adaptive_minutes_hash: "\<exists>h. adaptive_window_sha256 adaptive_minutes = Inr h"
proof -
  have "\<exists>j. canonical_value (PList (map adaptive_bar adaptive_minutes)) = Inr j"
    by (rule list_hashed) (auto simp: span_minutes_def step_minute_def step_candle_hashed(1) simp del: upt_rec_numeral)
  then show ?thesis
    by (auto simp: adaptive_window_sha256_def canonical_sha256_def canonical_json_bytes_def str_dict_def json_members_def)
qed

lemma sample_setup_hash: "\<exists>h. canonical_sha256 (PList (map candle_payload (map bars5 ks))) = Inr h"
proof -
  have "\<exists>j. canonical_value (PList (map candle_payload (map bars5 ks))) = Inr j"
    by (rule list_hashed) (auto simp: step_frame_def step_candle_hashed(2))
  then show ?thesis by (auto simp: canonical_sha256_def canonical_json_bytes_def)
qed

subsection \<open>A decision with an intent\<close>

lemma sample_find_setup:
  "find_setup (map bars5 [2..<650]) (map bars15 [1..<216]) (map bars60 [1..<54]) BULL None adaptive_default =
     Inr (Some sample_setup, ''NO_COMPLETED_SETUP'')"
  unfolding find_setup_def sample_trend_setup sample_setup_def by (simp add: rmap_def)

lemma sample_frames_move: "any_flat 14 [map bars5 [2..<650], map bars15 [1..<216], map bars60 [1..<54]] = Inr False"
proof -
  have "\<exists>r. adaptive_atr (map (half_frame tf m q) [a..<b]) 14 = Inr r \<and> \<not> fle r fzero" if "small_steps q" "a + 15 \<le> b" for tf m q a b
    using frames_atr [OF that, of tf m] fle_trans [of "Num 2" _ fzero] by fastforce
  from this [OF small_prices(3), of 2 650 "''5m''" 5] this [OF small_prices(2), of 1 216 "''15m''" 15]
    this [OF small_prices(1), of 1 54 "''1h''" 60] show ?thesis by (auto simp del: upt_rec_numeral)
qed

lemma sample_settles:
  "\<exists>d s. settle_setup adaptive_default latest_minute h BULL
     (base_features text adaptive_default rows5 hours BULL shock g) sample_setup = Inr d \<and> de_intent d = Some s \<and> de_regime d = BULL"
proof -
  obtain y where y: "planning_economics (Num 256) (Num 254) (Num 260) adaptive_default = Inr y"
    "refusal adaptive_default sample_setup (Num 2) y = None" "y_reward_bps y = Num (625 / 4)"
    using sample_figures(3) by (auto split: sum.splits)
  obtain s where "adaptive_intent adaptive_default latest_minute BULL sample_setup y
      (base_features text adaptive_default rows5 hours BULL shock g @ economic_features sample_setup y) = Inr s"
    using sample_adaptive_intent [OF y(3)] by blast
  moreover have "u_stop sample_setup = Num 254" "u_target sample_setup = Num 260" by (simp_all add: sample_setup_def)
  ultimately show ?thesis using y sample_figures(1,2)
    by (simp add: settle_setup_def latest_fields rmap_def decided_def Let_def)
qed

lemma sample_decide_frames:
  "\<exists>d s. decide_frames text adaptive_default latest_minute h (map bars5 [2..<650]) (map bars15 [1..<216]) (map bars60 [1..<54]) = Inr d \<and>
     de_intent d = Some s \<and> de_regime d = BULL"
proof -
  define rows5 rows15 hours where frames: "rows5 = map bars5 [2..<650]" "rows15 = map bars15 [1..<216]" "hours = map bars60 [1..<54]"
  have regime: "regime_at rows5 hours 194999999 adaptive_default = Inr (BULL, None)"
    unfolding frames by (rule rising_regime [of 650]) simp_all
  have found: "find_setup rows5 rows15 hours BULL None adaptive_default = Inr (Some sample_setup, ''NO_COMPLETED_SETUP'')"
    unfolding frames by (rule sample_find_setup)
  have "last_n 3 rows5 = map bars5 [650 - 3..<650]" unfolding frames by (rule last_n_frames) simp
  then obtain g where g: "canonical_sha256 (PList (map candle_payload (last_n 3 rows5))) = Inr g"
    using sample_setup_hash by metis
  obtain d s where d: "settle_setup adaptive_default latest_minute h BULL (base_features text adaptive_default rows5 hours BULL None g) sample_setup = Inr d"
    "de_intent d = Some s" "de_regime d = BULL" using sample_settles by blast
  have "hours \<noteq> []" by (simp add: frames)
  then have "decide_frames text adaptive_default latest_minute h rows5 rows15 hours = Inr d"
    using g d(1) by (simp add: decide_frames_def latest_fields regime found Let_def)
  with d(2,3) show ?thesis unfolding frames by blast
qed

lemma sample_adaptive_decision:
  "\<exists>d s. evaluate_adaptive text adaptive_minutes adaptive_default False = Inr d \<and> de_intent d = Some s \<and> de_regime d = BULL"
proof -
  have canon: "canonical_candles adaptive_minutes (Some ''1m'') = Inr adaptive_minutes" by (rule span_canonical) simp
  have len: "length adaptive_minutes = 3240" by (simp add: span_minutes_def del: upt_rec_numeral)
  then have ne: "adaptive_minutes \<noteq> []" by (simp flip: length_greater_0_conv)
  have all: "last_n (nat 3240) adaptive_minutes = adaptive_minutes" using len by (intro last_n_all) simp
  have latest: "last adaptive_minutes = latest_minute" by (simp add: span_minutes_def last_map del: upt_rec_numeral)
  have closed: "list_all closed_minute adaptive_minutes"
    by (auto simp: list_all_iff span_minutes_def step_minute_def closed_minute_def simp del: upt_rec_numeral)
  have gapless: "\<not> minute_gap adaptive_minutes"
    by (simp add: minute_gap_def span_minutes_def adjacent_frames list_ex_iff step_minute_def del: upt_rec_numeral)
  obtain h where hash: "adaptive_window_sha256 adaptive_minutes = Inr h" using adaptive_minutes_hash by blast
  obtain d s where d: "decide_frames text adaptive_default latest_minute h (map bars5 [2..<650]) (map bars15 [1..<216]) (map bars60 [1..<54]) = Inr d"
    "de_intent d = Some s" "de_regime d = BULL" using sample_decide_frames by blast
  have gaps: "\<not> frame_gap (map bars5 [2..<650]) 300000" "\<not> frame_gap (map bars15 [1..<216]) 900000" "\<not> frame_gap (map bars60 [1..<54]) 3600000"
    using frames_gap_free [of "''5m''" 5] frames_gap_free [of "''15m''" 15] frames_gap_free [of "''1h''" 60] by (simp_all del: upt_rec_numeral)
  have "decide_window text adaptive_default adaptive_minutes latest_minute h = Inr d"
    unfolding decide_window_def using d(1) gaps sample_frames_move adaptive_rows
    by (simp add: len latest_fields adaptive_fixed default_fields del: upt_rec_numeral any_flat.simps)
  moreover have "''BTCUSDT'' \<in> set adaptive_universe" by (simp add: adaptive_universe_def)
  ultimately show ?thesis using canon ne all latest closed gapless hash d(2,3)
    by (simp add: evaluate_adaptive_def adaptive_fixed latest_fields del: upt_rec_numeral)
qed

subsection \<open>Properties\<close>

text \<open>
  Property C15: an adaptive intent is only ever produced at the end of 54 hours of gap-free closed minutes on the
  five-minute clock, on a side its regime may trade, by the setup found on the complete frames of exactly these
  hours, and within every bound of the fixed configuration: the stop distance between half and twice the frozen
  average range and at most 300 basis points, planning costs at most half of it, and a net reward of at least 1.25.
\<close>

theorem adaptive_intent_within_bounds:
  assumes "evaluate_adaptive text candles c for_paper = Inr d" "de_intent d = Some s"
  shows "\<not> for_paper \<and> (\<exists>ordered rows5 rows15 hours shock u r y.
    canonical_candles candles (Some ''1m'') = Inr ordered \<and> adaptive_ready ordered \<and>
    adaptive_frames (last_n 3240 ordered) (rows5, rows15, hours) \<and>
    regime_at rows5 hours (c_close_time_ms (last ordered)) adaptive_default = Inr (de_regime d, shock) \<and>
    find_setup rows5 rows15 hours (de_regime d) shock adaptive_default = Inr (Some u, r) \<and>
    setup_admitted (c_close (last ordered)) u y \<and> i_sleeve_id s = adaptive_id \<and> i_symbol s = c_symbol (last ordered) \<and>
    i_side s = u_side u \<and> i_side s \<in> set (capability_sides (de_regime d)) \<and>
    stop_price (i_exit_plan s) = u_stop u \<and> target_price (i_exit_plan s) = u_target u \<and>
    i_decision_ts_ms s = c_close_time_ms (last ordered) \<and> i_entry_eligible_ts_ms s = c_close_time_ms (last ordered) + 1 \<and>
    i_entry_expires_ts_ms s = c_close_time_ms (last ordered) + 60000 \<and> sleeve_intent_wf s)"
  using assms by (rule adaptive_intent_origin)

theorem adaptive_intent_within_bounds_witness:
  "\<exists>d s. evaluate_adaptive (\<lambda>_. ''BULL'') adaptive_minutes adaptive_default False = Inr d \<and> de_intent d = Some s \<and>
     i_side s = LONG \<and> sleeve_intent_wf s"
proof -
  obtain d s where run: "evaluate_adaptive (\<lambda>_. ''BULL'') adaptive_minutes adaptive_default False = Inr d" "de_intent d = Some s" "de_regime d = BULL"
    using sample_adaptive_decision by blast
  from adaptive_intent_within_bounds [OF run(1,2)] run(3) have "i_side s = LONG" "sleeve_intent_wf s" by auto
  with run show ?thesis by blast
qed

text \<open>
  Property C29: the replay is the single decision, taken at every slot of the five-minute clock that has 3240 minutes
  before it, on everything known by then: no state is carried from slot to slot, and looking at the whole prefix
  instead of the last 54 hours changes nothing. Refused input fails the same way.
\<close>

theorem adaptive_replay_slotwise:
  "generate_adaptive_intents text candles adaptive_default False =
     rbind (canonical_candles candles (Some ''1m'')) (\<lambda>ordered.
       extend_all (\<lambda>n. rmap decision_intents (evaluate_adaptive text (take n ordered) adaptive_default False))
         (filter (\<lambda>n. adaptive_clock (ordered ! (n - 1))) [3240..<length ordered + 1]))"
proof (cases "canonical_candles candles (Some ''1m'')")
  case (Inr ordered)
  from candles.canon_idempotent [OF Inr] adaptive_replay [of ordered] Inr show ?thesis
    by (simp add: generate_adaptive_intents_def adaptive_fixed del: upt_rec_numeral)
qed (simp add: generate_adaptive_intents_def adaptive_fixed)

text \<open>
  Minutes that arrive later never change what the replay did before: the intents of a prefix of the
  history are a prefix of the intents of the history.
\<close>

theorem adaptive_no_lookahead:
  assumes "canonical_candles (past @ later) (Some ''1m'') = Inr (past @ later)"
    and "generate_adaptive_intents text (past @ later) c for_paper = Inr all_intents"
  shows "\<exists>known fresh. generate_adaptive_intents text past c for_paper = Inr known \<and> all_intents = known @ fresh"
  using assms by (rule adaptive_causal)

text \<open>The window, and one minute more, which is off the clock.\<close>

abbreviation next_minute :: candle where
  "next_minute \<equiv> step_minute 5 (\<lambda>j. of_int (bar_price j) / 2) 1 0 3250"

lemma sample_extended: "adaptive_minutes @ [next_minute] = span_minutes 5 (\<lambda>j. of_int (bar_price j) / 2) 1 0 10 3251"
proof -
  have "[10..<3251] = [10..<3250] @ [3250]" using upt_Suc_append [of 10 3250] by (simp del: upt_rec_numeral)
  then show ?thesis by (simp add: span_minutes_def del: upt_rec_numeral)
qed

lemma sample_extended_canonical:
  "canonical_candles (adaptive_minutes @ [next_minute]) (Some ''1m'') = Inr (adaptive_minutes @ [next_minute])"
  unfolding sample_extended by (rule span_canonical) simp

lemma sample_adaptive_replay:
  "\<exists>s. generate_adaptive_intents text (adaptive_minutes @ [next_minute]) adaptive_default False = Inr [s]"
proof -
  let ?xs = "adaptive_minutes @ [next_minute]"
  have len: "length adaptive_minutes = 3240" by (simp add: span_minutes_def del: upt_rec_numeral)
  have "adaptive_clock (?xs ! 3239)" "\<not> adaptive_clock (?xs ! 3240)"
    by (simp_all add: nth_append len) (simp_all add: span_minutes_def adaptive_clock_def step_minute_def del: upt_rec_numeral)
  then have slots: "filter (\<lambda>n. adaptive_clock (?xs ! (n - 1))) [3240, 3241] = [3240]" by simp
  have upt: "[3240..<length ?xs + 1] = [3240, 3241]" by (simp add: len upt_rec)
  have "take 3240 ?xs = adaptive_minutes" by (simp add: len)
  with sample_adaptive_decision [of "text"] obtain d s where d: "evaluate_adaptive text (take 3240 ?xs) adaptive_default False = Inr d" "de_intent d = Some s"
    by auto
  have "extend_all (adaptive_slot text adaptive_default ?xs) [3240..<length ?xs + 1] = Inr [s]"
    using adaptive_replay [OF sample_extended_canonical, of "text"] d unfolding upt slots
    by (simp only: extend_all_Cons extend_all_Nil) (simp add: decision_intents_def rmap_def)
  then show ?thesis unfolding generate_adaptive_intents_def sample_extended_canonical adaptive_fixed by (simp del: upt_Suc upt_rec_numeral length_append)
qed

theorem adaptive_no_lookahead_witness:
  "\<exists>s known fresh. generate_adaptive_intents (\<lambda>_. ''BULL'') (adaptive_minutes @ [next_minute]) adaptive_default False = Inr [s] \<and>
     generate_adaptive_intents (\<lambda>_. ''BULL'') adaptive_minutes adaptive_default False = Inr known \<and> [s] = known @ fresh"
  using adaptive_no_lookahead [OF sample_extended_canonical] sample_adaptive_replay [of "\<lambda>_. ''BULL''"] by blast

end
