(* ===== verification/AdaptiveAdapter.thy ===== *)
theory AdaptiveAdapter
  imports AdaptiveDecisions Runtime
begin

section \<open>The adaptive observation adapter (adaptive/adapter.py, adaptive/provenance.py)\<close>

text \<open>
  One causal evaluation of the adaptive engine for a stream of closed bars and a clock reading of the caller. The
  classes of the core package for regimes and capabilities are, like the contract classes, records of the arguments
  the program constructs them with and an argument \<open>C\<close> with what the package does with them.
\<close>

subsection \<open>Identity\<close>

definition adaptive_source_files :: "string list" where
  "adaptive_source_files =
    [''adaptive/__init__.py'', ''adaptive/adapter.py'', ''adaptive/config.py'', ''adaptive/logic.py'',
     ''adaptive/provenance.py'', ''candles.py'', ''models.py'', ''provenance.py'', ''registry.py'', ''runtime.py'',
     ''timeframes.py'', ''validation.py'']"

definition adaptive_config_value :: "adaptive_config \<Rightarrow> py_value" where
  "adaptive_config_value c = PData
    [(''policy_version'', PStr (ac_policy_version c)),
     (''history_bars'', PInt (ac_history_bars c)),
     (''decision_minutes'', PInt (ac_decision_minutes c)),
     (''fast_hours'', PInt (ac_fast_hours c)),
     (''slow_hours'', PInt (ac_slow_hours c)),
     (''efficiency_hours'', PInt (ac_efficiency_hours c)),
     (''slope_hours'', PInt (ac_slope_hours c)),
     (''atr_period'', PInt (ac_atr_period c)),
     (''setup_mean_bars'', PInt (ac_setup_mean_bars c)),
     (''range_bars'', PInt (ac_range_bars c)),
     (''trend_efficiency'', PFloat (ac_trend_efficiency c)),
     (''range_efficiency'', PFloat (ac_range_efficiency c)),
     (''trend_slope_atr'', PFloat (ac_trend_slope_atr c)),
     (''range_slope_atr'', PFloat (ac_range_slope_atr c)),
     (''range_ma_gap_atr'', PFloat (ac_range_ma_gap_atr c)),
     (''shock_atr'', PFloat (ac_shock_atr c)),
     (''crash_bars'', PInt (ac_crash_bars c)),
     (''minimum_stop_atr'', PFloat (ac_minimum_stop_atr c)),
     (''maximum_stop_atr'', PFloat (ac_maximum_stop_atr c)),
     (''maximum_stop_bps'', PFloat (ac_maximum_stop_bps c)),
     (''target_r'', PFloat (ac_target_r c)),
     (''minimum_net_reward_risk'', PFloat (ac_minimum_net_reward_risk c)),
     (''maximum_cost_stop_fraction'', PFloat (ac_maximum_cost_stop_fraction c)),
     (''fee_bps_per_side'', PFloat (ac_fee_bps_per_side c)),
     (''spread_bps'', PFloat (ac_spread_bps c)),
     (''slippage_bps_per_side'', PFloat (ac_slippage_bps_per_side c)),
     (''uncertainty_buffer_bps'', PFloat (ac_uncertainty_buffer_bps c)),
     (''adverse_carry_bps'', PFloat (ac_adverse_carry_bps c)),
     (''latency_bps'', PFloat (ac_latency_bps c)),
     (''entry_lifetime_ms'', PInt (ac_entry_lifetime_ms c)),
     (''trend_holding_ms'', PInt (ac_trend_holding_ms c)),
     (''range_holding_ms'', PInt (ac_range_holding_ms c)),
     (''crash_holding_ms'', PInt (ac_crash_holding_ms c))]"

record adaptive_identity =
  ai_strategy_code_sha256 :: string
  ai_config_sha256 :: string
  ai_detector_code_sha256 :: string
  ai_detector_config_sha256 :: string

definition adaptive_source_identity :: "core_package \<Rightarrow> adaptive_config \<Rightarrow> adaptive_identity result" where
  "adaptive_source_identity K c =
     rbind (require_fixed_config c) (\<lambda>_.
     rbind (installed_source_tree_sha256 (k_read_source K) adaptive_source_files) (\<lambda>source.
     rmap (\<lambda>settings. \<lparr>ai_strategy_code_sha256 = source, ai_config_sha256 = settings,
             ai_detector_code_sha256 = source, ai_detector_config_sha256 = settings\<rparr>)
       (config_sha256 (adaptive_config_value c))))"

subsection \<open>Capabilities\<close>

record capability =
  cap_strategy_id :: string
  cap_strategy_revision :: string
  cap_strategy_code_sha256 :: string
  cap_config_sha256 :: string
  cap_regime :: capability_regime
  cap_sides :: "side list"

record capability_policy_v1 =
  cp_source_set_sha256 :: string
  cp_observation_source :: string
  cp_detector_code_sha256 :: string
  cp_detector_config_sha256 :: string
  cp_capabilities :: "capability list"

record regime_observation =
  ro_source :: string
  ro_source_set_sha256 :: string
  ro_detector_code_sha256 :: string
  ro_detector_config_sha256 :: string
  ro_intent :: strategy_intent
  ro_regime :: capability_regime
  ro_event_as_of_ms :: int
  ro_observed_at_ms :: int
  ro_expires_at_ms :: int

text \<open>
  What the core package contributes here. \<open>g_produced_at\<close> is the time of a bar's producer envelope in microseconds,
  None when it has no time zone; \<open>g_unix_ms\<close> is \<open>datetime_from_unix_ms\<close>; \<open>g_no_causation\<close> is the causation identifier
  of an evaluation that is constructed without one.
\<close>

record regime_package =
  g_make_capability :: "capability \<Rightarrow> capability result"
  g_make_policy :: "capability_policy_v1 \<Rightarrow> capability_policy_v1 result"
  g_policy_sha256 :: "capability_policy_v1 \<Rightarrow> string"
  g_make_observation :: "regime_observation \<Rightarrow> regime_observation result"
  g_validate_observation :: "capability_policy_v1 \<Rightarrow> regime_observation \<Rightarrow> unit result"
  g_regime_text :: "capability_regime \<Rightarrow> string"
  g_unix_ms :: "int \<Rightarrow> int result"
  g_produced_at :: "closed_bar \<Rightarrow> int option"
  g_no_causation :: string

definition lower_hex :: "char \<Rightarrow> bool" where
  "lower_hex ch \<longleftrightarrow> ch \<in> set ''0123456789abcdef''"

fun canonical_sha :: "py_value \<Rightarrow> string option" where
  "canonical_sha (PStr s) = (if length s = 64 \<and> list_all lower_hex s then Some s else None)"
| "canonical_sha _ = None"

definition capability_table :: "(capability_regime \<times> side list) list" where
  "capability_table = [(BULL, [LONG]), (BEAR, [SHORT]), (RANGE, [LONG, SHORT]), (CRASH, [SHORT])]"

definition capability_policy ::
  "regime_package \<Rightarrow> py_value \<Rightarrow> adaptive_identity \<Rightarrow> capability_policy_v1 result" where
  "capability_policy C source_set identity =
     (case canonical_sha source_set of
        None \<Rightarrow> Inl (ValueError ''an explicit canonical source-set SHA-256 is required'')
      | Some sha \<Rightarrow>
          rbind (traverse (\<lambda>(regime, sides). g_make_capability C
                   \<lparr>cap_strategy_id = adaptive_id, cap_strategy_revision = ''1'',
                    cap_strategy_code_sha256 = ai_strategy_code_sha256 identity,
                    cap_config_sha256 = ai_config_sha256 identity, cap_regime = regime, cap_sides = sides\<rparr>)
                 capability_table) (\<lambda>capabilities.
            g_make_policy C
              \<lparr>cp_source_set_sha256 = sha, cp_observation_source = ''adaptive-finite-detector-v1'',
               cp_detector_code_sha256 = ai_detector_code_sha256 identity,
               cp_detector_config_sha256 = ai_detector_config_sha256 identity, cp_capabilities = capabilities\<rparr>))"

definition build_adaptive_capability_policy ::
  "core_package \<Rightarrow> regime_package \<Rightarrow> py_value \<Rightarrow> capability_policy_v1 result" where
  "build_adaptive_capability_policy K C source_set =
     rbind (adaptive_source_identity K adaptive_default) (capability_policy C source_set)"

subsection \<open>One observation\<close>

record adaptive_evaluation =
  ae_decision :: adaptive_decision
  ae_evaluation :: evaluation
  ae_intent :: "strategy_intent option"
  ae_observation :: "regime_observation option"

text \<open>The clock reading: a non-negative integer that is no bool.\<close>

fun observation_clock :: "py_value \<Rightarrow> int result" where
  "observation_clock (PInt n) =
     (if n < 0 then Inl (ValueError ''actual observed_at_ms must be a non-negative integer'') else Inr n)"
| "observation_clock _ = Inl (ValueError ''actual observed_at_ms must be a non-negative integer'')"

definition late_envelope :: "regime_package \<Rightarrow> int \<Rightarrow> closed_bar \<Rightarrow> bool" where
  "late_envelope C observation_time bar =
     (case g_produced_at C bar of None \<Rightarrow> True | Some produced \<Rightarrow> observation_time < produced)"

text \<open>Everything that is checked before the decision; the window and its candles.\<close>

definition observed_window ::
  "regime_package \<Rightarrow> closed_bar list \<Rightarrow> int \<Rightarrow> (closed_bar list \<times> candle list) result" where
  "observed_window C bars observed_at =
     (if bars = [] then Inl (ValueError ''a non-empty strict closed-bar stream is required'')
      else let ordered = sort_key b_open_time_ms bars; latest = last ordered in
        rbind (traverse closed_bar_to_candle ordered) (\<lambda>raw.
        rbind (canonical_candles raw (Some ''1m'')) (\<lambda>candles.
          if b_bar_sha256 latest = None then Inl (ValueError ''anchor closed bar has no canonical SHA-256'')
          else if b_symbol latest \<notin> set adaptive_universe \<or> observed_at < b_close_time_ms latest
          then Inl (ValueError ''unsupported universe or an observation clock earlier than its closed input'')
          else rbind (g_unix_ms C observed_at) (\<lambda>observation_time.
            if list_ex (late_envelope C observation_time) ordered
            then Inl (ValueError ''future or naive producer envelope cannot precede the actual local observation'')
            else Inr (last_n 3240 ordered, last_n 3240 candles)))))"

text \<open>The decision with the name of the error that ended it; late observations are not evaluated.\<close>

definition observed_decision ::
  "regime_package \<Rightarrow> closed_bar \<Rightarrow> candle list \<Rightarrow> int \<Rightarrow> (adaptive_decision \<times> string option) result" where
  "observed_decision C latest candles observed_at =
     (if b_close_time_ms latest + ac_entry_lifetime_ms adaptive_default < observed_at
      then rmap (\<lambda>h. (undecided UNAVAILABLE ''LATE_OBSERVATION'' (Some (b_close_time_ms latest)) (Some h), None))
             (adaptive_window_sha256 candles)
      else case evaluate_adaptive (g_regime_text C) candles adaptive_default False of
          Inr d \<Rightarrow> Inr (d, None)
        | Inl e \<Rightarrow>
            if is_value_error e \<or> is_arithmetic_error e
            then rmap (\<lambda>h. (undecided ERROR ''FINITE_EVALUATION_ERROR'' (Some (b_close_time_ms latest)) (Some h),
                     Some (error_type_name e))) (adaptive_window_sha256 candles)
            else Inl e)"

definition observed_intent ::
  "core_package \<Rightarrow> regime_package \<Rightarrow> string \<Rightarrow> adaptive_identity \<Rightarrow> capability_policy_v1 \<Rightarrow> closed_bar list \<Rightarrow> int \<Rightarrow>
   adaptive_decision \<Rightarrow> (strategy_intent \<times> regime_observation) option result" where
  "observed_intent K C source_set identity policy bars observed_at d =
     (case de_intent d of
        None \<Rightarrow> Inr None
      | Some raw \<Rightarrow>
          rbind (strict_intent K raw ''1'' (ai_strategy_code_sha256 identity) (ai_config_sha256 identity) bars) (\<lambda>intent.
            if Some (p_input_window_sha256 (v_provenance intent)) \<noteq> de_input_window_sha256 d
            then Inl (ValueError ''adaptive input window differs across generator and strict adapter'')
            else rbind (g_make_observation C
                   \<lparr>ro_source = ''adaptive-finite-detector-v1'', ro_source_set_sha256 = source_set,
                    ro_detector_code_sha256 = ai_detector_code_sha256 identity,
                    ro_detector_config_sha256 = ai_detector_config_sha256 identity, ro_intent = intent,
                    ro_regime = de_regime d, ro_event_as_of_ms = b_close_time_ms (last bars),
                    ro_observed_at_ms = observed_at, ro_expires_at_ms = v_entry_expires_ts_ms intent\<rparr>) (\<lambda>observation.
                 rmap (\<lambda>_. Some (intent, observation)) (g_validate_observation C policy observation))))"

definition adaptive_receipt ::
  "regime_package \<Rightarrow> adaptive_identity \<Rightarrow> capability_policy_v1 \<Rightarrow> closed_bar list \<Rightarrow> string \<Rightarrow> int \<Rightarrow> adaptive_decision \<Rightarrow>
   string option \<Rightarrow> strategy_intent option \<Rightarrow> evaluation" where
  "adaptive_receipt C identity policy bars anchor observed_at d error intent =
    \<lparr>r_causation_id = g_no_causation C,
     r_scope = ''STRATEGY'',
     r_strategy_id = Some adaptive_id,
     r_strategy_revision = Some ''1'',
     r_registry_status = Some ''research'',
     r_trading_mode = DRY_RUN,
     r_enabled_strategy_ids = [adaptive_id],
     r_runtime_policy_sha256 = g_policy_sha256 C policy,
     r_strategy_code_sha256 = Some (ai_strategy_code_sha256 identity),
     r_config_sha256 = Some (ai_config_sha256 identity),
     r_symbol = b_symbol (last bars),
     r_bar_open_time_ms = b_open_time_ms (last bars),
     r_decision_ts_ms = b_close_time_ms (last bars),
     r_anchor_bar_sha256 = anchor,
     r_input_first_open_time_ms = b_open_time_ms (hd bars),
     r_input_bar_count = int (length bars),
     r_input_window_sha256 = de_input_window_sha256 d,
     r_observed_at_ms = observed_at,
     r_status = de_status d,
     r_evaluation_complete = (de_status d = INTENT \<or> de_status d = NO_INTENT),
     r_reason_code = de_reason d,
     r_error_type = error,
     r_intent_ids = (case intent of None \<Rightarrow> [] | Some v \<Rightarrow> (case v_intent_id v of None \<Rightarrow> [] | Some i \<Rightarrow> [i])),
     r_intent_sides = (case intent of None \<Rightarrow> [] | Some v \<Rightarrow> [v_side v])\<rparr>"

definition evaluate_adaptive_closed_bars ::
  "core_package \<Rightarrow> regime_package \<Rightarrow> closed_bar list \<Rightarrow> py_value \<Rightarrow> py_value \<Rightarrow> trading_mode \<Rightarrow> adaptive_evaluation result" where
  "evaluate_adaptive_closed_bars K C bars observed_at_ms source_set mode =
     (if mode \<noteq> DRY_RUN
      then Inl (PaperStrategyDisabledError ''adaptive observation supports DRY_RUN only; PAPER/LIVE are disabled'')
      else rbind (observation_clock observed_at_ms) (\<lambda>observed_at.
      rbind (observed_window C bars observed_at) (\<lambda>(window_bars, candles).
      rbind (adaptive_source_identity K adaptive_default) (\<lambda>identity.
      rbind (capability_policy C source_set identity) (\<lambda>policy.
      rbind (observed_decision C (last window_bars) candles observed_at) (\<lambda>(d, error).
      rbind (observed_intent K C (str_of source_set) identity policy window_bars observed_at d) (\<lambda>found.
        case b_bar_sha256 (last window_bars) of
          None \<Rightarrow> Inl (ValueError ''anchor closed bar has no canonical SHA-256'')
        | Some anchor \<Rightarrow>
            rmap (\<lambda>e. \<lparr>ae_decision = d, ae_evaluation = e, ae_intent = map_option fst found,
                    ae_observation = map_option snd found\<rparr>)
              (k_make_evaluation K
                (adaptive_receipt C identity policy window_bars anchor observed_at d error (map_option fst found))))))))))"

subsection \<open>The window of an observation\<close>

lemma bars_to_candles: "traverse closed_bar_to_candle bars = Inr raw \<Longrightarrow> raw = map candle_of_bar bars"
  by (induction bars arbitrary: raw) (auto simp: rbind_Inr_iff rmap_Inr_iff closed_bar_to_candle_def dest: make_candle_Inr)

lemma ordered_bars_canonical:
  assumes "canonical_candles (map candle_of_bar (sort_key b_open_time_ms bars)) (Some ''1m'') = Inr candles"
  shows "candles = map candle_of_bar (sort_key b_open_time_ms bars)"
proof -
  let ?raw = "map candle_of_bar (sort_key b_open_time_ms bars)"
  have strict: "sorted_wrt (\<lambda>a b. c_open_time_ms a < c_open_time_ms b) candles" by (rule canonical_candles_strict [OF assms])
  then have keys: "sorted_wrt (<) (map c_open_time_ms candles)" by (simp add: sorted_wrt_map)
  then have "inj_on c_open_time_ms (set candles)" "sorted (map c_open_time_ms candles)"
    by (auto simp: strict_sorted_iff distinct_map)
  moreover have same: "mset candles = mset ?raw" by (rule candles.canon_mset [OF assms])
  moreover have "sorted (map c_open_time_ms ?raw)"
  proof -
    have "map c_open_time_ms ?raw = map b_open_time_ms (sort_key b_open_time_ms bars)" by (simp add: candle_of_bar_def)
    then show ?thesis by (simp del: map_map)
  qed
  ultimately have "sort_key c_open_time_ms candles = ?raw" "sort_key c_open_time_ms candles = candles"
    by (simp_all add: sort_key_inj_key_eq)
  then show ?thesis by simp
qed

lemma map_last_n: "last_n n (map f xs) = map f (last_n n xs)"
  by (simp add: last_n_def drop_map)

lemma observed_window_Inr:
  assumes "observed_window C bars observed_at = Inr (window_bars, candles)"
  shows "window_bars = last_n 3240 (sort_key b_open_time_ms bars) \<and> window_bars \<noteq> [] \<and> candles = map candle_of_bar window_bars \<and>
    canonical_candles candles (Some ''1m'') = Inr candles \<and> b_close_time_ms (last window_bars) \<le> observed_at \<and>
    (\<exists>anchor. b_bar_sha256 (last window_bars) = Some anchor) \<and> b_symbol (last window_bars) \<in> set adaptive_universe \<and>
    (\<exists>time. g_unix_ms C observed_at = Inr time \<and> list_all (\<lambda>b. \<not> late_envelope C time b) bars)"
proof -
  let ?ordered = "sort_key b_open_time_ms bars"
  from assms obtain raw cs time where run: "bars \<noteq> []" "traverse closed_bar_to_candle ?ordered = Inr raw"
    "canonical_candles raw (Some ''1m'') = Inr cs" "b_bar_sha256 (last ?ordered) \<noteq> None"
    "b_symbol (last ?ordered) \<in> set adaptive_universe" "b_close_time_ms (last ?ordered) \<le> observed_at"
    "g_unix_ms C observed_at = Inr time" "\<not> list_ex (late_envelope C time) ?ordered"
    and out: "window_bars = last_n 3240 ?ordered" "candles = last_n 3240 cs"
    by (auto simp: observed_window_def rbind_Inr_iff Let_def split: if_splits)
  have "?ordered \<noteq> []" using run(1) by (metis set_empty set_sort)
  then have last: "window_bars \<noteq> []" "last window_bars = last ?ordered"
    unfolding out(1) by (simp_all add: last_last_n flip: length_greater_0_conv)
  have cs: "cs = map candle_of_bar ?ordered"
    using run(3) unfolding bars_to_candles [OF run(2)] by (rule ordered_bars_canonical)
  have "canonical_candles cs (Some ''1m'') = Inr cs" by (rule candles.canon_idempotent [OF run(3)])
  then have "canonical_candles candles (Some ''1m'') = Inr candles" unfolding out(2) last_n_def by (rule canonical_suffix)
  moreover have "candles = map candle_of_bar window_bars" unfolding out cs by (rule map_last_n)
  moreover have "list_all (\<lambda>b. \<not> late_envelope C time b) bars" using run(8) by (simp add: list_all_iff list_ex_iff)
  ultimately show ?thesis using run last out(1) by auto
qed

subsection \<open>A run of the adapter\<close>

lemma adapter_run:
  assumes "faithful_contracts K" "evaluate_adaptive_closed_bars K C bars observed_at_ms source_set mode = Inr e"
  obtains observed_at window_bars candles identity policy d error found anchor where
    "mode = DRY_RUN" "observed_at_ms = PInt observed_at" "0 \<le> observed_at"
    "observed_window C bars observed_at = Inr (window_bars, candles)"
    "adaptive_source_identity K adaptive_default = Inr identity" "capability_policy C source_set identity = Inr policy"
    "observed_decision C (last window_bars) candles observed_at = Inr (d, error)"
    "observed_intent K C (str_of source_set) identity policy window_bars observed_at d = Inr found"
    "ae_decision e = d" "ae_intent e = map_option fst found" "ae_observation e = map_option snd found"
    "ae_evaluation e = adaptive_receipt C identity policy window_bars anchor observed_at d error (map_option fst found)"
proof -
  have clock: "observation_clock v = Inr t \<Longrightarrow> v = PInt t \<and> 0 \<le> t" for v t by (cases v) (auto split: if_splits)
  have built: "k_make_evaluation K r = Inr r' \<Longrightarrow> r' = r" for r r' using assms(1) by (simp add: faithful_contracts_def)
  from assms(2) show ?thesis
    by (auto simp: evaluate_adaptive_closed_bars_def rbind_Inr_iff rmap_Inr_iff split: if_splits option.splits
        dest!: clock built intro!: that)
qed

lemma entry_lifetime: "ac_entry_lifetime_ms adaptive_default = 60000"
  by (simp add: adaptive_default_def)

lemma observed_decision_Inr:
  assumes "observed_decision C latest candles observed_at = Inr (d, error)"
  shows "(de_status d = INTENT \<longleftrightarrow> de_intent d \<noteq> None) \<and> (de_status d = ERROR \<longleftrightarrow> error \<noteq> None) \<and>
    (b_close_time_ms latest + 60000 < observed_at \<longrightarrow> de_status d = UNAVAILABLE) \<and>
    (de_intent d \<noteq> None \<longrightarrow> observed_at \<le> b_close_time_ms latest + 60000 \<and>
       evaluate_adaptive (g_regime_text C) candles adaptive_default False = Inr d)"
proof (cases "b_close_time_ms latest + 60000 < observed_at")
  case True
  then show ?thesis using assms by (auto simp: observed_decision_def entry_lifetime rmap_Inr_iff undecided_def)
next
  case False
  show ?thesis
  proof (cases "evaluate_adaptive (g_regime_text C) candles adaptive_default False")
    case (Inl err)
    with False assms show ?thesis
      by (auto simp: observed_decision_def entry_lifetime rmap_Inr_iff undecided_def split: if_splits)
  next
    case (Inr d')
    with False assms adaptive_status [OF Inr] show ?thesis by (auto simp: observed_decision_def entry_lifetime)
  qed
qed

lemma observed_intent_Inr:
  assumes K: "faithful_contracts K" and run: "observed_intent K C source_set identity policy bars t d = Inr (Some (v, ob))"
  shows "\<exists>raw. de_intent d = Some raw \<and>
    intent_lineage K bars ''1'' (ai_strategy_code_sha256 identity) (ai_config_sha256 identity) raw v \<and>
    Some (p_input_window_sha256 (v_provenance v)) = de_input_window_sha256 d \<and> g_validate_observation C policy ob = Inr ()"
  using run strict_intent_lineage [OF K]
  by (auto simp: observed_intent_def rbind_Inr_iff rmap_Inr_iff split: option.splits if_splits)

subsection \<open>A run with an observation\<close>

definition sample_regimes :: regime_package where
  "sample_regimes =
    \<lparr>g_make_capability = Inr, g_make_policy = Inr, g_policy_sha256 = (\<lambda>_. ''p''), g_make_observation = Inr,
     g_validate_observation = (\<lambda>_ _. Inr ()), g_regime_text = (\<lambda>_. ''BULL''), g_unix_ms = (\<lambda>t. Inr (1000 * t)),
     g_produced_at = (\<lambda>b. Some (1000 * b_produced_at_ms b)), g_no_causation = []\<rparr>"

definition sample_bar_core :: core_package where
  "sample_bar_core = sample_core\<lparr>k_identity_payload := \<lambda>b. adaptive_bar (candle_of_bar b)\<rparr>"

definition adaptive_bars :: "closed_bar list" where
  "adaptive_bars = map (\<lambda>c. bar_of_candle c ''h'') adaptive_minutes"

lemma sample_bar_core_faithful: "faithful_contracts sample_bar_core"
  by (simp add: faithful_contracts_def sample_bar_core_def sample_core_def)

lemma adaptive_bar_candle: "c \<in> set adaptive_minutes \<Longrightarrow> candle_of_bar (bar_of_candle c ''h'') = c \<and> make_candle c = Inr c"
proof -
  assume "c \<in> set adaptive_minutes"
  then obtain i where c: "c = step_minute 5 (\<lambda>j. of_int (bar_price j) / 2) 1 0 i" by (auto simp: span_minutes_def simp del: upt_rec_numeral)
  have "432 \<le> bar_price k" for k using hour_price_range by (simp add: bar_price_def)
  then have "2 < bar_price k" for k by (rule less_le_trans [rotated]) simp
  then have "1 < (of_int (bar_price k) :: rat) / 2" for k by simp
  then have "make_candle c = Inr c" unfolding c step_minute_def by (intro step_candle_valid) (simp_all add: strip_def is_space_def)
  moreover have "candle_of_bar (bar_of_candle c ''h'') = c" by (simp add: c candle_of_bar_def bar_of_candle_def step_minute_def step_candle_def)
  ultimately show ?thesis by simp
qed

lemma adaptive_bars_candles: "map candle_of_bar adaptive_bars = adaptive_minutes" "traverse closed_bar_to_candle adaptive_bars = Inr adaptive_minutes"
proof -
  show "map candle_of_bar adaptive_bars = adaptive_minutes" using adaptive_bar_candle by (simp add: adaptive_bars_def map_idI)
  have "traverse (\<lambda>c. closed_bar_to_candle (bar_of_candle c ''h'')) adaptive_minutes = Inr (map (\<lambda>c. c) adaptive_minutes)"
    by (rule traverse_total) (simp add: closed_bar_to_candle_def adaptive_bar_candle)
  then show "traverse closed_bar_to_candle adaptive_bars = Inr adaptive_minutes" by (simp add: adaptive_bars_def traverse_map)
qed

lemma adaptive_bars_window: "observed_window sample_regimes adaptive_bars 195000000 = Inr (adaptive_bars, adaptive_minutes)"
proof -
  have len: "length adaptive_bars = 3240" by (simp add: adaptive_bars_def span_minutes_def del: upt_rec_numeral)
  then have ne: "adaptive_bars \<noteq> []" by (simp flip: length_greater_0_conv)
  have opens: "map b_open_time_ms adaptive_bars = map (\<lambda>i. 60000 * int i) [10..<3250]"
    by (simp add: adaptive_bars_def bar_of_candle_def span_minutes_def step_minute_def del: upt_rec_numeral)
  have "sorted (map b_open_time_ms adaptive_bars)" unfolding opens by (simp add: sorted_iff_nth_mono del: upt_rec_numeral)
  then have sort: "sort_key b_open_time_ms adaptive_bars = adaptive_bars" by (rule sort_key_id_if_sorted)
  have canon: "canonical_candles adaptive_minutes (Some ''1m'') = Inr adaptive_minutes" by (rule span_canonical) simp
  have last: "last adaptive_bars = bar_of_candle latest_minute ''h''"
    by (simp add: adaptive_bars_def span_minutes_def last_map del: upt_rec_numeral)
  have all: "last_n 3240 adaptive_bars = adaptive_bars" "last_n 3240 adaptive_minutes = adaptive_minutes"
    by (rule last_n_all, simp add: adaptive_bars_def span_minutes_def del: upt_rec_numeral)+
  have "\<not> late_envelope sample_regimes 195000000000 b" if "b \<in> set adaptive_bars" for b
    using that by (auto simp: adaptive_bars_def span_minutes_def step_minute_def bar_of_candle_def late_envelope_def sample_regimes_def simp del: upt_rec_numeral)
  then have "\<not> list_ex (late_envelope sample_regimes 195000000000) adaptive_bars" by (simp add: list_ex_iff)
  moreover have "g_unix_ms sample_regimes 195000000 = Inr 195000000000" by (simp add: sample_regimes_def)
  moreover have "''BTCUSDT'' \<in> set adaptive_universe" by (simp add: adaptive_universe_def)
  ultimately show ?thesis using ne canon all adaptive_bars_candles(2)
    by (simp add: observed_window_def sort last bar_of_candle_def latest_fields Let_def)
qed

lemma adaptive_config_hash: "\<exists>h. config_sha256 (adaptive_config_value adaptive_default) = Inr h"
proof -
  have "case canonical_value (adaptive_config_value adaptive_default) of Inr _ \<Rightarrow> True | _ \<Rightarrow> False" by code_simp
  then obtain j where "canonical_value (adaptive_config_value adaptive_default) = Inr j" by (auto split: sum.splits)
  from canonical_sha256_Inr [OF this] show ?thesis by (simp add: config_sha256_def adaptive_config_value_def)
qed

lemma adaptive_source_hash: "\<exists>h. installed_source_tree_sha256 (\<lambda>_. Inr ''pass'') adaptive_source_files = Inr h"
proof -
  have "traverse (\<lambda>path. rbind (logical_source_path path) (\<lambda>l. rmap (Pair l) (Inr ''pass''))) adaptive_source_files =
      Inr (map (\<lambda>p. (p, ''pass'')) adaptive_source_files)"
    "foldl (\<lambda>d (k, v). dict_set k v d) [] (map (\<lambda>p. (p, ''pass'')) adaptive_source_files) = map (\<lambda>p. (p, ''pass'')) adaptive_source_files"
    "case source_stream (map (\<lambda>p. (p, ''pass'')) adaptive_source_files) of Inr _ \<Rightarrow> True | _ \<Rightarrow> False"
    by code_simp+
  then show ?thesis by (auto simp: installed_source_tree_sha256_def source_tree_sha256_def split: sum.splits)
qed

lemma sample_identity: "\<exists>identity. adaptive_source_identity sample_bar_core adaptive_default = Inr identity"
  using adaptive_config_hash adaptive_source_hash
  by (auto simp: adaptive_source_identity_def adaptive_fixed sample_bar_core_def sample_core_def)

lemma sample_policy: "\<exists>policy. capability_policy sample_regimes (PStr (replicate 64 CHR ''a'')) identity = Inr policy"
  by (simp add: capability_policy_def sample_regimes_def capability_table_def lower_hex_def list_all_iff)

lemma sample_bar_window: "window_sha256 sample_bar_core adaptive_bars = adaptive_window_sha256 adaptive_minutes"
proof -
  have "map (\<lambda>b. adaptive_bar (candle_of_bar b)) adaptive_bars = map adaptive_bar (map candle_of_bar adaptive_bars)" by simp
  then show ?thesis unfolding adaptive_bars_candles(1)
    by (simp add: window_sha256_def window_value_def adaptive_window_sha256_def sample_bar_core_def)
qed

lemma texts_hashed: "\<exists>h. features_sha256 (str_dict (map (\<lambda>(k, v). (k, PStr v)) kvs)) = Inr h"
proof -
  let ?members = "map (\<lambda>(k, v). (k, canonical_value (PStr v))) kvs"
  have "\<exists>ys. traverse (\<lambda>(k, r). rmap (Pair k) r) (sort_key fst ?members) = Inr ys"
    by (rule traverse_succeeds) auto
  moreover have "map (\<lambda>(k, v). (str_of k, canonical_value v)) (map (\<lambda>(k, v). (PStr k, v)) (map (\<lambda>(k, v). (k, PStr v)) kvs)) = ?members"
    by (induction kvs) auto
  moreover have "\<not> list_ex (\<lambda>(k, _). \<not> is_str k) (map (\<lambda>(k, v). (PStr k, v)) (map (\<lambda>(k, v). (k, PStr v)) kvs))"
    by (induction kvs) auto
  ultimately show ?thesis
    by (auto simp: features_sha256_def canonical_sha256_def canonical_json_bytes_def str_dict_def json_members_def simp del: map_map)
qed

lemma sample_adapter_intent:
  assumes "trailing_activation_price (i_exit_plan s) = None" "trailing_distance (i_exit_plan s) = None"
    "adaptive_window_sha256 adaptive_minutes = Inr h"
  shows "\<exists>v. strict_intent sample_bar_core s revision code conf adaptive_bars = Inr v \<and> p_input_window_sha256 (v_provenance v) = h"
proof -
  have hashes: "bar_hashes adaptive_bars = Inr (map (\<lambda>_. ''h'') adaptive_bars)"
    unfolding bar_hashes_def by (rule traverse_total) (auto simp: adaptive_bars_def bar_of_candle_def)
  obtain fh where fh: "features_sha256 (str_dict (map (\<lambda>(k, v). (k, PStr v)) (i_metadata s))) = Inr fh" using texts_hashed by blast
  have window: "window_sha256 sample_bar_core adaptive_bars = Inr h" unfolding sample_bar_window by (rule assms(3))
  have plan: "runtime_exit_plan sample_bar_core s = Inr \<lparr>e_stop_price = stop_price (i_exit_plan s),
      e_target_price = target_price (i_exit_plan s), e_max_holding_ms = max_holding_ms (i_exit_plan s)\<rparr>"
    using assms(1,2) by (simp add: runtime_exit_plan_def Let_def sample_bar_core_def sample_core_def)
  have K: "k_make_provenance sample_bar_core = Inr" "k_contract_sha256 sample_bar_core = (\<lambda>_. Inr ''h'')" "k_make_intent sample_bar_core = Inr"
    by (simp_all add: sample_bar_core_def sample_core_def)
  show ?thesis unfolding strict_intent_def plan window fh hashes by (simp add: K intent_of_raw_def)
qed

abbreviation sample_source_set :: py_value where
  "sample_source_set \<equiv> PStr (replicate 64 CHR ''a'')"

lemma sample_observation:
  "\<exists>e v. evaluate_adaptive_closed_bars sample_bar_core sample_regimes adaptive_bars (PInt 195000000) sample_source_set DRY_RUN = Inr e \<and>
     ae_intent e = Some v"
proof -
  obtain identity where identity: "adaptive_source_identity sample_bar_core adaptive_default = Inr identity" using sample_identity by blast
  obtain policy where policy: "capability_policy sample_regimes sample_source_set identity = Inr policy" using sample_policy by blast
  obtain d s where d: "evaluate_adaptive (g_regime_text sample_regimes) adaptive_minutes adaptive_default False = Inr d" "de_intent d = Some s"
    using sample_adaptive_decision by blast
  have "canonical_candles adaptive_minutes (Some ''1m'') = Inr adaptive_minutes" by (rule span_canonical) simp
  moreover have "last_n 3240 adaptive_minutes = adaptive_minutes" by (rule last_n_all) (simp add: span_minutes_def del: upt_rec_numeral)
  ultimately obtain h where h: "adaptive_window_sha256 adaptive_minutes = Inr h" "de_input_window_sha256 d = Some h"
    "trailing_activation_price (i_exit_plan s) = None" "trailing_distance (i_exit_plan s) = None"
    using adaptive_intent_window [OF d] by auto
  obtain v where v: "strict_intent sample_bar_core s ''1'' (ai_strategy_code_sha256 identity) (ai_config_sha256 identity) adaptive_bars = Inr v"
    "p_input_window_sha256 (v_provenance v) = h" using sample_adapter_intent [OF h(3,4,1)] by blast
  have last: "last adaptive_bars = bar_of_candle latest_minute ''h''"
    by (simp add: adaptive_bars_def span_minutes_def last_map del: upt_rec_numeral)
  have found: "\<exists>ob. observed_intent sample_bar_core sample_regimes (replicate 64 CHR ''a'') identity policy adaptive_bars 195000000 d = Inr (Some (v, ob))"
    using v h(2) d(2) by (simp add: observed_intent_def sample_regimes_def rmap_def)
  have decision: "observed_decision sample_regimes (last adaptive_bars) adaptive_minutes 195000000 = Inr (d, None)"
    using d(1) by (simp add: observed_decision_def entry_lifetime last bar_of_candle_def latest_fields)
  have "k_make_evaluation sample_bar_core = Inr" "b_bar_sha256 (last adaptive_bars) = Some ''h''"
    by (simp_all add: sample_bar_core_def sample_core_def last bar_of_candle_def)
  then show ?thesis using found adaptive_bars_window identity policy decision
    by (auto simp: evaluate_adaptive_closed_bars_def rmap_def simp del: replicate.simps)
qed

subsection \<open>Properties\<close>

text \<open>
  Property C17: the receipt of an adaptive observation tells the truth about it: it is only made in DRY_RUN for a
  clock reading not before the close of the bar, it is complete exactly when the status is INTENT or NO_INTENT, an
  error type is named exactly when the status is ERROR, an intent and its identifiers accompany exactly the status
  INTENT, and an observation more than a minute after the close is UNAVAILABLE.
\<close>

theorem adaptive_receipt_honest:
  assumes "faithful_contracts K" "evaluate_adaptive_closed_bars K C bars observed_at_ms source_set mode = Inr e"
  shows "mode = DRY_RUN \<and> observed_at_ms = PInt (r_observed_at_ms (ae_evaluation e)) \<and>
    r_decision_ts_ms (ae_evaluation e) \<le> r_observed_at_ms (ae_evaluation e) \<and>
    (r_evaluation_complete (ae_evaluation e) \<longleftrightarrow> r_status (ae_evaluation e) = INTENT \<or> r_status (ae_evaluation e) = NO_INTENT) \<and>
    (r_error_type (ae_evaluation e) \<noteq> None \<longleftrightarrow> r_status (ae_evaluation e) = ERROR) \<and>
    (ae_intent e \<noteq> None \<longleftrightarrow> r_status (ae_evaluation e) = INTENT) \<and>
    (ae_observation e \<noteq> None \<longleftrightarrow> ae_intent e \<noteq> None) \<and>
    r_intent_sides (ae_evaluation e) = (case ae_intent e of None \<Rightarrow> [] | Some v \<Rightarrow> [v_side v]) \<and>
    (r_decision_ts_ms (ae_evaluation e) + 60000 < r_observed_at_ms (ae_evaluation e) \<longrightarrow> r_status (ae_evaluation e) = UNAVAILABLE)"
proof -
  from assms obtain t window_bars candles identity policy d err found anchor where run: "mode = DRY_RUN" "observed_at_ms = PInt t"
    "observed_window C bars t = Inr (window_bars, candles)" "observed_decision C (last window_bars) candles t = Inr (d, err)"
    "observed_intent K C (str_of source_set) identity policy window_bars t d = Inr found"
    "ae_intent e = map_option fst found" "ae_observation e = map_option snd found"
    "ae_evaluation e = adaptive_receipt C identity policy window_bars anchor t d err (map_option fst found)" by (rule adapter_run) metis
  have "found \<noteq> None \<longleftrightarrow> de_intent d \<noteq> None"
    using run(5) by (auto simp: observed_intent_def rbind_Inr_iff rmap_Inr_iff split: option.splits if_splits)
  with run observed_window_Inr [OF run(3)] observed_decision_Inr [OF run(4)] show ?thesis
    by (auto simp: adaptive_receipt_def)
qed

theorem adaptive_receipt_honest_witness:
  "\<exists>e. evaluate_adaptive_closed_bars sample_bar_core sample_regimes adaptive_bars (PInt 195000000) sample_source_set DRY_RUN = Inr e \<and>
     r_status (ae_evaluation e) = INTENT \<and> r_evaluation_complete (ae_evaluation e) \<and> r_error_type (ae_evaluation e) = None"
proof -
  obtain e v where e: "evaluate_adaptive_closed_bars sample_bar_core sample_regimes adaptive_bars (PInt 195000000) sample_source_set DRY_RUN = Inr e"
    "ae_intent e = Some v" using sample_observation by blast
  from adaptive_receipt_honest [OF sample_bar_core_faithful e(1)] e show ?thesis by (intro exI [of _ e]) auto
qed

text \<open>
  Property C16: an intent leaves the adapter only while it can still be entered and with its lineage intact: it is
  observed between its decision and its expiry, on a side that the policy lists for the regime, from exactly the last
  54 hours of the stream, whose hash the generator and the strict contract computed independently and agree on, after
  no producer envelope of the stream lies in the future, and with an observation the capability policy accepted.
\<close>

theorem adaptive_observation_admissible:
  assumes K: "faithful_contracts K" and run: "evaluate_adaptive_closed_bars K C bars (PInt t) source_set mode = Inr e"
    and v: "ae_intent e = Some v"
  shows "v_strategy_id v = adaptive_id \<and> v_decision_ts_ms v \<le> t \<and> t \<le> v_entry_expires_ts_ms v \<and>
    v_side v \<in> set (capability_sides (de_regime (ae_decision e))) \<and>
    window_sha256 K (last_n 3240 (sort_key b_open_time_ms bars)) = Inr (p_input_window_sha256 (v_provenance v)) \<and>
    de_input_window_sha256 (ae_decision e) = Some (p_input_window_sha256 (v_provenance v)) \<and>
    (\<exists>time. g_unix_ms C t = Inr time \<and> list_all (\<lambda>b. \<not> late_envelope C time b) bars) \<and>
    (\<exists>identity policy observation. capability_policy C source_set identity = Inr policy \<and> ae_observation e = Some observation \<and>
       g_validate_observation C policy observation = Inr ())"
proof -
  from K run obtain window_bars candles identity policy d err found where parts:
    "observed_window C bars t = Inr (window_bars, candles)" "capability_policy C source_set identity = Inr policy"
    "observed_decision C (last window_bars) candles t = Inr (d, err)"
    "observed_intent K C (str_of source_set) identity policy window_bars t d = Inr found" "ae_decision e = d"
    "ae_intent e = map_option fst found" "ae_observation e = map_option snd found" by (rule adapter_run) auto
  from v parts(6) obtain ob where ob: "found = Some (v, ob)" by auto
  note window = observed_window_Inr [OF parts(1)]
  obtain raw where raw: "de_intent d = Some raw" "intent_lineage K window_bars ''1'' (ai_strategy_code_sha256 identity) (ai_config_sha256 identity) raw v"
    "Some (p_input_window_sha256 (v_provenance v)) = de_input_window_sha256 d" "g_validate_observation C policy ob = Inr ()"
    using observed_intent_Inr [OF K parts(4) [unfolded ob]] by blast
  from observed_decision_Inr [OF parts(3)] raw(1) have timely: "t \<le> b_close_time_ms (last window_bars) + 60000"
    and eval: "evaluate_adaptive (g_regime_text C) candles adaptive_default False = Inr d" by auto
  have w: "candles = map candle_of_bar window_bars" "window_bars \<noteq> []" using window by blast+
  have "c_close_time_ms (last candles) = b_close_time_ms (last window_bars)" unfolding w(1) last_map [OF w(2)] by (simp add: candle_of_bar_def)
  then have "i_decision_ts_ms raw = b_close_time_ms (last window_bars) \<and> i_entry_expires_ts_ms raw = b_close_time_ms (last window_bars) + 60000 \<and>
      i_side raw \<in> set (capability_sides (de_regime d)) \<and> i_sleeve_id raw = adaptive_id"
    using adaptive_intent_origin [OF eval raw(1)] window by auto
  with raw(2-4) timely window parts(2,5,7) ob show ?thesis by (auto simp: intent_lineage_def)
qed

theorem adaptive_observation_admissible_witness:
  "\<exists>e v. evaluate_adaptive_closed_bars sample_bar_core sample_regimes adaptive_bars (PInt 195000000) sample_source_set DRY_RUN = Inr e \<and>
     ae_intent e = Some v \<and> v_strategy_id v = adaptive_id \<and> v_decision_ts_ms v \<le> 195000000 \<and> 195000000 \<le> v_entry_expires_ts_ms v"
proof -
  obtain e v where e: "evaluate_adaptive_closed_bars sample_bar_core sample_regimes adaptive_bars (PInt 195000000) sample_source_set DRY_RUN = Inr e"
    "ae_intent e = Some v" using sample_observation by blast
  from adaptive_observation_admissible [OF sample_bar_core_faithful e] e show ?thesis by blast
qed

end
