(* ===== verification/Spec2Isabelle.thy ===== *)
theory Spec2Isabelle
  imports Prelude PyFloat Sha256 PyText Candles Timeframes Models Factors Allocation Provenance Configs
    Registry Contracts Runtime Readiness Evaluation FlatHistory Campaign Service Delivery Acknowledgement FourHour RegimeAligned
    Donchian Crowded QuarterHour LegacyCausal AdaptiveCrash AdaptiveAdapter
begin

text \<open>
  This development models the strategy engine of src/kairos\_strategy: a service that consumes closed one-minute
  bars of several symbols, runs the enabled strategies on the retained window of the symbol, and publishes for every
  bar one receipt per strategy together with the trade candidates the strategies produced. The engine is a research
  component: nothing it emits is an order, and no registered strategy is approved for paper trading.

  \<^bold>\<open>Parts and how they interact.\<close> A bar of the bus (service.py) enters the window of its symbol after a sequence
  check; the accepted window goes to the observation of one bar (runtime\_evaluation.py), which resolves every enabled
  strategy in the closed registry (registry.py, runtime\_requirements.py), decides from the configuration of the
  strategy whether it is warmed up and scheduled (campaign.py), and runs the generator of the strategy through the
  strict runtime adapter (runtime.py). The adapter converts bars to candles (candles.py, validation.py), the
  generators aggregate minutes to frames (timeframes.py) and return intents (models.py); the adapter turns an intent
  into a contract value whose provenance fingerprints the source files, the configuration, the input window and the
  features (provenance.py). Receipts and candidates are published, the envelope is acknowledged, and after a failure
  the same bytes are published again.

  \<^bold>\<open>Theories.\<close> Every theory names the module it models in its first lines.

  \<^item> Prelude: the error values of the source (\<open>py_error\<close>), the result monad (\<open>rbind\<close>, \<open>rmap\<close>, \<open>traverse\<close>,
    \<open>validate\<close>: the checks of a constructor in their order), stable sorting, \<open>last_n\<close> (a bounded deque), and the
    locale \<open>canonical_order\<close>: a scan that sorts by a key and refuses equal keys.
  \<^item> PyFloat: IEEE double arithmetic of the interpreter on exact rationals with rounding, signed zero, infinities and
    NaN, so that the comparisons and the derived figures are those of the program.
  \<^item> PyText, Sha256: the string operations the code uses, the text of integers and floats, and SHA-256 computed on
    32-bit words.
  \<^item> Candles, Timeframes (candles.py, validation.py, timeframes.py): construction and canonical order of candles,
    aggregation of minutes into complete frames.
  \<^item> Models, Factors, Allocation (models.py, factors.py, allocation.py): intents, exit plans, trade records,
    derivative observations and target allocations, with every check and the identity each of them derives.
  \<^item> Provenance (provenance.py): canonical JSON and the fingerprints of values, windows, configurations, sources.
  \<^item> Configs (sleeves/*.py): the configuration class of every strategy with its validation.
  \<^item> Registry (registry.py, runtime\_requirements.py, config.py): the three tables of strategies, lookup, batch
    generation, the history each strategy needs, and the settings.
  \<^item> Contracts: the values of the core package as records; what that package does is the argument \<open>K\<close>.
  \<^item> Runtime (runtime.py): closed bars, their causal order, strict intents.
  \<^item> Readiness (campaign.py, runtime\_evaluation.py): complete-frame requirements, the decision clock.
  \<^item> Evaluation (runtime\_evaluation.py): the receipts of one bar and their recheck on replay.
  \<^item> Service (service.py): the state of the service and each operation as a function from the state to the new state
    and the value or exception, because an exception leaves the state as far as it got. The contract \<open>good_step\<close> of an
    operation is proved for each of them.
  \<^item> FlatHistory, Campaign (campaign.py): the campaign evaluator with its construction, its history contract, the
    outcome of one anchor and its agreement with the observation of the service; a flat market for witnesses.
  \<^item> Segments, Features (sleeves/*.py): the splitting of frames into gap-free segments and the statistics the sleeves
    share. StepMarket, SpanMarket: markets whose frames are known in closed form, for witnesses on days of minutes.
  \<^item> FourHour, RightTail, RegimeAligned (sleeves/four\_hour\_sma200.py, right\_tail\_trend.py,
    regime\_aligned\_right\_tail.py), Crowded (crowded\_trend\_continuation.py), QuarterHour (quarter\_hour\_flow.py) and
    Donchian (donchian\_ensemble.py): six complete generators. The trailing stops of the ensemble are a state machine per horizon, with its reachable states.
    Decisions: what it means that the decision clock and the frame requirements of the runtime hide no intent.
  \<^item> Indicators (indicators.py), Legacy, LegacyCausal (legacy\_strategy.py): averages, the votes of the frames and the state
    machine that turns them into signals, with its reachable states.
  \<^item> Adaptive, AdaptiveEngine, AdaptiveDecisions, AdaptiveCrash (adaptive/logic.py, config.py): indicators, regime,
    setups, planning figures, the decision of one slot and its replay. AdaptiveMarket: a market in which it trades.
  \<^item> AdaptiveAdapter (adaptive/adapter.py, provenance.py): one observation with its policy, intent and receipt.
  \<^item> Delivery: runs of the service. The locale \<open>symbol_steps\<close> states what a step on one symbol may do; handling an
    envelope and restoring a row are its two interpretations, and reachable states, their invariant, the isolation
    of symbols and the refinement of the window follow from it.
  \<^item> Acknowledgement: which steps can raise a sequence error, what has been published when an envelope is
    acknowledged, and what a redelivery, a replay and a restored batch publish.

  \<^bold>\<open>How state and errors correspond.\<close> A dictionary of the source is a total function to options (or to lists, for a
  defaultdict of deques). An exception is a constructor of \<open>py_error\<close> with its message; a function that may raise
  returns \<open>py_error + 'a\<close>, so every raise and every early return is a branch. Integers of the source are unbounded and
  are \<open>int\<close>; floats are \<open>pyfloat\<close>; only SHA-256 uses machine words. Nothing needs fuel: every loop of the source runs
  over a list.

  \<^bold>\<open>Arguments of the model.\<close> Code outside the repository is an argument: the contract classes (\<open>core_package\<close>; the
  hypothesis \<open>faithful_contracts\<close> says that a constructor which succeeds returns the values it was given), the bus, the
  clock and the audit log (\<open>environment\<close>), the regime and capability classes (\<open>regime_package\<close>) and the texts of the
  regimes. The logarithm of the C library, whose rounding IEEE 754 does not fix, is an argument of the right-tail
  generators. The generators of the strategies are the argument \<open>sleeve_generators\<close> of the registry. Each hypothesis is
  satisfied by a concrete instance in the witnesses.

  \<^bold>\<open>Not modelled.\<close> The indicator arithmetic inside the remaining sleeves (several of them use numpy, whose kernels are
  not in the repository); the unbounded consumer loop \<open>run\<close>,
  process start-up and logging.
\<close>

end
